(* ===== verification/Prelude.thy ===== *)
theory Prelude
  imports Main "HOL-Library.Char_ord" "HOL-Library.List_Lexorder"
begin

text \<open>
  Shared vocabulary of the development: identifiers, instants, JSON objects,
  results with errors as values, the few string operations the kernel uses, and
  the generic lemmas on lists and results the component theories rest on.

  Conventions.  A UUID is a natural number (only equality is used).  An instant
  or a duration is an integer number of microseconds, the resolution of Python's
  \<^verbatim>\<open>datetime\<close> and of PostgreSQL's \<^verbatim>\<open>timestamptz\<close>.  A Python string is a list of
  characters; the modelled operations on it are the ASCII ones.  A computation
  that can raise has type \<open>'e + 'a\<close>, with \<open>Inl\<close> for the exception.
\<close>

named_theorems result_simps \<open>equations that run a computation in the result type\<close>
named_theorems step_facts \<open>one-step preservation facts, by component\<close>

subsection \<open>Identifiers, instants, JSON\<close>

type_synonym uuid = nat
type_synonym datetime = int

definition microseconds :: "int \<Rightarrow> int" where
  "microseconds s = s * 1000000"

datatype json =
    JNull
  | JBool bool
  | JInt int
  | JStr string
  | JList "json list"
  | JObj "(string \<times> json) list"

type_synonym json_object = "(string \<times> json) list"

text \<open>Python's \<^verbatim>\<open>dict(x or {})\<close> on an optional mapping.\<close>

definition dict_or_empty :: "json_object option \<Rightarrow> json_object" where
  "dict_or_empty x = (case x of None \<Rightarrow> [] | Some d \<Rightarrow> d)"

lemma dict_or_empty_simps [simp]:
  "dict_or_empty None = []" "dict_or_empty (Some d) = d"
  by (simp_all add: dict_or_empty_def)

subsection \<open>Results\<close>

definition bindr :: "'e + 'a \<Rightarrow> ('a \<Rightarrow> 'e + 'b) \<Rightarrow> 'e + 'b" where
  "bindr r f = (case r of Inl e \<Rightarrow> Inl e | Inr x \<Rightarrow> f x)"

lemma bindr_simps [simp, result_simps]:
  "bindr (Inl e) f = Inl e" "bindr (Inr x) f = f x"
  by (simp_all add: bindr_def)

lemma bindr_eq_Inr: "bindr r f = Inr y \<longleftrightarrow> (\<exists>x. r = Inr x \<and> f x = Inr y)"
  by (cases r) auto

lemma bindr_eq_Inl: "bindr r f = Inl e \<longleftrightarrow> r = Inl e \<or> (\<exists>x. r = Inr x \<and> f x = Inl e)"
  by (cases r) auto

text \<open>A check that raises: \<^verbatim>\<open>if not b: raise e\<close>.\<close>

definition ensure :: "bool \<Rightarrow> 'e \<Rightarrow> 'e + unit" where
  "ensure b e = (if b then Inr () else Inl e)"

lemma ensure_simps [simp, result_simps]:
  "ensure True e = Inr ()" "ensure False e = Inl e"
  by (simp_all add: ensure_def)

lemma ensure_eq_Inr [simp]: "ensure b e = Inr u \<longleftrightarrow> b"
  by (simp add: ensure_def)

lemma ensure_eq_Inl [simp]: "ensure b e = Inl e' \<longleftrightarrow> \<not> b \<and> e' = e"
  by (auto simp: ensure_def)

text \<open>Map a function that can raise over a list; the first exception wins.\<close>

fun map_result :: "('a \<Rightarrow> 'e + 'b) \<Rightarrow> 'a list \<Rightarrow> 'e + 'b list" where
  "map_result f [] = Inr []"
| "map_result f (x # xs) =
     bindr (f x) (\<lambda>y. bindr (map_result f xs) (\<lambda>ys. Inr (y # ys)))"

lemma map_result_Inr_iff:
  "map_result f xs = Inr ys \<longleftrightarrow> list_all2 (\<lambda>x y. f x = Inr y) xs ys"
  by (induction xs arbitrary: ys) (auto simp: bindr_eq_Inr list_all2_Cons1)

lemma map_result_total:
  "(\<And>x. x \<in> set xs \<Longrightarrow> f x = Inr (g x)) \<Longrightarrow> map_result f xs = Inr (map g xs)"
  by (induction xs) simp_all

subsection \<open>Sequences of requests\<close>

text \<open>
  A client that issues requests one after the other against a component: the
  trace of requests and their outcomes, and the final state.
\<close>

fun run_seq :: "('r \<Rightarrow> 's \<Rightarrow> 'o \<times> 's) \<Rightarrow> 'r list \<Rightarrow> 's \<Rightarrow> ('r \<times> 'o) list \<times> 's" where
  "run_seq f [] s = ([], s)"
| "run_seq f (r # rs) s =
     (let (o1, s1) = f r s; (tr, s2) = run_seq f rs s1 in ((r, o1) # tr, s2))"

lemma run_seq_requests: "map fst (fst (run_seq f rs s)) = rs"
  by (induction rs arbitrary: s) (auto simp: split_beta Let_def)

lemma run_seq_append:
  "run_seq f (xs @ ys) s =
     (let (t1, s1) = run_seq f xs s; (t2, s2) = run_seq f ys s1 in (t1 @ t2, s2))"
  by (induction xs arbitrary: s) (auto simp: split_beta Let_def)

lemma run_seq_invariant:
  assumes "P s" and "\<And>r s. r \<in> set rs \<Longrightarrow> P s \<Longrightarrow> P (snd (f r s))"
  shows "P (snd (run_seq f rs s))"
  using assms
proof (induction rs arbitrary: s)
  case Nil
  then show ?case by simp
next
  case (Cons r rs)
  have "P (snd (f r s))" using Cons.prems by simp
  with Cons show ?case by (simp add: split_beta Let_def)
qed

subsection \<open>ASCII strings\<close>

definition py_isspace :: "char \<Rightarrow> bool" where
  "py_isspace c \<longleftrightarrow>
     (let n = (of_char c :: nat) in (9 \<le> n \<and> n \<le> 13) \<or> (28 \<le> n \<and> n \<le> 32))"

text \<open>\<^verbatim>\<open>not s or not s.strip()\<close>: the string is empty or only white space.\<close>

definition blank :: "string \<Rightarrow> bool" where
  "blank s \<longleftrightarrow> list_all py_isspace s"

text \<open>\<^verbatim>\<open>s.strip()\<close>.\<close>

definition strip :: "string \<Rightarrow> string" where
  "strip s = rev (dropWhile py_isspace (rev (dropWhile py_isspace s)))"

definition is_lower :: "char \<Rightarrow> bool" where
  "is_lower c \<longleftrightarrow> (let n = (of_char c :: nat) in 97 \<le> n \<and> n \<le> 122)"

definition is_upper :: "char \<Rightarrow> bool" where
  "is_upper c \<longleftrightarrow> (let n = (of_char c :: nat) in 65 \<le> n \<and> n \<le> 90)"

definition is_digit :: "char \<Rightarrow> bool" where
  "is_digit c \<longleftrightarrow> (let n = (of_char c :: nat) in 48 \<le> n \<and> n \<le> 57)"

definition to_upper :: "char \<Rightarrow> char" where
  "to_upper c = (if is_lower c then char_of ((of_char c :: nat) - 32) else c)"

lemma to_upper_not_lower: "\<not> is_lower (to_upper c)"
  by (auto simp: to_upper_def is_lower_def Let_def)

lemma to_upper_idem [simp]: "to_upper (to_upper c) = to_upper c"
  using to_upper_not_lower [of c] by (simp add: to_upper_def)

lemma map_to_upper_idem [simp]: "map to_upper (map to_upper s) = map to_upper s"
  by simp

text \<open>
  \<^verbatim>\<open>re.match(r"^p$", s)\<close>: Python's \<open>$\<close> matches at the end of the string and also
  just before a newline that ends the string.  \<open>word_like\<close> is the pattern
  \<^verbatim>\<open>[a-z][a-z0-9_]{lo,hi}\<close> with the class of its first character a parameter.
\<close>

definition dollar_match :: "(string \<Rightarrow> bool) \<Rightarrow> string \<Rightarrow> bool" where
  "dollar_match p s \<longleftrightarrow> p s \<or> (s \<noteq> [] \<and> last s = CHR 0x0A \<and> p (butlast s))"

definition word_char :: "char \<Rightarrow> bool" where
  "word_char c \<longleftrightarrow> is_lower c \<or> is_digit c \<or> c = CHR ''_''"

definition alnum_char :: "char \<Rightarrow> bool" where
  "alnum_char c \<longleftrightarrow> is_lower c \<or> is_digit c"

definition word_like :: "(char \<Rightarrow> bool) \<Rightarrow> (char \<Rightarrow> bool) \<Rightarrow> nat \<Rightarrow> nat \<Rightarrow> string \<Rightarrow> bool" where
  "word_like first rest lo hi s = (case s of [] \<Rightarrow> False
     | c # cs \<Rightarrow> first c \<and> lo \<le> length cs \<and> length cs \<le> hi \<and> list_all rest cs)"

lemma word_like_length: "word_like f r lo hi s \<Longrightarrow> lo < length s \<and> length s \<le> Suc hi"
  by (auto simp: word_like_def split: list.splits)

lemma dollar_match_length:
  assumes "dollar_match p s" and "\<And>t. p t \<Longrightarrow> length t \<le> n"
  shows "length s \<le> Suc n"
  using assms by (auto simp: dollar_match_def dest: assms(2))

subsection \<open>Decimal text\<close>

definition digit_char :: "nat \<Rightarrow> char" where
  "digit_char d = char_of (48 + d)"

definition char_digit :: "char \<Rightarrow> nat" where
  "char_digit c = of_char c - 48"

lemma char_digit_char [simp]: "d < 10 \<Longrightarrow> char_digit (digit_char d) = d"
  by (simp add: char_digit_def digit_char_def)

lemma is_digit_digit_char [simp]: "d < 10 \<Longrightarrow> is_digit (digit_char d)"
  by (simp add: is_digit_def digit_char_def)

lemma digit_char_inj: "d < 10 \<Longrightarrow> e < 10 \<Longrightarrow> digit_char d = digit_char e \<longleftrightarrow> d = e"
  by (metis char_digit_char)

text \<open>\<^verbatim>\<open>str(n)\<close> of a natural number, and reading it back.\<close>

fun nat_str :: "nat \<Rightarrow> string" where
  "nat_str n = (if n < 10 then [digit_char n] else nat_str (n div 10) @ [digit_char (n mod 10)])"

declare nat_str.simps [simp del]

definition str_nat :: "string \<Rightarrow> nat" where
  "str_nat s = foldl (\<lambda>a c. 10 * a + char_digit c) 0 s"

lemma str_nat_nat_str [simp]: "str_nat (nat_str n) = n"
proof (induction n rule: nat_str.induct)
  case (1 n)
  then show ?case
    by (cases "n < 10") (simp_all add: nat_str.simps [of n] str_nat_def)
qed

lemma nat_str_inj [simp]: "nat_str m = nat_str n \<longleftrightarrow> m = n"
  by (metis str_nat_nat_str)

lemma nat_str_digits: "list_all is_digit (nat_str n)"
  by (induction n rule: nat_str.induct) (simp add: nat_str.simps [of n for n])

lemma nat_str_nonempty [simp]: "nat_str n \<noteq> []"
  by (simp add: nat_str.simps [of n])

lemma nat_str_hd_zero: "hd (nat_str n) = CHR ''0'' \<longleftrightarrow> n = 0"
proof (induction n rule: nat_str.induct)
  case (1 n)
  have zero: "digit_char 0 = CHR ''0''" by code_simp
  show ?case
  proof (cases "n < 10")
    case True
    then show ?thesis by (simp add: nat_str.simps [of n] flip: zero) (simp add: digit_char_inj)
  next
    case False
    then show ?thesis using 1 by (simp add: nat_str.simps [of n])
  qed
qed

text \<open>\<^verbatim>\<open>str(n)\<close> of an integer.\<close>

definition int_str :: "int \<Rightarrow> string" where
  "int_str i = (if i < 0 then CHR ''-'' # nat_str (nat (- i)) else nat_str (nat i))"

lemma int_str_inj [simp]: "int_str i = int_str j \<longleftrightarrow> i = j"
proof -
  have minus: "CHR ''-'' # s \<noteq> nat_str n" for s n
  proof
    assume "CHR ''-'' # s = nat_str n"
    then have "list_all is_digit (CHR ''-'' # s)" by (simp add: nat_str_digits)
    then show False by (simp add: is_digit_def)
  qed
  show ?thesis
    using minus minus [symmetric] by (auto simp: int_str_def eq_nat_nat_iff)
qed

text \<open>\<^verbatim>\<open>f"{n:0wd}"\<close> of a natural number below \<open>10 ^ w\<close>.\<close>

fun pad_str :: "nat \<Rightarrow> nat \<Rightarrow> string" where
  "pad_str 0 n = []"
| "pad_str (Suc w) n = pad_str w (n div 10) @ [digit_char (n mod 10)]"

lemma pad_str_length [simp]: "length (pad_str w n) = w"
  by (induction w arbitrary: n) simp_all

lemma pad_str_digits: "list_all is_digit (pad_str w n)"
  by (induction w arbitrary: n) simp_all

lemma pad_str_inj: "m < 10 ^ w \<Longrightarrow> n < 10 ^ w \<Longrightarrow> pad_str w m = pad_str w n \<longleftrightarrow> m = n"
proof (induction w arbitrary: m n)
  case 0
  then show ?case by simp
next
  case (Suc w)
  then have "m div 10 < 10 ^ w" "n div 10 < 10 ^ w" by (simp_all add: div_less_iff_less_mult mult.commute)
  with Suc.IH show ?case
    by (simp add: digit_char_inj) (metis div_mult_mod_eq)
qed

subsection \<open>Splitting\<close>

text \<open>\<^verbatim>\<open>s.split(c)\<close> for a one-character separator.\<close>

fun split_on :: "char \<Rightarrow> string \<Rightarrow> string list" where
  "split_on c [] = [[]]"
| "split_on c (x # xs) = (if x = c then [] # split_on c xs
     else (case split_on c xs of [] \<Rightarrow> [[x]] | seg # segs \<Rightarrow> (x # seg) # segs))"

lemma append_sep_eq:
  assumes "sep \<notin> set xs" and "sep \<notin> set ys"
  shows "xs @ sep # us = ys @ sep # vs \<longleftrightarrow> xs = ys \<and> us = vs"
  using assms
proof (induction xs arbitrary: ys)
  case Nil
  then show ?case by (cases ys) auto
next
  case (Cons x xs)
  then show ?case by (cases ys) auto
qed

subsection \<open>Tables as lists of rows\<close>

text \<open>
  A table is the list of its rows.  \<open>find_row\<close> is \<^verbatim>\<open>scalar_one_or_none\<close> on a
  query that selects by a unique key; \<open>update_rows\<close> is an \<^verbatim>\<open>UPDATE ... WHERE\<close>.
\<close>

definition find_row :: "('r \<Rightarrow> 'k) \<Rightarrow> 'k \<Rightarrow> 'r list \<Rightarrow> 'r option" where
  "find_row key k rows = find (\<lambda>r. key r = k) rows"

lemma find_row_None: "find_row key k rows = None \<longleftrightarrow> k \<notin> key ` set rows"
  by (auto simp: find_row_def find_None_iff)

lemma find_row_Some: "find_row key k rows = Some r \<Longrightarrow> r \<in> set rows \<and> key r = k"
  by (auto simp: find_row_def find_Some_iff)

lemma find_row_append:
  "find_row key k (xs @ ys) =
     (case find_row key k xs of None \<Rightarrow> find_row key k ys | Some r \<Rightarrow> Some r)"
  by (induction xs) (auto simp: find_row_def)

lemma find_row_snoc_new:
  "find_row key k xs = None \<Longrightarrow> key r = k \<Longrightarrow> find_row key k (xs @ [r]) = Some r"
  by (simp add: find_row_append) (simp add: find_row_def)

lemma find_row_appended:
  assumes "k \<notin> key ` set (xs @ ys)" and "key r = k"
  shows "find_row key k (xs @ ys @ [r]) = Some r"
  using find_row_snoc_new [of key k "xs @ ys" r] assms by (simp add: find_row_None)

lemma find_row_unique:
  assumes "distinct (map key rows)" and "r \<in> set rows"
  shows "find_row key (key r) rows = Some r"
  using assms
proof (induction rows)
  case Nil
  then show ?case by simp
next
  case (Cons x xs)
  show ?case
  proof (cases "key x = key r")
    case True
    with Cons.prems have "x = r" by (metis distinct.simps(2) list.set_map imageI list.simps(9) set_ConsD)
    then show ?thesis by (simp add: find_row_def)
  next
    case False
    with Cons show ?thesis by (auto simp: find_row_def)
  qed
qed

definition update_rows :: "('r \<Rightarrow> bool) \<Rightarrow> ('r \<Rightarrow> 'r) \<Rightarrow> 'r list \<Rightarrow> 'r list" where
  "update_rows p f rows = map (\<lambda>r. if p r then f r else r) rows"

lemma update_rows_length [simp]: "length (update_rows p f rows) = length rows"
  by (simp add: update_rows_def)

lemma update_rows_Nil [simp]: "update_rows p f [] = []"
  by (simp add: update_rows_def)

lemma update_rows_Cons [simp]:
  "update_rows p f (r # rows) = (if p r then f r else r) # update_rows p f rows"
  by (simp add: update_rows_def)

lemma update_rows_keys:
  "(\<And>r. key (f r) = key r) \<Longrightarrow> map key (update_rows p f rows) = map key rows"
  by (simp add: update_rows_def comp_def)

lemma update_rows_none: "(\<And>r. r \<in> set rows \<Longrightarrow> \<not> p r) \<Longrightarrow> update_rows p f rows = rows"
  by (induction rows) auto

lemma update_rows_set: "set (update_rows p f rows) = (\<lambda>r. if p r then f r else r) ` set rows"
  by (simp add: update_rows_def)

lemma find_row_update_rows:
  assumes "\<And>r. key (f r) = key r"
  shows "find_row key k (update_rows p f rows) =
           map_option (\<lambda>r. if p r then f r else r) (find_row key k rows)"
  by (induction rows) (auto simp: find_row_def assms)

end
