(* ===== verification/At_Most_Once.thy ===== *)
theory At_Most_Once
  imports Prelude
begin

text \<open>
  The contract of an at-most-once engine and what a client may conclude from it.
  A provider promises facts about a single call; the lemmas below are about whole
  sequences of calls.  Both ledgers of the kernel and both inbox adapters are
  interpretations.
\<close>

text \<open>The calls of a trace that ran their effect for the key \<open>k\<close>.\<close>

definition fresh_for :: "('r \<Rightarrow> 'k) \<Rightarrow> ('o \<Rightarrow> bool) \<Rightarrow> 'k \<Rightarrow> ('r \<times> 'o) list \<Rightarrow> ('r \<times> 'o) list" where
  "fresh_for key fresh k tr = filter (\<lambda>(r, o1). key r = k \<and> fresh o1) tr"

locale once_engine =
  fixes exec :: "'r \<Rightarrow> 's \<Rightarrow> 'o \<times> 's"
    and key :: "'r \<Rightarrow> 'k"
    and recorded :: "'k \<Rightarrow> 's \<Rightarrow> bool"
    and fresh :: "'o \<Rightarrow> bool"
    and ok :: "'r \<Rightarrow> bool"
  assumes fresh_new: "\<lbrakk>ok r; exec r s = (o1, s'); fresh o1\<rbrakk> \<Longrightarrow> \<not> recorded (key r) s"
    and fresh_records: "\<lbrakk>ok r; exec r s = (o1, s'); fresh o1\<rbrakk> \<Longrightarrow> recorded (key r) s'"
    and recorded_stays: "\<lbrakk>ok r; exec r s = (o1, s'); recorded k s\<rbrakk> \<Longrightarrow> recorded k s'"
begin

lemma none_fresh_once_recorded:
  assumes "recorded k s" and "\<And>r. r \<in> set rs \<Longrightarrow> ok r"
  shows "fresh_for key fresh k (fst (run_seq exec rs s)) = []"
  using assms
proof (induction rs arbitrary: s)
  case Nil
  then show ?case by (simp add: fresh_for_def)
next
  case (Cons r rs)
  obtain o1 s1 where step: "exec r s = (o1, s1)" by (cases "exec r s")
  have ok: "ok r" using Cons.prems by simp
  have "recorded k s1" using recorded_stays [OF ok step] Cons.prems by simp
  moreover have "key r = k \<Longrightarrow> \<not> fresh o1" using fresh_new [OF ok step] Cons.prems by auto
  ultimately show ?case using Cons step by (auto simp: fresh_for_def split_beta Let_def)
qed

lemma at_most_once:
  assumes "\<And>r. r \<in> set rs \<Longrightarrow> ok r"
  shows "length (fresh_for key fresh k (fst (run_seq exec rs s))) \<le> 1"
  using assms
proof (induction rs arbitrary: s)
  case Nil
  then show ?case by (simp add: fresh_for_def)
next
  case (Cons r rs)
  obtain o1 s1 where step: "exec r s = (o1, s1)" by (cases "exec r s")
  have ok: "ok r" using Cons.prems by simp
  show ?case
  proof (cases "key r = k \<and> fresh o1")
    case True
    then have "recorded k s1" using fresh_records [OF ok step] by simp
    then have "fresh_for key fresh k (fst (run_seq exec rs s1)) = []"
      by (rule none_fresh_once_recorded) (use Cons.prems in simp)
    with True step show ?thesis by (simp add: fresh_for_def split_beta Let_def)
  next
    case False
    with Cons step show ?thesis by (auto simp: fresh_for_def split_beta Let_def)
  qed
qed

end

text \<open>
  With a store of results: a successful answer is always the stored one, so all
  successful answers for one key agree.
\<close>

locale replay_engine = once_engine exec key recorded fresh ok
  for exec :: "'r \<Rightarrow> 's \<Rightarrow> 'o \<times> 's" and key :: "'r \<Rightarrow> 'k"
    and recorded :: "'k \<Rightarrow> 's \<Rightarrow> bool" and fresh :: "'o \<Rightarrow> bool" and ok :: "'r \<Rightarrow> bool" +
  fixes answer :: "'o \<Rightarrow> 'v option"
    and stored :: "'k \<Rightarrow> 's \<Rightarrow> 'v option"
  assumes answer_stored: "\<lbrakk>ok r; exec r s = (o1, s'); answer o1 = Some v\<rbrakk> \<Longrightarrow> stored (key r) s' = Some v"
    and stored_stays: "\<lbrakk>ok r; exec r s = (o1, s'); stored k s = Some v\<rbrakk> \<Longrightarrow> stored k s' = Some v"
begin

lemma answers_match_store:
  assumes "stored k s = Some v" and "\<And>r. r \<in> set rs \<Longrightarrow> ok r"
    and "(r, o1) \<in> set (fst (run_seq exec rs s))" and "key r = k" and "answer o1 = Some w"
  shows "w = v"
  using assms
proof (induction rs arbitrary: s)
  case Nil
  then show ?case by simp
next
  case (Cons r' rs)
  obtain o' s1 where step: "exec r' s = (o', s1)" by (cases "exec r' s")
  have ok: "ok r'" using Cons.prems by simp
  have st: "stored k s1 = Some v" using stored_stays [OF ok step] Cons.prems by simp
  show ?case
  proof (cases "(r, o1) = (r', o')")
    case True
    with answer_stored [OF ok step] Cons.prems st show ?thesis by auto
  next
    case False
    with Cons st step show ?thesis by (auto simp: split_beta Let_def)
  qed
qed

lemma answers_agree:
  assumes "\<And>r. r \<in> set rs \<Longrightarrow> ok r"
    and "(r1, o1) \<in> set (fst (run_seq exec rs s))" "(r2, o2) \<in> set (fst (run_seq exec rs s))"
    and "key r1 = k" "key r2 = k" and "answer o1 = Some v" "answer o2 = Some w"
  shows "v = w"
  using assms
proof (induction rs arbitrary: s)
  case Nil
  then show ?case by simp
next
  case (Cons r rs)
  obtain o' s1 where step: "exec r s = (o', s1)" by (cases "exec r s")
  have ok: "ok r" and oks: "\<And>x. x \<in> set rs \<Longrightarrow> ok x" using Cons.prems by auto
  have mem: "(ri, oi) \<in> set (fst (run_seq exec (r # rs) s)) \<longleftrightarrow>
      (ri, oi) = (r, o') \<or> (ri, oi) \<in> set (fst (run_seq exec rs s1))" for ri oi
    using step by (auto simp: split_beta Let_def)
  have first: "x = y" if "key r = k" "answer o' = Some x" "key ri = k" "answer oi = Some y"
    "(ri, oi) \<in> set (fst (run_seq exec rs s1))" for ri oi x y
    using answers_match_store [of k s1 x rs ri oi y] answer_stored [OF ok step] oks that by auto
  consider "(r1, o1) = (r, o')" "(r2, o2) = (r, o')"
    | "(r1, o1) = (r, o')" "(r2, o2) \<in> set (fst (run_seq exec rs s1))"
    | "(r2, o2) = (r, o')" "(r1, o1) \<in> set (fst (run_seq exec rs s1))"
    | "(r1, o1) \<in> set (fst (run_seq exec rs s1))" "(r2, o2) \<in> set (fst (run_seq exec rs s1))"
    using Cons.prems(2,3) unfolding mem by blast
  then show ?case
  proof cases
    case 1
    with Cons.prems show ?thesis by simp
  next
    case 2
    with Cons.prems first [of v r2 o2 w] show ?thesis by simp
  next
    case 3
    with Cons.prems first [of w r1 o1 v] show ?thesis by simp
  next
    case 4
    with Cons.IH [OF oks, of s1] Cons.prems show ?thesis by simp
  qed
qed

end

end
