(* ===== verification/Idempotency.thy ===== *)
theory Idempotency
  imports At_Most_Once
begin

text \<open>
  At-most-once execution with result replay: the ledgers of
  \<^verbatim>\<open>dotmac_kernel/idempotency_models.py\<close> and the operations of
  \<^verbatim>\<open>dotmac_kernel/idempotency.py\<close>.

  A session sees a database: the tenant ledger, the platform ledger and the rest
  of the data, on which an operation acts.  An operation may touch the whole
  database; it returns a result and the new database, or it raises.  The
  SAVEPOINT around it is explicit: every raising branch returns the database as
  it was when the SAVEPOINT was taken.

  Concurrency: \<open>conc\<close> is the list of ledger rows that other transactions commit
  between the lookup and the flush of this call.  They become visible to the
  unique constraint and to the second lookup, and they stay when this call rolls
  back.
\<close>

subsection \<open>Ledger rows\<close>

datatype idempotency_status = EXECUTED | FAILED

record idempotency_record =
  ir_tenant_id :: uuid
  ir_scope :: string
  ir_key :: string
  ir_fingerprint :: "string option"
  ir_operation :: string
  ir_status :: idempotency_status
  ir_result :: json_object
  ir_correlation_id :: "string option"
  ir_expires_at :: "datetime option"

record platform_idempotency_record =
  pr_scope :: string
  pr_key :: string
  pr_fingerprint :: "string option"
  pr_operation :: string
  pr_status :: idempotency_status
  pr_result :: json_object
  pr_correlation_id :: "string option"
  pr_expires_at :: "datetime option"

definition INBOX_SCOPE :: string where
  "INBOX_SCOPE = ''inbox''"

text \<open>The unique constraints of the two tables.\<close>

definition ir_unique :: "idempotency_record \<Rightarrow> uuid \<times> string \<times> string" where
  "ir_unique r = (ir_tenant_id r, ir_scope r, ir_key r)"

definition pr_unique :: "platform_idempotency_record \<Rightarrow> string \<times> string" where
  "pr_unique r = (pr_scope r, pr_key r)"

text \<open>The column widths of the two tables (\<^verbatim>\<open>String(n)\<close>).\<close>

definition fits :: "nat \<Rightarrow> string option \<Rightarrow> bool" where
  "fits n s = (case s of None \<Rightarrow> True | Some x \<Rightarrow> length x \<le> n)"

definition columns_fit ::
  "string \<Rightarrow> string \<Rightarrow> string option \<Rightarrow> string \<Rightarrow> string option \<Rightarrow> bool" where
  "columns_fit scope key fp op corr \<longleftrightarrow>
     length scope \<le> 120 \<and> length key \<le> 200 \<and> fits 64 fp \<and> length op \<le> 120 \<and> fits 200 corr"

subsection \<open>Database, operations, outcomes\<close>

record 'a db =
  ledger :: "idempotency_record list"
  platform_ledger :: "platform_idempotency_record list"
  app_data :: 'a

datatype 'a op_result =
    Returned "json_object option" "'a db"
  | RaisedIntegrityError
  | RaisedOther string

type_synonym 'a operation = "'a db \<Rightarrow> 'a op_result"

record idempotent_outcome =
  out_scope :: string
  out_key :: string
  out_result :: json_object
  out_replayed :: bool

datatype idempotency_error =
    BadRequest string
  | IdempotencyConflict string
  | IntegrityError
  | DataError
  | OperationError string

definition MAX_KEY_LENGTH :: nat where "MAX_KEY_LENGTH = 200"
definition MAX_SCOPE_LENGTH :: nat where "MAX_SCOPE_LENGTH = 120"

definition validate :: "string \<Rightarrow> string \<Rightarrow> idempotency_error + unit" where
  "validate scope key =
     (if blank scope then Inl (BadRequest ''Idempotency scope is required'')
      else if blank key then Inl (BadRequest ''Idempotency key is required'')
      else if length scope > MAX_SCOPE_LENGTH then Inl (BadRequest ''Idempotency scope must be at most 120 characters'')
      else if length key > MAX_KEY_LENGTH then Inl (BadRequest ''Idempotency key must be at most 200 characters'')
      else Inr ())"

text \<open>
  \<^verbatim>\<open>_replay_or_conflict\<close> reads the recorded fingerprint and result of a row of
  either ledger.
\<close>

definition replay_or_conflict ::
  "string option \<Rightarrow> json_object \<Rightarrow> string \<Rightarrow> string \<Rightarrow> string option
   \<Rightarrow> idempotency_error + idempotent_outcome" where
  "replay_or_conflict rec_fp rec_result scope key fp =
     (if fp \<noteq> None \<and> rec_fp \<noteq> None \<and> fp \<noteq> rec_fp then Inl (IdempotencyConflict scope)
      else Inr \<lparr>out_scope = scope, out_key = key, out_result = rec_result, out_replayed = True\<rparr>)"

definition lookup :: "'a db \<Rightarrow> uuid \<Rightarrow> string \<Rightarrow> string \<Rightarrow> idempotency_record option" where
  "lookup d tenant scope key = find_row ir_unique (tenant, scope, key) (ledger d)"

definition lookup_platform :: "'a db \<Rightarrow> string \<Rightarrow> string \<Rightarrow> platform_idempotency_record option" where
  "lookup_platform d scope key = find_row pr_unique (scope, key) (platform_ledger d)"

text \<open>\<^verbatim>\<open>operation_name or scope\<close>: \<open>None\<close> and the empty string fall back to the scope.\<close>

definition name_or_scope :: "string option \<Rightarrow> string \<Rightarrow> string" where
  "name_or_scope name scope = (case name of None \<Rightarrow> scope | Some n \<Rightarrow> if n = [] then scope else n)"

subsection \<open>execute_once\<close>

record 'a request =
  rq_tenant :: uuid
  rq_scope :: string
  rq_key :: string
  rq_operation :: "'a operation"
  rq_operation_name :: "string option"
  rq_fingerprint :: "string option"
  rq_correlation_id :: "string option"
  rq_expires_at :: "datetime option"
  rq_conc :: "idempotency_record list"

definition commit_concurrent :: "idempotency_record list \<Rightarrow> 'a db \<Rightarrow> 'a db" where
  "commit_concurrent conc d = d\<lparr>ledger := ledger d @ conc\<rparr>"

definition new_record :: "'a request \<Rightarrow> json_object \<Rightarrow> idempotency_record" where
  "new_record rq result =
     \<lparr>ir_tenant_id = rq_tenant rq, ir_scope = rq_scope rq, ir_key = rq_key rq,
      ir_fingerprint = rq_fingerprint rq,
      ir_operation = name_or_scope (rq_operation_name rq) (rq_scope rq),
      ir_status = EXECUTED, ir_result = result,
      ir_correlation_id = rq_correlation_id rq, ir_expires_at = rq_expires_at rq\<rparr>"

text \<open>The body of the SAVEPOINT: run the operation, add the ledger row, flush.\<close>

definition savepoint_body :: "'a request \<Rightarrow> 'a db \<Rightarrow> idempotency_error + json_object \<times> 'a db" where
  "savepoint_body rq d = (case rq_operation rq d of
     RaisedIntegrityError \<Rightarrow> Inl IntegrityError
   | RaisedOther e \<Rightarrow> Inl (OperationError e)
   | Returned res d1 \<Rightarrow>
       (let result = dict_or_empty res; row = new_record rq result; d2 = commit_concurrent (rq_conc rq) d1 in
        if \<not> columns_fit (rq_scope rq) (rq_key rq) (rq_fingerprint rq) (ir_operation row) (rq_correlation_id rq)
        then Inl DataError
        else if ir_unique row \<in> ir_unique ` set (ledger d2) then Inl IntegrityError
        else Inr (result, d2\<lparr>ledger := ledger d2 @ [row]\<rparr>)))"

definition execute_once ::
  "'a request \<Rightarrow> 'a db \<Rightarrow> (idempotency_error + idempotent_outcome) \<times> 'a db" where
  "execute_once rq d = (case validate (rq_scope rq) (rq_key rq) of
     Inl e \<Rightarrow> (Inl e, d)
   | Inr _ \<Rightarrow>
     (case lookup d (rq_tenant rq) (rq_scope rq) (rq_key rq) of
        Some r \<Rightarrow> (replay_or_conflict (ir_fingerprint r) (ir_result r)
                     (rq_scope rq) (rq_key rq) (rq_fingerprint rq), d)
      | None \<Rightarrow>
        (case savepoint_body rq d of
           Inr (result, d') \<Rightarrow>
             (Inr \<lparr>out_scope = rq_scope rq, out_key = rq_key rq,
                   out_result = result, out_replayed = False\<rparr>, d')
         | Inl e \<Rightarrow>
             (let d' = commit_concurrent (rq_conc rq) d in
              if e \<noteq> IntegrityError then (Inl e, d')
              else (case lookup d' (rq_tenant rq) (rq_scope rq) (rq_key rq) of
                      None \<Rightarrow> (Inl IntegrityError, d')
                    | Some w \<Rightarrow> (replay_or_conflict (ir_fingerprint w) (ir_result w)
                                   (rq_scope rq) (rq_key rq) (rq_fingerprint rq), d'))))))"

subsection \<open>execute_once_platform\<close>

record 'a platform_request =
  pq_scope :: string
  pq_key :: string
  pq_operation :: "'a operation"
  pq_operation_name :: "string option"
  pq_fingerprint :: "string option"
  pq_correlation_id :: "string option"
  pq_expires_at :: "datetime option"
  pq_conc :: "platform_idempotency_record list"

definition commit_concurrent_platform ::
  "platform_idempotency_record list \<Rightarrow> 'a db \<Rightarrow> 'a db" where
  "commit_concurrent_platform conc d = d\<lparr>platform_ledger := platform_ledger d @ conc\<rparr>"

definition new_platform_record :: "'a platform_request \<Rightarrow> json_object \<Rightarrow> platform_idempotency_record" where
  "new_platform_record rq result =
     \<lparr>pr_scope = pq_scope rq, pr_key = pq_key rq, pr_fingerprint = pq_fingerprint rq,
      pr_operation = name_or_scope (pq_operation_name rq) (pq_scope rq),
      pr_status = EXECUTED, pr_result = result,
      pr_correlation_id = pq_correlation_id rq, pr_expires_at = pq_expires_at rq\<rparr>"

definition platform_savepoint_body ::
  "'a platform_request \<Rightarrow> 'a db \<Rightarrow> idempotency_error + json_object \<times> 'a db" where
  "platform_savepoint_body rq d = (case pq_operation rq d of
     RaisedIntegrityError \<Rightarrow> Inl IntegrityError
   | RaisedOther e \<Rightarrow> Inl (OperationError e)
   | Returned res d1 \<Rightarrow>
       (let result = dict_or_empty res; row = new_platform_record rq result;
            d2 = commit_concurrent_platform (pq_conc rq) d1 in
        if \<not> columns_fit (pq_scope rq) (pq_key rq) (pq_fingerprint rq) (pr_operation row) (pq_correlation_id rq)
        then Inl DataError
        else if pr_unique row \<in> pr_unique ` set (platform_ledger d2) then Inl IntegrityError
        else Inr (result, d2\<lparr>platform_ledger := platform_ledger d2 @ [row]\<rparr>)))"

definition execute_once_platform ::
  "'a platform_request \<Rightarrow> 'a db \<Rightarrow> (idempotency_error + idempotent_outcome) \<times> 'a db" where
  "execute_once_platform rq d = (case validate (pq_scope rq) (pq_key rq) of
     Inl e \<Rightarrow> (Inl e, d)
   | Inr _ \<Rightarrow>
     (case lookup_platform d (pq_scope rq) (pq_key rq) of
        Some r \<Rightarrow> (replay_or_conflict (pr_fingerprint r) (pr_result r)
                     (pq_scope rq) (pq_key rq) (pq_fingerprint rq), d)
      | None \<Rightarrow>
        (case platform_savepoint_body rq d of
           Inr (result, d') \<Rightarrow>
             (Inr \<lparr>out_scope = pq_scope rq, out_key = pq_key rq,
                   out_result = result, out_replayed = False\<rparr>, d')
         | Inl e \<Rightarrow>
             (let d' = commit_concurrent_platform (pq_conc rq) d in
              if e \<noteq> IntegrityError then (Inl e, d')
              else (case lookup_platform d' (pq_scope rq) (pq_key rq) of
                      None \<Rightarrow> (Inl IntegrityError, d')
                    | Some w \<Rightarrow> (replay_or_conflict (pr_fingerprint w) (pr_result w)
                                   (pq_scope rq) (pq_key rq) (pq_fingerprint rq), d'))))))"

subsection \<open>purge_expired\<close>

definition expired :: "datetime \<Rightarrow> datetime option \<Rightarrow> bool" where
  "expired cutoff e = (case e of None \<Rightarrow> False | Some t \<Rightarrow> t < cutoff)"

definition scope_selected :: "string option \<Rightarrow> string \<Rightarrow> bool" where
  "scope_selected sel scope = (case sel of None \<Rightarrow> True | Some s \<Rightarrow> scope = s)"

text \<open>
  \<open>db_now\<close> is the database clock (\<^verbatim>\<open>func.now()\<close>), used when the caller gives no
  instant.  \<open>visible\<close> is the row-level-security filter of the session's role: it
  selects the current tenant's rows for the application role and every row for
  \<^verbatim>\<open>app_admin\<close>.
\<close>

definition purge_expired ::
  "datetime \<Rightarrow> (uuid \<Rightarrow> bool) \<Rightarrow> datetime option \<Rightarrow> string option \<Rightarrow> bool \<Rightarrow> 'a db \<Rightarrow> nat \<times> 'a db" where
  "purge_expired db_now visible now scope platform d =
     (let cutoff = (case now of None \<Rightarrow> db_now | Some t \<Rightarrow> t) in
      if platform then
        (let doomed = (\<lambda>r. expired cutoff (pr_expires_at r) \<and> scope_selected scope (pr_scope r)) in
         (length (filter doomed (platform_ledger d)),
          d\<lparr>platform_ledger := filter (\<lambda>r. \<not> doomed r) (platform_ledger d)\<rparr>))
      else
        (let doomed = (\<lambda>r. visible (ir_tenant_id r) \<and> expired cutoff (ir_expires_at r)
                            \<and> scope_selected scope (ir_scope r)) in
         (length (filter doomed (ledger d)),
          d\<lparr>ledger := filter (\<lambda>r. \<not> doomed r) (ledger d)\<rparr>)))"


subsection \<open>The database invariant\<close>

definition ledger_wf :: "'a db \<Rightarrow> bool" where
  "ledger_wf d \<longleftrightarrow> distinct (map ir_unique (ledger d)) \<and> distinct (map pr_unique (platform_ledger d))"

text \<open>
  What the kernel asks of an operation: \<open>add\<close>/\<open>flush\<close> only, so it never removes a
  row of a ledger (it may add rows, by nesting another call).
\<close>

definition op_keeps_ledgers :: "'a operation \<Rightarrow> bool" where
  "op_keeps_ledgers op \<longleftrightarrow> (\<forall>d res d'. op d = Returned res d' \<longrightarrow>
     (\<exists>new pnew. ledger d' = ledger d @ new \<and> platform_ledger d' = platform_ledger d @ pnew))"

definition has_key :: "uuid \<times> string \<times> string \<Rightarrow> 'a db \<Rightarrow> bool" where
  "has_key k d \<longleftrightarrow> k \<in> ir_unique ` set (ledger d)"

definition has_platform_key :: "string \<times> string \<Rightarrow> 'a db \<Rightarrow> bool" where
  "has_platform_key k d \<longleftrightarrow> k \<in> pr_unique ` set (platform_ledger d)"

definition rq_unique :: "'a request \<Rightarrow> uuid \<times> string \<times> string" where
  "rq_unique rq = (rq_tenant rq, rq_scope rq, rq_key rq)"

definition pq_unique :: "'a platform_request \<Rightarrow> string \<times> string" where
  "pq_unique rq = (pq_scope rq, pq_key rq)"

definition is_fresh :: "idempotency_error + idempotent_outcome \<Rightarrow> bool" where
  "is_fresh o1 = (case o1 of Inl _ \<Rightarrow> False | Inr x \<Rightarrow> \<not> out_replayed x)"

lemma is_fresh_simps [simp]:
  "is_fresh (Inl e) = False" "is_fresh (Inr x) = (\<not> out_replayed x)"
  by (simp_all add: is_fresh_def)

lemma replay_not_fresh [simp]: "\<not> is_fresh (replay_or_conflict f res scope key fp)"
  by (simp add: replay_or_conflict_def)

lemma lookup_None_iff: "lookup d t s k = None \<longleftrightarrow> \<not> has_key (t, s, k) d"
  by (simp add: lookup_def has_key_def find_row_None)

lemma lookup_platform_None_iff: "lookup_platform d s k = None \<longleftrightarrow> \<not> has_platform_key (s, k) d"
  by (simp add: lookup_platform_def has_platform_key_def find_row_None)

lemma new_record_unique [simp]: "ir_unique (new_record rq res) = rq_unique rq"
  by (simp add: ir_unique_def new_record_def rq_unique_def)

lemma new_platform_record_unique [simp]: "pr_unique (new_platform_record rq res) = pq_unique rq"
  by (simp add: pr_unique_def new_platform_record_def pq_unique_def)

lemma commit_concurrent_simps [simp]:
  "ledger (commit_concurrent c d) = ledger d @ c"
  "platform_ledger (commit_concurrent c d) = platform_ledger d"
  "app_data (commit_concurrent c d) = app_data d"
  "platform_ledger (commit_concurrent_platform pc d) = platform_ledger d @ pc"
  "ledger (commit_concurrent_platform pc d) = ledger d"
  "app_data (commit_concurrent_platform pc d) = app_data d"
  by (simp_all add: commit_concurrent_def commit_concurrent_platform_def)

text \<open>The whole behaviour of the SAVEPOINT body when it succeeds.\<close>

lemma savepoint_body_Inr:
  assumes "savepoint_body rq d = Inr (result, d')"
  obtains res d1 where "rq_operation rq d = Returned res d1" "result = dict_or_empty res"
    "rq_unique rq \<notin> ir_unique ` set (ledger d1 @ rq_conc rq)"
    "d' = d1\<lparr>ledger := ledger d1 @ rq_conc rq @ [new_record rq result]\<rparr>"
proof (cases "rq_operation rq d")
  case (Returned res d1)
  with assms that [of res d1] show ?thesis
    by (auto simp: savepoint_body_def Let_def commit_concurrent_def split: if_splits)
qed (use assms in \<open>simp_all add: savepoint_body_def\<close>)

lemma platform_savepoint_body_Inr:
  assumes "platform_savepoint_body rq d = Inr (result, d')"
  obtains res d1 where "pq_operation rq d = Returned res d1" "result = dict_or_empty res"
    "pq_unique rq \<notin> pr_unique ` set (platform_ledger d1 @ pq_conc rq)"
    "d' = d1\<lparr>platform_ledger := platform_ledger d1 @ pq_conc rq @ [new_platform_record rq result]\<rparr>"
proof (cases "pq_operation rq d")
  case (Returned res d1)
  with assms that [of res d1] show ?thesis
    by (auto simp: platform_savepoint_body_def Let_def commit_concurrent_platform_def split: if_splits)
qed (use assms in \<open>simp_all add: platform_savepoint_body_def\<close>)

lemma execute_once_cases [consumes 1, case_names invalid known fresh failed lost]:
  assumes "execute_once rq d = (res, d')"
  obtains
    (invalid) e where "validate (rq_scope rq) (rq_key rq) = Inl e" "res = Inl e" "d' = d"
  | (known) r where "lookup d (rq_tenant rq) (rq_scope rq) (rq_key rq) = Some r" "d' = d"
      "res = replay_or_conflict (ir_fingerprint r) (ir_result r) (rq_scope rq) (rq_key rq) (rq_fingerprint rq)"
  | (fresh) result where "\<not> has_key (rq_unique rq) d" "savepoint_body rq d = Inr (result, d')"
      "res = Inr \<lparr>out_scope = rq_scope rq, out_key = rq_key rq, out_result = result, out_replayed = False\<rparr>"
  | (failed) e where "\<not> has_key (rq_unique rq) d" "savepoint_body rq d = Inl e" "res = Inl e"
      "d' = commit_concurrent (rq_conc rq) d"
  | (lost) w where "\<not> has_key (rq_unique rq) d" "savepoint_body rq d = Inl IntegrityError"
      "d' = commit_concurrent (rq_conc rq) d"
      "lookup d' (rq_tenant rq) (rq_scope rq) (rq_key rq) = Some w"
      "res = replay_or_conflict (ir_fingerprint w) (ir_result w) (rq_scope rq) (rq_key rq) (rq_fingerprint rq)"
proof (cases "validate (rq_scope rq) (rq_key rq)")
  case (Inl e)
  from assms this have "res = Inl e" "d' = d" by (simp_all add: execute_once_def)
  with Inl show ?thesis by (rule invalid)
next
  case valid: (Inr u)
  show ?thesis
  proof (cases "lookup d (rq_tenant rq) (rq_scope rq) (rq_key rq)")
    case (Some r)
    with assms valid show ?thesis by (intro known [of r]) (simp_all add: execute_once_def)
  next
    case None
    then have new: "\<not> has_key (rq_unique rq) d" by (simp add: lookup_None_iff rq_unique_def)
    show ?thesis
    proof (cases "savepoint_body rq d")
      case (Inr p)
      obtain result d1 where p: "p = (result, d1)" by (cases p)
      show ?thesis
        using assms valid None Inr new p by (intro fresh [of result]) (simp_all add: execute_once_def)
    next
      case (Inl e)
      show ?thesis
      proof (cases "e = IntegrityError \<and>
          lookup (commit_concurrent (rq_conc rq) d) (rq_tenant rq) (rq_scope rq) (rq_key rq) \<noteq> None")
        case True
        then obtain w where w: "lookup (commit_concurrent (rq_conc rq) d) (rq_tenant rq) (rq_scope rq) (rq_key rq) = Some w" by blast
        show ?thesis
          using assms valid None Inl new True w by (intro lost [of w]) (simp_all add: execute_once_def)
      next
        case False
        then have "res = Inl e" "d' = commit_concurrent (rq_conc rq) d"
          using assms valid None Inl by (auto simp: execute_once_def Let_def split: if_splits)
        with new Inl show ?thesis by (intro failed [of e])
      qed
    qed
  qed
qed

lemma execute_once_platform_cases [consumes 1, case_names invalid known fresh failed lost]:
  assumes "execute_once_platform rq d = (res, d')"
  obtains
    (invalid) e where "validate (pq_scope rq) (pq_key rq) = Inl e" "res = Inl e" "d' = d"
  | (known) r where "lookup_platform d (pq_scope rq) (pq_key rq) = Some r" "d' = d"
      "res = replay_or_conflict (pr_fingerprint r) (pr_result r) (pq_scope rq) (pq_key rq) (pq_fingerprint rq)"
  | (fresh) result where "\<not> has_platform_key (pq_unique rq) d"
      "platform_savepoint_body rq d = Inr (result, d')"
      "res = Inr \<lparr>out_scope = pq_scope rq, out_key = pq_key rq, out_result = result, out_replayed = False\<rparr>"
  | (failed) e where "\<not> has_platform_key (pq_unique rq) d" "platform_savepoint_body rq d = Inl e" "res = Inl e"
      "d' = commit_concurrent_platform (pq_conc rq) d"
  | (lost) w where "\<not> has_platform_key (pq_unique rq) d" "platform_savepoint_body rq d = Inl IntegrityError"
      "d' = commit_concurrent_platform (pq_conc rq) d"
      "lookup_platform d' (pq_scope rq) (pq_key rq) = Some w"
      "res = replay_or_conflict (pr_fingerprint w) (pr_result w) (pq_scope rq) (pq_key rq) (pq_fingerprint rq)"
proof (cases "validate (pq_scope rq) (pq_key rq)")
  case (Inl e)
  from assms this have "res = Inl e" "d' = d" by (simp_all add: execute_once_platform_def)
  with Inl show ?thesis by (rule invalid)
next
  case valid: (Inr u)
  show ?thesis
  proof (cases "lookup_platform d (pq_scope rq) (pq_key rq)")
    case (Some r)
    with assms valid show ?thesis by (intro known [of r]) (simp_all add: execute_once_platform_def)
  next
    case None
    then have new: "\<not> has_platform_key (pq_unique rq) d"
      by (simp add: lookup_platform_None_iff pq_unique_def)
    show ?thesis
    proof (cases "platform_savepoint_body rq d")
      case (Inr p)
      obtain result d1 where p: "p = (result, d1)" by (cases p)
      show ?thesis
        using assms valid None Inr new p by (intro fresh [of result]) (simp_all add: execute_once_platform_def)
    next
      case (Inl e)
      show ?thesis
      proof (cases "e = IntegrityError \<and>
          lookup_platform (commit_concurrent_platform (pq_conc rq) d) (pq_scope rq) (pq_key rq) \<noteq> None")
        case True
        then obtain w where w: "lookup_platform (commit_concurrent_platform (pq_conc rq) d) (pq_scope rq) (pq_key rq) = Some w" by blast
        show ?thesis
          using assms valid None Inl new True w by (intro lost [of w]) (simp_all add: execute_once_platform_def)
      next
        case False
        then have "res = Inl e" "d' = commit_concurrent_platform (pq_conc rq) d"
          using assms valid None Inl by (auto simp: execute_once_platform_def Let_def split: if_splits)
        with new Inl show ?thesis by (intro failed [of e])
      qed
    qed
  qed
qed


subsection \<open>Both ledgers are replay engines\<close>

definition outcome_result :: "idempotency_error + idempotent_outcome \<Rightarrow> json_object option" where
  "outcome_result o1 = (case o1 of Inl _ \<Rightarrow> None | Inr x \<Rightarrow> Some (out_result x))"

definition stored_result :: "uuid \<times> string \<times> string \<Rightarrow> 'a db \<Rightarrow> json_object option" where
  "stored_result k d = map_option ir_result (find_row ir_unique k (ledger d))"

definition stored_platform_result :: "string \<times> string \<Rightarrow> 'a db \<Rightarrow> json_object option" where
  "stored_platform_result k d = map_option pr_result (find_row pr_unique k (platform_ledger d))"

lemma outcome_result_simps [simp]:
  "outcome_result (Inl e) = None" "outcome_result (Inr x) = Some (out_result x)"
  by (simp_all add: outcome_result_def)

lemma outcome_result_replay:
  "outcome_result (replay_or_conflict f res s k fp) = Some v \<Longrightarrow> v = res"
  by (auto simp: outcome_result_def replay_or_conflict_def split: if_splits)

text \<open>Every call only appends rows to the ledger it writes.\<close>

lemma execute_once_extends:
  assumes "op_keeps_ledgers (rq_operation rq)" and "execute_once rq d = (res, d')"
  shows "\<exists>new. ledger d' = ledger d @ new"
  using assms(2)
proof (cases rule: execute_once_cases)
  case (fresh result)
  from fresh(2) show ?thesis
  proof (rule savepoint_body_Inr)
    fix opres d1 assume "rq_operation rq d = Returned opres d1"
      and d': "d' = d1\<lparr>ledger := ledger d1 @ rq_conc rq @ [new_record rq result]\<rparr>"
    with assms(1) obtain new where "ledger d1 = ledger d @ new"
      unfolding op_keeps_ledgers_def by blast
    with d' show ?thesis by simp
  qed
qed (simp_all)

lemma execute_once_platform_extends:
  assumes "op_keeps_ledgers (pq_operation rq)" and "execute_once_platform rq d = (res, d')"
  shows "\<exists>new. platform_ledger d' = platform_ledger d @ new"
  using assms(2)
proof (cases rule: execute_once_platform_cases)
  case (fresh result)
  from fresh(2) show ?thesis
  proof (rule platform_savepoint_body_Inr)
    fix opres d1 assume "pq_operation rq d = Returned opres d1"
      and d': "d' = d1\<lparr>platform_ledger := platform_ledger d1 @ pq_conc rq @ [new_platform_record rq result]\<rparr>"
    with assms(1) obtain new where "platform_ledger d1 = platform_ledger d @ new"
      unfolding op_keeps_ledgers_def by blast
    with d' show ?thesis by simp
  qed
qed (simp_all)

lemma fresh_is_new_and_recorded:
  assumes "execute_once rq d = (res, d')" and "is_fresh res"
  shows "\<not> has_key (rq_unique rq) d" and "has_key (rq_unique rq) d'"
  using assms
  by (auto elim!: execute_once_cases savepoint_body_Inr simp: has_key_def)

lemma platform_fresh_is_new_and_recorded:
  assumes "execute_once_platform rq d = (res, d')" and "is_fresh res"
  shows "\<not> has_platform_key (pq_unique rq) d" and "has_platform_key (pq_unique rq) d'"
  using assms
  by (auto elim!: execute_once_platform_cases platform_savepoint_body_Inr simp: has_platform_key_def)

lemma execute_once_answer_stored:
  assumes "execute_once rq d = (res, d')" and "outcome_result res = Some v"
  shows "stored_result (rq_unique rq) d' = Some v"
  using assms(1)
proof (cases rule: execute_once_cases)
  case (fresh result)
  have "ir_result (new_record rq result) = result" by (simp add: new_record_def)
  with fresh(2) show ?thesis
    using fresh(3) assms(2)
    by (elim savepoint_body_Inr) (auto simp: stored_result_def find_row_appended)
qed (use assms(2) in \<open>auto simp: stored_result_def lookup_def rq_unique_def
      dest!: outcome_result_replay\<close>)

lemma execute_once_platform_answer_stored:
  assumes "execute_once_platform rq d = (res, d')" and "outcome_result res = Some v"
  shows "stored_platform_result (pq_unique rq) d' = Some v"
  using assms(1)
proof (cases rule: execute_once_platform_cases)
  case (fresh result)
  have "pr_result (new_platform_record rq result) = result" by (simp add: new_platform_record_def)
  with fresh(2) show ?thesis
    using fresh(3) assms(2)
    by (elim platform_savepoint_body_Inr) (auto simp: stored_platform_result_def find_row_appended)
qed (use assms(2) in \<open>auto simp: stored_platform_result_def lookup_platform_def pq_unique_def
      dest!: outcome_result_replay\<close>)

interpretation tenant_ledger: replay_engine
  "execute_once :: 'a request \<Rightarrow> 'a db \<Rightarrow> (idempotency_error + idempotent_outcome) \<times> 'a db"
  rq_unique has_key is_fresh "\<lambda>rq. op_keeps_ledgers (rq_operation rq)" outcome_result stored_result
proof
  fix rq :: "'a request" and d d' :: "'a db" and res k v
  assume op: "op_keeps_ledgers (rq_operation rq)" and step: "execute_once rq d = (res, d')"
  obtain new where new: "ledger d' = ledger d @ new" using execute_once_extends [OF op step] by blast
  { assume "is_fresh res"
    with step show "\<not> has_key (rq_unique rq) d" by (rule fresh_is_new_and_recorded) }
  { assume "is_fresh res"
    with step show "has_key (rq_unique rq) d'" by (rule fresh_is_new_and_recorded) }
  { assume "has_key k d"
    with new show "has_key k d'" by (auto simp: has_key_def) }
  { assume "outcome_result res = Some v"
    with step show "stored_result (rq_unique rq) d' = Some v" by (rule execute_once_answer_stored) }
  { assume "stored_result k d = Some v"
    with new show "stored_result k d' = Some v"
      by (auto simp: stored_result_def find_row_append) }
qed

interpretation platform_ledger_engine: replay_engine
  "execute_once_platform :: 'a platform_request \<Rightarrow> 'a db \<Rightarrow> (idempotency_error + idempotent_outcome) \<times> 'a db"
  pq_unique has_platform_key is_fresh "\<lambda>rq. op_keeps_ledgers (pq_operation rq)" outcome_result
  stored_platform_result
proof
  fix rq :: "'a platform_request" and d d' :: "'a db" and res k v
  assume op: "op_keeps_ledgers (pq_operation rq)" and step: "execute_once_platform rq d = (res, d')"
  obtain new where new: "platform_ledger d' = platform_ledger d @ new"
    using execute_once_platform_extends [OF op step] by blast
  { assume "is_fresh res"
    with step show "\<not> has_platform_key (pq_unique rq) d" by (rule platform_fresh_is_new_and_recorded) }
  { assume "is_fresh res"
    with step show "has_platform_key (pq_unique rq) d'" by (rule platform_fresh_is_new_and_recorded) }
  { assume "has_platform_key k d"
    with new show "has_platform_key k d'" by (auto simp: has_platform_key_def) }
  { assume "outcome_result res = Some v"
    with step show "stored_platform_result (pq_unique rq) d' = Some v"
      by (rule execute_once_platform_answer_stored) }
  { assume "stored_platform_result k d = Some v"
    with new show "stored_platform_result k d' = Some v"
      by (auto simp: stored_platform_result_def find_row_append) }
qed


subsection \<open>Properties\<close>

text \<open>A request used in the witnesses: it counts its runs in the application data.\<close>

definition counting_request :: "string \<Rightarrow> string option \<Rightarrow> nat request" where
  "counting_request key fp =
     \<lparr>rq_tenant = 7, rq_scope = ''billing'', rq_key = key,
      rq_operation = (\<lambda>d. Returned (Some [(''run'', JInt (int (app_data d)))]) (d\<lparr>app_data := app_data d + 1\<rparr>)),
      rq_operation_name = None, rq_fingerprint = fp, rq_correlation_id = None,
      rq_expires_at = None, rq_conc = []\<rparr>"

definition empty_db :: "nat db" where
  "empty_db = \<lparr>ledger = [], platform_ledger = [], app_data = 0\<rparr>"

definition counting_platform_request :: "string \<Rightarrow> nat platform_request" where
  "counting_platform_request key =
     \<lparr>pq_scope = ''inbox'', pq_key = key,
      pq_operation = (\<lambda>d. Returned (Some [(''run'', JInt (int (app_data d)))]) (d\<lparr>app_data := app_data d + 1\<rparr>)),
      pq_operation_name = None, pq_fingerprint = None, pq_correlation_id = None,
      pq_expires_at = None, pq_conc = []\<rparr>"

lemma counting_keeps [simp]: "op_keeps_ledgers (rq_operation (counting_request key fp))"
  by (auto simp: op_keeps_ledgers_def counting_request_def)

lemma counting_platform_keeps [simp]: "op_keeps_ledgers (pq_operation (counting_platform_request key))"
  by (auto simp: op_keeps_ledgers_def counting_platform_request_def)

lemmas execute_once_eval =
  counting_request_def counting_platform_request_def empty_db_def execute_once_def execute_once_platform_def
  validate_def blank_def py_isspace_def MAX_KEY_LENGTH_def MAX_SCOPE_LENGTH_def
  lookup_def lookup_platform_def find_row_def savepoint_body_def platform_savepoint_body_def
  new_record_def new_platform_record_def commit_concurrent_def commit_concurrent_platform_def
  columns_fit_def fits_def name_or_scope_def ir_unique_def pr_unique_def Let_def
  replay_or_conflict_def

text \<open>
  C1. At most once: in any sequence of \<^verbatim>\<open>execute_once\<close> calls, with arbitrary
  operations that keep the ledger and arbitrary concurrently committed rows, at
  most one call runs its operation for a given tenant, scope and key; every other
  call for that key is a replay, a conflict or an error.
\<close>

theorem execute_once_at_most_once:
  assumes "\<And>rq. rq \<in> set rqs \<Longrightarrow> op_keeps_ledgers (rq_operation rq)"
  shows "length (fresh_for rq_unique is_fresh k (fst (run_seq execute_once rqs d))) \<le> 1"
  using assms by (rule tenant_ledger.at_most_once)

theorem execute_once_at_most_once_witness:
  "(let rq = counting_request ''k1'' None; tr = run_seq execute_once [rq, rq, rq] empty_db in
    length (fresh_for rq_unique is_fresh (rq_unique rq) (fst tr)) \<le> 1 \<and> app_data (snd tr) = 1)"
proof -
  have "app_data (snd (run_seq execute_once (replicate 3 (counting_request ''k1'' None)) empty_db)) = 1"
    by (simp add: execute_once_eval numeral_3_eq_3)
  then show ?thesis
    using execute_once_at_most_once [of "replicate 3 (counting_request ''k1'' None)"
        "rq_unique (counting_request ''k1'' None)" empty_db]
    by (simp add: numeral_3_eq_3 Let_def)
qed

text \<open>
  The same contract for the platform ledger, keyed by scope and key alone.
\<close>

theorem execute_once_platform_at_most_once:
  assumes "\<And>rq. rq \<in> set rqs \<Longrightarrow> op_keeps_ledgers (pq_operation rq)"
  shows "length (fresh_for pq_unique is_fresh k (fst (run_seq execute_once_platform rqs d))) \<le> 1"
  using assms by (rule platform_ledger_engine.at_most_once)

theorem execute_once_platform_at_most_once_witness:
  "(let rq = counting_platform_request ''k1''; tr = run_seq execute_once_platform [rq, rq] empty_db in
    length (fresh_for pq_unique is_fresh (pq_unique rq) (fst tr)) \<le> 1 \<and> app_data (snd tr) = 1)"
proof -
  have "app_data (snd (run_seq execute_once_platform [counting_platform_request ''k1'', counting_platform_request ''k1''] empty_db)) = 1"
    by (simp add: execute_once_eval)
  then show ?thesis
    using execute_once_platform_at_most_once [of "[counting_platform_request ''k1'', counting_platform_request ''k1'']"
        "pq_unique (counting_platform_request ''k1'')" empty_db]
    by (simp add: Let_def)
qed

text \<open>
  Replay is faithful: all successful answers for one key, over any sequence of
  calls, carry the same result, the one recorded by the execution that ran.
\<close>

theorem execute_once_replays_one_result:
  assumes "\<And>rq. rq \<in> set rqs \<Longrightarrow> op_keeps_ledgers (rq_operation rq)"
    and "(rq1, Inr x) \<in> set (fst (run_seq execute_once rqs d))"
    and "(rq2, Inr y) \<in> set (fst (run_seq execute_once rqs d))"
    and "rq_unique rq1 = rq_unique rq2"
  shows "out_result x = out_result y"
  by (rule tenant_ledger.answers_agree [where ?k = "rq_unique rq2" and ?rs = rqs and ?s = d,
        OF assms(1) assms(2) assms(3) assms(4)]) simp_all

theorem execute_once_replays_one_result_witness:
  "\<exists>x y. map snd (fst (run_seq execute_once [counting_request ''k1'' None, counting_request ''k1'' None] empty_db))
      = [Inr x, Inr y] \<and> \<not> out_replayed x \<and> out_replayed y \<and> out_result x = out_result y"
proof -
  define rq where "rq = counting_request ''k1'' None"
  obtain x y where tr: "fst (run_seq execute_once [rq, rq] empty_db) = [(rq, Inr x), (rq, Inr y)]"
    and fl: "\<not> out_replayed x" "out_replayed y"
    by (simp add: execute_once_eval rq_def)
  have "out_result x = out_result y"
    by (rule execute_once_replays_one_result [of "[rq, rq]" rq x empty_db rq y])
      (use tr in \<open>auto simp: rq_def\<close>)
  with tr fl show ?thesis by (auto simp: rq_def)
qed



text \<open>
  A failed attempt does not burn its key: after an attempt whose operation
  raised, a retry with the same key runs its own operation and records its result.
  There is no in-progress placeholder to wait for.
\<close>

theorem execute_once_retry_redrives:
  assumes "rq_operation rq d = RaisedOther e" and "rq_conc rq = []"
    and "\<not> has_key (rq_unique rq) d"
    and "rq_unique rq' = rq_unique rq" and "rq_conc rq' = []"
    and "validate (rq_scope rq') (rq_key rq') = Inr ()"
    and "columns_fit (rq_scope rq') (rq_key rq') (rq_fingerprint rq')
           (name_or_scope (rq_operation_name rq') (rq_scope rq')) (rq_correlation_id rq')"
    and "rq_operation rq' d = Returned res d1" and "\<not> has_key (rq_unique rq') d1"
  shows "fst (execute_once rq d) = Inl (OperationError e)
    \<and> (\<exists>d2. execute_once rq' (snd (execute_once rq d)) =
          (Inr \<lparr>out_scope = rq_scope rq', out_key = rq_key rq',
                out_result = dict_or_empty res, out_replayed = False\<rparr>, d2)
        \<and> app_data d2 = app_data d1 \<and> has_key (rq_unique rq') d2)"
proof -
  have keys: "rq_scope rq' = rq_scope rq" "rq_key rq' = rq_key rq" "rq_tenant rq' = rq_tenant rq"
    using assms(4) by (auto simp: rq_unique_def)
  have none: "lookup d (rq_tenant rq) (rq_scope rq) (rq_key rq) = None"
    using assms(3) by (simp add: lookup_None_iff rq_unique_def)
  have first: "execute_once rq d = (Inl (OperationError e), d)"
    using assms(1,2,6) none
    by (simp add: execute_once_def savepoint_body_def keys commit_concurrent_def)
  have op: "ir_operation (new_record rq' x) = name_or_scope (rq_operation_name rq') (rq_scope rq')" for x
    by (simp add: new_record_def)
  have "savepoint_body rq' d = Inr (dict_or_empty res,
      d1\<lparr>ledger := ledger d1 @ [new_record rq' (dict_or_empty res)]\<rparr>)"
    using assms(5,7,8,9) by (simp add: savepoint_body_def Let_def has_key_def commit_concurrent_def op)
  with first none assms(6) show ?thesis
    by (simp add: execute_once_def keys has_key_def)
qed

definition raising_request :: "string \<Rightarrow> nat request" where
  "raising_request key = (counting_request key None)\<lparr>rq_operation := (\<lambda>d. RaisedOther ''Timeout'')\<rparr>"

theorem execute_once_retry_redrives_witness:
  "fst (execute_once (raising_request ''k1'') empty_db) = Inl (OperationError ''Timeout'')
   \<and> app_data (snd (execute_once (counting_request ''k1'' None)
        (snd (execute_once (raising_request ''k1'') empty_db)))) = 1"
proof -
  have *: "rq_operation (counting_request ''k1'' None) empty_db =
      Returned (Some [(''run'', JInt 0)]) (empty_db\<lparr>app_data := 1\<rparr>)"
    by (simp add: counting_request_def empty_db_def)
  show ?thesis
    using execute_once_retry_redrives [of "raising_request ''k1''" empty_db "''Timeout''"
        "counting_request ''k1'' None", OF _ _ _ _ _ _ _ *]
    by (auto simp: raising_request_def rq_unique_def has_key_def execute_once_eval)
qed


text \<open>
  A key that is already in the ledger is answered from the ledger alone: the
  operation of the new request is not consulted, the database is unchanged, and
  the answer is a conflict exactly when both requests carry a fingerprint and the
  fingerprints differ.
\<close>

theorem execute_once_known_key:
  assumes "validate (rq_scope rq) (rq_key rq) = Inr ()"
    and "lookup d (rq_tenant rq) (rq_scope rq) (rq_key rq) = Some r"
  shows "execute_once rq d =
    (if \<exists>f g. rq_fingerprint rq = Some f \<and> ir_fingerprint r = Some g \<and> f \<noteq> g
     then (Inl (IdempotencyConflict (rq_scope rq)), d)
     else (Inr \<lparr>out_scope = rq_scope rq, out_key = rq_key rq, out_result = ir_result r, out_replayed = True\<rparr>, d))"
  using assms by (auto simp: execute_once_def replay_or_conflict_def)

theorem execute_once_known_key_witness:
  "fst (execute_once (counting_request ''k1'' (Some ''b''))
         (snd (execute_once (counting_request ''k1'' (Some ''a'')) empty_db)))
     = Inl (IdempotencyConflict ''billing'')"
proof -
  define d where "d = snd (execute_once (counting_request ''k1'' (Some ''a'')) empty_db)"
  have v: "validate (rq_scope (counting_request ''k1'' (Some ''b''))) (rq_key (counting_request ''k1'' (Some ''b''))) = Inr ()"
    by (simp add: execute_once_eval)
  obtain r where r: "lookup d 7 ''billing'' ''k1'' = Some r" "ir_fingerprint r = Some ''a''"
    by (simp add: d_def execute_once_eval)
  have "fst (execute_once (counting_request ''k1'' (Some ''b'')) d) = Inl (IdempotencyConflict ''billing'')"
    using execute_once_known_key [OF v, of d r] r by (simp add: counting_request_def)
  then show ?thesis by (simp only: d_def)
qed

lemma filter_find_row:
  assumes "distinct (map key rows)" and "find_row key k rows = Some r" and "p r"
  shows "find_row key k (filter p rows) = Some r"
proof -
  from assms(2) have r: "r \<in> set rows" "key r = k" by (auto dest: find_row_Some)
  have "distinct (map key (filter p rows))" using assms(1) by (rule distinct_map_filter)
  moreover have "r \<in> set (filter p rows)" using r assms(3) by simp
  ultimately show ?thesis using find_row_unique [of key "filter p rows" r] r by simp
qed

text \<open>
  Retention is safe: purging returns the number of rows it deletes, never
  deletes a row without an expiry or whose expiry is not yet past, and never a row
  the session's role cannot see; such a key is still answered from the ledger.
\<close>

theorem purge_expired_keeps_live:
  assumes "ledger_wf d"
    and "purge_expired db_now visible now scope False d = (n, d')"
    and "lookup d t s k = Some r"
    and "ir_expires_at r = None \<or> (\<exists>e. ir_expires_at r = Some e \<and> (case now of None \<Rightarrow> db_now | Some c \<Rightarrow> c) \<le> e)
         \<or> \<not> visible t"
  shows "lookup d' t s k = Some r \<and> ledger_wf d' \<and> n + length (ledger d') = length (ledger d)"
proof -
  let ?doomed = "\<lambda>r. visible (ir_tenant_id r) \<and> expired (case now of None \<Rightarrow> db_now | Some t \<Rightarrow> t) (ir_expires_at r)
                            \<and> scope_selected scope (ir_scope r)"
  have d': "ledger d' = filter (\<lambda>r. \<not> ?doomed r) (ledger d)" "platform_ledger d' = platform_ledger d"
    "n = length (filter ?doomed (ledger d))"
    using assms(2) by (auto simp: purge_expired_def Let_def)
  have "ir_tenant_id r = t" using assms(3) by (auto simp: lookup_def ir_unique_def dest: find_row_Some)
  then have "\<not> ?doomed r" using assms(4) by (auto simp: expired_def)
  then have "lookup d' t s k = Some r"
    using assms(1,3) d' filter_find_row [of ir_unique "ledger d"] by (simp add: lookup_def ledger_wf_def)
  moreover have "ledger_wf d'" using assms(1) d' by (simp add: ledger_wf_def distinct_map_filter)
  moreover have "n + length (ledger d') = length (ledger d)"
    unfolding d' by (rule sum_length_filter_compl)
  ultimately show ?thesis by simp
qed

theorem purge_expired_keeps_live_witness:
  "(let d = snd (execute_once (counting_request ''k1'' None) empty_db);
        d' = snd (purge_expired 100 (\<lambda>_. True) None None False d) in lookup d' 7 ''billing'' ''k1'' \<noteq> None)"
proof -
  define d where "d = snd (execute_once (counting_request ''k1'' None) empty_db)"
  obtain n d' where p: "purge_expired 100 (\<lambda>_. True) None None False d = (n, d')" by (metis surj_pair)
  obtain r where r: "lookup d 7 ''billing'' ''k1'' = Some r" "ir_expires_at r = None" and wf: "ledger_wf d"
    by (simp add: d_def execute_once_eval ledger_wf_def)
  show ?thesis
    using purge_expired_keeps_live [OF wf p r(1)] r(2) p by (simp add: d_def [symmetric] Let_def)
qed

text \<open>
  Row uniqueness is an invariant: when the operation and the concurrent
  transactions respect the unique constraint, so does every database
  \<^verbatim>\<open>execute_once\<close> returns, on every branch.
\<close>

theorem execute_once_keeps_unique:
  assumes "ledger_wf (commit_concurrent (rq_conc rq) d)"
    and "\<And>res d1. rq_operation rq d = Returned res d1 \<Longrightarrow> ledger_wf (commit_concurrent (rq_conc rq) d1)"
    and "execute_once rq d = (res, d')"
  shows "ledger_wf d'"
  using assms(3)
proof (cases rule: execute_once_cases)
  case (fresh result)
  from fresh(2) show ?thesis
    by (elim savepoint_body_Inr) (use assms(2) in \<open>auto simp: ledger_wf_def\<close>)
qed (use assms(1) in \<open>auto simp: ledger_wf_def\<close>)

theorem execute_once_keeps_unique_witness:
  "ledger_wf (snd (execute_once (counting_request ''k1'' None) empty_db))"
proof -
  have a: "ledger_wf (commit_concurrent (rq_conc (counting_request ''k1'' None)) empty_db)"
    by (simp add: ledger_wf_def execute_once_eval)
  have b: "ledger_wf (commit_concurrent (rq_conc (counting_request ''k1'' None)) d1)"
    if "rq_operation (counting_request ''k1'' None) empty_db = Returned res d1" for res d1
    using that by (auto simp: ledger_wf_def execute_once_eval)
  show ?thesis
    by (rule execute_once_keeps_unique [OF a b surjective_pairing])
qed

end
