(* ===== verification/Source_Applications.thy ===== *)
theory Source_Applications
  imports Prelude
begin

text \<open>
  The attribution vocabulary of \<^verbatim>\<open>dotmac_kernel/source_applications.py\<close>: the shape
  check of an application code, the registry of accepted applications, and the
  two process-wide facts (the active registry and the host identity).
\<close>

datatype sa_error =
    InvalidSourceApplication string
  | UndeclaredSourceApplication string
  | SourceApplicationsNotInstalled
  | HostApplicationNotInstalled

subsection \<open>The code pattern\<close>

definition SOURCE_APPLICATION_MAX_LENGTH :: nat where
  "SOURCE_APPLICATION_MAX_LENGTH = 64"

text \<open>The text matched between the anchors: \<^verbatim>\<open>[a-z][a-z0-9_]{1,63}\<close>.\<close>

definition code_body :: "string \<Rightarrow> bool" where
  "code_body s = word_like is_lower word_char 1 63 s"

text \<open>\<^verbatim>\<open>_CODE_PATTERN.match(code)\<close>.\<close>

definition code_pattern_match :: "string \<Rightarrow> bool" where
  "code_pattern_match s \<longleftrightarrow> dollar_match code_body s"

definition validate_source_application :: "string \<Rightarrow> sa_error + string" where
  "validate_source_application code =
     (if code_pattern_match code then Inr code else Inl (InvalidSourceApplication code))"

subsection \<open>The registry\<close>

type_synonym source_registry = "string set"

definition SourceApplicationRegistry :: "string list \<Rightarrow> sa_error + source_registry" where
  "SourceApplicationRegistry codes =
     bindr (map_result validate_source_application codes) (\<lambda>cs. Inr (set cs))"

definition sa_is_declared :: "source_registry \<Rightarrow> string \<Rightarrow> bool" where
  "sa_is_declared reg code \<longleftrightarrow> code \<in> reg"

definition sa_require :: "source_registry \<Rightarrow> string \<Rightarrow> sa_error + unit" where
  "sa_require reg code =
     bindr (validate_source_application code)
       (\<lambda>_. if code \<in> reg then Inr () else Inl (UndeclaredSourceApplication code))"

definition sa_codes :: "source_registry \<Rightarrow> string set" where
  "sa_codes reg = reg"

subsection \<open>The process-active registry and host identity\<close>

record sa_process =
  active_registry :: "source_registry option"
  host_application :: "string option"

definition sa_process_start :: sa_process where
  "sa_process_start = \<lparr>active_registry = None, host_application = None\<rparr>"

definition install_source_applications :: "source_registry \<Rightarrow> sa_process \<Rightarrow> sa_process" where
  "install_source_applications reg p = p\<lparr>active_registry := Some reg\<rparr>"

definition active_source_applications :: "sa_process \<Rightarrow> sa_error + source_registry" where
  "active_source_applications p = (case active_registry p of
     None \<Rightarrow> Inl SourceApplicationsNotInstalled | Some reg \<Rightarrow> Inr reg)"

definition install_host_application :: "string \<Rightarrow> sa_process \<Rightarrow> sa_error + sa_process" where
  "install_host_application code p =
     bindr (validate_source_application code) (\<lambda>_.
     bindr (case active_registry p of None \<Rightarrow> Inr () | Some reg \<Rightarrow> sa_require reg code) (\<lambda>_.
     Inr (p\<lparr>host_application := Some code\<rparr>)))"

definition clear_host_application :: "sa_process \<Rightarrow> sa_process" where
  "clear_host_application p = p\<lparr>host_application := None\<rparr>"

definition active_host_application :: "sa_process \<Rightarrow> sa_error + string" where
  "active_host_application p = (case host_application p of
     None \<Rightarrow> Inl HostApplicationNotInstalled | Some c \<Rightarrow> Inr c)"

definition host_application_or_none :: "sa_process \<Rightarrow> string option" where
  "host_application_or_none p = host_application p"

subsection \<open>Facts\<close>

lemma code_body_length: "code_body s \<Longrightarrow> 2 \<le> length s \<and> length s \<le> 64"
  using word_like_length [of is_lower word_char 1 63 s] by (simp add: code_body_def)

lemma validate_Inr [simp]:
  "validate_source_application s = Inr c \<longleftrightarrow> c = s \<and> code_pattern_match s"
  by (auto simp: validate_source_application_def)

lemma registry_Inr_iff:
  "SourceApplicationRegistry codes = Inr reg \<longleftrightarrow>
     reg = set codes \<and> (\<forall>c \<in> set codes. code_pattern_match c)"
proof -
  have all2: "list_all2 (\<lambda>x y. y = x \<and> code_pattern_match x) codes ys
      \<longleftrightarrow> ys = codes \<and> (\<forall>c \<in> set codes. code_pattern_match c)" for ys
    by (induction codes arbitrary: ys) (auto simp: list_all2_Cons1)
  show ?thesis
    by (auto simp: SourceApplicationRegistry_def bindr_eq_Inr map_result_Inr_iff all2)
qed

text \<open>
  Membership is exact: a registry built from a deployment's list of codes
  accepts precisely the codes of the list, and every other code, well-formed or
  not, is refused. No prefix, substring or wildcard is accepted.
\<close>

theorem registry_require_exact:
  assumes "SourceApplicationRegistry codes = Inr reg"
  shows "sa_require reg c = Inr () \<longleftrightarrow> c \<in> set codes"
  using assms by (auto simp: registry_Inr_iff sa_require_def bindr_eq_Inr)

theorem registry_require_exact_witness:
  "sa_require {''dotmac_sub'', ''dotmac_erp''} ''dotmac_sub'' = Inr ()
   \<and> sa_require {''dotmac_sub'', ''dotmac_erp''} ''dotmac_sub_staging'' \<noteq> Inr ()"
proof -
  have reg: "SourceApplicationRegistry [''dotmac_sub'', ''dotmac_erp'']
      = Inr {''dotmac_sub'', ''dotmac_erp''}"
    by (simp add: registry_Inr_iff code_pattern_match_def dollar_match_def code_body_def
        word_like_def word_char_def is_lower_def is_digit_def)
  show ?thesis
    using registry_require_exact [OF reg, of "''dotmac_sub''"]
      registry_require_exact [OF reg, of "''dotmac_sub_staging''"] by simp
qed

end
