(* ===== verification/Inbox.thy ===== *)
theory Inbox
  imports Idempotency Source_Applications
begin

text \<open>
  The command envelope (\<^verbatim>\<open>messaging/envelope.py\<close>) and the two inbox adapters
  (\<^verbatim>\<open>messaging/inbox.py\<close>, \<^verbatim>\<open>messaging/platform.py\<close>): the transport-delivery
  spelling of \<open>execute_once\<close>.
\<close>

subsection \<open>The envelope\<close>

record command_envelope =
  ce_command_id :: string
  ce_command_type :: string
  ce_tenant_id :: uuid
  ce_source_application :: "string option"
  ce_payload :: json_object
  ce_actor_party_id :: "uuid option"
  ce_correlation_id :: "string option"
  ce_issued_at :: "datetime option"

datatype envelope_error =
    UnattributedCommand string
  | EnvelopeSource sa_error

text \<open>Construction of an envelope: the dataclass with its \<^verbatim>\<open>__post_init__\<close>.\<close>

definition CommandEnvelope :: "command_envelope \<Rightarrow> envelope_error + command_envelope" where
  "CommandEnvelope e = (case ce_source_application e of
     None \<Rightarrow> Inl (UnattributedCommand (ce_command_type e))
   | Some a \<Rightarrow> (case validate_source_application a of
       Inl x \<Rightarrow> Inl (EnvelopeSource x) | Inr _ \<Rightarrow> Inr e))"

definition issuer :: "command_envelope \<Rightarrow> envelope_error + string" where
  "issuer e = (case ce_source_application e of
     None \<Rightarrow> Inl (UnattributedCommand (ce_command_type e)) | Some a \<Rightarrow> Inr a)"

subsection \<open>process_once\<close>

datatype process_status = Processed | Duplicate

record process_outcome =
  po_command_id :: string
  po_status :: process_status
  po_result :: json_object

definition was_duplicate :: "process_outcome \<Rightarrow> bool" where
  "was_duplicate o1 \<longleftrightarrow> po_status o1 = Duplicate"

datatype process_error =
    EnvelopeError envelope_error
  | SourceError sa_error
  | LedgerError idempotency_error

text \<open>
  A delivery: the envelope, the handler, the process state that holds the active
  registry of accepted applications, and the rows concurrent transactions commit.
\<close>

record 'a delivery =
  dl_envelope :: command_envelope
  dl_handler :: "command_envelope \<Rightarrow> 'a operation"
  dl_process :: sa_process
  dl_conc :: "idempotency_record list"

definition delivery_request :: "'a delivery \<Rightarrow> 'a request" where
  "delivery_request dl =
     (let env = dl_envelope dl in
      \<lparr>rq_tenant = ce_tenant_id env, rq_scope = INBOX_SCOPE, rq_key = ce_command_id env,
       rq_operation = dl_handler dl env, rq_operation_name = Some (ce_command_type env),
       rq_fingerprint = None, rq_correlation_id = ce_correlation_id env,
       rq_expires_at = None, rq_conc = dl_conc dl\<rparr>)"

definition outcome_of :: "string \<Rightarrow> idempotent_outcome \<Rightarrow> process_outcome" where
  "outcome_of cid o1 = \<lparr>po_command_id = cid,
     po_status = (if out_replayed o1 then Duplicate else Processed), po_result = out_result o1\<rparr>"

definition process_once :: "'a delivery \<Rightarrow> 'a db \<Rightarrow> (process_error + process_outcome) \<times> 'a db" where
  "process_once dl d =
     (case active_source_applications (dl_process dl) of
        Inl e \<Rightarrow> (Inl (SourceError e), d)
      | Inr reg \<Rightarrow>
        (case issuer (dl_envelope dl) of
           Inl e \<Rightarrow> (Inl (EnvelopeError e), d)
         | Inr app \<Rightarrow>
           (case sa_require reg app of
              Inl e \<Rightarrow> (Inl (SourceError e), d)
            | Inr _ \<Rightarrow>
              (case execute_once (delivery_request dl) d of
                 (Inl e, d') \<Rightarrow> (Inl (LedgerError e), d')
               | (Inr o1, d') \<Rightarrow> (Inr (outcome_of (ce_command_id (dl_envelope dl)) o1), d')))))"

subsection \<open>process_once_platform\<close>

record 'a platform_delivery =
  pd_command_id :: string
  pd_command_type :: string
  pd_handler :: "'a operation"
  pd_correlation_id :: "string option"
  pd_conc :: "platform_idempotency_record list"

definition platform_delivery_request :: "'a platform_delivery \<Rightarrow> 'a platform_request" where
  "platform_delivery_request dl =
     \<lparr>pq_scope = INBOX_SCOPE, pq_key = pd_command_id dl, pq_operation = pd_handler dl,
      pq_operation_name = Some (pd_command_type dl), pq_fingerprint = None,
      pq_correlation_id = pd_correlation_id dl, pq_expires_at = None, pq_conc = pd_conc dl\<rparr>"

definition process_once_platform ::
  "'a platform_delivery \<Rightarrow> 'a db \<Rightarrow> (process_error + process_outcome) \<times> 'a db" where
  "process_once_platform dl d =
     (case execute_once_platform (platform_delivery_request dl) d of
        (Inl e, d') \<Rightarrow> (Inl (LedgerError e), d')
      | (Inr o1, d') \<Rightarrow> (Inr (outcome_of (pd_command_id dl) o1), d'))"

subsection \<open>Both adapters are at-most-once engines\<close>

definition ran_handler :: "process_error + process_outcome \<Rightarrow> bool" where
  "ran_handler o1 = (case o1 of Inl _ \<Rightarrow> False | Inr x \<Rightarrow> \<not> was_duplicate x)"

lemma ran_handler_simps [simp]:
  "ran_handler (Inl e) = False" "ran_handler (Inr x) = (\<not> was_duplicate x)"
  by (simp_all add: ran_handler_def)

lemma was_duplicate_outcome_of [simp]: "was_duplicate (outcome_of cid o1) = out_replayed o1"
  by (simp add: was_duplicate_def outcome_of_def)

definition delivery_key :: "'a delivery \<Rightarrow> uuid \<times> string" where
  "delivery_key dl = (ce_tenant_id (dl_envelope dl), ce_command_id (dl_envelope dl))"

definition delivered :: "uuid \<times> string \<Rightarrow> 'a db \<Rightarrow> bool" where
  "delivered k d \<longleftrightarrow> has_key (fst k, INBOX_SCOPE, snd k) d"

lemma rq_unique_delivery [simp]:
  "rq_unique (delivery_request dl) = (fst (delivery_key dl), INBOX_SCOPE, snd (delivery_key dl))"
  by (simp add: rq_unique_def delivery_request_def delivery_key_def Let_def)

lemma process_once_step:
  assumes "process_once dl d = (res, d')"
  shows "(d' = d \<and> \<not> ran_handler res) \<or>
    (\<exists>o1. execute_once (delivery_request dl) d = (o1, d') \<and> (ran_handler res \<longleftrightarrow> is_fresh o1))"
  using assms by (auto simp: process_once_def split: sum.splits prod.splits)

interpretation inbox: once_engine
  "process_once :: 'a delivery \<Rightarrow> 'a db \<Rightarrow> (process_error + process_outcome) \<times> 'a db"
  delivery_key delivered ran_handler
  "\<lambda>dl. op_keeps_ledgers (dl_handler dl (dl_envelope dl))"
proof
  fix dl :: "'a delivery" and d d' :: "'a db" and res k
  assume op: "op_keeps_ledgers (dl_handler dl (dl_envelope dl))" and step: "process_once dl d = (res, d')"
  have ok: "op_keeps_ledgers (rq_operation (delivery_request dl))"
    using op by (simp add: delivery_request_def Let_def)
  { assume "ran_handler res"
    then show "\<not> delivered (delivery_key dl) d"
      using process_once_step [OF step] tenant_ledger.fresh_new [OF ok] by (auto simp: delivered_def) }
  { assume "ran_handler res"
    then show "delivered (delivery_key dl) d'"
      using process_once_step [OF step] tenant_ledger.fresh_records [OF ok] by (auto simp: delivered_def) }
  { assume "delivered k d"
    then show "delivered k d'"
      using process_once_step [OF step] tenant_ledger.recorded_stays [OF ok] by (auto simp: delivered_def) }
qed

definition platform_delivered :: "string \<Rightarrow> 'a db \<Rightarrow> bool" where
  "platform_delivered cid d \<longleftrightarrow> has_platform_key (INBOX_SCOPE, cid) d"

lemma process_once_platform_step:
  assumes "process_once_platform dl d = (res, d')"
  shows "\<exists>o1. execute_once_platform (platform_delivery_request dl) d = (o1, d') \<and> (ran_handler res \<longleftrightarrow> is_fresh o1)"
  using assms by (auto simp: process_once_platform_def split: sum.splits prod.splits)

interpretation platform_inbox: once_engine
  "process_once_platform :: 'a platform_delivery \<Rightarrow> 'a db \<Rightarrow> (process_error + process_outcome) \<times> 'a db"
  pd_command_id platform_delivered ran_handler "\<lambda>dl. op_keeps_ledgers (pd_handler dl)"
proof
  fix dl :: "'a platform_delivery" and d d' :: "'a db" and res k
  assume op: "op_keeps_ledgers (pd_handler dl)" and step: "process_once_platform dl d = (res, d')"
  have ok: "op_keeps_ledgers (pq_operation (platform_delivery_request dl))"
    and key: "pq_unique (platform_delivery_request dl) = (INBOX_SCOPE, pd_command_id dl)"
    using op by (simp_all add: platform_delivery_request_def pq_unique_def)
  { assume "ran_handler res"
    then show "\<not> platform_delivered (pd_command_id dl) d"
      using process_once_platform_step [OF step] platform_ledger_engine.fresh_new [OF ok]
      by (auto simp: platform_delivered_def key) }
  { assume "ran_handler res"
    then show "platform_delivered (pd_command_id dl) d'"
      using process_once_platform_step [OF step] platform_ledger_engine.fresh_records [OF ok]
      by (auto simp: platform_delivered_def key) }
  { assume "platform_delivered k d"
    then show "platform_delivered k d'"
      using process_once_platform_step [OF step] platform_ledger_engine.recorded_stays [OF ok]
      by (auto simp: platform_delivered_def) }
qed

subsection \<open>Properties\<close>

definition counting_delivery :: "string \<Rightarrow> nat delivery" where
  "counting_delivery app =
     \<lparr>dl_envelope = \<lparr>ce_command_id = ''cmd-1'', ce_command_type = ''invoice.issue'', ce_tenant_id = 7,
         ce_source_application = Some app, ce_payload = [], ce_actor_party_id = None,
         ce_correlation_id = None, ce_issued_at = None\<rparr>,
      dl_handler = (\<lambda>_ d. Returned None (d\<lparr>app_data := app_data d + 1\<rparr>)),
      dl_process = \<lparr>active_registry = Some {''dotmac_sub''}, host_application = None\<rparr>,
      dl_conc = []\<rparr>"

lemma counting_delivery_keeps [simp]:
  "op_keeps_ledgers (dl_handler (counting_delivery a) (dl_envelope (counting_delivery a)))"
  by (auto simp: op_keeps_ledgers_def counting_delivery_def)

lemmas process_once_eval =
  counting_delivery_def process_once_def active_source_applications_def issuer_def sa_require_def
  validate_source_application_def code_pattern_match_def dollar_match_def code_body_def
  word_like_def word_char_def is_lower_def is_digit_def
  delivery_request_def INBOX_SCOPE_def

text \<open>
  C22. A command delivered any number of times to the tenant inbox runs its handler
  at most once per tenant and command id.
\<close>

theorem process_once_at_most_once:
  assumes "\<And>dl. dl \<in> set dls \<Longrightarrow> op_keeps_ledgers (dl_handler dl (dl_envelope dl))"
  shows "length (fresh_for delivery_key ran_handler k (fst (run_seq process_once dls d))) \<le> 1"
  using assms by (rule inbox.at_most_once)

theorem process_once_at_most_once_witness:
  "(let dl = counting_delivery ''dotmac_sub''; tr = run_seq process_once [dl, dl] empty_db in
    length (fresh_for delivery_key ran_handler (7, ''cmd-1'') (fst tr)) \<le> 1 \<and> app_data (snd tr) = 1)"
proof -
  have "app_data (snd (run_seq process_once [counting_delivery ''dotmac_sub'', counting_delivery ''dotmac_sub''] empty_db)) = 1"
    by (simp add: process_once_eval execute_once_eval)
  then show ?thesis
    using process_once_at_most_once [of "[counting_delivery ''dotmac_sub'', counting_delivery ''dotmac_sub'']"
        "(7, ''cmd-1'')" empty_db]
    by (simp add: Let_def)
qed

text \<open>
  A command from an application the deployment does not accept is refused
  before the ledger is touched: nothing is recorded, so the refusal is not replayed
  later and the command id stays free.
\<close>

theorem process_once_refuses_unaccepted:
  assumes "SourceApplicationRegistry codes = Inr reg"
    and "active_registry (dl_process dl) = Some reg"
    and "ce_source_application (dl_envelope dl) = Some app" and "app \<notin> set codes"
  shows "\<exists>e. process_once dl d = (Inl (SourceError e), d)"
  using assms
  by (auto simp: process_once_def active_source_applications_def issuer_def sa_require_def
      registry_Inr_iff validate_source_application_def)

theorem process_once_refuses_unaccepted_witness:
  "snd (process_once (counting_delivery ''dotmac_erp'') empty_db) = empty_db"
proof -
  have reg: "SourceApplicationRegistry [''dotmac_sub''] = Inr {''dotmac_sub''}"
    by (simp add: registry_Inr_iff process_once_eval)
  show ?thesis
    using process_once_refuses_unaccepted [OF reg, of "counting_delivery ''dotmac_erp''" "''dotmac_erp''" empty_db]
    by (auto simp: counting_delivery_def)
qed

end
