(* ===== verification/Outbox.thy ===== *)
theory Outbox
  imports Prelude Complex_Main
begin

text \<open>
  The transactional outbox and its relay: the rows of \<^verbatim>\<open>messaging/models.py\<close>, the
  write side \<^verbatim>\<open>messaging/outbox.py\<close>, the two SQL functions the migrations install
  (claim and settle), the retry policy of \<^verbatim>\<open>messaging/relay.py\<close> and
  \<^verbatim>\<open>messaging/platform_relay.py\<close>, and the workers \<^verbatim>\<open>messaging/worker.py\<close> and
  \<^verbatim>\<open>messaging/platform_worker.py\<close>.

  The tenant table and the platform table have the same columns but for the
  tenant, so a tenant row extends a platform row and the SQL that the two
  migrations spell twice is stated once, over both.

  Clocks are arguments: \<open>now\<close> is the database's transaction clock, \<open>py_now\<close> the
  worker's \<^verbatim>\<open>datetime.now(UTC)\<close>.  The set of rows other transactions hold locked
  (\<^verbatim>\<open>FOR UPDATE SKIP LOCKED\<close>) is an argument of a claim.
\<close>

subsection \<open>Rows\<close>

datatype outbox_status = PENDING | CLAIMED | SENT | FAILED | DEAD

record platform_outbox_event =
  oe_id :: uuid
  oe_event_type :: string
  oe_payload :: json_object
  oe_status :: outbox_status
  oe_attempts :: nat
  oe_available_at :: datetime
  oe_correlation_id :: "string option"
  oe_sent_at :: "datetime option"
  oe_last_error :: "string option"
  oe_leased_by :: "string option"
  oe_leased_at :: "datetime option"

record outbox_event = platform_outbox_event +
  oe_tenant_id :: uuid

subsection \<open>The write side\<close>

text \<open>
  \<open>new_id\<close> is the primary key the row gets, \<open>now\<close> the server default of
  \<^verbatim>\<open>available_at\<close>.
\<close>

definition enqueue_event ::
  "uuid \<Rightarrow> datetime \<Rightarrow> uuid \<Rightarrow> string \<Rightarrow> json_object option \<Rightarrow> string option
   \<Rightarrow> outbox_event list \<Rightarrow> outbox_event \<times> outbox_event list" where
  "enqueue_event new_id now tenant_id event_type payload correlation_id rows =
     (let event = \<lparr>oe_id = new_id, oe_event_type = event_type, oe_payload = dict_or_empty payload,
                   oe_status = PENDING, oe_attempts = 0, oe_available_at = now,
                   oe_correlation_id = correlation_id, oe_sent_at = None, oe_last_error = None,
                   oe_leased_by = None, oe_leased_at = None, oe_tenant_id = tenant_id\<rparr>
      in (event, rows @ [event]))"

definition enqueue_platform_event ::
  "uuid \<Rightarrow> datetime \<Rightarrow> string \<Rightarrow> json_object option \<Rightarrow> string option
   \<Rightarrow> platform_outbox_event list \<Rightarrow> platform_outbox_event \<times> platform_outbox_event list" where
  "enqueue_platform_event new_id now event_type payload correlation_id rows =
     (let event = \<lparr>oe_id = new_id, oe_event_type = event_type, oe_payload = dict_or_empty payload,
                   oe_status = PENDING, oe_attempts = 0, oe_available_at = now,
                   oe_correlation_id = correlation_id, oe_sent_at = None, oe_last_error = None,
                   oe_leased_by = None, oe_leased_at = None\<rparr>
      in (event, rows @ [event]))"

subsection \<open>Claim and settle, as the migrations define them\<close>

datatype relay_error =
    NegativeLimit            \<comment> \<open>PostgreSQL: LIMIT must not be negative\<close>
  | OverflowError            \<comment> \<open>Python: int too large to convert to float\<close>

definition ready :: "datetime \<Rightarrow> int \<Rightarrow> 'x platform_outbox_event_scheme \<Rightarrow> bool" where
  "ready now stale_seconds r \<longleftrightarrow>
     (oe_status r = PENDING \<and> oe_available_at r \<le> now)
     \<or> (oe_status r = CLAIMED \<and>
        (case oe_leased_at r of None \<Rightarrow> False | Some t \<Rightarrow> t < now - microseconds stale_seconds))"

definition lease :: "string \<Rightarrow> datetime \<Rightarrow> 'x platform_outbox_event_scheme \<Rightarrow> 'x platform_outbox_event_scheme" where
  "lease worker now r = r\<lparr>oe_status := CLAIMED, oe_leased_by := Some worker, oe_leased_at := Some now\<rparr>"

definition claim_ids ::
  "int \<Rightarrow> int \<Rightarrow> datetime \<Rightarrow> (uuid \<Rightarrow> bool) \<Rightarrow> 'x platform_outbox_event_scheme list \<Rightarrow> uuid list" where
  "claim_ids batch stale_seconds now locked rows =
     map oe_id (take (nat batch)
       (sort_key oe_available_at (filter (\<lambda>r. ready now stale_seconds r \<and> \<not> locked (oe_id r)) rows)))"

text \<open>
  \<^verbatim>\<open>UPDATE ... WHERE id IN (SELECT ... ORDER BY available_at FOR UPDATE SKIP LOCKED
  LIMIT n) RETURNING *\<close>: the returned rows come in table order, rows equally old are
  taken in table order.
\<close>

definition claim_rows ::
  "string \<Rightarrow> int \<Rightarrow> int \<Rightarrow> datetime \<Rightarrow> (uuid \<Rightarrow> bool) \<Rightarrow> 'x platform_outbox_event_scheme list
   \<Rightarrow> relay_error + 'x platform_outbox_event_scheme list \<times> 'x platform_outbox_event_scheme list" where
  "claim_rows worker batch stale_seconds now locked rows =
     (if batch < 0 then Inl NegativeLimit
      else (let ids = claim_ids batch stale_seconds now locked rows;
                rows' = update_rows (\<lambda>r. oe_id r \<in> set ids) (lease worker now) rows
            in Inr (filter (\<lambda>r. oe_id r \<in> set ids) rows', rows')))"

definition holds_lease :: "uuid \<Rightarrow> string \<Rightarrow> 'x platform_outbox_event_scheme \<Rightarrow> bool" where
  "holds_lease i worker r \<longleftrightarrow> oe_id r = i \<and> oe_leased_by r = Some worker \<and> oe_status r = CLAIMED"

definition settle_row ::
  "outbox_status \<Rightarrow> datetime option \<Rightarrow> nat \<Rightarrow> string option \<Rightarrow> datetime
   \<Rightarrow> 'x platform_outbox_event_scheme \<Rightarrow> 'x platform_outbox_event_scheme" where
  "settle_row status available_at attempts last_error now r =
     r\<lparr>oe_status := status, oe_attempts := attempts, oe_last_error := last_error,
       oe_available_at := (case available_at of None \<Rightarrow> oe_available_at r | Some t \<Rightarrow> t),
       oe_sent_at := (if status = SENT then Some now else oe_sent_at r),
       oe_leased_by := (if status = SENT \<or> status = DEAD then None else oe_leased_by r),
       oe_leased_at := (if status = SENT \<or> status = DEAD then None else oe_leased_at r)\<rparr>"

definition settle_rows ::
  "uuid \<Rightarrow> string \<Rightarrow> outbox_status \<Rightarrow> datetime option \<Rightarrow> nat \<Rightarrow> string option \<Rightarrow> datetime
   \<Rightarrow> 'x platform_outbox_event_scheme list \<Rightarrow> bool \<times> 'x platform_outbox_event_scheme list" where
  "settle_rows i worker status available_at attempts last_error now rows =
     (length (filter (holds_lease i worker) rows) = 1,
      update_rows (holds_lease i worker) (settle_row status available_at attempts last_error now) rows)"

text \<open>The four functions of the database, by their SQL names.\<close>

definition claim_outbox_batch ::
  "string \<Rightarrow> int \<Rightarrow> int \<Rightarrow> datetime \<Rightarrow> (uuid \<Rightarrow> bool) \<Rightarrow> outbox_event list
   \<Rightarrow> relay_error + outbox_event list \<times> outbox_event list" where
  "claim_outbox_batch = claim_rows"

definition settle_outbox_event ::
  "uuid \<Rightarrow> string \<Rightarrow> outbox_status \<Rightarrow> datetime option \<Rightarrow> nat \<Rightarrow> string option \<Rightarrow> datetime
   \<Rightarrow> outbox_event list \<Rightarrow> bool \<times> outbox_event list" where
  "settle_outbox_event = settle_rows"

definition claim_platform_outbox_batch ::
  "string \<Rightarrow> int \<Rightarrow> int \<Rightarrow> datetime \<Rightarrow> (uuid \<Rightarrow> bool) \<Rightarrow> platform_outbox_event list
   \<Rightarrow> relay_error + platform_outbox_event list \<times> platform_outbox_event list" where
  "claim_platform_outbox_batch = claim_rows"

definition settle_platform_outbox_event ::
  "uuid \<Rightarrow> string \<Rightarrow> outbox_status \<Rightarrow> datetime option \<Rightarrow> nat \<Rightarrow> string option \<Rightarrow> datetime
   \<Rightarrow> platform_outbox_event list \<Rightarrow> bool \<times> platform_outbox_event list" where
  "settle_platform_outbox_event = settle_rows"

subsection \<open>The retry policy\<close>

text \<open>
  Durations in seconds are rational numbers.  Multiplying a float by a power of
  two is exact (or overflows to infinity, above every cap), so the rational
  product and the minimum agree with the floating-point ones; the conversion of
  \<^verbatim>\<open>2**attempts\<close> to a float raises from 1024 on.
\<close>

record relay_policy =
  rp_batch_size :: int
  rp_max_attempts :: nat
  rp_base_backoff_seconds :: rat
  rp_max_backoff_seconds :: rat
  rp_stale_lease_seconds :: int

definition default_policy :: relay_policy where
  "default_policy = \<lparr>rp_batch_size = 50, rp_max_attempts = 8, rp_base_backoff_seconds = 2,
     rp_max_backoff_seconds = 3600, rp_stale_lease_seconds = 300\<rparr>"

definition backoff_seconds :: "nat \<Rightarrow> relay_policy \<Rightarrow> relay_error + rat" where
  "backoff_seconds attempts policy =
     (if attempts \<ge> 1024 then Inl OverflowError
      else Inr (min (rp_base_backoff_seconds policy * 2 ^ attempts) (rp_max_backoff_seconds policy)))"

text \<open>\<^verbatim>\<open>timedelta(seconds=x)\<close>: to microseconds, rounding half to even.\<close>

definition round_half_even :: "rat \<Rightarrow> int" where
  "round_half_even x =
     (let f = \<lfloor>x\<rfloor>; r = x - of_int f in
      if r < 1 / 2 then f else if r > 1 / 2 then f + 1 else if even f then f else f + 1)"

definition timedelta_seconds :: "rat \<Rightarrow> int" where
  "timedelta_seconds x = round_half_even (x * 1000000)"

record claimed_platform_event =
  cl_id :: uuid
  cl_event_type :: string
  cl_payload :: json_object
  cl_attempts :: nat
  cl_correlation_id :: "string option"

record claimed_event = claimed_platform_event +
  cl_tenant_id :: uuid

record failure_outcome =
  fo_event_id :: uuid
  fo_attempts :: nat
  fo_dead_lettered :: bool
  fo_retry_at :: "datetime option"

definition typed_event :: "outbox_event \<Rightarrow> claimed_event" where
  "typed_event r = \<lparr>cl_id = oe_id r, cl_event_type = oe_event_type r, cl_payload = oe_payload r,
     cl_attempts = oe_attempts r, cl_correlation_id = oe_correlation_id r, cl_tenant_id = oe_tenant_id r\<rparr>"

definition typed_platform_event :: "platform_outbox_event \<Rightarrow> claimed_platform_event" where
  "typed_platform_event r = \<lparr>cl_id = oe_id r, cl_event_type = oe_event_type r, cl_payload = oe_payload r,
     cl_attempts = oe_attempts r, cl_correlation_id = oe_correlation_id r\<rparr>"

definition claim_batch ::
  "string \<Rightarrow> relay_policy \<Rightarrow> datetime \<Rightarrow> (uuid \<Rightarrow> bool) \<Rightarrow> outbox_event list
   \<Rightarrow> relay_error + claimed_event list \<times> outbox_event list" where
  "claim_batch worker policy now locked rows =
     bindr (claim_outbox_batch worker (rp_batch_size policy) (rp_stale_lease_seconds policy) now locked rows)
       (\<lambda>(claimed, rows'). Inr (map typed_event claimed, rows'))"

definition claim_platform_batch ::
  "string \<Rightarrow> relay_policy \<Rightarrow> datetime \<Rightarrow> (uuid \<Rightarrow> bool) \<Rightarrow> platform_outbox_event list
   \<Rightarrow> relay_error + claimed_platform_event list \<times> platform_outbox_event list" where
  "claim_platform_batch worker policy now locked rows =
     bindr (claim_platform_outbox_batch worker (rp_batch_size policy) (rp_stale_lease_seconds policy) now locked rows)
       (\<lambda>(claimed, rows'). Inr (map typed_platform_event claimed, rows'))"

definition ERR_MAX :: nat where "ERR_MAX = 500"

definition record_success ::
  "uuid \<Rightarrow> string \<Rightarrow> datetime \<Rightarrow> outbox_event list \<Rightarrow> bool \<times> outbox_event list" where
  "record_success event_id worker now rows = settle_outbox_event event_id worker SENT None 0 None now rows"

definition record_failure ::
  "uuid \<Rightarrow> string \<Rightarrow> nat \<Rightarrow> string \<Rightarrow> relay_policy \<Rightarrow> datetime \<Rightarrow> datetime
   \<Rightarrow> outbox_event list \<Rightarrow> relay_error + failure_outcome \<times> outbox_event list" where
  "record_failure event_id worker attempts error policy now py_now rows =
     (let next_attempts = attempts + 1; trimmed = take ERR_MAX error in
      if next_attempts \<ge> rp_max_attempts policy then
        Inr (\<lparr>fo_event_id = event_id, fo_attempts = next_attempts, fo_dead_lettered = True, fo_retry_at = None\<rparr>,
             snd (settle_outbox_event event_id worker DEAD None next_attempts (Some trimmed) now rows))
      else
        bindr (backoff_seconds attempts policy) (\<lambda>b.
          let retry_at = py_now + timedelta_seconds b in
          Inr (\<lparr>fo_event_id = event_id, fo_attempts = next_attempts, fo_dead_lettered = False,
                 fo_retry_at = Some retry_at\<rparr>,
               snd (settle_outbox_event event_id worker PENDING (Some retry_at) next_attempts (Some trimmed) now rows))))"

definition record_platform_success ::
  "uuid \<Rightarrow> string \<Rightarrow> datetime \<Rightarrow> platform_outbox_event list \<Rightarrow> bool \<times> platform_outbox_event list" where
  "record_platform_success event_id worker now rows =
     settle_platform_outbox_event event_id worker SENT None 0 None now rows"

definition record_platform_failure ::
  "uuid \<Rightarrow> string \<Rightarrow> nat \<Rightarrow> string \<Rightarrow> relay_policy \<Rightarrow> datetime \<Rightarrow> datetime
   \<Rightarrow> platform_outbox_event list \<Rightarrow> relay_error + failure_outcome \<times> platform_outbox_event list" where
  "record_platform_failure event_id worker attempts error policy now py_now rows =
     (let next_attempts = attempts + 1; trimmed = take ERR_MAX error in
      if next_attempts \<ge> rp_max_attempts policy then
        Inr (\<lparr>fo_event_id = event_id, fo_attempts = next_attempts, fo_dead_lettered = True, fo_retry_at = None\<rparr>,
             snd (settle_platform_outbox_event event_id worker DEAD None next_attempts (Some trimmed) now rows))
      else
        bindr (backoff_seconds attempts policy) (\<lambda>b.
          let retry_at = py_now + timedelta_seconds b in
          Inr (\<lparr>fo_event_id = event_id, fo_attempts = next_attempts, fo_dead_lettered = False,
                 fo_retry_at = Some retry_at\<rparr>,
               snd (settle_platform_outbox_event event_id worker PENDING (Some retry_at) next_attempts (Some trimmed) now rows))))"

subsection \<open>The workers\<close>

text \<open>
  A transport is supplied by the product: given the tenant its session is scoped
  to, the event and the tenant database, it delivers and returns the new database,
  or it raises (\<open>Inl\<close> of the exception's \<^verbatim>\<open>repr\<close>).  A failed delivery rolls its
  session back, so the world is as before.
\<close>

type_synonym 'w transport = "uuid \<Rightarrow> claimed_event \<Rightarrow> 'w \<Rightarrow> string + 'w"
type_synonym 'w platform_transport = "claimed_platform_event \<Rightarrow> 'w \<Rightarrow> string + 'w"

record 'w relay_state =
  rs_outbox :: "outbox_event list"
  rs_world :: 'w

record 'w platform_relay_state =
  ps_outbox :: "platform_outbox_event list"
  ps_world :: 'w

definition deliver_one ::
  "'w transport \<Rightarrow> string \<Rightarrow> relay_policy \<Rightarrow> datetime \<Rightarrow> datetime \<Rightarrow> claimed_event
   \<Rightarrow> 'w relay_state \<Rightarrow> relay_error + 'w relay_state" where
  "deliver_one transport worker policy now py_now event s =
     (case transport (cl_tenant_id event) event (rs_world s) of
        Inl exc \<Rightarrow>
          bindr (record_failure (cl_id event) worker (cl_attempts event) exc policy now py_now (rs_outbox s))
            (\<lambda>(_, rows). Inr (s\<lparr>rs_outbox := rows\<rparr>))
      | Inr w \<Rightarrow>
          Inr (s\<lparr>rs_world := w, rs_outbox := snd (record_success (cl_id event) worker now (rs_outbox s))\<rparr>))"

text \<open>\<open>clk i\<close>: the database clock and the worker clock at the \<open>i\<close>-th delivery.\<close>

fun deliver_all ::
  "'w transport \<Rightarrow> string \<Rightarrow> relay_policy \<Rightarrow> (nat \<Rightarrow> datetime \<times> datetime) \<Rightarrow> nat \<Rightarrow> claimed_event list
   \<Rightarrow> 'w relay_state \<Rightarrow> relay_error + 'w relay_state" where
  "deliver_all transport worker policy clk i [] s = Inr s"
| "deliver_all transport worker policy clk i (e # es) s =
     bindr (deliver_one transport worker policy (fst (clk i)) (snd (clk i)) e s)
       (\<lambda>s'. deliver_all transport worker policy clk (Suc i) es s')"

definition run_once ::
  "'w transport \<Rightarrow> string \<Rightarrow> relay_policy \<Rightarrow> datetime \<Rightarrow> (nat \<Rightarrow> datetime \<times> datetime) \<Rightarrow> (uuid \<Rightarrow> bool)
   \<Rightarrow> 'w relay_state \<Rightarrow> relay_error + nat \<times> 'w relay_state" where
  "run_once transport worker policy now clk locked s =
     bindr (claim_batch worker policy now locked (rs_outbox s)) (\<lambda>(claimed, rows).
     bindr (deliver_all transport worker policy clk 0 claimed (s\<lparr>rs_outbox := rows\<rparr>)) (\<lambda>s'.
     Inr (length claimed, s')))"

definition deliver_one_platform ::
  "'w platform_transport \<Rightarrow> string \<Rightarrow> relay_policy \<Rightarrow> datetime \<Rightarrow> datetime \<Rightarrow> claimed_platform_event
   \<Rightarrow> 'w platform_relay_state \<Rightarrow> relay_error + 'w platform_relay_state" where
  "deliver_one_platform transport worker policy now py_now event s =
     (case transport event (ps_world s) of
        Inl exc \<Rightarrow>
          bindr (record_platform_failure (cl_id event) worker (cl_attempts event) exc policy now py_now (ps_outbox s))
            (\<lambda>(_, rows). Inr (s\<lparr>ps_outbox := rows\<rparr>))
      | Inr w \<Rightarrow>
          Inr (s\<lparr>ps_world := w, ps_outbox := snd (record_platform_success (cl_id event) worker now (ps_outbox s))\<rparr>))"

fun deliver_all_platform ::
  "'w platform_transport \<Rightarrow> string \<Rightarrow> relay_policy \<Rightarrow> (nat \<Rightarrow> datetime \<times> datetime) \<Rightarrow> nat
   \<Rightarrow> claimed_platform_event list \<Rightarrow> 'w platform_relay_state \<Rightarrow> relay_error + 'w platform_relay_state" where
  "deliver_all_platform transport worker policy clk i [] s = Inr s"
| "deliver_all_platform transport worker policy clk i (e # es) s =
     bindr (deliver_one_platform transport worker policy (fst (clk i)) (snd (clk i)) e s)
       (\<lambda>s'. deliver_all_platform transport worker policy clk (Suc i) es s')"

definition run_once_platform ::
  "'w platform_transport \<Rightarrow> string \<Rightarrow> relay_policy \<Rightarrow> datetime \<Rightarrow> (nat \<Rightarrow> datetime \<times> datetime) \<Rightarrow> (uuid \<Rightarrow> bool)
   \<Rightarrow> 'w platform_relay_state \<Rightarrow> relay_error + nat \<times> 'w platform_relay_state" where
  "run_once_platform transport worker policy now clk locked s =
     bindr (claim_platform_batch worker policy now locked (ps_outbox s)) (\<lambda>(claimed, rows).
     bindr (deliver_all_platform transport worker policy clk 0 claimed (s\<lparr>ps_outbox := rows\<rparr>)) (\<lambda>s'.
     Inr (length claimed, s')))"

text \<open>
  \<^verbatim>\<open>run_forever\<close> polls until its stop flag is set: a list of polls, one per
  iteration up to the one that finds the flag set, each with its clocks and the
  rows locked by others.  An idle poll only sleeps.
\<close>

record poll =
  pl_now :: datetime
  pl_clock :: "nat \<Rightarrow> datetime \<times> datetime"
  pl_locked :: "uuid \<Rightarrow> bool"

fun run_forever ::
  "'w transport \<Rightarrow> string \<Rightarrow> relay_policy \<Rightarrow> poll list \<Rightarrow> 'w relay_state \<Rightarrow> relay_error + 'w relay_state" where
  "run_forever transport worker policy [] s = Inr s"
| "run_forever transport worker policy (p # ps) s =
     bindr (run_once transport worker policy (pl_now p) (pl_clock p) (pl_locked p) s)
       (\<lambda>(_, s'). run_forever transport worker policy ps s')"

fun run_forever_platform ::
  "'w platform_transport \<Rightarrow> string \<Rightarrow> relay_policy \<Rightarrow> poll list \<Rightarrow> 'w platform_relay_state
   \<Rightarrow> relay_error + 'w platform_relay_state" where
  "run_forever_platform transport worker policy [] s = Inr s"
| "run_forever_platform transport worker policy (p # ps) s =
     bindr (run_once_platform transport worker policy (pl_now p) (pl_clock p) (pl_locked p) s)
       (\<lambda>(_, s'). run_forever_platform transport worker policy ps s')"

subsection \<open>Claim and settle: facts over both tables\<close>

abbreviation ids :: "'x platform_outbox_event_scheme list \<Rightarrow> uuid list" where
  "ids rows \<equiv> map oe_id rows"

lemma lease_simps [simp]:
  "oe_id (lease w now r) = oe_id r" "oe_status (lease w now r) = CLAIMED"
  "oe_leased_by (lease w now r) = Some w" "oe_leased_at (lease w now r) = Some now"
  "oe_attempts (lease w now r) = oe_attempts r" "oe_available_at (lease w now r) = oe_available_at r"
  "oe_event_type (lease w now r) = oe_event_type r" "oe_payload (lease w now r) = oe_payload r"
  by (simp_all add: lease_def)

lemma settle_row_simps [simp]:
  "oe_id (settle_row st av a e now r) = oe_id r" "oe_status (settle_row st av a e now r) = st"
  "oe_attempts (settle_row st av a e now r) = a" "oe_last_error (settle_row st av a e now r) = e"
  "oe_event_type (settle_row st av a e now r) = oe_event_type r"
  "oe_payload (settle_row st av a e now r) = oe_payload r"
  by (simp_all add: settle_row_def)

lemma claim_ids_ready:
  assumes "i \<in> set (claim_ids b st now locked rows)"
  shows "\<exists>r \<in> set rows. oe_id r = i \<and> ready now st r \<and> \<not> locked i"
proof -
  let ?ready = "filter (\<lambda>r. ready now st r \<and> \<not> locked (oe_id r)) rows"
  from assms obtain r where "r \<in> set (take (nat b) (sort_key oe_available_at ?ready))" "oe_id r = i"
    by (auto simp: claim_ids_def)
  then have "r \<in> set ?ready" by (metis in_set_takeD set_sort)
  with \<open>oe_id r = i\<close> show ?thesis by auto
qed

lemma claim_ids_length: "length (claim_ids b st now locked rows) \<le> nat b"
  by (simp add: claim_ids_def)

lemma claim_ids_complete:
  assumes "length (filter (\<lambda>r. ready now st r \<and> \<not> locked (oe_id r)) rows) \<le> nat b"
    and "r \<in> set rows" "ready now st r" "\<not> locked (oe_id r)"
  shows "oe_id r \<in> set (claim_ids b st now locked rows)"
  using assms by (auto simp: claim_ids_def)

lemma claim_rows_Inr:
  "claim_rows w b st now locked rows = Inr (cl, rows') \<longleftrightarrow>
     0 \<le> b \<and> rows' = update_rows (\<lambda>r. oe_id r \<in> set (claim_ids b st now locked rows)) (lease w now) rows
     \<and> cl = filter (\<lambda>r. oe_id r \<in> set (claim_ids b st now locked rows)) rows'"
  by (auto simp: claim_rows_def Let_def)

lemma distinct_ids_eq:
  "distinct (ids rows) \<Longrightarrow> r \<in> set rows \<Longrightarrow> r' \<in> set rows \<Longrightarrow> oe_id r = oe_id r' \<Longrightarrow> r = r'"
  by (simp add: distinct_map inj_on_def)

lemma claim_rows_ids [simp]:
  "claim_rows w b st now locked rows = Inr (cl, rows') \<Longrightarrow> ids rows' = ids rows"
  by (simp add: claim_rows_Inr update_rows_keys)

lemma settle_rows_ids [simp]: "ids (snd (settle_rows i w st av a e now rows)) = ids rows"
  by (simp add: settle_rows_def update_rows_keys)

lemma claimed_row:
  assumes "claim_rows w b st now locked rows = Inr (cl, rows')" "distinct (ids rows)" "r' \<in> set cl"
  shows "\<exists>r \<in> set rows. r' = lease w now r \<and> ready now st r \<and> \<not> locked (oe_id r)"
proof -
  let ?sel = "\<lambda>r :: 'a platform_outbox_event_scheme. oe_id r \<in> set (claim_ids b st now locked rows)"
  from assms(1,3) have mem: "r' \<in> set (update_rows ?sel (lease w now) rows)" "?sel r'"
    by (auto simp: claim_rows_Inr)
  then obtain r where r: "r \<in> set rows" "r' = (if ?sel r then lease w now r else r)"
    by (auto simp: update_rows_set)
  with mem(2) have "?sel r" by (auto split: if_splits)
  moreover from this obtain q where "q \<in> set rows" "oe_id q = oe_id r" "ready now st q" "\<not> locked (oe_id r)"
    using claim_ids_ready by blast
  ultimately show ?thesis using r distinct_ids_eq [OF assms(2), of q r] by auto
qed

lemma claim_rows_row:
  assumes "claim_rows w b st now locked rows = Inr (cl, rows')" "distinct (ids rows)" "r' \<in> set rows'"
  shows "r' \<in> set rows \<or> (r' \<in> set cl \<and> (\<exists>r \<in> set rows. r' = lease w now r \<and> ready now st r))"
proof (cases "r' \<in> set cl")
  case True
  with claimed_row [OF assms(1,2)] show ?thesis by blast
next
  case False
  with assms(1,3) show ?thesis by (auto simp: claim_rows_Inr update_rows_set split: if_splits)
qed

lemma settle_rows_row:
  assumes "r' \<in> set (snd (settle_rows i w st av a e now rows))"
  shows "r' \<in> set rows \<or> (\<exists>r \<in> set rows. holds_lease i w r \<and> r' = settle_row st av a e now r)"
  using assms by (auto simp: settle_rows_def update_rows_set split: if_splits)

lemma settle_rows_not_holder:
  assumes "\<And>r. r \<in> set rows \<Longrightarrow> \<not> holds_lease i w r"
  shows "settle_rows i w st av a e now rows = (False, rows)"
proof -
  have "filter (holds_lease i w) rows = []" using assms by (simp add: filter_empty_conv)
  then show ?thesis using assms by (simp add: settle_rows_def update_rows_none)
qed

lemma settle_rows_holder:
  assumes "distinct (ids rows)" "r \<in> set rows" "holds_lease i w r"
  shows "fst (settle_rows i w st av a e now rows)"
    and "settle_row st av a e now r \<in> set (snd (settle_rows i w st av a e now rows))"
proof -
  have "filter (holds_lease i w) rows = [r]"
    using assms
  proof (induction rows)
    case (Cons x xs)
    show ?case
    proof (cases "x = r")
      case True
      have "\<not> holds_lease i w y" if "y \<in> set xs" for y
      proof
        assume "holds_lease i w y"
        with True Cons.prems(3) have "oe_id y = oe_id x" by (simp add: holds_lease_def)
        with that Cons.prems(1) show False by (metis distinct.simps(2) image_eqI list.set_map list.simps(9))
      qed
      then have "filter (holds_lease i w) xs = []" by (simp add: filter_empty_conv)
      with True Cons.prems(3) show ?thesis by simp
    next
      case False
      then have "r \<in> set xs" using Cons.prems(2) by simp
      then have "oe_id x \<noteq> oe_id r"
        using Cons.prems(1) by (metis distinct.simps(2) image_eqI list.set_map list.simps(9))
      then have "\<not> holds_lease i w x" using Cons.prems(3) by (auto simp: holds_lease_def)
      with \<open>r \<in> set xs\<close> Cons show ?thesis by simp
    qed
  qed simp
  then show "fst (settle_rows i w st av a e now rows)" by (simp add: settle_rows_def)
  show "settle_row st av a e now r \<in> set (snd (settle_rows i w st av a e now rows))"
    using assms(2,3) by (force simp: settle_rows_def update_rows_set)
qed

lemma record_failure_Inr:
  assumes "record_failure i w a err p now py rows = Inr (fo, rows')"
  obtains st av where "rows' = snd (settle_rows i w st av (Suc a) (Some (take ERR_MAX err)) now rows)"
    "st = (if Suc a \<ge> rp_max_attempts p then DEAD else PENDING)"
    "fo = \<lparr>fo_event_id = i, fo_attempts = Suc a, fo_dead_lettered = (st = DEAD), fo_retry_at = av\<rparr>"
    "av \<noteq> None \<longleftrightarrow> st = PENDING"
  using assms that
  by (auto simp: record_failure_def settle_outbox_event_def Let_def bindr_eq_Inr split: if_splits)

end
