(* ===== verification/Relay.thy ===== *)
theory Relay
  imports Outbox
begin

text \<open>
  The relay as a system: any number of workers claim, deliver, settle or crash, in
  any order, over one outbox table, while producers enqueue events and time
  passes.  Its reachable states satisfy the delivery contract of
  \<^verbatim>\<open>messaging/relay.py\<close>: at-least-once with one active claim per lease.
\<close>

subsection \<open>Leases\<close>

lemma claim_rows_total: "0 \<le> b \<Longrightarrow> \<exists>cl rows'. claim_rows w b st now locked rows = Inr (cl, rows')"
  by (simp add: claim_rows_def Let_def)


lemma claim_rows_other:
  assumes "claim_rows w b st now locked rows = Inr (cl, rows')"
    and "r \<in> set rows" and "oe_id r \<notin> set (ids cl)"
  shows "r \<in> set rows'"
proof -
  have "oe_id r \<notin> set (claim_ids b st now locked rows)"
  proof
    assume sel: "oe_id r \<in> set (claim_ids b st now locked rows)"
    then have "lease w now r \<in> set cl"
      using assms(1,2) by (auto simp: claim_rows_Inr update_rows_set)
    then have "oe_id (lease w now r) \<in> set (ids cl)" by (simp only: set_map image_eqI)
    with assms(3) show False by simp
  qed
  with assms(1,2) show ?thesis by (auto simp: claim_rows_Inr update_rows_set)
qed


definition sample_event :: "uuid \<Rightarrow> outbox_event" where
  "sample_event i = fst (enqueue_event i 0 7 ''invoice.issued'' None None [])"

lemmas claim_eval =
  sample_event_def enqueue_event_def claim_rows_def claim_ids_def ready_def lease_def microseconds_def
  Let_def


text \<open>
  A claim returns at most a batch of events, all of which were due or carried a
  stale lease and were not locked by another transaction; sent, dead and failed
  events are never claimed again, and rows outside the batch are untouched.
\<close>

theorem claim_only_ready:
  assumes "distinct (ids rows)" and "claim_rows w b stale now locked rows = Inr (cl, rows')"
  shows "length cl \<le> nat b
    \<and> (\<forall>r' \<in> set cl. \<exists>r \<in> set rows. r' = lease w now r \<and> ready now stale r \<and> \<not> locked (oe_id r)
         \<and> oe_status r \<in> {PENDING, CLAIMED})
    \<and> (\<forall>r \<in> set rows. oe_id r \<notin> set (ids cl) \<longrightarrow> r \<in> set rows')
    \<and> ids rows' = ids rows"
proof -
  have dr: "distinct (ids rows')" using assms by simp
  have dc: "distinct (ids cl)"
    using dr assms(2) by (auto simp: claim_rows_Inr distinct_map_filter)
  have sub: "set (ids cl) \<subseteq> set (claim_ids b stale now locked rows)"
    using assms(2) by (auto simp: claim_rows_Inr)
  have "length cl = card (set (ids cl))" using distinct_card [OF dc] by simp
  also have "\<dots> \<le> card (set (claim_ids b stale now locked rows))" using sub by (simp add: card_mono)
  also have "\<dots> \<le> nat b" using claim_ids_length card_length order_trans by metis
  finally have len: "length cl \<le> nat b" .
  have "r \<in> set rows'" if "r \<in> set rows" "oe_id r \<notin> set (ids cl)" for r
    using claim_rows_other [OF assms(2) that] .
  moreover have "\<exists>r \<in> set rows. r' = lease w now r \<and> ready now stale r \<and> \<not> locked (oe_id r)
      \<and> oe_status r \<in> {PENDING, CLAIMED}" if "r' \<in> set cl" for r'
    using claimed_row [OF assms(2,1) that] by (auto simp: ready_def)
  ultimately show ?thesis using len claim_rows_ids [OF assms(2)] by blast
qed

theorem claim_only_ready_witness:
  "\<exists>cl rows'. claim_rows ''w1'' 1 300 5 (\<lambda>i. i = 1) [sample_event 1, sample_event 2] = Inr (cl, rows')
     \<and> ids cl = [2] \<and> length cl \<le> nat 1"
proof -
  obtain cl rows' where c: "claim_rows ''w1'' 1 300 5 (\<lambda>i. i = 1) [sample_event 1, sample_event 2] = Inr (cl, rows')"
    by (metis claim_rows_total zero_le_one)
  have "ids (fst (projr (claim_rows ''w1'' 1 300 5 (\<lambda>i. i = 1) [sample_event 1, sample_event 2]))) = [2]"
    by (simp add: claim_eval)
  with c have i: "ids cl = [2]" by simp
  have "length cl \<le> nat 1"
    using claim_only_ready [OF _ c] by (simp add: sample_event_def enqueue_event_def Let_def)
  show ?thesis by (intro exI conjI) (rule c, rule i, fact)
qed



lemma settle_guarded_by_lease_eq:
  assumes "distinct (ids rows)"
  shows "settle_rows i w st av a e now rows =
    (if \<exists>r \<in> set rows. holds_lease i w r
     then (True, map (\<lambda>r. if oe_id r = i then settle_row st av a e now r else r) rows)
     else (False, rows))"
proof (cases "\<exists>r \<in> set rows. holds_lease i w r")
  case True
  then obtain r where r: "r \<in> set rows" "holds_lease i w r" by blast
  have "holds_lease i w q \<longleftrightarrow> oe_id q = i" if "q \<in> set rows" for q
    using that r distinct_ids_eq [OF assms, of q r] by (auto simp: holds_lease_def)
  then have "snd (settle_rows i w st av a e now rows) =
      map (\<lambda>r. if oe_id r = i then settle_row st av a e now r else r) rows"
    by (simp add: settle_rows_def update_rows_def)
  moreover have "fst (settle_rows i w st av a e now rows)" by (rule settle_rows_holder(1) [OF assms r])
  ultimately show ?thesis using True by (auto intro: prod_eqI)
next
  case False
  then show ?thesis by (simp add: settle_rows_not_holder)
qed



subsection \<open>Backoff\<close>

lemma backoff_Inr:
  "backoff_seconds a p = Inr b \<longleftrightarrow>
     a < 1024 \<and> b = min (rp_base_backoff_seconds p * 2 ^ a) (rp_max_backoff_seconds p)"
  by (auto simp: backoff_seconds_def)

lemma round_half_even_mono: "x \<le> y \<Longrightarrow> round_half_even x \<le> round_half_even y"
proof -
  assume le: "x \<le> y"
  show ?thesis
  proof (cases "\<lfloor>x\<rfloor> = \<lfloor>y\<rfloor>")
    case True
    with le show ?thesis by (auto simp: round_half_even_def Let_def)
  next
    case False
    with le have "\<lfloor>x\<rfloor> + 1 \<le> \<lfloor>y\<rfloor>" using floor_mono [OF le] by linarith
    moreover have "round_half_even x \<le> \<lfloor>x\<rfloor> + 1" "\<lfloor>y\<rfloor> \<le> round_half_even y"
      by (auto simp: round_half_even_def Let_def)
    ultimately show ?thesis by linarith
  qed
qed

lemma round_half_even_int [simp]: "round_half_even (of_int n) = n"
  by (simp add: round_half_even_def)

text \<open>
  C19. The backoff is a capped exponential: the delay before the next attempt is
  non-negative, grows with the number of attempts and never exceeds the cap, for
  every policy with non-negative base and cap.
\<close>

theorem backoff_capped_monotone:
  assumes "0 \<le> rp_base_backoff_seconds p" "0 \<le> rp_max_backoff_seconds p"
    and "backoff_seconds a p = Inr x" "backoff_seconds a' p = Inr y" "a \<le> a'"
  shows "0 \<le> timedelta_seconds x \<and> timedelta_seconds x \<le> timedelta_seconds y
    \<and> timedelta_seconds y \<le> timedelta_seconds (rp_max_backoff_seconds p)"
proof -
  have "rp_base_backoff_seconds p * 2 ^ a \<le> rp_base_backoff_seconds p * 2 ^ a'"
    using assms(1,5) by (intro mult_left_mono power_increasing) auto
  then have xy: "0 \<le> x" "x \<le> y" "y \<le> rp_max_backoff_seconds p"
    using assms by (auto simp: backoff_Inr)
  then have "round_half_even (of_int 0) \<le> round_half_even (x * 1000000)"
    by (intro round_half_even_mono) simp
  then have "0 \<le> round_half_even (x * 1000000)" by (simp only: round_half_even_int)
  then show ?thesis
    using xy round_half_even_mono [of "x * 1000000" "y * 1000000"]
      round_half_even_mono [of "y * 1000000" "rp_max_backoff_seconds p * 1000000"]
    by (simp add: timedelta_seconds_def)
qed

theorem backoff_capped_monotone_witness:
  "backoff_seconds 3 default_policy = Inr 16 \<and> timedelta_seconds 16 \<le> timedelta_seconds 3600"
proof -
  have x: "backoff_seconds 3 default_policy = Inr 16"
    and y: "backoff_seconds 20 default_policy = Inr 3600"
    by (simp_all add: backoff_seconds_def default_policy_def)
  show ?thesis
    using x backoff_capped_monotone [OF _ _ x y] by (simp add: default_policy_def)
qed

subsection \<open>One pass of a worker\<close>

text \<open>Which of the events a pass delivers, in order: the transport sees the world its predecessors left.\<close>

fun pass_outcomes :: "'w transport \<Rightarrow> claimed_event list \<Rightarrow> 'w \<Rightarrow> (claimed_event \<times> bool) list" where
  "pass_outcomes tr [] wd = []"
| "pass_outcomes tr (e # es) wd = (case tr (cl_tenant_id e) e wd of
     Inl _ \<Rightarrow> (e, False) # pass_outcomes tr es wd
   | Inr wd' \<Rightarrow> (e, True) # pass_outcomes tr es wd')"

lemma pass_outcomes_events: "map fst (pass_outcomes tr es wd) = es"
  by (induction es arbitrary: wd) (auto split: sum.splits)

definition settled_status :: "relay_policy \<Rightarrow> claimed_event \<Rightarrow> bool \<Rightarrow> outbox_status" where
  "settled_status p e delivered =
     (if delivered then SENT else if Suc (cl_attempts e) \<ge> rp_max_attempts p then DEAD else PENDING)"

definition settled_attempts :: "claimed_event \<Rightarrow> bool \<Rightarrow> nat" where
  "settled_attempts e delivered = (if delivered then 0 else Suc (cl_attempts e))"

lemma deliver_one_Inr:
  assumes "deliver_one tr w p now py e s = Inr s'" and "distinct (ids (rs_outbox s))"
    and "\<exists>r \<in> set (rs_outbox s). holds_lease (cl_id e) w r"
  shows "\<exists>av err. rs_outbox s' = map (\<lambda>r. if oe_id r = cl_id e
             then settle_row (settled_status p e (\<exists>x. tr (cl_tenant_id e) e (rs_world s) = Inr x)) av
                    (settled_attempts e (\<exists>x. tr (cl_tenant_id e) e (rs_world s) = Inr x)) err now r
             else r) (rs_outbox s)
    \<and> rs_world s' = (case tr (cl_tenant_id e) e (rs_world s) of Inl _ \<Rightarrow> rs_world s | Inr wd \<Rightarrow> wd)"
proof (cases "tr (cl_tenant_id e) e (rs_world s)")
  case (Inl exc)
  then obtain fo rows where f: "record_failure (cl_id e) w (cl_attempts e) exc p now py (rs_outbox s) = Inr (fo, rows)"
    and s': "s' = s\<lparr>rs_outbox := rows\<rparr>"
    using assms(1) by (auto simp: deliver_one_def bindr_eq_Inr)
  from f show ?thesis
  proof (rule record_failure_Inr)
    fix st av
    assume "rows = snd (settle_rows (cl_id e) w st av (Suc (cl_attempts e)) (Some (take ERR_MAX exc)) now (rs_outbox s))"
      and "st = (if Suc (cl_attempts e) \<ge> rp_max_attempts p then DEAD else PENDING)"
    with s' Inl assms(3) settle_guarded_by_lease_eq [OF assms(2)] show ?thesis
      by (auto simp: settled_status_def settled_attempts_def)
  qed
next
  case (Inr wd)
  with assms show ?thesis
    by (intro exI [of _ None])
      (auto simp: deliver_one_def record_success_def settle_outbox_event_def
        settle_guarded_by_lease_eq settled_status_def settled_attempts_def)
qed

definition row_settled :: "relay_policy \<Rightarrow> outbox_event list \<Rightarrow> claimed_event \<times> bool \<Rightarrow> bool" where
  "row_settled p rows eo \<longleftrightarrow> (\<exists>r \<in> set rows. oe_id r = cl_id (fst eo)
     \<and> oe_status r = settled_status p (fst eo) (snd eo) \<and> oe_attempts r = settled_attempts (fst eo) (snd eo))"

lemma deliver_all_settles:
  assumes "deliver_all tr w p clk n es s = Inr s'"
    and "distinct (ids (rs_outbox s))" and "distinct (map cl_id es)"
    and "\<And>e. e \<in> set es \<Longrightarrow> \<exists>r \<in> set (rs_outbox s). holds_lease (cl_id e) w r"
  shows "ids (rs_outbox s') = ids (rs_outbox s)
    \<and> (\<forall>r \<in> set (rs_outbox s). oe_id r \<notin> cl_id ` set es \<longrightarrow> r \<in> set (rs_outbox s'))
    \<and> (\<forall>eo \<in> set (pass_outcomes tr es (rs_world s)). row_settled p (rs_outbox s') eo)"
  using assms
proof (induction es arbitrary: n s)
  case Nil
  then show ?case by simp
next
  case (Cons e es)
  obtain s1 where s1: "deliver_one tr w p (fst (clk n)) (snd (clk n)) e s = Inr s1"
    and rest: "deliver_all tr w p clk (Suc n) es s1 = Inr s'"
    using Cons.prems(1) by (auto simp: bindr_eq_Inr)
  let ?ok = "\<exists>x. tr (cl_tenant_id e) e (rs_world s) = Inr x"
  have lease: "\<exists>r \<in> set (rs_outbox s). holds_lease (cl_id e) w r" using Cons.prems(4) by simp
  obtain av err where rows1: "rs_outbox s1 = map (\<lambda>r. if oe_id r = cl_id e
        then settle_row (settled_status p e ?ok) av (settled_attempts e ?ok) err (fst (clk n)) r else r) (rs_outbox s)"
    and wd1: "rs_world s1 = (case tr (cl_tenant_id e) e (rs_world s) of Inl _ \<Rightarrow> rs_world s | Inr wd \<Rightarrow> wd)"
    using deliver_one_Inr [OF s1 Cons.prems(2) lease] by blast
  have ids1: "ids (rs_outbox s1) = ids (rs_outbox s)" by (simp add: rows1)
  have other: "r \<in> set (rs_outbox s1)" if "r \<in> set (rs_outbox s)" "oe_id r \<noteq> cl_id e" for r
    using that by (force simp: rows1)
  have IH: "ids (rs_outbox s') = ids (rs_outbox s1)
    \<and> (\<forall>r \<in> set (rs_outbox s1). oe_id r \<notin> cl_id ` set es \<longrightarrow> r \<in> set (rs_outbox s'))
    \<and> (\<forall>eo \<in> set (pass_outcomes tr es (rs_world s1)). row_settled p (rs_outbox s') eo)"
  proof (rule Cons.IH [OF rest])
    show "distinct (ids (rs_outbox s1))" "distinct (map cl_id es)" using Cons.prems ids1 by auto
    fix e' assume e': "e' \<in> set es"
    then obtain r where r: "r \<in> set (rs_outbox s)" "holds_lease (cl_id e') w r"
      using Cons.prems(4) [of e'] by auto
    moreover have "cl_id e' \<noteq> cl_id e" using e' Cons.prems(3) by (metis distinct.simps(2) image_eqI list.set_map list.simps(9))
    ultimately show "\<exists>r \<in> set (rs_outbox s1). holds_lease (cl_id e') w r"
      using other by (auto simp: holds_lease_def)
  qed
  obtain r0 where r0: "r0 \<in> set (rs_outbox s)" "oe_id r0 = cl_id e" using lease by (auto simp: holds_lease_def)
  let ?r1 = "settle_row (settled_status p e ?ok) av (settled_attempts e ?ok) err (fst (clk n)) r0"
  have "?r1 \<in> set (rs_outbox s1)" using r0 by (force simp: rows1)
  moreover have "oe_id ?r1 \<notin> cl_id ` set es" using r0 Cons.prems(3) by auto
  ultimately have "?r1 \<in> set (rs_outbox s')" using IH by blast
  then have "row_settled p (rs_outbox s') (e, ?ok)"
    unfolding row_settled_def by (rule bexI [rotated]) (simp add: r0)
  then have "\<forall>eo \<in> set (pass_outcomes tr (e # es) (rs_world s)). row_settled p (rs_outbox s') eo"
    using IH by (auto simp: wd1 split: sum.splits)
  then show ?case using IH ids1 other by auto
qed

lemma deliver_all_total:
  assumes "rp_max_attempts p \<le> 1025"
  shows "\<exists>s'. deliver_all tr w p clk n es s = Inr s'"
proof (induction es arbitrary: n s)
  case Nil
  show ?case by simp
next
  case (Cons e es)
  have "\<exists>fo rows. record_failure i w a err p now py rows0 = Inr (fo, rows)" for i a err now py rows0
    using assms by (auto simp: record_failure_def Let_def backoff_seconds_def)
  then have "\<exists>s1. deliver_one tr w p (fst (clk n)) (snd (clk n)) e s = Inr s1"
    by (auto simp: deliver_one_def bindr_def split: sum.splits) (metis sum.distinct(1))
  with Cons show ?case by auto
qed

lemma claim_batch_Inr:
  "claim_batch w p now locked rows = Inr (cl, rows') \<longleftrightarrow>
     (\<exists>claimed. claim_rows w (rp_batch_size p) (rp_stale_lease_seconds p) now locked rows = Inr (claimed, rows')
        \<and> cl = map typed_event claimed)"
  by (auto simp: claim_batch_def claim_outbox_batch_def bindr_eq_Inr)

lemma typed_event_simps [simp]:
  "cl_id (typed_event r) = oe_id r" "cl_attempts (typed_event r) = oe_attempts r"
  "cl_tenant_id (typed_event r) = oe_tenant_id r"
  by (simp_all add: typed_event_def)




subsection \<open>The relay as a state machine\<close>

text \<open>
  The state holds the clock, the table, the events each worker holds in memory
  between its claim and its settlement, and the identifiers of the events some
  transport delivered.  A worker can crash before or after its delivery commits.
\<close>

record relay_sys =
  sy_now :: datetime
  sy_rows :: "outbox_event list"
  sy_inflight :: "(string \<times> claimed_event) list"
  sy_delivered :: "uuid list"

definition relay_init :: relay_sys where
  "relay_init = \<lparr>sy_now = 0, sy_rows = [], sy_inflight = [], sy_delivered = []\<rparr>"

inductive relay_step :: "relay_policy \<Rightarrow> relay_sys \<Rightarrow> relay_sys \<Rightarrow> bool" for p where
  tick: "0 \<le> dt \<Longrightarrow> relay_step p s (s\<lparr>sy_now := sy_now s + dt\<rparr>)"
| enqueue: "i \<notin> set (ids (sy_rows s)) \<Longrightarrow>
    relay_step p s (s\<lparr>sy_rows := snd (enqueue_event i (sy_now s) t ty pl co (sy_rows s))\<rparr>)"
| claim: "claim_batch w p (sy_now s) locked (sy_rows s) = Inr (cl, rows) \<Longrightarrow>
    relay_step p s (s\<lparr>sy_rows := rows, sy_inflight := map (Pair w) cl @ sy_inflight s\<rparr>)"
| deliver_ok: "(w, e) \<in> set (sy_inflight s) \<Longrightarrow>
    relay_step p s (s\<lparr>sy_rows := snd (record_success (cl_id e) w (sy_now s) (sy_rows s)),
      sy_inflight := remove1 (w, e) (sy_inflight s), sy_delivered := cl_id e # sy_delivered s\<rparr>)"
| deliver_fail: "(w, e) \<in> set (sy_inflight s) \<Longrightarrow>
    record_failure (cl_id e) w (cl_attempts e) err p (sy_now s) py_now (sy_rows s) = Inr (fo, rows) \<Longrightarrow>
    relay_step p s (s\<lparr>sy_rows := rows, sy_inflight := remove1 (w, e) (sy_inflight s)\<rparr>)"
| crash_before: "(w, e) \<in> set (sy_inflight s) \<Longrightarrow>
    relay_step p s (s\<lparr>sy_inflight := remove1 (w, e) (sy_inflight s)\<rparr>)"
| crash_after: "(w, e) \<in> set (sy_inflight s) \<Longrightarrow>
    relay_step p s (s\<lparr>sy_inflight := remove1 (w, e) (sy_inflight s), sy_delivered := cl_id e # sy_delivered s\<rparr>)"

inductive relay_reachable :: "relay_policy \<Rightarrow> relay_sys \<Rightarrow> bool" for p where
  init: "relay_reachable p relay_init"
| step: "relay_reachable p s \<Longrightarrow> relay_step p s t \<Longrightarrow> relay_reachable p t"

definition row_ok :: "relay_policy \<Rightarrow> relay_sys \<Rightarrow> outbox_event \<Rightarrow> bool" where
  "row_ok p s r = (case oe_status r of
     PENDING \<Rightarrow> oe_attempts r < rp_max_attempts p
   | CLAIMED \<Rightarrow> oe_attempts r < rp_max_attempts p \<and> (\<exists>t. oe_leased_at r = Some t \<and> t \<le> sy_now s)
   | SENT \<Rightarrow> oe_id r \<in> set (sy_delivered s) \<and> oe_leased_by r = None
   | DEAD \<Rightarrow> oe_attempts r = rp_max_attempts p \<and> oe_leased_by r = None
   | FAILED \<Rightarrow> False)"

definition relay_inv :: "relay_policy \<Rightarrow> relay_sys \<Rightarrow> bool" where
  "relay_inv p s \<longleftrightarrow> distinct (ids (sy_rows s)) \<and> (\<forall>r \<in> set (sy_rows s). row_ok p s r)
     \<and> (\<forall>(w, e) \<in> set (sy_inflight s). cl_attempts e < rp_max_attempts p)"

lemma relay_inv_init: "relay_inv p relay_init"
  by (simp add: relay_inv_def relay_init_def)

lemma row_ok_later:
  assumes "row_ok p s r" and "sy_now s \<le> sy_now t" and "set (sy_delivered s) \<subseteq> set (sy_delivered t)"
  shows "row_ok p t r"
  using assms by (cases "oe_status r") (auto simp: row_ok_def)

lemma row_ok_lease:
  assumes "row_ok p s r" "ready now stale r" "now = sy_now s"
  shows "row_ok p s (lease w now r)"
  using assms by (auto simp: row_ok_def ready_def)

lemma row_ok_sent:
  assumes "oe_id r \<in> set (sy_delivered s)"
  shows "row_ok p s (settle_row SENT av a e now r)"
  using assms by (simp add: row_ok_def settle_row_def)

lemma row_ok_failed:
  assumes "a < rp_max_attempts p" "st = (if Suc a \<ge> rp_max_attempts p then DEAD else PENDING)"
  shows "row_ok p s (settle_row st av (Suc a) e now r)"
  using assms by (auto simp: row_ok_def settle_row_def)

lemma set_remove1_in: "x \<in> set (remove1 y xs) \<Longrightarrow> x \<in> set xs"
  using set_remove1_subset [of y xs] by blast

lemma relay_step_inv:
  assumes "relay_step p s t" and "relay_inv p s" and "0 < rp_max_attempts p"
  shows "relay_inv p t"
  using assms
proof (induction rule: relay_step.induct)
  case (tick dt s)
  then show ?case by (auto simp: relay_inv_def intro: row_ok_later)
next
  case (enqueue i s t ty pl co)
  let ?e = "fst (enqueue_event i (sy_now s) t ty pl co (sy_rows s))"
  have rows: "snd (enqueue_event i (sy_now s) t ty pl co (sy_rows s)) = sy_rows s @ [?e]"
    and new: "oe_id ?e = i" "oe_status ?e = PENDING" "oe_attempts ?e = 0"
    by (simp_all add: enqueue_event_def Let_def)
  have "row_ok p s' ?e" for s' using new enqueue.prems by (simp add: row_ok_def)
  moreover have "row_ok p (s\<lparr>sy_rows := rs\<rparr>) r" if "r \<in> set (sy_rows s)" for r rs
    using that enqueue.prems row_ok_later [of p s r "s\<lparr>sy_rows := rs\<rparr>"] by (simp add: relay_inv_def)
  ultimately show ?case using enqueue new by (auto simp: relay_inv_def rows)
next
  case (claim w s locked cl rows)
  then obtain claimed where c: "claim_rows w (rp_batch_size p) (rp_stale_lease_seconds p) (sy_now s) locked (sy_rows s)
      = Inr (claimed, rows)" and cl: "cl = map typed_event claimed" by (auto simp: claim_batch_Inr)
  let ?t = "s\<lparr>sy_rows := rows, sy_inflight := map (Pair w) cl @ sy_inflight s\<rparr>"
  have d: "distinct (ids (sy_rows s))" and ok: "\<And>r. r \<in> set (sy_rows s) \<Longrightarrow> row_ok p s r"
    using claim.prems by (auto simp: relay_inv_def)
  have keep: "row_ok p ?t r" if "row_ok p s r" for r by (rule row_ok_later [OF that]) simp_all
  have "row_ok p ?t r'" if "r' \<in> set rows" for r'
    using claim_rows_row [OF c d that] ok keep row_ok_lease [of p s _ "sy_now s"] by blast
  moreover have "oe_attempts r < rp_max_attempts p" if "r \<in> set claimed" for r
    using claimed_row [OF c d that] ok by (force simp: row_ok_def ready_def)
  ultimately show ?case using claim.prems c cl d by (auto simp: relay_inv_def)
next
  case (deliver_ok w e s)
  let ?rows = "snd (record_success (cl_id e) w (sy_now s) (sy_rows s))"
  let ?t = "s\<lparr>sy_rows := ?rows, sy_inflight := remove1 (w, e) (sy_inflight s), sy_delivered := cl_id e # sy_delivered s\<rparr>"
  have "row_ok p ?t r'" if r': "r' \<in> set ?rows" for r'
    using settle_rows_row [OF r' [unfolded record_success_def settle_outbox_event_def]]
  proof
    assume "r' \<in> set (sy_rows s)"
    with deliver_ok.prems have "row_ok p s r'" by (simp add: relay_inv_def)
    then show ?thesis by (rule row_ok_later) auto
  next
    assume "\<exists>r \<in> set (sy_rows s). holds_lease (cl_id e) w r \<and> r' = settle_row SENT None 0 None (sy_now s) r"
    then show ?thesis by (auto simp: holds_lease_def intro: row_ok_sent)
  qed
  then show ?case using deliver_ok.prems
    by (auto simp: relay_inv_def record_success_def settle_outbox_event_def dest: set_remove1_in)
next
  case (deliver_fail w e s err py_now fo rows)
  let ?t = "s\<lparr>sy_rows := rows, sy_inflight := remove1 (w, e) (sy_inflight s)\<rparr>"
  from deliver_fail(2) obtain st av where
    rows: "rows = snd (settle_rows (cl_id e) w st av (Suc (cl_attempts e)) (Some (take ERR_MAX err)) (sy_now s) (sy_rows s))"
    and st: "st = (if Suc (cl_attempts e) \<ge> rp_max_attempts p then DEAD else PENDING)"
    by (rule record_failure_Inr)
  have a: "cl_attempts e < rp_max_attempts p" using deliver_fail by (auto simp: relay_inv_def)
  have "row_ok p ?t r'" if r': "r' \<in> set rows" for r'
    using settle_rows_row [OF r' [unfolded rows]]
  proof
    assume "r' \<in> set (sy_rows s)"
    with deliver_fail.prems have "row_ok p s r'" by (simp add: relay_inv_def)
    then show ?thesis by (rule row_ok_later) auto
  qed (auto intro: row_ok_failed [OF a st])
  then show ?case using deliver_fail.prems
    by (auto simp: relay_inv_def rows dest: set_remove1_in)
next
  case (crash_before w e s)
  then show ?case by (auto simp: relay_inv_def dest: set_remove1_in intro: row_ok_later)
next
  case (crash_after w e s)
  then show ?case by (auto simp: relay_inv_def dest: set_remove1_in intro: row_ok_later)
qed

lemma relay_reachable_inv: "relay_reachable p s \<Longrightarrow> 0 < rp_max_attempts p \<Longrightarrow> relay_inv p s"
  by (induction rule: relay_reachable.induct) (auto intro: relay_inv_init relay_step_inv)

lemma relay_step_keeps_ids: "relay_step p s t \<Longrightarrow> set (ids (sy_rows s)) \<subseteq> set (ids (sy_rows t))"
proof (induction rule: relay_step.induct)
  case (claim w s locked cl rows)
  then have "ids rows = ids (sy_rows s)" by (auto simp: claim_batch_Inr)
  then have "set (ids rows) = set (ids (sy_rows s))" by (rule arg_cong)
  then show ?case by simp
next
  case (deliver_fail w e s err py_now fo rows)
  from deliver_fail(2) have "ids rows = ids (sy_rows s)" by (elim record_failure_Inr) (simp only: settle_rows_ids)
  then have "set (ids rows) = set (ids (sy_rows s))" by (rule arg_cong)
  then show ?case by simp
next
  case (deliver_ok w e s)
  have "ids (snd (record_success (cl_id e) w (sy_now s) (sy_rows s))) = ids (sy_rows s)"
    by (simp add: record_success_def settle_outbox_event_def)
  then have "set (ids (snd (record_success (cl_id e) w (sy_now s) (sy_rows s)))) = set (ids (sy_rows s))" by (rule arg_cong)
  then show ?case by simp
qed (auto simp: enqueue_event_def Let_def)


lemma relay_steps_keep_ids: "(relay_step p)\<^sup>*\<^sup>* s t \<Longrightarrow> set (ids (sy_rows s)) \<subseteq> set (ids (sy_rows t))"
  by (induction rule: rtranclp_induct) (use relay_step_keeps_ids in blast)+

lemma relay_reachable_steps: "(relay_step p)\<^sup>*\<^sup>* s t \<Longrightarrow> relay_reachable p s \<Longrightarrow> relay_reachable p t"
  by (induction rule: rtranclp_induct) (auto intro: relay_reachable.step)

lemma sample_reachable: "relay_reachable p (relay_init\<lparr>sy_rows := [sample_event 1]\<rparr>)"
proof -
  have "relay_step p relay_init (relay_init\<lparr>sy_rows :=
      snd (enqueue_event 1 (sy_now relay_init) 7 ''invoice.issued'' None None (sy_rows relay_init))\<rparr>)"
    by (rule relay_step.enqueue) (simp add: relay_init_def)
  moreover have "snd (enqueue_event 1 (sy_now relay_init) 7 ''invoice.issued'' None None (sy_rows relay_init)) = [sample_event 1]"
    by (simp add: relay_init_def sample_event_def enqueue_event_def Let_def)
  ultimately show ?thesis using relay_reachable.step [OF relay_reachable.init] by metis
qed



lemma claim_single:
  assumes "ready now stale r" and "b \<ge> 1"
  shows "claim_rows w b stale now (\<lambda>_. False) [r] = Inr ([lease w now r], [lease w now r])"
  using assms by (simp add: claim_rows_def claim_ids_def Let_def)

lemma crash_cycle:
  assumes "relay_reachable p s" and "sy_rows s = [r]" and "ready (sy_now s) (rp_stale_lease_seconds p) r"
    and "rp_batch_size p \<ge> 1" and "0 \<le> rp_stale_lease_seconds p" and "sy_inflight s = []"
  shows "\<exists>t r'. relay_reachable p t \<and> sy_rows t = [r'] \<and> ready (sy_now t) (rp_stale_lease_seconds p) r'
    \<and> sy_inflight t = [] \<and> oe_attempts r' = oe_attempts r \<and> oe_id r' = oe_id r
    \<and> sy_delivered t = oe_id r # sy_delivered s \<and> oe_status r' = CLAIMED"
proof -
  let ?e = "typed_event (lease ''w'' (sy_now s) r)"
  let ?s1 = "s\<lparr>sy_rows := [lease ''w'' (sy_now s) r], sy_inflight := map (Pair ''w'') [?e] @ sy_inflight s\<rparr>"
  have "claim_batch ''w'' p (sy_now s) (\<lambda>_. False) (sy_rows s) = Inr ([?e], [lease ''w'' (sy_now s) r])"
    using claim_single [OF assms(3,4)] assms(2) by (auto simp: claim_batch_Inr)
  then have 1: "relay_reachable p ?s1" by (intro relay_reachable.step [OF assms(1)] relay_step.claim)
  let ?s2 = "?s1\<lparr>sy_inflight := remove1 (''w'', ?e) (sy_inflight ?s1), sy_delivered := cl_id ?e # sy_delivered ?s1\<rparr>"
  have 2: "relay_reachable p ?s2" by (rule relay_reachable.step [OF 1], rule relay_step.crash_after) simp
  let ?d = "microseconds (rp_stale_lease_seconds p) + 1"
  let ?s3 = "?s2\<lparr>sy_now := sy_now ?s2 + ?d\<rparr>"
  have 3: "relay_reachable p ?s3"
    by (rule relay_reachable.step [OF 2], rule relay_step.tick) (use assms(5) in \<open>simp add: microseconds_def\<close>)
  moreover have "ready (sy_now ?s3) (rp_stale_lease_seconds p) (lease ''w'' (sy_now s) r)"
    by (simp add: ready_def)
  ultimately show ?thesis
    using assms(6) by (intro exI [of _ ?s3] exI [of _ "lease ''w'' (sy_now s) r"]) simp
qed

text \<open>
  C20. Redelivery after a crash is not counted: for every \<open>n\<close> there is a run in which
  workers deliver one event \<open>n\<close> times and crash before settling it, and the event is
  still claimable with zero attempts. The bound on retries counts recorded failures
  only; an event whose delivery kills its worker is retried without limit.
\<close>

theorem crash_redelivery_unbounded:
  "\<exists>s r. relay_reachable default_policy s \<and> sy_rows s = [r] \<and> length (sy_delivered s) = n
     \<and> set (sy_delivered s) \<subseteq> {oe_id r} \<and> oe_attempts r = 0
     \<and> ready (sy_now s) (rp_stale_lease_seconds default_policy) r"
proof -
  have "\<exists>s r. relay_reachable default_policy s \<and> sy_rows s = [r] \<and> sy_inflight s = []
     \<and> length (sy_delivered s) = n \<and> set (sy_delivered s) \<subseteq> {oe_id r} \<and> oe_attempts r = 0
     \<and> ready (sy_now s) (rp_stale_lease_seconds default_policy) r"
  proof (induction n)
    case 0
    have "ready 0 300 (sample_event 1)" "oe_attempts (sample_event 1) = 0"
      by (simp_all add: claim_eval)
    then show ?case
      using sample_reachable [of default_policy]
      by (intro exI [of _ "relay_init\<lparr>sy_rows := [sample_event 1]\<rparr>"] exI [of _ "sample_event 1"])
        (simp add: relay_init_def default_policy_def)
  next
    case (Suc n)
    then obtain s r where s: "relay_reachable default_policy s" "sy_rows s = [r]" "sy_inflight s = []"
      "length (sy_delivered s) = n" "set (sy_delivered s) \<subseteq> {oe_id r}" "oe_attempts r = 0"
      "ready (sy_now s) (rp_stale_lease_seconds default_policy) r" by blast
    have "\<exists>t r'. relay_reachable default_policy t \<and> sy_rows t = [r'] \<and> ready (sy_now t) (rp_stale_lease_seconds default_policy) r'
      \<and> sy_inflight t = [] \<and> oe_attempts r' = oe_attempts r \<and> oe_id r' = oe_id r
      \<and> sy_delivered t = oe_id r # sy_delivered s \<and> oe_status r' = CLAIMED"
      by (rule crash_cycle [OF s(1,2,7) _ _ s(3)]) (simp_all add: default_policy_def)
    with s show ?case by auto
  qed
  then show ?thesis by blast
qed

end
