(* ===== verification/Manifests.thy ===== *)
theory Manifests
  imports Prelude
begin

text \<open>
  The declaration point of an installed module: the data classes of
  \<^verbatim>\<open>features.py\<close>, \<^verbatim>\<open>modules.py\<close>, \<^verbatim>\<open>capabilities.py\<close> and \<^verbatim>\<open>permissions.py\<close>, and the
  surface the two manifest shapes share.  Router objects, seed callables, flag,
  value-type, scope and web-surface objects are only carried through by the code
  modelled here; they are opaque references.  The exceptions of the assembly
  are the constructors of one error type, one per exception class.
\<close>

type_synonym object_ref = nat

datatype assembly_error =
    ValueError string
  | TypeError string
  | ModulePlaneSelectionError string
  | PrerequisiteError string
  | InvalidPrerequisiteNameError string
  | UnknownPrerequisiteError string
  | DuplicatePrerequisiteError string
  | UnboundPrerequisiteError string
  | DuplicateBindingError string
  | InvalidRevisionReferenceError string
  | NamespaceError string
  | InvalidSchemaError string
  | InvalidMigrationPrefixError string
  | InvalidRevisionIdError string
  | DuplicateSchemaError string
  | DuplicateMigrationPrefixError string
  | DuplicateBranchLabelError string
  | DuplicateTableOwnerError string
  | UnallocatedNamespaceError string
  | NamespaceAllocationError string
  | HostSchemaClaimError string
  | ModuleRegistryError string
  | DuplicateModuleError "string list"
  | ModuleContractVersionError "(string \<times> int) list"
  | MissingModuleDependencyError "(string \<times> string) list"
  | ModuleDependencyCycleError "string list"
  | UnknownModuleError string
  | DuplicateCapabilityError string string string
  | UndeclaredCapabilityError string
  | DuplicatePermissionError string string string
  | UndeclaredPermissionError string
  | DuplicateOutboxEventTypeError string string string
  | UndeclaredOutboxEventTypeError string
  | OutboxEventTypesNotInstalledError
  | DuplicateAuditActionError string string string
  | UndeclaredAuditActionError string
  | AuditActionsNotInstalledError

subsection \<open>Specifications a manifest declares\<close>

record CapabilitySpec =
  cap_code :: string
  cap_description :: string
  default_granted :: bool

text \<open>A declaration is a bare code or a specification.\<close>

datatype capability_declaration = BareCode string | Spec CapabilitySpec

definition make_CapabilitySpec :: "string \<Rightarrow> string \<Rightarrow> bool \<Rightarrow> assembly_error + CapabilitySpec" where
  "make_CapabilitySpec code description granted =
     (if code = [] then Inl (ValueError ''capability spec requires a non-empty `code`'')
      else Inr \<lparr>cap_code = code, cap_description = description, default_granted = granted\<rparr>)"

definition coerce_capability :: "capability_declaration \<Rightarrow> assembly_error + CapabilitySpec" where
  "coerce_capability value = (case value of
     Spec s \<Rightarrow> Inr s
   | BareCode code \<Rightarrow> make_CapabilitySpec code [] True)"

record PermissionSpec =
  perm_code :: string
  perm_description :: string
  default_roles :: "string list"

definition make_PermissionSpec ::
    "string \<Rightarrow> string \<Rightarrow> string list \<Rightarrow> assembly_error + PermissionSpec" where
  "make_PermissionSpec code description roles =
     (if code = [] then Inl (ValueError ''permission spec requires a non-empty `code`'')
      else if roles = [] then Inl (ValueError ''permission declares no `default_roles`'')
      else Inr \<lparr>perm_code = code, perm_description = description, default_roles = roles\<rparr>)"

record NavItem =
  nav_label :: string
  nav_path :: string
  nav_feature :: string

record DatabaseCatalogContribution =
  lineage_head :: string
  catalog_tables :: "string list"

subsection \<open>The two manifest shapes\<close>

record FeatureManifest =
  fm_name :: string
  fm_routers :: "object_ref list"
  fm_web_routers :: "object_ref list"
  fm_nav :: "NavItem list"
  fm_core :: bool
  fm_enabled_by_default :: bool
  fm_seed :: "object_ref option"
  fm_capabilities :: "capability_declaration list"
  fm_feature_flags :: "object_ref list"
  fm_permissions :: "PermissionSpec list"
  fm_audit_actions :: "string list"
  fm_outbox_event_types :: "string list"
  fm_provisioning_participants :: "string list"
  fm_charge_models :: "string list"
  fm_obligation_sources :: "string list"
  fm_setting_domains :: "string list"
  fm_setting_value_types :: "object_ref list"
  fm_scope_kinds :: "object_ref list"

record ModuleManifest =
  code :: string
  version :: string
  contract_version :: int
  dependencies :: "string list"
  api_routers :: "object_ref list"
  web_routers :: "object_ref list"
  nav :: "NavItem list"
  web_surfaces :: "object_ref list"
  capabilities :: "capability_declaration list"
  feature_flags :: "object_ref list"
  permissions :: "PermissionSpec list"
  audit_actions :: "string list"
  outbox_event_types :: "string list"
  provisioning_participants :: "string list"
  charge_models :: "string list"
  obligation_sources :: "string list"
  setting_domains :: "string list"
  setting_value_types :: "object_ref list"
  scope_kinds :: "object_ref list"
  short_code :: "string option"
  migration_prefix :: "string option"
  migration_branch :: "string option"
  tables :: "string list"
  platform_tables :: "string list"
  requires :: "string list"
  tenant_requires :: "string list"
  platform_requires :: "string list"
  supported_plane_sets :: "string list list"
  core :: bool
  enabled_by_default :: bool
  seed :: "object_ref option"
  database_catalog :: "DatabaseCatalogContribution option"

text \<open>A keyword-argument construction with the data-class defaults.\<close>

definition feature_defaults :: "string \<Rightarrow> FeatureManifest" where
  "feature_defaults name = \<lparr>fm_name = name, fm_routers = [], fm_web_routers = [], fm_nav = [],
     fm_core = True, fm_enabled_by_default = True, fm_seed = None, fm_capabilities = [],
     fm_feature_flags = [], fm_permissions = [], fm_audit_actions = [],
     fm_outbox_event_types = [], fm_provisioning_participants = [], fm_charge_models = [],
     fm_obligation_sources = [], fm_setting_domains = [], fm_setting_value_types = [],
     fm_scope_kinds = []\<rparr>"

definition INFER_MODULE_CONTRACT_VERSION :: int where
  "INFER_MODULE_CONTRACT_VERSION = -1"

definition module_defaults :: "string \<Rightarrow> string \<Rightarrow> ModuleManifest" where
  "module_defaults c v = \<lparr>code = c, version = v,
     contract_version = INFER_MODULE_CONTRACT_VERSION, dependencies = [], api_routers = [],
     web_routers = [], nav = [], web_surfaces = [], capabilities = [], feature_flags = [],
     permissions = [], audit_actions = [], outbox_event_types = [],
     provisioning_participants = [], charge_models = [], obligation_sources = [],
     setting_domains = [], setting_value_types = [], scope_kinds = [], short_code = None,
     migration_prefix = None, migration_branch = None, tables = [], platform_tables = [],
     requires = [], tenant_requires = [], platform_requires = [], supported_plane_sets = [],
     core = True, enabled_by_default = True, seed = None, database_catalog = None\<rparr>"

text \<open>
  \<^verbatim>\<open>AnyManifest = FeatureManifest | ModuleManifest\<close> and the attributes every walker of
  the installed set reads from either shape; \<^verbatim>\<open>name\<close> and \<^verbatim>\<open>routers\<close> are the
  compatibility aliases of \<^verbatim>\<open>ModuleManifest\<close>.
\<close>

datatype AnyManifest = Feature FeatureManifest | Module ModuleManifest

definition any_name :: "AnyManifest \<Rightarrow> string" where
  "any_name m = (case m of Feature f \<Rightarrow> fm_name f | Module k \<Rightarrow> code k)"

definition any_routers :: "AnyManifest \<Rightarrow> object_ref list" where
  "any_routers m = (case m of Feature f \<Rightarrow> fm_routers f | Module k \<Rightarrow> api_routers k)"

definition any_web_routers :: "AnyManifest \<Rightarrow> object_ref list" where
  "any_web_routers m = (case m of Feature f \<Rightarrow> fm_web_routers f | Module k \<Rightarrow> web_routers k)"

definition any_core :: "AnyManifest \<Rightarrow> bool" where
  "any_core m = (case m of Feature f \<Rightarrow> fm_core f | Module k \<Rightarrow> core k)"

definition any_enabled_by_default :: "AnyManifest \<Rightarrow> bool" where
  "any_enabled_by_default m = (case m of Feature f \<Rightarrow> fm_enabled_by_default f
     | Module k \<Rightarrow> enabled_by_default k)"

definition any_capabilities :: "AnyManifest \<Rightarrow> capability_declaration list" where
  "any_capabilities m = (case m of Feature f \<Rightarrow> fm_capabilities f | Module k \<Rightarrow> capabilities k)"

definition any_permissions :: "AnyManifest \<Rightarrow> PermissionSpec list" where
  "any_permissions m = (case m of Feature f \<Rightarrow> fm_permissions f | Module k \<Rightarrow> permissions k)"

definition any_audit_actions :: "AnyManifest \<Rightarrow> string list" where
  "any_audit_actions m = (case m of Feature f \<Rightarrow> fm_audit_actions f | Module k \<Rightarrow> audit_actions k)"

definition any_outbox_event_types :: "AnyManifest \<Rightarrow> string list" where
  "any_outbox_event_types m = (case m of Feature f \<Rightarrow> fm_outbox_event_types f
     | Module k \<Rightarrow> outbox_event_types k)"

lemmas any_manifest_defs = any_name_def any_routers_def any_web_routers_def any_core_def
  any_enabled_by_default_def any_capabilities_def any_permissions_def any_audit_actions_def
  any_outbox_event_types_def

subsection \<open>Mounting\<close>

text \<open>
  \<^verbatim>\<open>mount_features\<close>.  \<^verbatim>\<open>app.include_router\<close> belongs to the web framework: it is the
  parameter \<open>include\<close>, which returns the application after the call and whether
  the call returned normally.  A router that raises ends the manifest's loop;
  the exception leaves the function only for a core feature.
\<close>

fun include_all :: "(object_ref \<Rightarrow> 'app \<Rightarrow> 'app \<times> bool) \<Rightarrow> object_ref list \<Rightarrow> 'app \<Rightarrow> 'app \<times> bool" where
  "include_all include [] app = (app, True)"
| "include_all include (r # rs) app =
     (let (app', ok) = include r app in if ok then include_all include rs app' else (app', False))"

definition mount_one ::
    "(object_ref \<Rightarrow> 'app \<Rightarrow> 'app \<times> bool) \<Rightarrow> bool \<Rightarrow> AnyManifest \<Rightarrow> 'app \<Rightarrow> 'app \<times> bool" where
  "mount_one include web_enabled m app =
     include_all include (any_routers m @ (if web_enabled then any_web_routers m else [])) app"

definition skipped :: "string set \<Rightarrow> AnyManifest \<Rightarrow> bool" where
  "skipped disabled m \<longleftrightarrow> any_name m \<in> disabled \<or> \<not> any_enabled_by_default m"

fun mount_features ::
    "(object_ref \<Rightarrow> 'app \<Rightarrow> 'app \<times> bool) \<Rightarrow> string set \<Rightarrow> bool \<Rightarrow> AnyManifest list \<Rightarrow> 'app \<Rightarrow> 'app \<times> bool" where
  "mount_features include disabled web_enabled [] app = (app, True)"
| "mount_features include disabled web_enabled (m # ms) app =
     (if skipped disabled m then mount_features include disabled web_enabled ms app
      else let (app', ok) = mount_one include web_enabled m app in
        if \<not> ok \<and> any_core m then (app', False)
        else mount_features include disabled web_enabled ms app')"

text \<open>The routers offered to the application, when no inclusion fails.\<close>

definition offered :: "string set \<Rightarrow> bool \<Rightarrow> AnyManifest list \<Rightarrow> object_ref list" where
  "offered disabled web_enabled ms = concat (map (\<lambda>m.
     any_routers m @ (if web_enabled then any_web_routers m else []))
     (filter (\<lambda>m. \<not> skipped disabled m) ms))"

lemma include_all_appends:
  "include_all (\<lambda>r app. (app @ [r], ok r)) rs app =
     (app @ takeWhile ok rs @ (case dropWhile ok rs of [] \<Rightarrow> [] | r # _ \<Rightarrow> [r]), list_all ok rs)"
  by (induction rs arbitrary: app) auto

text \<open>
  A feature that fails to mount is fault-isolated when it is not core: mounting
  raises exactly when an enabled core feature has a failing router.
\<close>

lemma mount_features_raises_iff:
  "snd (mount_features (\<lambda>r app. (app @ [r], ok r)) disabled web ms app) \<longleftrightarrow>
     (\<forall>m \<in> set ms. \<not> skipped disabled m \<longrightarrow> any_core m \<longrightarrow>
        list_all ok (any_routers m @ (if web then any_web_routers m else [])))"
  by (induction ms arbitrary: app)
    (auto simp: mount_one_def include_all_appends Let_def split_beta)

lemma mount_features_all_ok:
  "(\<And>r. ok r) \<Longrightarrow>
   mount_features (\<lambda>r app. (app @ [r], ok r)) disabled web ms app = (app @ offered disabled web ms, True)"
  by (induction ms arbitrary: app)
    (auto simp: mount_one_def include_all_appends offered_def Let_def takeWhile_eq_all_conv
      dropWhile_eq_Nil_conv [THEN iffD2] list_all_iff)

end
