(* ===== verification/Planes.thy ===== *)
theory Planes
  imports Manifests "HOL-Library.AList"
begin

text \<open>
  Persistence planes (\<^verbatim>\<open>planes.py\<close>): the two planes, the normal form of a plane set,
  the plane sets a module supports, the validation of an assembly's selections,
  and the process-wide installed selections.  \<^verbatim>\<open>ModulePlane\<close> is a \<^verbatim>\<open>StrEnum\<close>, so a
  plane given as an argument is its string value.  A Python \<^verbatim>\<open>dict\<close> is an
  association list in insertion order, written by \<open>AList.update\<close>.  The sequence
  named by the environment variable is an argument.
\<close>

datatype module_plane = TENANT | PLATFORM

definition plane_value :: "module_plane \<Rightarrow> string" where
  "plane_value p = (case p of TENANT \<Rightarrow> ''tenant'' | PLATFORM \<Rightarrow> ''platform'')"

text \<open>Planes are ordered by their value, the sort key of the source.\<close>

instantiation module_plane :: linorder
begin

definition less_eq_module_plane :: "module_plane \<Rightarrow> module_plane \<Rightarrow> bool" where
  "less_eq_module_plane p q \<longleftrightarrow> p = PLATFORM \<or> q = TENANT"

definition less_module_plane :: "module_plane \<Rightarrow> module_plane \<Rightarrow> bool" where
  "less_module_plane p q \<longleftrightarrow> p = PLATFORM \<and> q = TENANT"

instance
proof
  fix x y z :: module_plane
  show "(x < y) = (x \<le> y \<and> \<not> y \<le> x)" and "x \<le> x" and "x \<le> y \<or> y \<le> x"
    by (cases x; cases y; simp add: less_eq_module_plane_def less_module_plane_def)+
  show "x \<le> y \<Longrightarrow> y \<le> z \<Longrightarrow> x \<le> z"
    by (cases x; cases y; cases z; simp add: less_eq_module_plane_def)
  show "x \<le> y \<Longrightarrow> y \<le> x \<Longrightarrow> x = y"
    by (cases x; cases y; simp add: less_eq_module_plane_def)
qed

end

lemma plane_order_is_value_order: "p \<le> q \<longleftrightarrow> plane_value p \<le> plane_value q"
  by (cases p; cases q) (simp_all add: less_eq_module_plane_def plane_value_def less_eq_char_simp)

definition plane_of_string :: "string \<Rightarrow> module_plane option" where
  "plane_of_string s = (if s = ''tenant'' then Some TENANT
     else if s = ''platform'' then Some PLATFORM else None)"

lemma plane_of_value [simp]: "plane_of_string (plane_value p) = Some p"
  by (cases p) (simp_all add: plane_of_string_def plane_value_def)

lemma plane_of_string_Some: "plane_of_string s = Some p \<longleftrightarrow> s = plane_value p"
  by (cases p) (auto simp: plane_of_string_def plane_value_def)

definition to_plane :: "string \<Rightarrow> assembly_error + module_plane" where
  "to_plane s = (case plane_of_string s of
     None \<Rightarrow> Inl (ModulePlaneSelectionError ''unknown module plane'') | Some p \<Rightarrow> Inr p)"

definition normalise_planes :: "string list \<Rightarrow> assembly_error + module_plane list" where
  "normalise_planes raw =
     bindr (map_result to_plane raw) (\<lambda>ps.
     if ps = [] then Inl (ModulePlaneSelectionError ''a module plane selection cannot be empty'')
     else if \<not> distinct ps then Inl (ModulePlaneSelectionError ''module planes contain a duplicate'')
     else Inr (sort ps))"

record ModulePlaneSelection =
  sel_module :: string
  sel_planes :: "module_plane list"

definition module_code_fullmatch :: "string \<Rightarrow> bool" where
  "module_code_fullmatch s = (case s of [] \<Rightarrow> False
     | c # cs \<Rightarrow> is_lower c \<and> list_all (\<lambda>d. word_char d \<or> d = CHR ''-'') cs)"

definition make_ModulePlaneSelection ::
    "string \<Rightarrow> string list \<Rightarrow> assembly_error + ModulePlaneSelection" where
  "make_ModulePlaneSelection m planes =
     (if \<not> module_code_fullmatch m
      then Inl (ModulePlaneSelectionError ''module selection requires a lowercase module code'')
      else bindr (normalise_planes planes) (\<lambda>ps. Inr \<lparr>sel_module = m, sel_planes = ps\<rparr>))"

subsection \<open>What a manifest declares and supports\<close>

definition any_tables :: "AnyManifest \<Rightarrow> string list" where
  "any_tables m = (case m of Feature _ \<Rightarrow> [] | Module k \<Rightarrow> tables k)"

definition any_platform_tables :: "AnyManifest \<Rightarrow> string list" where
  "any_platform_tables m = (case m of Feature _ \<Rightarrow> [] | Module k \<Rightarrow> platform_tables k)"

definition any_supported :: "AnyManifest \<Rightarrow> string list list" where
  "any_supported m = (case m of Feature _ \<Rightarrow> [] | Module k \<Rightarrow> supported_plane_sets k)"

definition any_code :: "AnyManifest \<Rightarrow> string" where
  "any_code m = (case m of Feature _ \<Rightarrow> [] | Module k \<Rightarrow> code k)"

definition declared_planes :: "AnyManifest \<Rightarrow> module_plane list" where
  "declared_planes m = sort
     ((if any_tables m \<noteq> [] then [TENANT] else []) @
      (if any_platform_tables m \<noteq> [] then [PLATFORM] else []))"

definition supported_planes :: "AnyManifest \<Rightarrow> assembly_error + module_plane list list" where
  "supported_planes m =
     (if any_supported m \<noteq> [] then map_result normalise_planes (any_supported m)
      else if declared_planes m = [] then Inr [] else Inr [declared_planes m])"

subsection \<open>Validating an assembly's selections\<close>

fun by_code_dict :: "AnyManifest list \<Rightarrow> (string \<times> AnyManifest) list \<Rightarrow> (string \<times> AnyManifest) list" where
  "by_code_dict [] d = d"
| "by_code_dict (m # ms) d =
     by_code_dict ms (if any_code m = [] then d else AList.update (any_code m) m d)"

fun check_selections ::
    "(string \<times> AnyManifest) list \<Rightarrow> ModulePlaneSelection list \<Rightarrow> string list \<Rightarrow> assembly_error + string list" where
  "check_selections by_code [] selected = Inr selected"
| "check_selections by_code (s # ss) selected =
     (if sel_module s \<in> set selected
      then Inl (ModulePlaneSelectionError ''module has more than one plane selection'')
      else case map_of by_code (sel_module s) of
        None \<Rightarrow> Inl (ModulePlaneSelectionError ''plane selection names unknown module'')
      | Some m \<Rightarrow>
          bindr (supported_planes m) (\<lambda>supported.
          if length supported \<le> 1
          then Inl (ModulePlaneSelectionError ''module has an atomic plane contract'')
          else if sel_planes s \<notin> set supported
          then Inl (ModulePlaneSelectionError ''module does not support planes'')
          else check_selections by_code ss (selected @ [sel_module s])))"

fun check_selectable_selected ::
    "(string \<times> AnyManifest) list \<Rightarrow> string list \<Rightarrow> assembly_error + unit" where
  "check_selectable_selected [] selected = Inr ()"
| "check_selectable_selected ((c, m) # rest) selected =
     bindr (supported_planes m) (\<lambda>supported.
     if 1 < length supported \<and> c \<notin> set selected
     then Inl (ModulePlaneSelectionError ''selectable module has no plane selection'')
     else check_selectable_selected rest selected)"

definition validate_module_plane_selections ::
    "AnyManifest list \<Rightarrow> ModulePlaneSelection list \<Rightarrow> assembly_error + ModulePlaneSelection list" where
  "validate_module_plane_selections manifests selections =
     (let by_code = by_code_dict manifests [] in
      bindr (check_selections by_code selections []) (\<lambda>selected.
      bindr (check_selectable_selected by_code selected) (\<lambda>_. Inr selections)))"

subsection \<open>The installed selections of the process\<close>

type_synonym installed_planes = "(string \<times> ModulePlaneSelection) list"

fun resolve_selections ::
    "ModulePlaneSelection list \<Rightarrow> installed_planes \<Rightarrow> assembly_error + installed_planes" where
  "resolve_selections [] resolved = Inr resolved"
| "resolve_selections (s # ss) resolved =
     (if sel_module s \<in> fst ` set resolved
      then Inl (ModulePlaneSelectionError ''module has more than one plane selection'')
      else resolve_selections ss (AList.update (sel_module s) s resolved))"

definition install_module_plane_selections ::
    "ModulePlaneSelection list \<Rightarrow> installed_planes \<Rightarrow> assembly_error + installed_planes" where
  "install_module_plane_selections selections installed = resolve_selections selections []"

definition installed_module_plane_selections :: "installed_planes \<Rightarrow> ModulePlaneSelection list" where
  "installed_module_plane_selections installed = sort_key sel_module (map snd installed)"

text \<open>
  \<^verbatim>\<open>autoload_module_plane_selections\<close>: \<open>env\<close> is the sequence the environment
  variable names (\<open>None\<close> when it is unset or blank, an error when it is malformed).
\<close>

definition autoload_module_plane_selections ::
    "(assembly_error + ModulePlaneSelection list) option \<Rightarrow> installed_planes
       \<Rightarrow> assembly_error + (bool \<times> installed_planes)" where
  "autoload_module_plane_selections env installed = (case env of
     None \<Rightarrow> Inr (False, installed)
   | Some named \<Rightarrow> bindr named (\<lambda>ss.
       bindr (install_module_plane_selections ss installed) (\<lambda>i. Inr (True, i))))"

definition selected_module_planes ::
    "(assembly_error + ModulePlaneSelection list) option \<Rightarrow> string \<Rightarrow> installed_planes
       \<Rightarrow> assembly_error + (module_plane set \<times> installed_planes)" where
  "selected_module_planes env m installed = (case map_of installed m of
     Some s \<Rightarrow> Inr (set (sel_planes s), installed)
   | None \<Rightarrow> bindr (autoload_module_plane_selections env installed) (\<lambda>(loaded, installed').
       case (if loaded then map_of installed' m else None) of
         Some s \<Rightarrow> Inr (set (sel_planes s), installed')
       | None \<Rightarrow> Inl (ModulePlaneSelectionError ''selectable module has no installed plane selection'')))"

subsection \<open>Facts\<close>

lemma normalise_planes_Inr:
  "normalise_planes raw = Inr ps \<Longrightarrow> ps \<noteq> [] \<and> sorted ps \<and> distinct ps \<and> plane_value ` set ps = set raw"
proof -
  assume "normalise_planes raw = Inr ps"
  then obtain qs where qs: "list_all2 (\<lambda>s p. to_plane s = Inr p) raw qs"
    "qs \<noteq> []" "distinct qs" "ps = sort qs"
    by (auto simp: normalise_planes_def bindr_eq_Inr map_result_Inr_iff split: if_splits)
  have "list_all2 (\<lambda>s p. s = plane_value p) raw qs"
    by (rule list_all2_mono [OF qs(1)])
      (auto simp: to_plane_def plane_of_string_Some split: option.splits)
  then have "plane_value ` set qs = set raw"
    by (induction rule: list_all2_induct) auto
  moreover have "sort qs \<noteq> []" using qs(2) by (metis set_empty set_sort)
  ultimately show ?thesis using qs by simp
qed

lemma declared_planes_sorted [simp]: "sorted (declared_planes m)"
  by (simp add: declared_planes_def)

lemma declared_planes_set:
  "set (declared_planes m) = (if any_tables m \<noteq> [] then {TENANT} else {}) \<union>
     (if any_platform_tables m \<noteq> [] then {PLATFORM} else {})"
  by (auto simp: declared_planes_def)

text \<open>The loop over the selections: what an accepted list of selections satisfies.\<close>

lemma check_selections_Inr:
  "check_selections d ss sel = Inr out \<Longrightarrow>
     out = sel @ map sel_module ss \<and> distinct (map sel_module ss) \<and>
     set (map sel_module ss) \<inter> set sel = {} \<and>
     (\<forall>s \<in> set ss. \<exists>m supported. map_of d (sel_module s) = Some m \<and>
        supported_planes m = Inr supported \<and> 1 < length supported \<and> sel_planes s \<in> set supported)"
proof (induction d ss sel arbitrary: out rule: check_selections.induct)
  case (1 d sel)
  then show ?case by simp
next
  case (2 d s ss sel)
  from "2.prems" obtain m sup where
    step: "sel_module s \<notin> set sel" "map_of d (sel_module s) = Some m"
      "supported_planes m = Inr sup" "\<not> length sup \<le> 1" "sel_planes s \<in> set sup"
      "check_selections d ss (sel @ [sel_module s]) = Inr out"
    by (auto simp: bindr_eq_Inr split: if_splits option.splits)
  note "2.IH" [OF step(1,2) step(4) _ step(6)]
  with step show ?case by (auto simp: not_le)
qed

lemma check_selectable_selected_Inr:
  "check_selectable_selected d sel = Inr u \<Longrightarrow> (c, m) \<in> set d \<Longrightarrow>
     supported_planes m = Inr supported \<Longrightarrow> 1 < length supported \<Longrightarrow> c \<in> set sel"
  by (induction d) (auto simp: bindr_eq_Inr split: if_splits)

end
