(* ===== verification/Prerequisites.thy ===== *)
theory Prerequisites
  imports Planes
begin

text \<open>
  Migration prerequisites (\<^verbatim>\<open>prerequisites.py\<close>): the names and specifications, the
  process registry, the assembly's bindings, and the resolution of a lineage's
  logical requirements into physical \<^verbatim>\<open>depends_on\<close> edges.  The process state is a
  record; what the environment variables name is an argument.  In the summary
  texts the em dash of the source is written as two hyphens.
\<close>

record PrerequisiteSpec =
  pre_name :: string
  pre_summary :: string

text \<open>\<^verbatim>\<open>^[a-z][a-z0-9_]{2,47}\.v[1-9][0-9]{0,2}$\<close> and \<^verbatim>\<open>^[a-z0-9][a-z0-9_]{0,254}$\<close>.\<close>

definition prerequisite_version :: "string \<Rightarrow> bool" where
  "prerequisite_version s = (case s of
     dot # v # d # ds \<Rightarrow> dot = CHR ''.'' \<and> v = CHR ''v'' \<and> is_digit d \<and> d \<noteq> CHR ''0''
       \<and> length ds \<le> 2 \<and> list_all is_digit ds
   | _ \<Rightarrow> False)"

definition prerequisite_body :: "string \<Rightarrow> bool" where
  "prerequisite_body s \<longleftrightarrow>
     word_like is_lower word_char 2 47 (takeWhile (\<lambda>c. c \<noteq> CHR ''.'') s)
     \<and> prerequisite_version (dropWhile (\<lambda>c. c \<noteq> CHR ''.'') s)"

definition validate_prerequisite_name :: "string \<Rightarrow> assembly_error + unit" where
  "validate_prerequisite_name name =
     ensure (dollar_match prerequisite_body name) (InvalidPrerequisiteNameError name)"

definition validate_revision_reference :: "string \<Rightarrow> assembly_error + unit" where
  "validate_revision_reference revision =
     ensure (dollar_match (word_like alnum_char word_char 0 254) revision)
       (InvalidRevisionReferenceError revision)"

definition make_PrerequisiteSpec :: "string \<Rightarrow> string \<Rightarrow> assembly_error + PrerequisiteSpec" where
  "make_PrerequisiteSpec name summary =
     bindr (validate_prerequisite_name name) (\<lambda>_.
     if blank summary then Inl (PrerequisiteError name)
     else Inr \<lparr>pre_name = name, pre_summary = summary\<rparr>)"

subsection \<open>The kernel's vocabulary\<close>

definition TENANT_SCOPE_CATALOG_V1 :: PrerequisiteSpec where
  "TENANT_SCOPE_CATALOG_V1 = \<lparr>pre_name = ''tenant_scope_catalog.v1'', pre_summary =
    ''public.tenants with the kernel Tenant column, key and index contract, '' @
    ''and public.app_current_tenant_id() returning the app.current_tenant GUC '' @
    ''as uuid (NULL when unset or malformed). No RLS on the catalogue.''\<rparr>"

definition MODULE_DATABASE_ROLES_V1 :: PrerequisiteSpec where
  "MODULE_DATABASE_ROLES_V1 = \<lparr>pre_name = ''module_database_roles.v1'', pre_summary =
    ''Database roles app_admin (BYPASSRLS, offline/migration), app_user '' @
    ''(online tenant routes, RLS-enforced) and platform_api (online platform '' @
    ''routes) exist and can be granted to. Passwords are never set here.''\<rparr>"

definition IDEMPOTENCY_LEDGER_V1 :: PrerequisiteSpec where
  "IDEMPOTENCY_LEDGER_V1 = \<lparr>pre_name = ''idempotency_ledger.v1'', pre_summary =
    ''public.idempotency_records and public.platform_idempotency_records with '' @
    ''the kernel at-most-once contract: a unique key over (tenant_id, scope, '' @
    ''key) and (scope, key) respectively, a nullable fingerprint column '' @
    ''distinct from the key, a JSON result column, an expires_at index, and '' @
    ''the plane posture of ADR-0014: the tenant ledger carries FORCEd '' @
    ''row-level security, the platform ledger carries no tenant column and no '' @
    ''policy. Supplies the storage dotmac_kernel.idempotency reads and '' @
    ''writes; it does not decide what any scope means.''\<rparr>"

definition OUTBOX_RELAY_V1 :: PrerequisiteSpec where
  "OUTBOX_RELAY_V1 = \<lparr>pre_name = ''outbox_relay.v1'', pre_summary =
    ''public.outbox_events and public.platform_outbox_events with the relay '' @
    ''contract: the lease columns (leased_by, leased_at), the retry columns '' @
    ''(attempts, available_at defaulted to now(), last_error) and the status '' @
    ''column the dead-letter outcome is recorded in, plus the (status, '' @
    ''available_at) claim index and the (status, leased_at) stale-lease '' @
    ''reclaim index on each plane. The claim/settle pair per plane -- '' @
    ''claim_outbox_batch(text, integer, integer) / settle_outbox_event(uuid, '' @
    ''text, text, timestamptz, integer, text) and their '' @
    ''claim_platform_outbox_batch / settle_platform_outbox_event peers -- '' @
    ''exists, is SECURITY DEFINER owned by app_admin, and carries an EMPTY '' @
    ''search_path. Plane posture: the tenant table has FORCEd row-level '' @
    ''security under a policy keyed on app_current_tenant_id(); the platform '' @
    ''table carries no policy at all and is isolated by a revoked app_user '' @
    ''grant. Roles outbox_dispatcher and platform_outbox_dispatcher exist '' @
    ''NOBYPASSRLS and NOSUPERUSER, hold EXECUTE on their own pair, hold no '' @
    ''table or column privilege on either relay table, and EXECUTE is not '' @
    ''held by PUBLIC. Supplies the machinery dotmac_kernel.messaging drains; '' @
    ''it does not decide what any event means or when it is delivered.''\<rparr>"

definition PLATFORM_AUDIT_LOG_V1 :: PrerequisiteSpec where
  "PLATFORM_AUDIT_LOG_V1 = \<lparr>pre_name = ''platform_audit_log.v1'', pre_summary =
    ''public.platform_audit_events with its id primary key, nullable '' @
    ''actor_admin_id foreign key to public.platform_admins ON DELETE SET '' @
    ''NULL, actor lookup index, action/entity/details/created_at column '' @
    ''contract, and platform-plane posture: no row-level security, no '' @
    ''app_user table or column privilege, and platform_api holding '' @
    ''table-level SELECT and INSERT only. Supplies the append-only online '' @
    ''write path used by dotmac_kernel.audit.write_platform_audit_event; it '' @
    ''does not define any module's audit-action vocabulary.''\<rparr>"

definition TENANT_AUDIT_LOG_V1 :: PrerequisiteSpec where
  "TENANT_AUDIT_LOG_V1 = \<lparr>pre_name = ''tenant_audit_log.v1'', pre_summary =
    ''public.audit_events with the existing 18-column tenant audit contract: '' @
    ''non-null UUID id primary key and tenant_id referencing '' @
    ''public.tenants.id ON DELETE CASCADE; nullable actor_type VARCHAR(32), '' @
    ''actor_id VARCHAR(120), actor_label VARCHAR(160), actor_party_id UUID '' @
    ''with no actor foreign key, and source_application VARCHAR(64); non-null '' @
    ''action VARCHAR(120) and entity_type VARCHAR(160), both open '' @
    ''vocabularies; nullable entity_id and request_id VARCHAR(120), '' @
    ''status_code INTEGER, is_success BOOLEAN, ip_address VARCHAR(64), '' @
    ''user_agent VARCHAR(255); non-null details JSONB defaulted to an empty '' @
    ''object; nullable occurred_at and created_at timezone-aware timestamps '' @
    ''with transaction-time defaults. Nonunique, nonpartial indexes on '' @
    ''tenant_id, actor_type, actor_id, actor_label, actor_party_id, '' @
    ''source_application, request_id and occurred_at. Historical unknown '' @
    ''attribution and timestamps remain nullable. ENABLE and FORCE row-level '' @
    ''security with applicable tenant-equality USING and WITH CHECK policies '' @
    ''against public.app_current_tenant_id(), with no permissive bypass. '' @
    ''app_user and platform_api are NOSUPERUSER and NOBYPASSRLS, have schema '' @
    ''USAGE and tenant-function EXECUTE, and effective SELECT/INSERT only: no '' @
    ''UPDATE, DELETE, TRUNCATE, REFERENCES or TRIGGER privilege through '' @
    ''table, column, PUBLIC or inherited grants. Deployment owns complete '' @
    ''role-reachability and SET ROLE closure. Supplies the append-only online '' @
    ''write path used by dotmac_kernel.audit.write_audit_event, independently '' @
    ''of platform_audit_log.v1; it does not define audit-action vocabulary.''\<rparr>"

definition PARTY_PERSON_CATALOG_V1 :: PrerequisiteSpec where
  "PARTY_PERSON_CATALOG_V1 = \<lparr>pre_name = ''party_person_catalog.v1'', pre_summary =
    ''public.parties with id, tenant_id, party_type, display_name and '' @
    ''is_active, a composite unique identity on (tenant_id, id), and '' @
    ''public.party_persons with its party_id primary key and cascading '' @
    ''foreign key to public.parties.id. party_type admits person, both tables '' @
    ''have forced row-level security tied to the tenant catalogue, and '' @
    ''app_user can SELECT both. Supplies identity references and the person '' @
    ''profile; it does not supply employment state, authentication or RBAC.''\<rparr>"

definition KERNEL_PREREQUISITES :: "PrerequisiteSpec list" where
  "KERNEL_PREREQUISITES = [TENANT_SCOPE_CATALOG_V1, MODULE_DATABASE_ROLES_V1,
     IDEMPOTENCY_LEDGER_V1, OUTBOX_RELAY_V1, PLATFORM_AUDIT_LOG_V1, TENANT_AUDIT_LOG_V1,
     PARTY_PERSON_CATALOG_V1]"

lemmas kernel_prerequisite_defs = TENANT_SCOPE_CATALOG_V1_def MODULE_DATABASE_ROLES_V1_def
  IDEMPOTENCY_LEDGER_V1_def OUTBOX_RELAY_V1_def PLATFORM_AUDIT_LOG_V1_def
  TENANT_AUDIT_LOG_V1_def PARTY_PERSON_CATALOG_V1_def

subsection \<open>The process registry\<close>

type_synonym prerequisite_registry = "(string \<times> PrerequisiteSpec) list"

definition initial_registry :: prerequisite_registry where
  "initial_registry = map (\<lambda>s. (pre_name s, s)) KERNEL_PREREQUISITES"

text \<open>
  The loop writes the registry as it goes: the entries written before a
  conflicting one stay, so the state is returned beside the error.
\<close>

fun register_prerequisites ::
    "PrerequisiteSpec list \<Rightarrow> prerequisite_registry \<Rightarrow> prerequisite_registry \<times> assembly_error option" where
  "register_prerequisites [] reg = (reg, None)"
| "register_prerequisites (s # ss) reg = (case map_of reg (pre_name s) of
     Some old \<Rightarrow> if old \<noteq> s then (reg, Some (DuplicatePrerequisiteError (pre_name s)))
                 else register_prerequisites ss (AList.update (pre_name s) s reg)
   | None \<Rightarrow> register_prerequisites ss (AList.update (pre_name s) s reg))"

definition prerequisite :: "prerequisite_registry \<Rightarrow> string \<Rightarrow> assembly_error + PrerequisiteSpec" where
  "prerequisite reg name =
     bindr (validate_prerequisite_name name) (\<lambda>_. case map_of reg name of
       None \<Rightarrow> Inl (UnknownPrerequisiteError name) | Some s \<Rightarrow> Inr s)"

definition registered_prerequisites :: "prerequisite_registry \<Rightarrow> PrerequisiteSpec list" where
  "registered_prerequisites reg = sort_key pre_name (map snd reg)"

fun validate_names ::
    "prerequisite_registry \<Rightarrow> string list \<Rightarrow> string list \<Rightarrow> assembly_error + unit" where
  "validate_names reg [] seen = Inr ()"
| "validate_names reg (n # ns) seen =
     bindr (prerequisite reg n) (\<lambda>_.
     if n \<in> set seen then Inl (DuplicatePrerequisiteError n)
     else validate_names reg ns (n # seen))"

definition validate_prerequisites ::
    "prerequisite_registry \<Rightarrow> string list \<Rightarrow> assembly_error + string list" where
  "validate_prerequisites reg names = bindr (validate_names reg names []) (\<lambda>_. Inr names)"

subsection \<open>Bindings\<close>

record PrerequisiteBinding =
  bound_prerequisite :: string
  provider_revision :: string
  provider_owner :: string

definition make_PrerequisiteBinding ::
    "string \<Rightarrow> string \<Rightarrow> string \<Rightarrow> assembly_error + PrerequisiteBinding" where
  "make_PrerequisiteBinding p revision owner =
     bindr (validate_prerequisite_name p) (\<lambda>_.
     bindr (validate_revision_reference revision) (\<lambda>_.
     if blank owner then Inl (PrerequisiteError p)
     else Inr \<lparr>bound_prerequisite = p, provider_revision = revision, provider_owner = owner\<rparr>))"

type_synonym bindings = "(string \<times> PrerequisiteBinding) list"

record assembly_process =
  pre_registry :: prerequisite_registry
  pre_bindings :: bindings
  plane_selections :: installed_planes

record environment =
  env_bindings :: "(assembly_error + PrerequisiteBinding list) option"
  env_planes :: "(assembly_error + ModulePlaneSelection list) option"

fun resolve_bindings ::
    "prerequisite_registry \<Rightarrow> PrerequisiteBinding list \<Rightarrow> bindings \<Rightarrow> assembly_error + bindings" where
  "resolve_bindings reg [] resolved = Inr resolved"
| "resolve_bindings reg (b # bs) resolved =
     bindr (prerequisite reg (bound_prerequisite b)) (\<lambda>_.
     if bound_prerequisite b \<in> fst ` set resolved
     then Inl (DuplicateBindingError (bound_prerequisite b))
     else resolve_bindings reg bs (AList.update (bound_prerequisite b) b resolved))"

definition install_prerequisite_bindings ::
    "PrerequisiteBinding list \<Rightarrow> assembly_process \<Rightarrow> assembly_error + assembly_process" where
  "install_prerequisite_bindings bs p =
     bindr (resolve_bindings (pre_registry p) bs []) (\<lambda>r. Inr (p\<lparr>pre_bindings := r\<rparr>))"

definition installed_bindings :: "assembly_process \<Rightarrow> PrerequisiteBinding list" where
  "installed_bindings p = sort_key bound_prerequisite (map snd (pre_bindings p))"

definition binding_for :: "assembly_process \<Rightarrow> string \<Rightarrow> assembly_error + PrerequisiteBinding" where
  "binding_for p name =
     bindr (prerequisite (pre_registry p) name) (\<lambda>_. case map_of (pre_bindings p) name of
       None \<Rightarrow> Inl (UnboundPrerequisiteError name) | Some b \<Rightarrow> Inr b)"

definition autoload_bindings ::
    "environment \<Rightarrow> assembly_process \<Rightarrow> assembly_error + (bool \<times> assembly_process)" where
  "autoload_bindings env p = (case env_bindings env of
     None \<Rightarrow> Inr (False, p)
   | Some named \<Rightarrow> bindr named (\<lambda>bs.
       bindr (install_prerequisite_bindings bs p) (\<lambda>p'. Inr (True, p'))))"

text \<open>\<^verbatim>\<open>if not installed and not autoload_bindings()\<close>: are bindings available?\<close>

definition bindings_available ::
    "environment \<Rightarrow> assembly_process \<Rightarrow> assembly_error + (bool \<times> assembly_process)" where
  "bindings_available env p =
     (if pre_bindings p \<noteq> [] then Inr (True, p) else autoload_bindings env p)"

definition is_bound ::
    "environment \<Rightarrow> string \<Rightarrow> assembly_process \<Rightarrow> assembly_error + (bool \<times> assembly_process)" where
  "is_bound env name p =
     bindr (prerequisite (pre_registry p) name) (\<lambda>_.
     bindr (bindings_available env p) (\<lambda>(available, p').
     Inr (available \<and> name \<in> fst ` set (pre_bindings p'), p')))"

fun all_bound ::
    "environment \<Rightarrow> string list \<Rightarrow> assembly_process \<Rightarrow> assembly_error + (bool \<times> assembly_process)" where
  "all_bound env [] p = Inr (True, p)"
| "all_bound env (n # ns) p =
     bindr (is_bound env n p) (\<lambda>(b, p'). if b then all_bound env ns p' else Inr (False, p'))"

definition binding_map :: "assembly_process \<Rightarrow> (string \<times> string) list" where
  "binding_map p = map (\<lambda>b. (bound_prerequisite b, provider_revision b)) (installed_bindings p)"

subsection \<open>Resolving the physical edges\<close>

text \<open>The names that occur in more than one of the three lists.\<close>

definition overlap :: "string list \<Rightarrow> string list \<Rightarrow> string list \<Rightarrow> string set" where
  "overlap a b c = {n \<in> set a \<union> set b \<union> set c.
     1 < length (filter (\<lambda>g. n \<in> set g) [a, b, c])}"

text \<open>The names required once the module's planes are selected.\<close>

definition selected_requirements ::
    "environment \<Rightarrow> string list \<Rightarrow> string option \<Rightarrow> string list \<Rightarrow> string list \<Rightarrow> assembly_process
       \<Rightarrow> assembly_error + (string list \<times> assembly_process)" where
  "selected_requirements env names module tenant platform p = (case module of
     None \<Rightarrow> Inr (names, p)
   | Some m \<Rightarrow> bindr (selected_module_planes (env_planes env) m (plane_selections p))
       (\<lambda>(planes, installed). Inr (names @ (if TENANT \<in> planes then tenant else []) @
          (if PLATFORM \<in> planes then platform else []), p\<lparr>plane_selections := installed\<rparr>)))"

definition resolve_depends_on ::
    "environment \<Rightarrow> string list \<Rightarrow> string option \<Rightarrow> string list \<Rightarrow> string list \<Rightarrow> assembly_process
       \<Rightarrow> assembly_error + (string list \<times> assembly_process)" where
  "resolve_depends_on env names module tenant platform p =
     bindr (validate_prerequisites (pre_registry p) names) (\<lambda>_.
     bindr (validate_prerequisites (pre_registry p) tenant) (\<lambda>_.
     bindr (validate_prerequisites (pre_registry p) platform) (\<lambda>_.
     if overlap names tenant platform \<noteq> {}
     then Inl (DuplicatePrerequisiteError ''declared in more than one prerequisite list'')
     else if (tenant \<noteq> [] \<or> platform \<noteq> []) \<and> (module = None \<or> module = Some [])
     then Inl (PrerequisiteError ''plane-specific prerequisites require the module code'')
     else
     bindr (bindings_available env p) (\<lambda>(available, p1).
     if \<not> available then Inr ([], p1)
     else
     bindr (selected_requirements env names module tenant platform p1)
       (\<lambda>(selected, p2).
     bindr (map_result (binding_for p2) selected) (\<lambda>bs.
     Inr (map provider_revision bs, p2)))))))"

subsection \<open>Facts\<close>

lemma validate_names_Inr:
  "validate_names reg ns seen = Inr u \<longleftrightarrow>
     distinct ns \<and> set ns \<inter> set seen = {} \<and> (\<forall>n \<in> set ns. \<exists>s. prerequisite reg n = Inr s)"
  by (induction reg ns seen rule: validate_names.induct) (auto simp: bindr_eq_Inr)

lemma validate_prerequisites_Inr:
  "validate_prerequisites reg ns = Inr ms \<longleftrightarrow>
     ms = ns \<and> distinct ns \<and> (\<forall>n \<in> set ns. \<exists>s. prerequisite reg n = Inr s)"
  by (auto simp: validate_prerequisites_def bindr_eq_Inr validate_names_Inr)

text \<open>The order of registration does not matter for an identical specification.\<close>

lemma register_known:
  "map_of reg (pre_name s) = Some s \<Longrightarrow>
     map_of (fst (register_prerequisites [s] reg)) = map_of reg"
  by (auto simp: update_conv' fun_upd_idem)

lemma register_keeps_accepted:
  "map_of reg n = Some s \<Longrightarrow> map_of (fst (register_prerequisites ss reg)) n = Some s"
proof (induction ss arbitrary: reg)
  case Nil
  then show ?case by simp
next
  case (Cons a ss)
  then show ?case
    by (cases "n = pre_name a") (auto simp: update_conv' split: option.splits)
qed

text \<open>
  A resolution that succeeds with bindings available names, in order, the
  provider of every required effect of the common list and of the selected
  planes; nothing is dropped because it has no provider.
\<close>

lemma resolve_depends_on_Inr:
  assumes "resolve_depends_on env names (Some m) tenant platform p = Inr (revs, p2)"
    and "bindings_available env p = Inr (True, p1)"
  obtains planes where
    "selected_module_planes (env_planes env) m (plane_selections p1) = Inr (planes, plane_selections p2)"
    "pre_bindings p2 = pre_bindings p1"
    "list_all2 (\<lambda>n r. \<exists>b. map_of (pre_bindings p1) n = Some b \<and> r = provider_revision b)
       (names @ (if TENANT \<in> planes then tenant else []) @ (if PLATFORM \<in> planes then platform else []))
       revs"
proof -
  from assms obtain selected bs where
    sel: "selected_requirements env names (Some m) tenant platform p1 = Inr (selected, p2)"
      and bs: "map_result (binding_for p2) selected = Inr bs" "revs = map provider_revision bs"
    by (auto simp: resolve_depends_on_def bindr_eq_Inr split: if_splits prod.splits)
  from sel obtain planes installed where
    s: "selected_module_planes (env_planes env) m (plane_selections p1) = Inr (planes, installed)"
      "p2 = p1\<lparr>plane_selections := installed\<rparr>"
      "selected = names @ (if TENANT \<in> planes then tenant else []) @
         (if PLATFORM \<in> planes then platform else [])"
    by (auto simp: selected_requirements_def bindr_eq_Inr)
  have one: "map_of (pre_bindings p1) n = Some b" if "binding_for p2 n = Inr b" for n b
    using that s(2) by (auto simp: binding_for_def bindr_eq_Inr split: option.splits)
  have "list_all2 (\<lambda>n b. map_of (pre_bindings p1) n = Some b) selected bs"
    by (rule list_all2_mono [OF bs(1) [unfolded map_result_Inr_iff] one])
  then have "list_all2 (\<lambda>n r. \<exists>b. map_of (pre_bindings p1) n = Some b \<and> r = provider_revision b)
      selected revs"
    unfolding bs(2) list_all2_map2 by (rule list_all2_mono) blast
  then show ?thesis
    using s by (intro that [of planes]) simp_all
qed

text \<open>
  Resolving a lineage's requirements into migration edges: once the assembly
  has bindings, a resolution that succeeds lists, in order, the bound provider
  revision of every common requirement and of every requirement of the planes the
  assembly selected for the module; whether a provider exists never decides which
  planes are required.
\<close>

theorem resolve_depends_on_complete:
  assumes "resolve_depends_on env names (Some m) tenant platform p = Inr (revs, p2)"
    and "bindings_available env p = Inr (True, p1)"
  shows "\<exists>planes. selected_module_planes (env_planes env) m (plane_selections p1)
        = Inr (planes, plane_selections p2)
    \<and> list_all2 (\<lambda>n r. \<exists>b. map_of (pre_bindings p1) n = Some b \<and> r = provider_revision b)
       (names @ (if TENANT \<in> planes then tenant else []) @ (if PLATFORM \<in> planes then platform else []))
       revs"
  by (rule resolve_depends_on_Inr [OF assms]) blast

theorem resolve_depends_on_complete_witness:
  "\<exists>p2. resolve_depends_on \<lparr>env_bindings = None, env_planes = None\<rparr> [''module_database_roles.v1'']
      (Some ''approvals'') [''tenant_scope_catalog.v1''] [''platform_audit_log.v1'']
      \<lparr>pre_registry = initial_registry,
       pre_bindings = [
         (''module_database_roles.v1'', \<lparr>bound_prerequisite = ''module_database_roles.v1'',
            provider_revision = ''0001_initial'', provider_owner = ''kernel''\<rparr>),
         (''platform_audit_log.v1'', \<lparr>bound_prerequisite = ''platform_audit_log.v1'',
            provider_revision = ''0019_audit'', provider_owner = ''kernel''\<rparr>)],
       plane_selections = [(''approvals'', \<lparr>sel_module = ''approvals'', sel_planes = [PLATFORM]\<rparr>)]\<rparr>
      = Inr ([''0001_initial'', ''0019_audit''], p2)
    \<and> length [''0001_initial'', ''0019_audit''] = 2"
proof -
  define p where "p = \<lparr>pre_registry = initial_registry,
     pre_bindings = [
       (''module_database_roles.v1'', \<lparr>bound_prerequisite = ''module_database_roles.v1'',
          provider_revision = ''0001_initial'', provider_owner = ''kernel''\<rparr>),
       (''platform_audit_log.v1'', \<lparr>bound_prerequisite = ''platform_audit_log.v1'',
          provider_revision = ''0019_audit'', provider_owner = ''kernel''\<rparr>)],
     plane_selections = [(''approvals'', \<lparr>sel_module = ''approvals'', sel_planes = [PLATFORM]\<rparr>)]\<rparr>"
  define env where "env = \<lparr>env_bindings = None, env_planes = None\<rparr>"
  define X where "X = resolve_depends_on env [''module_database_roles.v1'']
      (Some ''approvals'') [''tenant_scope_catalog.v1''] [''platform_audit_log.v1''] p"
  have "\<not> isl X \<and> fst (projr X) = [''0001_initial'', ''0019_audit'']"
    unfolding X_def p_def env_def by code_simp
  then obtain p2 where p2: "X = Inr ([''0001_initial'', ''0019_audit''], p2)" by (cases X) auto
  have avail: "bindings_available env p = Inr (True, p)" by (simp add: bindings_available_def p_def)
  from resolve_depends_on_complete [OF p2 [unfolded X_def] avail] obtain planes where
    "selected_module_planes (env_planes env) ''approvals'' (plane_selections p)
      = Inr (planes, plane_selections p2)" by auto
  then have "planes = {PLATFORM}" by (auto simp: p_def selected_module_planes_def)
  with p2 show ?thesis unfolding X_def p_def env_def by auto
qed

end
