(* ===== verification/Namespaces.thy ===== *)
theory Namespaces
  imports Prerequisites
begin

text \<open>
  Database namespaces and migration lineage identity (\<^verbatim>\<open>namespaces.py\<close>): names and
  their validators, revision identifiers, migration owners, and the registry of a
  composed deployment.  The patterns are matched with \<^verbatim>\<open>re.match\<close>, so each accepts a
  trailing newline (\<open>dollar_match\<close>).  \<^verbatim>\<open>MigrationOwner\<close> validates against the process
  registry of prerequisites, which is an argument.  The shipped ledger is in the
  theory Ledger; \<open>from_manifests\<close> takes the ledger as the source does, by argument.
\<close>

definition MAX_REVISION_ID_LENGTH :: nat where "MAX_REVISION_ID_LENGTH = 32"
definition MAX_IDENTIFIER_LENGTH :: nat where "MAX_IDENTIFIER_LENGTH = 63"
definition HOST_SCHEMA :: string where "HOST_SCHEMA = ''public''"
definition MODULE_SCHEMA_PREFIX :: string where "MODULE_SCHEMA_PREFIX = ''mod_''"
definition RESERVED_SCHEMAS :: "string list" where
  "RESERVED_SCHEMAS = [HOST_SCHEMA, ''information_schema'', ''pg_catalog'', ''pg_toast'', ''pg_temp'']"
definition REVISION_SEQUENCE_DIGITS :: nat where "REVISION_SEQUENCE_DIGITS = 4"
definition MAX_MIGRATION_PREFIX_LENGTH :: nat where "MAX_MIGRATION_PREFIX_LENGTH = 6"

definition short_code_re :: "string \<Rightarrow> bool" where
  "short_code_re = dollar_match (word_like is_lower word_char 1 20)"

definition migration_prefix_body :: "string \<Rightarrow> bool" where
  "migration_prefix_body = word_like is_lower alnum_char 0 (MAX_MIGRATION_PREFIX_LENGTH - 1)"

definition branch_label_re :: "string \<Rightarrow> bool" where
  "branch_label_re = dollar_match (word_like is_lower word_char 0 31)"

definition table_name_re :: "string \<Rightarrow> bool" where
  "table_name_re = dollar_match (word_like is_lower word_char 0 61)"

text \<open>\<^verbatim>\<open>[a-z0-9]+(?:_[a-z0-9]+)*\<close>: underscore-separated non-empty alphanumeric segments.\<close>

definition slug_body :: "string \<Rightarrow> bool" where
  "slug_body s \<longleftrightarrow> list_all (\<lambda>seg. seg \<noteq> [] \<and> list_all alnum_char seg) (split_on CHR ''_'' s)"

subsection \<open>Name construction and validation\<close>

definition validate_short_code :: "string \<Rightarrow> assembly_error + unit" where
  "validate_short_code c = ensure (short_code_re c) (InvalidSchemaError c)"

definition validate_schema :: "string \<Rightarrow> assembly_error + unit" where
  "validate_schema schema =
     (if schema \<in> set RESERVED_SCHEMAS
      then Inl (if schema = HOST_SCHEMA then HostSchemaClaimError schema else InvalidSchemaError schema)
      else if take 3 schema = ''pg_'' then Inl (InvalidSchemaError schema)
      else if take (length MODULE_SCHEMA_PREFIX) schema \<noteq> MODULE_SCHEMA_PREFIX
      then Inl (InvalidSchemaError schema)
      else if length schema > MAX_IDENTIFIER_LENGTH then Inl (InvalidSchemaError schema)
      else validate_short_code (drop (length MODULE_SCHEMA_PREFIX) schema))"

definition module_schema :: "string \<Rightarrow> assembly_error + string" where
  "module_schema c = bindr (validate_short_code c) (\<lambda>_.
     let schema = MODULE_SCHEMA_PREFIX @ c in
     bindr (validate_schema schema) (\<lambda>_. Inr schema))"

definition validate_migration_prefix :: "string \<Rightarrow> assembly_error + unit" where
  "validate_migration_prefix p =
     ensure (dollar_match migration_prefix_body p) (InvalidMigrationPrefixError p)"

definition validate_branch_label :: "string \<Rightarrow> assembly_error + unit" where
  "validate_branch_label l = ensure (branch_label_re l) (NamespaceError l)"

definition qualified_name :: "string \<Rightarrow> string \<Rightarrow> string" where
  "qualified_name schema table = schema @ ''.'' @ table"

definition schema_table_args :: "string \<Rightarrow> assembly_error + (string \<times> string) list" where
  "schema_table_args schema = bindr (validate_schema schema) (\<lambda>_. Inr [(''schema'', schema)])"

definition revision_id :: "string \<Rightarrow> int \<Rightarrow> string \<Rightarrow> assembly_error + string" where
  "revision_id prefix sequence slug =
     bindr (validate_migration_prefix prefix) (\<lambda>_.
     if sequence < 0 \<or> sequence \<ge> 10 ^ REVISION_SEQUENCE_DIGITS
     then Inl (InvalidRevisionIdError prefix)
     else if \<not> dollar_match slug_body slug then Inl (InvalidRevisionIdError slug)
     else let rid = prefix @ ''_'' @ pad_str REVISION_SEQUENCE_DIGITS (nat sequence) @ ''_'' @ slug in
       if length rid > MAX_REVISION_ID_LENGTH then Inl (InvalidRevisionIdError rid)
       else Inr rid)"

text \<open>\<^verbatim>\<open>revision_id_pattern(prefix).fullmatch(rid)\<close>.\<close>

definition revision_id_fullmatch :: "string \<Rightarrow> string \<Rightarrow> bool" where
  "revision_id_fullmatch prefix rid \<longleftrightarrow>
     take (length prefix + 1) rid = prefix @ ''_'' \<and>
     (let rest = drop (length prefix + 1) rid in
      5 \<le> length rest \<and> list_all is_digit (take 4 rest) \<and> rest ! 4 = CHR ''_''
      \<and> slug_body (drop 5 rest))"

subsection \<open>Migration owners\<close>

record MigrationOwner =
  owner :: string
  prefix :: string
  branch_label :: string
  db_schema :: "string option"
  legacy_revision_pattern :: "string option"
  provides :: "string list"

definition make_MigrationOwner ::
    "prerequisite_registry \<Rightarrow> MigrationOwner \<Rightarrow> assembly_error + MigrationOwner" where
  "make_MigrationOwner reg o1 =
     (if owner o1 = [] then Inl (NamespaceError ''migration owner requires a non-empty `owner`'')
      else
      bindr (validate_migration_prefix (prefix o1)) (\<lambda>_.
      bindr (validate_branch_label (branch_label o1)) (\<lambda>_.
      bindr (validate_prerequisites reg (provides o1)) (\<lambda>_.
      bindr (case db_schema o1 of
          Some s \<Rightarrow> validate_schema s
        | None \<Rightarrow> if legacy_revision_pattern o1 = None then Inl (HostSchemaClaimError (owner o1)) else Inr ())
        (\<lambda>_. Inr o1)))))"

definition is_legacy :: "MigrationOwner \<Rightarrow> bool" where
  "is_legacy o1 \<longleftrightarrow> legacy_revision_pattern o1 \<noteq> None"

text \<open>
  \<^verbatim>\<open>owner.revision_pattern().fullmatch(rid)\<close>; the regular-expression engine applied to
  a legacy pattern is an argument.
\<close>

definition revision_pattern_fullmatch ::
    "(string \<Rightarrow> string \<Rightarrow> bool) \<Rightarrow> MigrationOwner \<Rightarrow> string \<Rightarrow> bool" where
  "revision_pattern_fullmatch legacy o1 rid = (case legacy_revision_pattern o1 of
     Some pattern \<Rightarrow> legacy pattern rid
   | None \<Rightarrow> revision_id_fullmatch (prefix o1) rid)"

subsection \<open>The composed registry\<close>

record NamespaceRegistry =
  reg_owners :: "MigrationOwner list"
  tables_by_schema :: "(string \<times> string set) list"
  platform_tables_by_schema :: "(string \<times> string set) list"
  installed_planes_by_schema :: "(string \<times> module_plane set) list"

fun check_unique ::
    "(MigrationOwner \<Rightarrow> string option) \<Rightarrow> (string \<Rightarrow> assembly_error) \<Rightarrow> MigrationOwner list \<Rightarrow> string list
       \<Rightarrow> assembly_error + unit" where
  "check_unique key err [] seen = Inr ()"
| "check_unique key err (o1 # os) seen = (case key o1 of
     None \<Rightarrow> check_unique key err os seen
   | Some v \<Rightarrow> if v \<in> set seen then Inl (err v) else check_unique key err os (v # seen))"

definition schema_of :: "MigrationOwner list \<Rightarrow> string \<Rightarrow> string option" where
  "schema_of owners name = (case map_of (rev (map (\<lambda>o1. (owner o1, db_schema o1)) owners)) name of
     None \<Rightarrow> None | Some s \<Rightarrow> s)"

text \<open>\<^verbatim>\<open>out.setdefault(schema, set()).add(table)\<close>.\<close>

definition add_table :: "string \<Rightarrow> string \<Rightarrow> (string \<times> string set) list \<Rightarrow> (string \<times> string set) list" where
  "add_table schema t out =
     AList.update schema (insert t (case map_of out schema of None \<Rightarrow> {} | Some s \<Rightarrow> s)) out"

fun claim_owner_tables ::
    "string \<Rightarrow> string list \<Rightarrow> string list \<Rightarrow> (string \<times> string set) list
       \<Rightarrow> assembly_error + (string list \<times> (string \<times> string set) list)" where
  "claim_owner_tables schema [] claimed out = Inr (claimed, out)"
| "claim_owner_tables schema (t # ts) claimed out =
     (if \<not> table_name_re t then Inl (NamespaceError t)
      else if qualified_name schema t \<in> set claimed then Inl (DuplicateTableOwnerError (qualified_name schema t))
      else claim_owner_tables schema ts (qualified_name schema t # claimed) (add_table schema t out))"

fun claim_loop ::
    "MigrationOwner list \<Rightarrow> (string \<times> string list) list \<Rightarrow> string list \<Rightarrow> (string \<times> string set) list
       \<Rightarrow> assembly_error + (string \<times> string set) list" where
  "claim_loop owners [] claimed out = Inr out"
| "claim_loop owners ((name, ts) # rest) claimed out = (case schema_of owners name of
     None \<Rightarrow> Inl (HostSchemaClaimError name)
   | Some schema \<Rightarrow> bindr (claim_owner_tables schema ts claimed out)
       (\<lambda>(claimed', out'). claim_loop owners rest claimed' out'))"

definition claim_tables ::
    "MigrationOwner list \<Rightarrow> (string \<times> string list) list \<Rightarrow> assembly_error + (string \<times> string set) list" where
  "claim_tables owners tables_by_owner = claim_loop owners tables_by_owner [] []"

definition get_list :: "(string \<times> 'a list) list \<Rightarrow> string \<Rightarrow> 'a list" where
  "get_list d k = (case map_of d k of None \<Rightarrow> [] | Some v \<Rightarrow> v)"

text \<open>
  The keys of both table declarations.  The source iterates a set here, so the
  order, and with it which of several errors is reported, is unspecified there.
\<close>

definition declared_names :: "(string \<times> string list) list \<Rightarrow> (string \<times> string list) list \<Rightarrow> string list" where
  "declared_names tenant platform = remdups (map fst tenant @ map fst platform)"

fun installed_planes_dict ::
    "MigrationOwner list \<Rightarrow> (string \<times> module_plane list) list \<Rightarrow> (string \<times> module_plane set) list
       \<Rightarrow> (string \<times> module_plane set) list" where
  "installed_planes_dict owners [] d = d"
| "installed_planes_dict owners ((name, ps) # rest) d =
     installed_planes_dict owners rest
       (case schema_of owners name of None \<Rightarrow> d | Some s \<Rightarrow> AList.update s (set ps) d)"

definition NamespaceRegistry_init ::
    "MigrationOwner list \<Rightarrow> (string \<times> string list) list \<Rightarrow> (string \<times> string list) list
       \<Rightarrow> (string \<times> module_plane list) list option \<Rightarrow> assembly_error + NamespaceRegistry" where
  "NamespaceRegistry_init owners tenant platform installed =
     bindr (check_unique (\<lambda>o1. Some (owner o1)) NamespaceError owners []) (\<lambda>_.
     bindr (check_unique db_schema DuplicateSchemaError owners []) (\<lambda>_.
     bindr (check_unique (\<lambda>o1. Some (prefix o1)) DuplicateMigrationPrefixError owners []) (\<lambda>_.
     bindr (check_unique (\<lambda>o1. Some (branch_label o1)) DuplicateBranchLabelError owners []) (\<lambda>_.
     let names = declared_names tenant platform;
         combined = map (\<lambda>n. (n, get_list tenant n @ get_list platform n)) names;
         effective = (case installed of
            Some d \<Rightarrow> d
          | None \<Rightarrow> map (\<lambda>n. (n, (if get_list tenant n \<noteq> [] then [TENANT] else []) @
                                  (if get_list platform n \<noteq> [] then [PLATFORM] else []))) names)
     in
     bindr (claim_tables owners combined) (\<lambda>all_tables.
     bindr (claim_tables owners platform) (\<lambda>platform_tables.
     Inr \<lparr>reg_owners = owners, tables_by_schema = all_tables,
          platform_tables_by_schema = platform_tables,
          installed_planes_by_schema = installed_planes_dict owners effective []\<rparr>))))))"

subsection \<open>Construction from manifests\<close>

text \<open>
  A module manifest's \<^verbatim>\<open>migration_owner()\<close>: none for a stateless module or a feature.
\<close>

definition migration_owner ::
    "prerequisite_registry \<Rightarrow> ModuleManifest \<Rightarrow> assembly_error + MigrationOwner option" where
  "migration_owner reg m = (case (short_code m, migration_prefix m) of
     (Some sc, Some px) \<Rightarrow>
       bindr (module_schema sc) (\<lambda>schema.
       bindr (make_MigrationOwner reg \<lparr>owner = code m, prefix = px,
           branch_label = (case migration_branch m of None \<Rightarrow> code m
              | Some b \<Rightarrow> if b = [] then code m else b),
           db_schema = Some schema, legacy_revision_pattern = None, provides = []\<rparr>)
         (\<lambda>o1. Inr (Some o1)))
   | _ \<Rightarrow> Inr None)"

definition any_migration_owner ::
    "prerequisite_registry \<Rightarrow> AnyManifest \<Rightarrow> assembly_error + MigrationOwner option" where
  "any_migration_owner reg m = (case m of Feature _ \<Rightarrow> Inr None | Module k \<Rightarrow> migration_owner reg k)"

text \<open>\<^verbatim>\<open>by_owner = {entry.owner: entry for entry in ...}\<close>.\<close>

definition by_owner :: "MigrationOwner list \<Rightarrow> string \<Rightarrow> MigrationOwner option" where
  "by_owner ledger name = map_of (rev (map (\<lambda>e. (owner e, e)) ledger)) name"

fun check_hosts :: "MigrationOwner list \<Rightarrow> MigrationOwner list \<Rightarrow> assembly_error + unit" where
  "check_hosts ledger [] = Inr ()"
| "check_hosts ledger (h # hs) =
     (if by_owner ledger (owner h) \<noteq> Some h then Inl (NamespaceAllocationError (owner h))
      else check_hosts ledger hs)"

definition drifted :: "MigrationOwner \<Rightarrow> MigrationOwner \<Rightarrow> bool" where
  "drifted allocated declared \<longleftrightarrow> db_schema allocated \<noteq> db_schema declared
     \<or> prefix allocated \<noteq> prefix declared \<or> branch_label allocated \<noteq> branch_label declared"

definition installed_planes_of ::
    "(string \<times> ModulePlaneSelection) list \<Rightarrow> AnyManifest \<Rightarrow> module_plane list" where
  "installed_planes_of selection_by_code m = (case map_of selection_by_code (any_code m) of
     Some s \<Rightarrow> sel_planes s | None \<Rightarrow> declared_planes m)"

record namespace_build =
  b_owners :: "MigrationOwner list"
  b_tables :: "(string \<times> string list) list"
  b_platform :: "(string \<times> string list) list"
  b_planes :: "(string \<times> module_plane list) list"

fun collect_owners ::
    "prerequisite_registry \<Rightarrow> MigrationOwner list \<Rightarrow> (string \<times> ModulePlaneSelection) list
       \<Rightarrow> AnyManifest list \<Rightarrow> namespace_build \<Rightarrow> assembly_error + namespace_build" where
  "collect_owners reg ledger sel [] b = Inr b"
| "collect_owners reg ledger sel (m # ms) b =
     bindr (any_migration_owner reg m) (\<lambda>declared. case declared of
       None \<Rightarrow> collect_owners reg ledger sel ms b
     | Some d \<Rightarrow> (case by_owner ledger (owner d) of
         None \<Rightarrow> Inl (UnallocatedNamespaceError (owner d))
       | Some allocated \<Rightarrow>
           if drifted allocated d then Inl (NamespaceAllocationError (owner d))
           else collect_owners reg ledger sel ms
             \<lparr>b_owners = b_owners b @ [allocated],
              b_tables = AList.update (owner allocated) (any_tables m) (b_tables b),
              b_platform = AList.update (owner allocated) (any_platform_tables m) (b_platform b),
              b_planes = AList.update (owner allocated) (installed_planes_of sel m) (b_planes b)\<rparr>))"

definition NamespaceRegistry_from_manifests ::
    "prerequisite_registry \<Rightarrow> MigrationOwner list \<Rightarrow> MigrationOwner list
       \<Rightarrow> ModulePlaneSelection list option \<Rightarrow> AnyManifest list \<Rightarrow> assembly_error + NamespaceRegistry" where
  "NamespaceRegistry_from_manifests reg ledger host_owners module_planes manifests =
     bindr (case module_planes of None \<Rightarrow> Inr []
        | Some sels \<Rightarrow> validate_module_plane_selections manifests sels) (\<lambda>selections.
     bindr (NamespaceRegistry_init ledger [] [] None) (\<lambda>_.
     bindr (check_hosts ledger host_owners) (\<lambda>_.
     bindr (collect_owners reg ledger (rev (map (\<lambda>s. (sel_module s, s)) selections)) manifests
        \<lparr>b_owners = host_owners, b_tables = [], b_platform = [], b_planes = []\<rparr>) (\<lambda>b.
     NamespaceRegistry_init (b_owners b) (b_tables b) (b_platform b) (Some (b_planes b))))))"

subsection \<open>Reading the registry\<close>

definition module_schemas :: "NamespaceRegistry \<Rightarrow> string list" where
  "module_schemas r = sort (List.map_filter (\<lambda>o1. case db_schema o1 of
     None \<Rightarrow> None | Some s \<Rightarrow> if s = [] then None else Some s) (reg_owners r))"

definition owner_for_branch :: "NamespaceRegistry \<Rightarrow> string \<Rightarrow> MigrationOwner option" where
  "owner_for_branch r label = find (\<lambda>o1. branch_label o1 = label) (reg_owners r)"

definition owner_for_prefix :: "NamespaceRegistry \<Rightarrow> string \<Rightarrow> MigrationOwner option" where
  "owner_for_prefix r p = find (\<lambda>o1. prefix o1 = p) (reg_owners r)"

definition get_owner :: "NamespaceRegistry \<Rightarrow> string \<Rightarrow> MigrationOwner option" where
  "get_owner r name = find (\<lambda>o1. owner o1 = name) (reg_owners r)"

definition get_set :: "(string \<times> 'a set) list \<Rightarrow> string \<Rightarrow> 'a set" where
  "get_set d k = (case map_of d k of None \<Rightarrow> {} | Some v \<Rightarrow> v)"

definition declared_tables :: "NamespaceRegistry \<Rightarrow> string \<Rightarrow> string set" where
  "declared_tables r schema = get_set (tables_by_schema r) schema"

definition declared_platform_tables :: "NamespaceRegistry \<Rightarrow> string \<Rightarrow> string set" where
  "declared_platform_tables r schema = get_set (platform_tables_by_schema r) schema"

definition tenant_plane_installed :: "NamespaceRegistry \<Rightarrow> string \<Rightarrow> bool" where
  "tenant_plane_installed r schema \<longleftrightarrow> TENANT \<in> get_set (installed_planes_by_schema r) schema"

definition platform_plane_installed :: "NamespaceRegistry \<Rightarrow> string \<Rightarrow> bool" where
  "platform_plane_installed r schema \<longleftrightarrow> PLATFORM \<in> get_set (installed_planes_by_schema r) schema"

definition expected_tables :: "NamespaceRegistry \<Rightarrow> string \<Rightarrow> string set" where
  "expected_tables r schema =
     (let platform = declared_platform_tables r schema;
          tenant = declared_tables r schema - platform in
      (if tenant_plane_installed r schema then tenant else {}) \<union>
      (if platform_plane_installed r schema then platform else {}))"

definition table_owner :: "NamespaceRegistry \<Rightarrow> string \<Rightarrow> string \<Rightarrow> string option" where
  "table_owner r schema table = map_option owner
     (find (\<lambda>o1. db_schema o1 = Some schema \<and> table \<in> declared_tables r schema) (reg_owners r))"

subsection \<open>Revision identifiers\<close>

lemma migration_prefix_no_underscore:
  assumes "validate_migration_prefix p = Inr u"
  shows "CHR ''_'' \<notin> set p"
proof -
  have body: "CHR ''_'' \<notin> set t" if "migration_prefix_body t" for t
    using that
    by (auto simp: migration_prefix_body_def word_like_def alnum_char_def is_lower_def is_digit_def
        list_all_iff split: list.splits)
  have "set p \<subseteq> insert (CHR 0x0A) (set (butlast p))" if "p \<noteq> []" "last p = CHR 0x0A"
    using that by (cases p rule: rev_cases) auto
  with assms body show ?thesis
    by (auto simp: validate_migration_prefix_def dollar_match_def)
qed

lemma revision_id_Inr:
  assumes "revision_id p n s = Inr r"
  shows "r = p @ CHR ''_'' # pad_str 4 (nat n) @ CHR ''_'' # s" and "length r \<le> 32"
    and "0 \<le> n" and "n < 10000" and "CHR ''_'' \<notin> set p" and "dollar_match slug_body s"
proof -
  obtain u where u: "validate_migration_prefix p = Inr u"
    and r: "\<not> (n < 0 \<or> n \<ge> 10 ^ REVISION_SEQUENCE_DIGITS)" "dollar_match slug_body s"
      "\<not> MAX_REVISION_ID_LENGTH < length r"
      "r = p @ ''_'' @ pad_str REVISION_SEQUENCE_DIGITS (nat n) @ ''_'' @ s"
    using assms by (auto simp: revision_id_def bindr_eq_Inr Let_def split: if_splits)
  show "r = p @ CHR ''_'' # pad_str 4 (nat n) @ CHR ''_'' # s"
    using r(4) by (simp add: REVISION_SEQUENCE_DIGITS_def)
  show "length r \<le> 32" using r(3) by (simp add: MAX_REVISION_ID_LENGTH_def)
  show "0 \<le> n" "n < 10000" using r(1) by (simp_all add: REVISION_SEQUENCE_DIGITS_def)
  show "CHR ''_'' \<notin> set p" using migration_prefix_no_underscore [OF u] .
  show "dollar_match slug_body s" using r(2) .
qed

lemma revision_id_injective:
  assumes "revision_id p n s = Inr r" and "revision_id p' n' s' = Inr r"
  shows "p = p' \<and> n = n' \<and> s = s'"
proof -
  have "p @ CHR ''_'' # pad_str 4 (nat n) @ CHR ''_'' # s
      = p' @ CHR ''_'' # pad_str 4 (nat n') @ CHR ''_'' # s'"
    using revision_id_Inr(1) [OF assms(1)] revision_id_Inr(1) [OF assms(2)] by simp
  then have pp: "p = p'" and rest: "pad_str 4 (nat n) @ CHR ''_'' # s = pad_str 4 (nat n') @ CHR ''_'' # s'"
    by (simp_all add: append_sep_eq revision_id_Inr(5) [OF assms(1)] revision_id_Inr(5) [OF assms(2)])
  from rest have "pad_str 4 (nat n) = pad_str 4 (nat n')" and ss: "s = s'"
    by (simp_all add: append_eq_append_conv)
  moreover have "nat n < 10 ^ 4" "nat n' < 10 ^ 4"
    using revision_id_Inr(4) [OF assms(1)] revision_id_Inr(4) [OF assms(2)] by simp_all
  ultimately have "nat n = nat n'" using pad_str_inj by blast
  then show ?thesis
    using pp ss revision_id_Inr(3) [OF assms(1)] revision_id_Inr(3) [OF assms(2)] by simp
qed

lemma revision_id_in_lineage:
  assumes "revision_id p n s = Inr r" and "slug_body s"
  shows "revision_id_fullmatch p r"
  using revision_id_Inr(1) [OF assms(1)] assms(2) pad_str_digits [of 4 "nat n"]
  by (simp add: revision_id_fullmatch_def Let_def nth_append)

subsection \<open>Owners and claims\<close>

lemma check_unique_Inr:
  "check_unique key err os seen = Inr u \<longleftrightarrow>
     distinct (List.map_filter key os) \<and> set (List.map_filter key os) \<inter> set seen = {}"
  by (induction key err os seen rule: check_unique.induct)
    (auto simp: map_filter_simps split: option.splits)

lemma map_filter_Some [simp]: "List.map_filter (\<lambda>x. Some (f x)) xs = map f xs"
  by (induction xs) (simp_all add: map_filter_simps)

lemma distinct_map_filter_inj:
  assumes "distinct (List.map_filter key xs)" and "a \<in> set xs" and "b \<in> set xs"
    and "key a = Some v" and "key b = Some v"
  shows "a = b"
  using assms
proof (induction xs)
  case Nil
  then show ?case by simp
next
  case (Cons x xs)
  have mem: "v \<in> set (List.map_filter key xs)" if "c \<in> set xs" "key c = Some v" for c
    using that by (force simp: map_filter_def)
  show ?case
  proof (cases "key x")
    case None
    with Cons show ?thesis by (auto simp: map_filter_simps)
  next
    case (Some w)
    with Cons mem show ?thesis by (auto simp: map_filter_simps)
  qed
qed

lemma map_of_rev_owner:
  assumes "distinct (map owner os)" and "a \<in> set os"
  shows "map_of (rev (map (\<lambda>o1. (owner o1, f o1)) os)) (owner a) = Some (f a)"
proof (rule map_of_is_SomeI)
  show "distinct (map fst (rev (map (\<lambda>o1. (owner o1, f o1)) os)))"
    using assms(1) by (simp add: rev_map comp_def) (metis distinct_rev rev_map)
  show "(owner a, f a) \<in> set (rev (map (\<lambda>o1. (owner o1, f o1)) os))"
    using assms(2) by auto
qed

lemma schema_of_owner:
  "distinct (map owner os) \<Longrightarrow> a \<in> set os \<Longrightarrow> schema_of os (owner a) = db_schema a"
  by (simp add: schema_of_def map_of_rev_owner)

lemma schema_of_Some:
  "schema_of os n = Some s \<Longrightarrow> \<exists>a \<in> set os. owner a = n \<and> db_schema a = Some s"
  by (force simp: schema_of_def dest!: map_of_SomeD split: option.splits)

lemma by_owner_Some: "by_owner ledger n = Some a \<Longrightarrow> owner a = n \<and> a \<in> set ledger"
  by (auto simp: by_owner_def dest!: map_of_SomeD)

lemma get_set_add_table:
  "get_set (add_table schema t out) s = (if s = schema then insert t (get_set out s) else get_set out s)"
  by (simp add: add_table_def get_set_def update_conv' split: option.splits)

lemma claim_owner_tables_get:
  "claim_owner_tables schema ts claimed out = Inr (claimed', out') \<Longrightarrow>
     get_set out' s = get_set out s \<union> (if s = schema then set ts else {})"
  by (induction schema ts claimed out rule: claim_owner_tables.induct)
    (auto simp: get_set_add_table split: if_splits)

definition claims_of ::
    "MigrationOwner list \<Rightarrow> (string \<times> string list) list \<Rightarrow> string \<Rightarrow> string set" where
  "claims_of owners d s = (\<Union>(n, ts) \<in> set d. if schema_of owners n = Some s then set ts else {})"

lemma claims_of_simps [simp]:
  "claims_of owners [] s = {}"
  "claims_of owners ((n, ts) # d) s =
     (if schema_of owners n = Some s then set ts else {}) \<union> claims_of owners d s"
  by (simp_all add: claims_of_def)

lemma claim_loop_get:
  "claim_loop owners d claimed out = Inr out' \<Longrightarrow>
     get_set out' s = get_set out s \<union> claims_of owners d s"
proof (induction owners d claimed out arbitrary: out' rule: claim_loop.induct)
  case (1 owners claimed out)
  then show ?case by simp
next
  case (2 owners n ts rest claimed out)
  from "2.prems" obtain schema claimed1 out1 where
    sch: "schema_of owners n = Some schema"
    and c1: "claim_owner_tables schema ts claimed out = Inr (claimed1, out1)"
    and c2: "claim_loop owners rest claimed1 out1 = Inr out'"
    by (auto simp: bindr_eq_Inr split: option.splits)
  have "get_set out' s = get_set out1 s \<union> claims_of owners rest s"
    using "2.IH" [OF sch c2] .
  with claim_owner_tables_get [OF c1, of s] sch show ?case by auto
qed

lemma claim_tables_get:
  "claim_tables owners d = Inr out \<Longrightarrow>
     get_set out s = claims_of owners d s"
  by (simp add: claim_tables_def claim_loop_get) (simp add: get_set_def)

lemma get_list_missing: "n \<notin> fst ` set d \<Longrightarrow> get_list d n = []"
proof -
  assume "n \<notin> fst ` set d"
  then have "map_of d n = None" by (simp add: map_of_eq_None_iff)
  then show ?thesis by (simp add: get_list_def)
qed

text \<open>What construction establishes; everything else about a registry follows from it.\<close>

lemma NamespaceRegistry_init_Inr:
  assumes "NamespaceRegistry_init os tenant platform installed = Inr r"
  shows "reg_owners r = os" and "distinct (map owner os)"
    and "distinct (List.map_filter db_schema os)" and "distinct (map prefix os)"
    and "distinct (map branch_label os)"
    and "claim_tables os (map (\<lambda>n. (n, get_list tenant n @ get_list platform n))
           (declared_names tenant platform)) = Inr (tables_by_schema r)"
    and "claim_tables os platform = Inr (platform_tables_by_schema r)"
  using assms
  by (simp_all add: NamespaceRegistry_init_def bindr_eq_Inr check_unique_Inr Let_def, fastforce+)

lemma init_declared_tables:
  assumes init: "NamespaceRegistry_init os tenant platform installed = Inr r"
    and a: "a \<in> set os" "db_schema a = Some s"
  shows "declared_tables r s = set (get_list tenant (owner a)) \<union> set (get_list platform (owner a))"
proof -
  note R = NamespaceRegistry_init_Inr [OF init]
  have only: "n = owner a" if sn: "schema_of os n = Some s" for n
  proof -
    obtain b where "b \<in> set os" "owner b = n" "db_schema b = Some s"
      using schema_of_Some [OF sn] by blast
    then show ?thesis using distinct_map_filter_inj [OF R(3) _ a(1) _ a(2)] by blast
  qed
  have self: "schema_of os (owner a) = Some s"
    using schema_of_owner [OF R(2) a(1)] a(2) by simp
  have iff: "schema_of os n = Some s \<longleftrightarrow> n = owner a" for n
    using only self by blast
  have dict: "claims_of os (map (\<lambda>n. (n, f n)) names) s =
      (if owner a \<in> set names then set (f (owner a)) else {})" for names and f :: "string \<Rightarrow> string list"
  proof (induction names)
    case Nil
    then show ?case by simp
  next
    case (Cons n names)
    then show ?case by (auto simp: iff)
  qed
  have "declared_tables r s = (if owner a \<in> set (declared_names tenant platform)
      then set (get_list tenant (owner a) @ get_list platform (owner a)) else {})"
    by (simp only: declared_tables_def claim_tables_get [OF R(6)] dict)
  also have "\<dots> = set (get_list tenant (owner a)) \<union> set (get_list platform (owner a))"
    by (auto simp: declared_names_def get_list_missing)
  finally show ?thesis .
qed

lemma init_table_owner:
  assumes init: "NamespaceRegistry_init os tenant platform installed = Inr r"
    and a: "a \<in> set os" "db_schema a = Some s"
  shows "table_owner r s t = (if t \<in> declared_tables r s then Some (owner a) else None)"
proof (cases "t \<in> declared_tables r s")
  case True
  note R = NamespaceRegistry_init_Inr [OF init]
  have "find (\<lambda>o1. db_schema o1 = Some s) os \<noteq> None"
    using a by (auto simp: find_None_iff)
  then obtain b where b: "find (\<lambda>o1. db_schema o1 = Some s) os = Some b" by blast
  then have "b \<in> set os" "db_schema b = Some s" by (auto simp: find_Some_iff)
  then have "b = a" using distinct_map_filter_inj [OF R(3) _ a(1) _ a(2)] by blast
  with b True R(1) show ?thesis by (simp add: table_owner_def)
next
  case False
  then show ?thesis by (auto simp: table_owner_def find_None_iff)
qed

subsection \<open>The registry of an installed set\<close>

lemma collect_owners_extends:
  "collect_owners reg ledger sel ms b = Inr b' \<Longrightarrow> \<exists>xs. b_owners b' = b_owners b @ xs \<and> set xs \<subseteq> set ledger"
proof (induction ms arbitrary: b)
  case Nil
  then show ?case by simp
next
  case (Cons m ms)
  then show ?case
    by (fastforce simp: bindr_eq_Inr dest: by_owner_Some split: option.splits if_splits)
qed

lemma collect_owners_stable:
  assumes "collect_owners reg ledger sel ms b = Inr b'" and "distinct (map owner (b_owners b'))"
    and "k \<in> owner ` set (b_owners b)"
  shows "map_of (b_tables b') k = map_of (b_tables b) k \<and> map_of (b_platform b') k = map_of (b_platform b) k
    \<and> map_of (b_planes b') k = map_of (b_planes b) k"
  using assms
proof (induction ms arbitrary: b)
  case Nil
  then show ?case by simp
next
  case (Cons m ms)
  from Cons.prems(1) obtain d where d: "any_migration_owner reg m = Inr d"
    by (auto simp: bindr_eq_Inr)
  show ?case
  proof (cases d)
    case None
    with Cons d show ?thesis by simp
  next
    case (Some e)
    with d Cons.prems(1) obtain a where a: "by_owner ledger (owner e) = Some a"
      and rest: "collect_owners reg ledger sel ms
             \<lparr>b_owners = b_owners b @ [a],
              b_tables = AList.update (owner a) (any_tables m) (b_tables b),
              b_platform = AList.update (owner a) (any_platform_tables m) (b_platform b),
              b_planes = AList.update (owner a) (installed_planes_of sel m) (b_planes b)\<rparr> = Inr b'"
      by (auto split: option.splits if_splits)
    from collect_owners_extends [OF rest] obtain xs where "b_owners b' = b_owners b @ a # xs" by auto
    then have "owner a \<notin> owner ` set (b_owners b)" using Cons.prems(2) by simp
    with Cons.prems(3) have "k \<noteq> owner a" by blast
    with Cons.IH [OF rest] Cons.prems(2,3) show ?thesis by (simp add: update_conv')
  qed
qed

lemma collect_owners_member:
  assumes "collect_owners reg ledger sel ms b = Inr b'" and "distinct (map owner (b_owners b'))"
    and "m \<in> set ms" and "any_migration_owner reg m = Inr (Some d)"
  shows "\<exists>a. by_owner ledger (owner d) = Some a \<and> \<not> drifted a d \<and> a \<in> set (b_owners b')
    \<and> map_of (b_tables b') (owner a) = Some (any_tables m)
    \<and> map_of (b_platform b') (owner a) = Some (any_platform_tables m)
    \<and> map_of (b_planes b') (owner a) = Some (installed_planes_of sel m)"
  using assms
proof (induction ms arbitrary: b)
  case Nil
  then show ?case by simp
next
  case (Cons x ms)
  show ?case
  proof (cases "m \<in> set ms")
    case True
    with Cons.prems(1) obtain b1 where "collect_owners reg ledger sel ms b1 = Inr b'"
      by (auto simp: bindr_eq_Inr split: option.splits if_splits)
    with Cons.IH Cons.prems(2,4) True show ?thesis by blast
  next
    case False
    with Cons.prems(3) have x: "x = m" by simp
    with Cons.prems(1,4) obtain a where a: "by_owner ledger (owner d) = Some a" "\<not> drifted a d"
      and rest: "collect_owners reg ledger sel ms
             \<lparr>b_owners = b_owners b @ [a],
              b_tables = AList.update (owner a) (any_tables m) (b_tables b),
              b_platform = AList.update (owner a) (any_platform_tables m) (b_platform b),
              b_planes = AList.update (owner a) (installed_planes_of sel m) (b_planes b)\<rparr> = Inr b'"
      by (auto split: option.splits if_splits)
    from collect_owners_extends [OF rest] have "a \<in> set (b_owners b')" by auto
    with collect_owners_stable [OF rest Cons.prems(2), of "owner a"] a show ?thesis
      by (auto simp: update_conv')
  qed
qed

lemma migration_owner_Some:
  assumes "migration_owner reg m = Inr (Some d)"
  shows "owner d = code m \<and> (\<exists>sc schema. short_code m = Some sc \<and> module_schema sc = Inr schema
    \<and> db_schema d = Some schema \<and> migration_prefix m = Some (prefix d))"
  using assms
  by (auto simp: migration_owner_def make_MigrationOwner_def bindr_eq_Inr split: option.splits if_splits)

text \<open>
  C26. Revision identifiers are unambiguous and fit the version table: a built
  identifier is at most 32 characters, and prefix, sequence and slug can be read
  back from it, so two lineages with different prefixes never share one.
\<close>

theorem revision_id_unambiguous:
  assumes "revision_id p n s = Inr r" and "revision_id p' n' s' = Inr r"
  shows "length r \<le> MAX_REVISION_ID_LENGTH \<and> p = p' \<and> n = n' \<and> s = s'"
  using revision_id_injective [OF assms] revision_id_Inr(2) [OF assms(1)]
  by (simp add: MAX_REVISION_ID_LENGTH_def)

theorem revision_id_unambiguous_witness:
  "revision_id ''ts'' 7 ''add_drafts'' = Inr ''ts_0007_add_drafts'' \<and>
   length ''ts_0007_add_drafts'' \<le> MAX_REVISION_ID_LENGTH"
proof -
  have "revision_id ''ts'' 7 ''add_drafts'' = Inr ''ts_0007_add_drafts''" by code_simp
  with revision_id_unambiguous [OF this this] show ?thesis by blast
qed

end
