(* ===== verification/Ledger.thy ===== *)
theory Ledger
  imports Namespaces
begin

text \<open>
  The allocation ledger shipped with the kernel (\<^verbatim>\<open>namespaces.py\<close>): one constant per
  migration owner, in the order of the source, and the tuple that lists them.
  \<^verbatim>\<open>module_schema(x)\<close> in a row is written as its value; that the value is the one
  the function returns is part of the theorem on the ledger.
\<close>

definition KERNEL_MIGRATION_OWNER :: MigrationOwner where
  "KERNEL_MIGRATION_OWNER = \<lparr>owner = ''kernel'', prefix = ''k'',
     branch_label = ''kernel'', db_schema = None,
     legacy_revision_pattern = Some (''^'' @ [CHR 0x5C] @ ''d{4}_[a-z0-9_]+$''), provides = [pre_name TENANT_SCOPE_CATALOG_V1,
       pre_name MODULE_DATABASE_ROLES_V1,
       pre_name PARTY_PERSON_CATALOG_V1,
       pre_name TENANT_AUDIT_LOG_V1]\<rparr>"

definition ASSEMBLY_MIGRATION_OWNER :: MigrationOwner where
  "ASSEMBLY_MIGRATION_OWNER = \<lparr>owner = ''assembly'', prefix = ''a'',
     branch_label = ''assembly'', db_schema = None,
     legacy_revision_pattern = Some (''^a'' @ [CHR 0x5C] @ ''d{3}_[a-z0-9_]+$''), provides = []\<rparr>"

definition TEMPLATE_STUDIO_MIGRATION_OWNER :: MigrationOwner where
  "TEMPLATE_STUDIO_MIGRATION_OWNER = \<lparr>owner = ''template_studio'', prefix = ''ts'',
     branch_label = ''template_studio'', db_schema = Some (MODULE_SCHEMA_PREFIX @ ''tstudio''),
     legacy_revision_pattern = None, provides = []\<rparr>"

definition TICKETING_MIGRATION_OWNER :: MigrationOwner where
  "TICKETING_MIGRATION_OWNER = \<lparr>owner = ''ticketing'', prefix = ''tk'',
     branch_label = ''ticketing'', db_schema = Some (MODULE_SCHEMA_PREFIX @ ''tkt''),
     legacy_revision_pattern = None, provides = []\<rparr>"

definition RELEASE_CATALOG_MIGRATION_OWNER :: MigrationOwner where
  "RELEASE_CATALOG_MIGRATION_OWNER = \<lparr>owner = ''release_catalog'', prefix = ''rl'',
     branch_label = ''release_catalog'', db_schema = Some (MODULE_SCHEMA_PREFIX @ ''rel''),
     legacy_revision_pattern = None, provides = []\<rparr>"

definition ENTITLEMENT_ALLOCATION_MIGRATION_OWNER :: MigrationOwner where
  "ENTITLEMENT_ALLOCATION_MIGRATION_OWNER = \<lparr>owner = ''entitlement_allocation'', prefix = ''ea'',
     branch_label = ''entitlement_allocation'', db_schema = Some (MODULE_SCHEMA_PREFIX @ ''ealloc''),
     legacy_revision_pattern = None, provides = []\<rparr>"

definition APPLICATION_DIRECTORY_MIGRATION_OWNER :: MigrationOwner where
  "APPLICATION_DIRECTORY_MIGRATION_OWNER = \<lparr>owner = ''application_directory'', prefix = ''ad'',
     branch_label = ''application_directory'', db_schema = Some (MODULE_SCHEMA_PREFIX @ ''appdir''),
     legacy_revision_pattern = None, provides = []\<rparr>"

definition FILES_MIGRATION_OWNER :: MigrationOwner where
  "FILES_MIGRATION_OWNER = \<lparr>owner = ''files'', prefix = ''fi'',
     branch_label = ''files'', db_schema = Some (MODULE_SCHEMA_PREFIX @ ''files''),
     legacy_revision_pattern = None, provides = []\<rparr>"

definition IMPORTS_MIGRATION_OWNER :: MigrationOwner where
  "IMPORTS_MIGRATION_OWNER = \<lparr>owner = ''imports'', prefix = ''im'',
     branch_label = ''imports'', db_schema = Some (MODULE_SCHEMA_PREFIX @ ''imports''),
     legacy_revision_pattern = None, provides = []\<rparr>"

definition INTEGRATION_MIGRATION_OWNER :: MigrationOwner where
  "INTEGRATION_MIGRATION_OWNER = \<lparr>owner = ''integration'', prefix = ''ig'',
     branch_label = ''integration'', db_schema = Some (MODULE_SCHEMA_PREFIX @ ''intg''),
     legacy_revision_pattern = None, provides = []\<rparr>"

definition APPROVALS_MIGRATION_OWNER :: MigrationOwner where
  "APPROVALS_MIGRATION_OWNER = \<lparr>owner = ''approvals'', prefix = ''ap'',
     branch_label = ''approvals'', db_schema = Some (MODULE_SCHEMA_PREFIX @ ''approvals''),
     legacy_revision_pattern = None, provides = []\<rparr>"

definition NUMBERING_MIGRATION_OWNER :: MigrationOwner where
  "NUMBERING_MIGRATION_OWNER = \<lparr>owner = ''numbering'', prefix = ''nu'',
     branch_label = ''numbering'', db_schema = Some (MODULE_SCHEMA_PREFIX @ ''numbering''),
     legacy_revision_pattern = None, provides = []\<rparr>"

definition PEOPLE_MIGRATION_OWNER :: MigrationOwner where
  "PEOPLE_MIGRATION_OWNER = \<lparr>owner = ''people'', prefix = ''pe'',
     branch_label = ''people'', db_schema = Some (MODULE_SCHEMA_PREFIX @ ''people''),
     legacy_revision_pattern = None, provides = []\<rparr>"

definition CAMPAIGNS_MIGRATION_OWNER :: MigrationOwner where
  "CAMPAIGNS_MIGRATION_OWNER = \<lparr>owner = ''campaigns'', prefix = ''ca'',
     branch_label = ''campaigns'', db_schema = Some (MODULE_SCHEMA_PREFIX @ ''campaigns''),
     legacy_revision_pattern = None, provides = []\<rparr>"

definition DURABLE_TIMERS_MIGRATION_OWNER :: MigrationOwner where
  "DURABLE_TIMERS_MIGRATION_OWNER = \<lparr>owner = ''durable_timers'', prefix = ''dt'',
     branch_label = ''durable_timers'', db_schema = Some (MODULE_SCHEMA_PREFIX @ ''timers''),
     legacy_revision_pattern = None, provides = []\<rparr>"

definition COMMERCIAL_AGREEMENTS_MIGRATION_OWNER :: MigrationOwner where
  "COMMERCIAL_AGREEMENTS_MIGRATION_OWNER = \<lparr>owner = ''commercial_agreements'', prefix = ''cg'',
     branch_label = ''commercial_agreements'', db_schema = Some (MODULE_SCHEMA_PREFIX @ ''agreements''),
     legacy_revision_pattern = None, provides = []\<rparr>"

definition LICENSING_MIGRATION_OWNER :: MigrationOwner where
  "LICENSING_MIGRATION_OWNER = \<lparr>owner = ''licensing'', prefix = ''li'',
     branch_label = ''licensing'', db_schema = Some (MODULE_SCHEMA_PREFIX @ ''licensing''),
     legacy_revision_pattern = None, provides = []\<rparr>"

definition DEPLOYMENT_CONTROL_MIGRATION_OWNER :: MigrationOwner where
  "DEPLOYMENT_CONTROL_MIGRATION_OWNER = \<lparr>owner = ''deployment_control'', prefix = ''dc'',
     branch_label = ''deployment_control'', db_schema = Some (MODULE_SCHEMA_PREFIX @ ''deploy''),
     legacy_revision_pattern = None, provides = []\<rparr>"

definition BRAND_PROFILES_MIGRATION_OWNER :: MigrationOwner where
  "BRAND_PROFILES_MIGRATION_OWNER = \<lparr>owner = ''brand_profiles'', prefix = ''bp'',
     branch_label = ''brand_profiles'', db_schema = Some (MODULE_SCHEMA_PREFIX @ ''brand''),
     legacy_revision_pattern = None, provides = []\<rparr>"

definition MEDIA_OBSERVATIONS_MIGRATION_OWNER :: MigrationOwner where
  "MEDIA_OBSERVATIONS_MIGRATION_OWNER = \<lparr>owner = ''media_observations'', prefix = ''mo'',
     branch_label = ''media_observations'', db_schema = Some (MODULE_SCHEMA_PREFIX @ ''mediaobs''),
     legacy_revision_pattern = None, provides = []\<rparr>"

definition CONTENT_MIGRATION_OWNER :: MigrationOwner where
  "CONTENT_MIGRATION_OWNER = \<lparr>owner = ''content'', prefix = ''ct'',
     branch_label = ''content'', db_schema = Some (MODULE_SCHEMA_PREFIX @ ''content''),
     legacy_revision_pattern = None, provides = []\<rparr>"

definition PUBLISHING_MIGRATION_OWNER :: MigrationOwner where
  "PUBLISHING_MIGRATION_OWNER = \<lparr>owner = ''publishing'', prefix = ''pb'',
     branch_label = ''publishing'', db_schema = Some (MODULE_SCHEMA_PREFIX @ ''publishing''),
     legacy_revision_pattern = None, provides = []\<rparr>"

definition SITES_MIGRATION_OWNER :: MigrationOwner where
  "SITES_MIGRATION_OWNER = \<lparr>owner = ''sites'', prefix = ''si'',
     branch_label = ''sites'', db_schema = Some (MODULE_SCHEMA_PREFIX @ ''sites''),
     legacy_revision_pattern = None, provides = []\<rparr>"

definition INVENTORY_MIGRATION_OWNER :: MigrationOwner where
  "INVENTORY_MIGRATION_OWNER = \<lparr>owner = ''inventory'', prefix = ''iv'',
     branch_label = ''inventory'', db_schema = Some (MODULE_SCHEMA_PREFIX @ ''inventory''),
     legacy_revision_pattern = None, provides = []\<rparr>"

definition ASSETS_MIGRATION_OWNER :: MigrationOwner where
  "ASSETS_MIGRATION_OWNER = \<lparr>owner = ''assets'', prefix = ''as'',
     branch_label = ''assets'', db_schema = Some (MODULE_SCHEMA_PREFIX @ ''assets''),
     legacy_revision_pattern = None, provides = []\<rparr>"

definition IPAM_MIGRATION_OWNER :: MigrationOwner where
  "IPAM_MIGRATION_OWNER = \<lparr>owner = ''ipam'', prefix = ''ip'',
     branch_label = ''ipam'', db_schema = Some (MODULE_SCHEMA_PREFIX @ ''ipam''),
     legacy_revision_pattern = None, provides = []\<rparr>"

definition NETWORK_INVENTORY_MIGRATION_OWNER :: MigrationOwner where
  "NETWORK_INVENTORY_MIGRATION_OWNER = \<lparr>owner = ''network_inventory'', prefix = ''ni'',
     branch_label = ''network_inventory'', db_schema = Some (MODULE_SCHEMA_PREFIX @ ''netinv''),
     legacy_revision_pattern = None, provides = []\<rparr>"

definition NETWORK_OBSERVABILITY_MIGRATION_OWNER :: MigrationOwner where
  "NETWORK_OBSERVABILITY_MIGRATION_OWNER = \<lparr>owner = ''network_observability'', prefix = ''no'',
     branch_label = ''network_observability'', db_schema = Some (MODULE_SCHEMA_PREFIX @ ''netobs''),
     legacy_revision_pattern = None, provides = []\<rparr>"

definition NETWORK_TOPOLOGY_MIGRATION_OWNER :: MigrationOwner where
  "NETWORK_TOPOLOGY_MIGRATION_OWNER = \<lparr>owner = ''network_topology'', prefix = ''nt'',
     branch_label = ''network_topology'', db_schema = Some (MODULE_SCHEMA_PREFIX @ ''nettop''),
     legacy_revision_pattern = None, provides = []\<rparr>"

definition NETWORK_ASSURANCE_MIGRATION_OWNER :: MigrationOwner where
  "NETWORK_ASSURANCE_MIGRATION_OWNER = \<lparr>owner = ''network_assurance'', prefix = ''na'',
     branch_label = ''network_assurance'', db_schema = Some (MODULE_SCHEMA_PREFIX @ ''netassure''),
     legacy_revision_pattern = None, provides = []\<rparr>"

definition NETWORK_CONTROL_MIGRATION_OWNER :: MigrationOwner where
  "NETWORK_CONTROL_MIGRATION_OWNER = \<lparr>owner = ''network_control'', prefix = ''nc'',
     branch_label = ''network_control'', db_schema = Some (MODULE_SCHEMA_PREFIX @ ''netctrl''),
     legacy_revision_pattern = None, provides = []\<rparr>"

definition FIBER_PLANT_MIGRATION_OWNER :: MigrationOwner where
  "FIBER_PLANT_MIGRATION_OWNER = \<lparr>owner = ''fiber_plant'', prefix = ''fp'',
     branch_label = ''fiber_plant'', db_schema = Some (MODULE_SCHEMA_PREFIX @ ''fiber''),
     legacy_revision_pattern = None, provides = []\<rparr>"

definition NETWORK_ACCESS_MIGRATION_OWNER :: MigrationOwner where
  "NETWORK_ACCESS_MIGRATION_OWNER = \<lparr>owner = ''network_access'', prefix = ''nac'',
     branch_label = ''network_access'', db_schema = Some (MODULE_SCHEMA_PREFIX @ ''netaccess''),
     legacy_revision_pattern = None, provides = []\<rparr>"

definition PON_ACCESS_MIGRATION_OWNER :: MigrationOwner where
  "PON_ACCESS_MIGRATION_OWNER = \<lparr>owner = ''pon_access'', prefix = ''pn'',
     branch_label = ''pon_access'', db_schema = Some (MODULE_SCHEMA_PREFIX @ ''pon''),
     legacy_revision_pattern = None, provides = []\<rparr>"

definition POSITIONING_MIGRATION_OWNER :: MigrationOwner where
  "POSITIONING_MIGRATION_OWNER = \<lparr>owner = ''positioning'', prefix = ''po'',
     branch_label = ''positioning'', db_schema = Some (MODULE_SCHEMA_PREFIX @ ''pos''),
     legacy_revision_pattern = None, provides = []\<rparr>"

definition REFERRALS_MIGRATION_OWNER :: MigrationOwner where
  "REFERRALS_MIGRATION_OWNER = \<lparr>owner = ''referrals'', prefix = ''rf'',
     branch_label = ''referrals'', db_schema = Some (MODULE_SCHEMA_PREFIX @ ''referrals''),
     legacy_revision_pattern = None, provides = []\<rparr>"

definition RESELLER_MANAGEMENT_MIGRATION_OWNER :: MigrationOwner where
  "RESELLER_MANAGEMENT_MIGRATION_OWNER = \<lparr>owner = ''reseller_management'', prefix = ''rm'',
     branch_label = ''reseller_management'', db_schema = Some (MODULE_SCHEMA_PREFIX @ ''reseller''),
     legacy_revision_pattern = None, provides = []\<rparr>"

definition ACCOUNTING_MIGRATION_OWNER :: MigrationOwner where
  "ACCOUNTING_MIGRATION_OWNER = \<lparr>owner = ''accounting'', prefix = ''ac'',
     branch_label = ''accounting'', db_schema = Some (MODULE_SCHEMA_PREFIX @ ''accounting''),
     legacy_revision_pattern = None, provides = []\<rparr>"

definition ANALYTICS_MIGRATION_OWNER :: MigrationOwner where
  "ANALYTICS_MIGRATION_OWNER = \<lparr>owner = ''analytics'', prefix = ''ay'',
     branch_label = ''analytics'', db_schema = Some (MODULE_SCHEMA_PREFIX @ ''analytics''),
     legacy_revision_pattern = None, provides = []\<rparr>"

definition BANKING_MIGRATION_OWNER :: MigrationOwner where
  "BANKING_MIGRATION_OWNER = \<lparr>owner = ''banking'', prefix = ''bk'',
     branch_label = ''banking'', db_schema = Some (MODULE_SCHEMA_PREFIX @ ''banking''),
     legacy_revision_pattern = None, provides = []\<rparr>"

definition DOCUMENTS_MIGRATION_OWNER :: MigrationOwner where
  "DOCUMENTS_MIGRATION_OWNER = \<lparr>owner = ''documents'', prefix = ''do'',
     branch_label = ''documents'', db_schema = Some (MODULE_SCHEMA_PREFIX @ ''documents''),
     legacy_revision_pattern = None, provides = []\<rparr>"

definition EXPENSES_MIGRATION_OWNER :: MigrationOwner where
  "EXPENSES_MIGRATION_OWNER = \<lparr>owner = ''expenses'', prefix = ''ex'',
     branch_label = ''expenses'', db_schema = Some (MODULE_SCHEMA_PREFIX @ ''expenses''),
     legacy_revision_pattern = None, provides = []\<rparr>"

definition FINANCE_MIGRATION_OWNER :: MigrationOwner where
  "FINANCE_MIGRATION_OWNER = \<lparr>owner = ''finance'', prefix = ''fn'',
     branch_label = ''finance'', db_schema = Some (MODULE_SCHEMA_PREFIX @ ''finance''),
     legacy_revision_pattern = None, provides = []\<rparr>"

definition INBOX_MIGRATION_OWNER :: MigrationOwner where
  "INBOX_MIGRATION_OWNER = \<lparr>owner = ''inbox'', prefix = ''ib'',
     branch_label = ''inbox'', db_schema = Some (MODULE_SCHEMA_PREFIX @ ''inbox''),
     legacy_revision_pattern = None, provides = []\<rparr>"

definition PARTY_MIGRATION_OWNER :: MigrationOwner where
  "PARTY_MIGRATION_OWNER = \<lparr>owner = ''party'', prefix = ''pt'',
     branch_label = ''party'', db_schema = Some (MODULE_SCHEMA_PREFIX @ ''party''),
     legacy_revision_pattern = None, provides = []\<rparr>"

definition PAYABLES_MIGRATION_OWNER :: MigrationOwner where
  "PAYABLES_MIGRATION_OWNER = \<lparr>owner = ''payables'', prefix = ''pa'',
     branch_label = ''payables'', db_schema = Some (MODULE_SCHEMA_PREFIX @ ''payables''),
     legacy_revision_pattern = None, provides = []\<rparr>"

definition PAYROLL_MIGRATION_OWNER :: MigrationOwner where
  "PAYROLL_MIGRATION_OWNER = \<lparr>owner = ''payroll'', prefix = ''py'',
     branch_label = ''payroll'', db_schema = Some (MODULE_SCHEMA_PREFIX @ ''payroll''),
     legacy_revision_pattern = None, provides = []\<rparr>"

definition PROCUREMENT_MIGRATION_OWNER :: MigrationOwner where
  "PROCUREMENT_MIGRATION_OWNER = \<lparr>owner = ''procurement'', prefix = ''pc'',
     branch_label = ''procurement'', db_schema = Some (MODULE_SCHEMA_PREFIX @ ''procurement''),
     legacy_revision_pattern = None, provides = []\<rparr>"

definition PROJECTS_MIGRATION_OWNER :: MigrationOwner where
  "PROJECTS_MIGRATION_OWNER = \<lparr>owner = ''projects'', prefix = ''pj'',
     branch_label = ''projects'', db_schema = Some (MODULE_SCHEMA_PREFIX @ ''projects''),
     legacy_revision_pattern = None, provides = []\<rparr>"

definition RECORDS_MIGRATION_OWNER :: MigrationOwner where
  "RECORDS_MIGRATION_OWNER = \<lparr>owner = ''records'', prefix = ''re'',
     branch_label = ''records'', db_schema = Some (MODULE_SCHEMA_PREFIX @ ''records''),
     legacy_revision_pattern = None, provides = []\<rparr>"

definition SURVEYS_MIGRATION_OWNER :: MigrationOwner where
  "SURVEYS_MIGRATION_OWNER = \<lparr>owner = ''surveys'', prefix = ''sv'',
     branch_label = ''surveys'', db_schema = Some (MODULE_SCHEMA_PREFIX @ ''surveys''),
     legacy_revision_pattern = None, provides = []\<rparr>"

definition TAX_MIGRATION_OWNER :: MigrationOwner where
  "TAX_MIGRATION_OWNER = \<lparr>owner = ''tax'', prefix = ''tx'',
     branch_label = ''tax'', db_schema = Some (MODULE_SCHEMA_PREFIX @ ''tax''),
     legacy_revision_pattern = None, provides = []\<rparr>"

definition WORK_ORDERS_MIGRATION_OWNER :: MigrationOwner where
  "WORK_ORDERS_MIGRATION_OWNER = \<lparr>owner = ''work_orders'', prefix = ''wo'',
     branch_label = ''work_orders'', db_schema = Some (MODULE_SCHEMA_PREFIX @ ''workorders''),
     legacy_revision_pattern = None, provides = []\<rparr>"

definition WEB_ANALYTICS_MIGRATION_OWNER :: MigrationOwner where
  "WEB_ANALYTICS_MIGRATION_OWNER = \<lparr>owner = ''web_analytics'', prefix = ''wa'',
     branch_label = ''web_analytics'', db_schema = Some (MODULE_SCHEMA_PREFIX @ ''webanalytics''),
     legacy_revision_pattern = None, provides = []\<rparr>"

definition FULFILLMENT_MIGRATION_OWNER :: MigrationOwner where
  "FULFILLMENT_MIGRATION_OWNER = \<lparr>owner = ''fulfillment'', prefix = ''fu'',
     branch_label = ''fulfillment'', db_schema = Some (MODULE_SCHEMA_PREFIX @ ''fulfillment''),
     legacy_revision_pattern = None, provides = []\<rparr>"

definition SALES_MIGRATION_OWNER :: MigrationOwner where
  "SALES_MIGRATION_OWNER = \<lparr>owner = ''sales'', prefix = ''sa'',
     branch_label = ''sales'', db_schema = Some (MODULE_SCHEMA_PREFIX @ ''sales''),
     legacy_revision_pattern = None, provides = []\<rparr>"

definition SUPPORT_ACCESS_MIGRATION_OWNER :: MigrationOwner where
  "SUPPORT_ACCESS_MIGRATION_OWNER = \<lparr>owner = ''support_access'', prefix = ''sup'',
     branch_label = ''support_access'', db_schema = Some (MODULE_SCHEMA_PREFIX @ ''supportaccess''),
     legacy_revision_pattern = None, provides = []\<rparr>"

definition SERVICE_ACCESS_POLICY_MIGRATION_OWNER :: MigrationOwner where
  "SERVICE_ACCESS_POLICY_MIGRATION_OWNER = \<lparr>owner = ''service_access_policy'', prefix = ''sap'',
     branch_label = ''service_access_policy'', db_schema = Some (MODULE_SCHEMA_PREFIX @ ''serviceaccess''),
     legacy_revision_pattern = None, provides = []\<rparr>"

definition FORMS_MIGRATION_OWNER :: MigrationOwner where
  "FORMS_MIGRATION_OWNER = \<lparr>owner = ''forms'', prefix = ''fm'',
     branch_label = ''forms'', db_schema = Some (MODULE_SCHEMA_PREFIX @ ''forms''),
     legacy_revision_pattern = None, provides = []\<rparr>"

definition WORKFLOW_RUNTIME_MIGRATION_OWNER :: MigrationOwner where
  "WORKFLOW_RUNTIME_MIGRATION_OWNER = \<lparr>owner = ''workflow_runtime'', prefix = ''wr'',
     branch_label = ''workflow_runtime'', db_schema = Some (MODULE_SCHEMA_PREFIX @ ''workflow''),
     legacy_revision_pattern = None, provides = []\<rparr>"

definition PLATFORM_HEALTH_MIGRATION_OWNER :: MigrationOwner where
  "PLATFORM_HEALTH_MIGRATION_OWNER = \<lparr>owner = ''platform_health'', prefix = ''ph'',
     branch_label = ''platform_health'', db_schema = Some (MODULE_SCHEMA_PREFIX @ ''health''),
     legacy_revision_pattern = None, provides = []\<rparr>"

definition REMOTE_ACCESS_MIGRATION_OWNER :: MigrationOwner where
  "REMOTE_ACCESS_MIGRATION_OWNER = \<lparr>owner = ''remote_access'', prefix = ''ra'',
     branch_label = ''remote_access'', db_schema = Some (MODULE_SCHEMA_PREFIX @ ''remoteaccess''),
     legacy_revision_pattern = None, provides = []\<rparr>"

definition COMPLIANCE_REPORTING_MIGRATION_OWNER :: MigrationOwner where
  "COMPLIANCE_REPORTING_MIGRATION_OWNER = \<lparr>owner = ''compliance_reporting'', prefix = ''cr'',
     branch_label = ''compliance_reporting'', db_schema = Some (MODULE_SCHEMA_PREFIX @ ''compliance''),
     legacy_revision_pattern = None, provides = []\<rparr>"

definition AI_OPERATIONS_MIGRATION_OWNER :: MigrationOwner where
  "AI_OPERATIONS_MIGRATION_OWNER = \<lparr>owner = ''ai_operations'', prefix = ''ao'',
     branch_label = ''ai_operations'', db_schema = Some (MODULE_SCHEMA_PREFIX @ ''aiops''),
     legacy_revision_pattern = None, provides = []\<rparr>"

definition BILLING_MIGRATION_OWNER :: MigrationOwner where
  "BILLING_MIGRATION_OWNER = \<lparr>owner = ''billing'', prefix = ''bi'',
     branch_label = ''billing'', db_schema = Some (MODULE_SCHEMA_PREFIX @ ''billing''),
     legacy_revision_pattern = None, provides = []\<rparr>"

definition COLLECTIONS_MIGRATION_OWNER :: MigrationOwner where
  "COLLECTIONS_MIGRATION_OWNER = \<lparr>owner = ''collections'', prefix = ''cl'',
     branch_label = ''collections'', db_schema = Some (MODULE_SCHEMA_PREFIX @ ''coll''),
     legacy_revision_pattern = None, provides = []\<rparr>"

definition ORDERS_MIGRATION_OWNER :: MigrationOwner where
  "ORDERS_MIGRATION_OWNER = \<lparr>owner = ''orders'', prefix = ''or'',
     branch_label = ''orders'', db_schema = Some (MODULE_SCHEMA_PREFIX @ ''orders''),
     legacy_revision_pattern = None, provides = []\<rparr>"

definition SUBSCRIPTIONS_MIGRATION_OWNER :: MigrationOwner where
  "SUBSCRIPTIONS_MIGRATION_OWNER = \<lparr>owner = ''subscriptions'', prefix = ''su'',
     branch_label = ''subscriptions'', db_schema = Some (MODULE_SCHEMA_PREFIX @ ''subscriptions''),
     legacy_revision_pattern = None, provides = []\<rparr>"

definition DOMAINS_MIGRATION_OWNER :: MigrationOwner where
  "DOMAINS_MIGRATION_OWNER = \<lparr>owner = ''domains'', prefix = ''dn'',
     branch_label = ''domains'', db_schema = Some (MODULE_SCHEMA_PREFIX @ ''domains''),
     legacy_revision_pattern = None, provides = []\<rparr>"

definition HOSTING_MIGRATION_OWNER :: MigrationOwner where
  "HOSTING_MIGRATION_OWNER = \<lparr>owner = ''hosting'', prefix = ''hs'',
     branch_label = ''hosting'', db_schema = Some (MODULE_SCHEMA_PREFIX @ ''hosting''),
     legacy_revision_pattern = None, provides = []\<rparr>"

definition CUSTOMERS_MIGRATION_OWNER :: MigrationOwner where
  "CUSTOMERS_MIGRATION_OWNER = \<lparr>owner = ''customers'', prefix = ''cu'',
     branch_label = ''customers'', db_schema = Some (MODULE_SCHEMA_PREFIX @ ''customers''),
     legacy_revision_pattern = None, provides = []\<rparr>"

definition SERVICE_CATALOG_MIGRATION_OWNER :: MigrationOwner where
  "SERVICE_CATALOG_MIGRATION_OWNER = \<lparr>owner = ''service_catalog'', prefix = ''sc'',
     branch_label = ''service_catalog'', db_schema = Some (MODULE_SCHEMA_PREFIX @ ''svc_cat''),
     legacy_revision_pattern = None, provides = []\<rparr>"

definition QUALIFICATION_MIGRATION_OWNER :: MigrationOwner where
  "QUALIFICATION_MIGRATION_OWNER = \<lparr>owner = ''qualification'', prefix = ''qu'',
     branch_label = ''qualification'', db_schema = Some (MODULE_SCHEMA_PREFIX @ ''qual''),
     legacy_revision_pattern = None, provides = []\<rparr>"

definition SERVICES_MIGRATION_OWNER :: MigrationOwner where
  "SERVICES_MIGRATION_OWNER = \<lparr>owner = ''services'', prefix = ''se'',
     branch_label = ''services'', db_schema = Some (MODULE_SCHEMA_PREFIX @ ''services''),
     legacy_revision_pattern = None, provides = []\<rparr>"

definition USAGE_MIGRATION_OWNER :: MigrationOwner where
  "USAGE_MIGRATION_OWNER = \<lparr>owner = ''usage'', prefix = ''us'',
     branch_label = ''usage'', db_schema = Some (MODULE_SCHEMA_PREFIX @ ''usage''),
     legacy_revision_pattern = None, provides = []\<rparr>"

definition USAGE_RATING_MIGRATION_OWNER :: MigrationOwner where
  "USAGE_RATING_MIGRATION_OWNER = \<lparr>owner = ''usage_rating'', prefix = ''ur'',
     branch_label = ''usage_rating'', db_schema = Some (MODULE_SCHEMA_PREFIX @ ''usage_rate''),
     legacy_revision_pattern = None, provides = []\<rparr>"

definition INBOX_OPERATIONS_MIGRATION_OWNER :: MigrationOwner where
  "INBOX_OPERATIONS_MIGRATION_OWNER = \<lparr>owner = ''inbox_operations'', prefix = ''io'',
     branch_label = ''inbox_operations'', db_schema = Some (MODULE_SCHEMA_PREFIX @ ''inbox_ops''),
     legacy_revision_pattern = None, provides = []\<rparr>"

definition WORKFORCE_MIGRATION_OWNER :: MigrationOwner where
  "WORKFORCE_MIGRATION_OWNER = \<lparr>owner = ''workforce'', prefix = ''wf'',
     branch_label = ''workforce'', db_schema = Some (MODULE_SCHEMA_PREFIX @ ''workforce''),
     legacy_revision_pattern = None, provides = []\<rparr>"

definition FX_POLICY_MIGRATION_OWNER :: MigrationOwner where
  "FX_POLICY_MIGRATION_OWNER = \<lparr>owner = ''fx_policy'', prefix = ''fx'',
     branch_label = ''fx_policy'', db_schema = Some (MODULE_SCHEMA_PREFIX @ ''fx_policy''),
     legacy_revision_pattern = None, provides = []\<rparr>"

definition SERVICE_ORDERS_MIGRATION_OWNER :: MigrationOwner where
  "SERVICE_ORDERS_MIGRATION_OWNER = \<lparr>owner = ''service_orders'', prefix = ''so'',
     branch_label = ''service_orders'', db_schema = Some (MODULE_SCHEMA_PREFIX @ ''serviceorders''),
     legacy_revision_pattern = None, provides = []\<rparr>"

definition PAYMENTS_MIGRATION_OWNER :: MigrationOwner where
  "PAYMENTS_MIGRATION_OWNER = \<lparr>owner = ''payments'', prefix = ''pm'',
     branch_label = ''payments'', db_schema = Some (MODULE_SCHEMA_PREFIX @ ''payments''),
     legacy_revision_pattern = None, provides = []\<rparr>"

definition SERVICE_CHANGES_MIGRATION_OWNER :: MigrationOwner where
  "SERVICE_CHANGES_MIGRATION_OWNER = \<lparr>owner = ''service_changes'', prefix = ''sch'',
     branch_label = ''service_changes'', db_schema = Some (MODULE_SCHEMA_PREFIX @ ''servicechanges''),
     legacy_revision_pattern = None, provides = []\<rparr>"

definition OPERATIONAL_ESCALATIONS_MIGRATION_OWNER :: MigrationOwner where
  "OPERATIONAL_ESCALATIONS_MIGRATION_OWNER = \<lparr>owner = ''operational_escalations'', prefix = ''oe'',
     branch_label = ''operational_escalations'', db_schema = Some (MODULE_SCHEMA_PREFIX @ ''escalations''),
     legacy_revision_pattern = None, provides = []\<rparr>"

definition RESPONSE_OBLIGATIONS_MIGRATION_OWNER :: MigrationOwner where
  "RESPONSE_OBLIGATIONS_MIGRATION_OWNER = \<lparr>owner = ''response_obligations'', prefix = ''ro'',
     branch_label = ''response_obligations'', db_schema = Some (MODULE_SCHEMA_PREFIX @ ''sla''),
     legacy_revision_pattern = None, provides = []\<rparr>"

definition LEARNING_MIGRATION_OWNER :: MigrationOwner where
  "LEARNING_MIGRATION_OWNER = \<lparr>owner = ''learning'', prefix = ''lr'',
     branch_label = ''learning'', db_schema = Some (MODULE_SCHEMA_PREFIX @ ''learning''),
     legacy_revision_pattern = None, provides = []\<rparr>"

definition HOST_MIGRATION_OWNERS :: "MigrationOwner list" where
  "HOST_MIGRATION_OWNERS = [KERNEL_MIGRATION_OWNER, ASSEMBLY_MIGRATION_OWNER]"

definition MIGRATION_OWNER_LEDGER :: "MigrationOwner list" where
  "MIGRATION_OWNER_LEDGER = HOST_MIGRATION_OWNERS @ [
     TEMPLATE_STUDIO_MIGRATION_OWNER, TICKETING_MIGRATION_OWNER, INTEGRATION_MIGRATION_OWNER,
     RELEASE_CATALOG_MIGRATION_OWNER, ENTITLEMENT_ALLOCATION_MIGRATION_OWNER,
     APPLICATION_DIRECTORY_MIGRATION_OWNER, FILES_MIGRATION_OWNER, IMPORTS_MIGRATION_OWNER,
     APPROVALS_MIGRATION_OWNER, NUMBERING_MIGRATION_OWNER, PEOPLE_MIGRATION_OWNER,
     CAMPAIGNS_MIGRATION_OWNER, DURABLE_TIMERS_MIGRATION_OWNER,
     COMMERCIAL_AGREEMENTS_MIGRATION_OWNER, LICENSING_MIGRATION_OWNER,
     DEPLOYMENT_CONTROL_MIGRATION_OWNER, BRAND_PROFILES_MIGRATION_OWNER,
     MEDIA_OBSERVATIONS_MIGRATION_OWNER, CONTENT_MIGRATION_OWNER, PUBLISHING_MIGRATION_OWNER,
     SITES_MIGRATION_OWNER, INVENTORY_MIGRATION_OWNER, ASSETS_MIGRATION_OWNER,
     IPAM_MIGRATION_OWNER, NETWORK_INVENTORY_MIGRATION_OWNER,
     NETWORK_OBSERVABILITY_MIGRATION_OWNER, NETWORK_TOPOLOGY_MIGRATION_OWNER,
     NETWORK_ASSURANCE_MIGRATION_OWNER, NETWORK_CONTROL_MIGRATION_OWNER,
     FIBER_PLANT_MIGRATION_OWNER, NETWORK_ACCESS_MIGRATION_OWNER, PON_ACCESS_MIGRATION_OWNER,
     POSITIONING_MIGRATION_OWNER, REFERRALS_MIGRATION_OWNER, RESELLER_MANAGEMENT_MIGRATION_OWNER,
     ACCOUNTING_MIGRATION_OWNER, ANALYTICS_MIGRATION_OWNER, BANKING_MIGRATION_OWNER,
     DOCUMENTS_MIGRATION_OWNER, EXPENSES_MIGRATION_OWNER, FINANCE_MIGRATION_OWNER,
     INBOX_MIGRATION_OWNER, PARTY_MIGRATION_OWNER, PAYABLES_MIGRATION_OWNER,
     PAYROLL_MIGRATION_OWNER, PROCUREMENT_MIGRATION_OWNER, PROJECTS_MIGRATION_OWNER,
     RECORDS_MIGRATION_OWNER, SURVEYS_MIGRATION_OWNER, TAX_MIGRATION_OWNER,
     WORK_ORDERS_MIGRATION_OWNER, WEB_ANALYTICS_MIGRATION_OWNER, FULFILLMENT_MIGRATION_OWNER,
     SALES_MIGRATION_OWNER, SUPPORT_ACCESS_MIGRATION_OWNER,
     SERVICE_ACCESS_POLICY_MIGRATION_OWNER, FORMS_MIGRATION_OWNER,
     WORKFLOW_RUNTIME_MIGRATION_OWNER, PLATFORM_HEALTH_MIGRATION_OWNER,
     REMOTE_ACCESS_MIGRATION_OWNER, COMPLIANCE_REPORTING_MIGRATION_OWNER,
     AI_OPERATIONS_MIGRATION_OWNER, BILLING_MIGRATION_OWNER, COLLECTIONS_MIGRATION_OWNER,
     ORDERS_MIGRATION_OWNER, SUBSCRIPTIONS_MIGRATION_OWNER, DOMAINS_MIGRATION_OWNER,
     HOSTING_MIGRATION_OWNER, CUSTOMERS_MIGRATION_OWNER, SERVICE_CATALOG_MIGRATION_OWNER,
     QUALIFICATION_MIGRATION_OWNER, SERVICES_MIGRATION_OWNER, USAGE_MIGRATION_OWNER,
     USAGE_RATING_MIGRATION_OWNER, INBOX_OPERATIONS_MIGRATION_OWNER, WORKFORCE_MIGRATION_OWNER,
     FX_POLICY_MIGRATION_OWNER, SERVICE_ORDERS_MIGRATION_OWNER, PAYMENTS_MIGRATION_OWNER,
     SERVICE_CHANGES_MIGRATION_OWNER, OPERATIONAL_ESCALATIONS_MIGRATION_OWNER,
     RESPONSE_OBLIGATIONS_MIGRATION_OWNER, LEARNING_MIGRATION_OWNER]"

subsection \<open>The shipped ledger composes\<close>

text \<open>Each row passes the constructor's checks against the kernel's prerequisites.\<close>

lemma ledger_rows_valid:
  "list_all (\<lambda>o1. make_MigrationOwner initial_registry o1 = Inr o1) MIGRATION_OWNER_LEDGER"
  by code_simp

lemma ledger_owners_distinct: "distinct (map owner MIGRATION_OWNER_LEDGER)"
  by code_simp

lemma ledger_prefixes_distinct: "distinct (map prefix MIGRATION_OWNER_LEDGER)"
  by code_simp

lemma ledger_branches_distinct: "distinct (map branch_label MIGRATION_OWNER_LEDGER)"
  by code_simp

lemma ledger_schemas_distinct: "distinct (List.map_filter db_schema MIGRATION_OWNER_LEDGER)"
  by code_simp

lemma ledger_hosts: "check_hosts MIGRATION_OWNER_LEDGER HOST_MIGRATION_OWNERS = Inr ()"
  by code_simp

lemma NamespaceRegistry_init_no_tables:
  assumes "distinct (map owner os)" and "distinct (List.map_filter db_schema os)"
    and "distinct (map prefix os)" and "distinct (map branch_label os)"
  shows "NamespaceRegistry_init os [] [] None = Inr \<lparr>reg_owners = os, tables_by_schema = [],
    platform_tables_by_schema = [], installed_planes_by_schema = []\<rparr>"
proof -
  have uniq: "check_unique key err os [] = Inr ()" if "distinct (List.map_filter key os)" for key err
    using check_unique_Inr [of key err os "[]"] that by simp
  show ?thesis
    using assms uniq
    by (simp add: NamespaceRegistry_init_def declared_names_def claim_tables_def)
qed

text \<open>On the shipped ledger, composing an installed set is collecting its owners.\<close>

lemma ledger_from_manifests:
  "NamespaceRegistry_from_manifests initial_registry MIGRATION_OWNER_LEDGER HOST_MIGRATION_OWNERS None ms =
     bindr (collect_owners initial_registry MIGRATION_OWNER_LEDGER [] ms
        \<lparr>b_owners = HOST_MIGRATION_OWNERS, b_tables = [], b_platform = [], b_planes = []\<rparr>) (\<lambda>b.
     NamespaceRegistry_init (b_owners b) (b_tables b) (b_platform b) (Some (b_planes b)))"
  using NamespaceRegistry_init_no_tables [OF ledger_owners_distinct ledger_schemas_distinct
      ledger_prefixes_distinct ledger_branches_distinct] ledger_hosts
  by (simp add: NamespaceRegistry_from_manifests_def)

text \<open>
  C25. The shipped allocation ledger is itself coherent: every row passes its
  constructor's checks, owners, schemas, migration prefixes and branch labels are
  pairwise distinct, and a deployment with no stateful module composes on it.
\<close>

theorem shipped_ledger_composes:
  "list_all (\<lambda>row. make_MigrationOwner initial_registry row = Inr row) MIGRATION_OWNER_LEDGER
   \<and> distinct (map owner MIGRATION_OWNER_LEDGER)
   \<and> distinct (List.map_filter db_schema MIGRATION_OWNER_LEDGER)
   \<and> distinct (map prefix MIGRATION_OWNER_LEDGER)
   \<and> distinct (map branch_label MIGRATION_OWNER_LEDGER)
   \<and> (\<exists>r. NamespaceRegistry_from_manifests initial_registry MIGRATION_OWNER_LEDGER
          HOST_MIGRATION_OWNERS None [] = Inr r \<and> reg_owners r = HOST_MIGRATION_OWNERS)"
proof -
  note D = ledger_owners_distinct ledger_schemas_distinct ledger_prefixes_distinct ledger_branches_distinct
  have host: "NamespaceRegistry_init HOST_MIGRATION_OWNERS [] [] (Some []) = Inr
      \<lparr>reg_owners = HOST_MIGRATION_OWNERS, tables_by_schema = [], platform_tables_by_schema = [],
       installed_planes_by_schema = []\<rparr>"
    by code_simp
  show ?thesis
    using ledger_rows_valid D host by (simp add: list_all_iff ledger_from_manifests)
qed



end
