(* ===== verification/Module_Registry.thy ===== *)
theory Module_Registry
  imports Ledger "HOL-Library.Product_Lexorder" "HOL-Library.Multiset"
begin

text \<open>
  Module manifests and the module registry (\<^verbatim>\<open>modules.py\<close>): the checks of
  \<^verbatim>\<open>ModuleManifest.__post_init__\<close>, the adaptation of a feature manifest, and
  \<^verbatim>\<open>ModuleRegistry\<close> with its validation, its startup order, the search for a
  dependency cycle, and the inventory.  The depth-first search carries a fuel
  that bounds its depth; the number of manifests is enough, because the codes on
  the search path are distinct codes of the manifests (\<open>walk_enough_fuel\<close>).
\<close>

definition KERNEL_MODULE_CONTRACT_VERSION :: int where
  "KERNEL_MODULE_CONTRACT_VERSION = 2"

definition SUPPORTED_MODULE_CONTRACT_VERSIONS :: "int set" where
  "SUPPORTED_MODULE_CONTRACT_VERSIONS = {1, 2}"

definition UNVERSIONED :: string where "UNVERSIONED = ''0.0.0''"

subsection \<open>The checks of a manifest\<close>

definition inferred_contract_version :: "ModuleManifest \<Rightarrow> int" where
  "inferred_contract_version m =
     (if contract_version m = INFER_MODULE_CONTRACT_VERSION
      then if web_routers m \<noteq> [] \<or> nav m \<noteq> [] then 1 else KERNEL_MODULE_CONTRACT_VERSION
      else contract_version m)"

definition web_shape_ok :: "ModuleManifest \<Rightarrow> bool" where
  "web_shape_ok m \<longleftrightarrow>
     \<not> (web_surfaces m \<noteq> [] \<and> (web_routers m \<noteq> [] \<or> nav m \<noteq> []))
     \<and> \<not> (contract_version m < 2 \<and> web_surfaces m \<noteq> [])
     \<and> \<not> (contract_version m \<ge> 2 \<and> (web_routers m \<noteq> [] \<or> nav m \<noteq> []))"

text \<open>
  A list of tables declared once: the first repeated name raises.  The tenant
  tables are checked first, then the platform tables against the same set.
\<close>

fun tables_once :: "string list \<Rightarrow> string list \<Rightarrow> string + string list" where
  "tables_once [] seen = Inr seen"
| "tables_once (t # ts) seen = (if t \<in> set seen then Inl t else tables_once ts (t # seen))"

definition mm_db_schema :: "ModuleManifest \<Rightarrow> assembly_error + string option" where
  "mm_db_schema m = (case short_code m of None \<Rightarrow> Inr None
     | Some sc \<Rightarrow> bindr (module_schema sc) (\<lambda>s. Inr (Some s)))"

definition is_stateful :: "ModuleManifest \<Rightarrow> bool" where
  "is_stateful m \<longleftrightarrow> short_code m \<noteq> None"

text \<open>\<^verbatim>\<open>self.migration_branch or self.code\<close>.\<close>

definition branch_or_code :: "ModuleManifest \<Rightarrow> string" where
  "branch_or_code m = (case migration_branch m of None \<Rightarrow> code m | Some b \<Rightarrow> if b = [] then code m else b)"

definition validate_namespace :: "ModuleManifest \<Rightarrow> assembly_error + unit" where
  "validate_namespace m =
     (if short_code m = None \<and> migration_prefix m = None \<and> tables m = [] \<and> platform_tables m = []
      then ensure (migration_branch m = None)
        (ModuleRegistryError ''module declares a migration branch but no database namespace'')
      else case short_code m of
        None \<Rightarrow> Inl (ModuleRegistryError ''module declares migration/table state but no `short_code`'')
      | Some sc \<Rightarrow> (case migration_prefix m of
          None \<Rightarrow> bindr (mm_db_schema m)
            (\<lambda>_. Inl (ModuleRegistryError ''module declares no `migration_prefix`''))
        | Some px \<Rightarrow>
            bindr (validate_short_code sc) (\<lambda>_.
            bindr (validate_migration_prefix px) (\<lambda>_.
            bindr (validate_branch_label (branch_or_code m)) (\<lambda>_.
            case tables_once (tables m) [] of
              Inl t \<Rightarrow> Inl (ModuleRegistryError ''module declares table twice'')
            | Inr seen \<Rightarrow> (case tables_once (platform_tables m) seen of
                Inl t \<Rightarrow> Inl (ModuleRegistryError ''module declares table in BOTH planes'')
              | Inr _ \<Rightarrow> Inr ()))))))"

definition validate_database_catalog ::
    "prerequisite_registry \<Rightarrow> ModuleManifest \<Rightarrow> assembly_error + unit" where
  "validate_database_catalog reg m = (case database_catalog m of
     None \<Rightarrow> Inr ()
   | Some contribution \<Rightarrow>
       if \<not> is_stateful m
       then Inl (ModuleRegistryError ''stateless module cannot contribute database structure'')
       else bindr (migration_owner reg m) (\<lambda>mo. case mo of
           None \<Rightarrow> Inl (ModuleRegistryError ''database_catalog lineage head'')
         | Some o1 \<Rightarrow>
             if \<not> revision_id_fullmatch (prefix o1) (lineage_head contribution)
             then Inl (ModuleRegistryError ''database_catalog lineage head'')
             else ensure (set (catalog_tables contribution) = set (tables m @ platform_tables m))
               (ModuleRegistryError ''database_catalog must reference exactly its table declarations'')))"

definition plane_sets_ok :: "ModuleManifest \<Rightarrow> module_plane list list \<Rightarrow> assembly_error + unit" where
  "plane_sets_ok m supported =
     (let declared = set (declared_planes (Module m)) in
      if \<not> distinct supported then Inl (ModuleRegistryError ''module repeats a supported plane set'')
      else if \<exists>ps \<in> set supported. \<not> set ps \<subseteq> declared
      then Inl (ModuleRegistryError ''module supports planes outside its table declaration'')
      else if declared_planes (Module m) \<notin> set supported
      then Inl (ModuleRegistryError ''module must retain its full declared plane set'')
      else Inr ())"

text \<open>
  \<^verbatim>\<open>ModuleManifest.__post_init__\<close>: the manifest with its inferred fields, or the first
  check that fails.
\<close>

definition make_ModuleManifest ::
    "prerequisite_registry \<Rightarrow> ModuleManifest \<Rightarrow> assembly_error + ModuleManifest" where
  "make_ModuleManifest reg m0 =
     (if code m0 = [] then Inl (ModuleRegistryError ''module manifest requires a non-empty `code`'')
      else if version m0 = [] then Inl (ModuleRegistryError ''module requires a non-empty `version`'')
      else let m = m0\<lparr>contract_version := inferred_contract_version m0\<rparr> in
      if \<not> web_shape_ok m then Inl (ModuleRegistryError ''module web contract shape'')
      else
      bindr (validate_prerequisites reg (requires m)) (\<lambda>_.
      bindr (validate_prerequisites reg (tenant_requires m)) (\<lambda>_.
      bindr (validate_prerequisites reg (platform_requires m)) (\<lambda>_.
      if overlap (requires m) (tenant_requires m) (platform_requires m) \<noteq> {}
      then Inl (ModuleRegistryError ''prerequisite in more than one list'')
      else if tenant_requires m \<noteq> [] \<and> tables m = []
      then Inl (ModuleRegistryError ''module declares `tenant_requires` but owns no tenant tables'')
      else if platform_requires m \<noteq> [] \<and> platform_tables m = []
      then Inl (ModuleRegistryError ''module declares `platform_requires` but owns no platform tables'')
      else if (requires m \<noteq> [] \<or> tenant_requires m \<noteq> [] \<or> platform_requires m \<noteq> [])
        \<and> migration_prefix m = None
      then Inl (ModuleRegistryError ''module declares migration prerequisites but owns no lineage'')
      else case supported_planes (Module m) of
        Inl _ \<Rightarrow> Inl (ModuleRegistryError ''module plane set'')
      | Inr supported \<Rightarrow>
          bindr (if supported_plane_sets m = [] then Inr m
             else bindr (plane_sets_ok m supported)
               (\<lambda>_. Inr (m\<lparr>supported_plane_sets := map (map plane_value) supported\<rparr>))) (\<lambda>m1.
          bindr (validate_namespace m1) (\<lambda>_.
          bindr (validate_database_catalog reg m1) (\<lambda>_. Inr m1)))))))"

subsection \<open>Adapting a feature\<close>

definition from_feature ::
    "prerequisite_registry \<Rightarrow> FeatureManifest \<Rightarrow> assembly_error + ModuleManifest" where
  "from_feature reg f = make_ModuleManifest reg
     ((module_defaults (fm_name f) UNVERSIONED)\<lparr>
       contract_version := (if fm_web_routers f \<noteq> [] \<or> fm_nav f \<noteq> [] then 1
          else KERNEL_MODULE_CONTRACT_VERSION),
       api_routers := fm_routers f, web_routers := fm_web_routers f, nav := fm_nav f,
       capabilities := fm_capabilities f, feature_flags := fm_feature_flags f,
       permissions := fm_permissions f, audit_actions := fm_audit_actions f,
       outbox_event_types := fm_outbox_event_types f,
       provisioning_participants := fm_provisioning_participants f,
       charge_models := fm_charge_models f, obligation_sources := fm_obligation_sources f,
       setting_domains := fm_setting_domains f, setting_value_types := fm_setting_value_types f,
       scope_kinds := fm_scope_kinds f, core := fm_core f,
       enabled_by_default := fm_enabled_by_default f, seed := fm_seed f\<rparr>)"

definition adapt :: "prerequisite_registry \<Rightarrow> AnyManifest \<Rightarrow> assembly_error + ModuleManifest" where
  "adapt reg m = (case m of Module k \<Rightarrow> Inr k | Feature f \<Rightarrow> from_feature reg f)"

subsection \<open>Validation of the installed set\<close>

fun duplicate_codes :: "ModuleManifest list \<Rightarrow> string list \<Rightarrow> string list" where
  "duplicate_codes [] seen = []"
| "duplicate_codes (m # ms) seen =
     (if code m \<in> set seen then List.insert (code m) (duplicate_codes ms seen)
      else duplicate_codes ms (code m # seen))"

definition check_unique_codes :: "ModuleManifest list \<Rightarrow> assembly_error + unit" where
  "check_unique_codes ms = (let duplicates = duplicate_codes ms [] in
     if duplicates \<noteq> [] then Inl (DuplicateModuleError (sort duplicates)) else Inr ())"

definition check_contract_versions :: "ModuleManifest list \<Rightarrow> int set \<Rightarrow> assembly_error + unit" where
  "check_contract_versions ms supported =
     (let bad = sort (map (\<lambda>m. (code m, contract_version m))
        (filter (\<lambda>m. contract_version m \<notin> supported) ms)) in
      if bad \<noteq> [] then Inl (ModuleContractVersionError bad) else Inr ())"

definition edges_outside :: "string set \<Rightarrow> ModuleManifest list \<Rightarrow> (string \<times> string) list" where
  "edges_outside inside ms = concat (map (\<lambda>m.
     map (\<lambda>d. (code m, d)) (filter (\<lambda>d. d \<notin> inside) (dependencies m))) ms)"

definition check_dependencies_installed :: "ModuleManifest list \<Rightarrow> assembly_error + unit" where
  "check_dependencies_installed ms =
     (let missing = sort (edges_outside (code ` set ms) ms) in
      if missing \<noteq> [] then Inl (MissingModuleDependencyError missing) else Inr ())"

subsection \<open>Startup order\<close>

text \<open>The inner \<^verbatim>\<open>for\<close> loop: the earliest-declared manifest that is ready, and the rest.\<close>

definition ready :: "string set \<Rightarrow> ModuleManifest \<Rightarrow> bool" where
  "ready emitted m \<longleftrightarrow> list_all (\<lambda>d. d \<in> emitted) (dependencies m)"

fun take_ready :: "string set \<Rightarrow> ModuleManifest list \<Rightarrow> (ModuleManifest \<times> ModuleManifest list) option" where
  "take_ready emitted [] = None"
| "take_ready emitted (m # ms) =
     (if ready emitted m then Some (m, ms)
      else map_option (\<lambda>(r, rest). (r, m # rest)) (take_ready emitted ms))"

lemma take_ready_length: "take_ready emitted ms = Some (m, rest) \<Longrightarrow> length ms = Suc (length rest)"
  by (induction ms arbitrary: m rest) (auto split: if_splits)

text \<open>
  \<^verbatim>\<open>_find_cycle\<close>: the depth-first walk with its path and its settled nodes.  The
  result is \<open>None\<close> when the fuel is exhausted, and otherwise the cycle found, if
  any, with the settled nodes.  \<open>walk_all\<close> is both the loop over a node's
  dependencies and the outer loop over the manifests.
\<close>

fun walk :: "(string \<times> string list) list \<Rightarrow> nat \<Rightarrow> string \<Rightarrow> string list \<Rightarrow> string list
      \<Rightarrow> (string list option \<times> string list) option"
  and walk_all :: "(string \<times> string list) list \<Rightarrow> nat \<Rightarrow> string list \<Rightarrow> string list \<Rightarrow> string list
      \<Rightarrow> (string list option \<times> string list) option" where
  "walk deps fuel c path settled =
     (if c \<in> set path then Some (Some (dropWhile (\<lambda>x. x \<noteq> c) path @ [c]), settled)
      else if c \<in> set settled then Some (None, settled)
      else case map_of deps c of
        None \<Rightarrow> Some (None, settled)
      | Some ds \<Rightarrow> (case fuel of 0 \<Rightarrow> None
         | Suc f \<Rightarrow> (case walk_all deps f ds (path @ [c]) settled of
             None \<Rightarrow> None
           | Some (Some cycle, st) \<Rightarrow> Some (Some cycle, st)
           | Some (None, st) \<Rightarrow> Some (None, st @ [c]))))"
| "walk_all deps fuel [] path settled = Some (None, settled)"
| "walk_all deps fuel (d # ds) path settled = (case walk deps fuel d path settled of
     None \<Rightarrow> None
   | Some (Some cycle, st) \<Rightarrow> Some (Some cycle, st)
   | Some (None, st) \<Rightarrow> walk_all deps fuel ds path st)"

declare walk.simps [simp del]

definition deps_dict :: "ModuleManifest list \<Rightarrow> (string \<times> string list) list" where
  "deps_dict ms = map (\<lambda>m. (code m, dependencies m)) ms"

definition find_cycle :: "ModuleManifest list \<Rightarrow> assembly_error + string list" where
  "find_cycle ms = (case walk_all (deps_dict ms) (length ms) (map code ms) [] [] of
     Some (Some cycle, _) \<Rightarrow> Inr cycle
   | _ \<Rightarrow> Inl (ModuleDependencyCycleError (sort (map code ms))))"

function topo_loop ::
    "ModuleManifest list \<Rightarrow> string set \<Rightarrow> ModuleManifest list \<Rightarrow> assembly_error + ModuleManifest list" where
  "topo_loop remaining emitted order =
     (if remaining = [] then Inr order
      else case take_ready emitted remaining of
        Some (m, rest) \<Rightarrow> topo_loop rest (insert (code m) emitted) (order @ [m])
      | None \<Rightarrow> bindr (find_cycle remaining) (\<lambda>cycle. Inl (ModuleDependencyCycleError cycle)))"
  by pat_completeness auto
termination
  by (relation "measure (\<lambda>(remaining, _, _). length remaining)") (auto dest: take_ready_length)

declare topo_loop.simps [simp del]

definition topological_order :: "ModuleManifest list \<Rightarrow> assembly_error + ModuleManifest list" where
  "topological_order ms = topo_loop ms {} []"

subsection \<open>The registry\<close>

record ModuleRegistry =
  by_code :: "(string \<times> ModuleManifest) list"
  namespaces :: NamespaceRegistry
  start_order :: "ModuleManifest list"

definition ModuleRegistry_init ::
    "prerequisite_registry \<Rightarrow> int set \<Rightarrow> AnyManifest list \<Rightarrow> assembly_error + ModuleRegistry" where
  "ModuleRegistry_init reg supported manifests =
     bindr (map_result (adapt reg) manifests) (\<lambda>declared.
     bindr (check_unique_codes declared) (\<lambda>_.
     bindr (check_contract_versions declared supported) (\<lambda>_.
     bindr (check_dependencies_installed declared) (\<lambda>_.
     bindr (NamespaceRegistry_from_manifests reg MIGRATION_OWNER_LEDGER HOST_MIGRATION_OWNERS None
        (map Module declared)) (\<lambda>ns.
     bindr (topological_order declared) (\<lambda>order.
     Inr \<lparr>by_code = map (\<lambda>m. (code m, m)) order, namespaces = ns, start_order = order\<rparr>))))))"

definition startup_order :: "ModuleRegistry \<Rightarrow> ModuleManifest list" where
  "startup_order r = start_order r"

definition registry_codes :: "ModuleRegistry \<Rightarrow> string set" where
  "registry_codes r = fst ` set (by_code r)"

definition get_module :: "ModuleRegistry \<Rightarrow> string \<Rightarrow> assembly_error + ModuleManifest" where
  "get_module r c = (case map_of (by_code r) c of
     None \<Rightarrow> Inl (UnknownModuleError c) | Some m \<Rightarrow> Inr m)"

definition is_installed :: "ModuleRegistry \<Rightarrow> string \<Rightarrow> bool" where
  "is_installed r c \<longleftrightarrow> c \<in> fst ` set (by_code r)"

definition enabled_codes :: "ModuleRegistry \<Rightarrow> string set \<Rightarrow> string set" where
  "enabled_codes r disabled =
     code ` set (filter (\<lambda>m. code m \<notin> disabled \<and> enabled_by_default m) (start_order r))"

definition enabled_order :: "ModuleRegistry \<Rightarrow> string set \<Rightarrow> assembly_error + ModuleManifest list" where
  "enabled_order r disabled =
     (let enabled = enabled_codes r disabled;
          on = filter (\<lambda>m. code m \<in> enabled) (start_order r);
          unsatisfied = sort (edges_outside enabled on) in
      if unsatisfied \<noteq> [] then Inl (MissingModuleDependencyError unsatisfied) else Inr on)"

subsection \<open>Inventory\<close>

record ModuleInventoryEntry =
  e_code :: string
  e_version :: string
  e_contract_version :: int
  e_dependencies :: "string list"
  e_core :: bool
  e_enabled :: bool
  e_db_schema :: "string option"
  e_migration_branch :: "string option"

definition json_opt :: "string option \<Rightarrow> json" where
  "json_opt s = (case s of None \<Rightarrow> JNull | Some t \<Rightarrow> JStr t)"

definition as_dict :: "ModuleInventoryEntry \<Rightarrow> json_object" where
  "as_dict e = [(''code'', JStr (e_code e)), (''version'', JStr (e_version e)),
     (''contract_version'', JInt (e_contract_version e)),
     (''dependencies'', JList (map JStr (e_dependencies e))), (''core'', JBool (e_core e)),
     (''enabled'', JBool (e_enabled e)), (''db_schema'', json_opt (e_db_schema e)),
     (''migration_branch'', json_opt (e_migration_branch e))]"

definition inventory_entry :: "string set \<Rightarrow> ModuleManifest \<Rightarrow> assembly_error + ModuleInventoryEntry" where
  "inventory_entry enabled m = bindr (mm_db_schema m) (\<lambda>schema.
     Inr \<lparr>e_code = code m, e_version = version m, e_contract_version = contract_version m,
          e_dependencies = dependencies m, e_core = core m, e_enabled = (code m \<in> enabled),
          e_db_schema = schema,
          e_migration_branch = (if is_stateful m then Some (branch_or_code m) else None)\<rparr>)"

definition inventory :: "ModuleRegistry \<Rightarrow> string set \<Rightarrow> assembly_error + ModuleInventoryEntry list" where
  "inventory r disabled =
     map_result (inventory_entry (enabled_codes r disabled)) (sort_key code (start_order r))"

definition owner_row :: "MigrationOwner \<Rightarrow> json" where
  "owner_row o1 = JObj [(''owner'', JStr (owner o1)), (''prefix'', JStr (prefix o1)),
     (''branch_label'', JStr (branch_label o1)), (''db_schema'', json_opt (db_schema o1))]"

definition inventory_payload :: "ModuleRegistry \<Rightarrow> string set \<Rightarrow> assembly_error + json_object" where
  "inventory_payload r disabled =
     bindr (inventory r disabled) (\<lambda>entries.
     bindr (enabled_order r disabled) (\<lambda>order.
     Inr [(''kernel_contract_version'', JInt KERNEL_MODULE_CONTRACT_VERSION),
          (''modules'', JList (map (\<lambda>e. JObj (as_dict e)) entries)),
          (''startup_order'', JList (map (\<lambda>m. JStr (code m)) order)),
          (''migration_owners'', JList (map owner_row
             (sort_key owner (reg_owners (namespaces r)))))]))"

subsection \<open>The search for a cycle\<close>

definition edge :: "(string \<times> string list) list \<Rightarrow> string \<Rightarrow> string \<Rightarrow> bool" where
  "edge deps a b \<longleftrightarrow> (\<exists>ds. map_of deps a = Some ds \<and> b \<in> set ds)"

lemma walk_enough_fuel:
  "set path \<subseteq> fst ` set deps \<Longrightarrow> card (fst ` set deps - set path) \<le> fuel \<Longrightarrow>
     walk deps fuel c path settled \<noteq> None"
  "set path \<subseteq> fst ` set deps \<Longrightarrow> card (fst ` set deps - set path) \<le> fuel \<Longrightarrow>
     walk_all deps fuel ds path settled \<noteq> None"
proof (induction deps fuel c path settled and deps fuel ds path settled rule: walk_walk_all.induct)
  case (1 deps fuel c path settled)
  show ?case
  proof (cases "c \<in> set path \<or> c \<in> set settled \<or> map_of deps c = None")
    case True
    then show ?thesis by (auto simp: walk.simps [of deps fuel c])
  next
    case False
    then obtain ds where ds: "map_of deps c = Some ds" by auto
    then have key: "c \<in> fst ` set deps" by (force dest: map_of_SomeD)
    with False have "c \<in> fst ` set deps - set path" by simp
    then have "0 < card (fst ` set deps - set path)" by (auto simp: card_gt_0_iff)
    with "1.prems" obtain f where f: "fuel = Suc f" by (cases fuel) auto
    have "card (fst ` set deps - set (path @ [c])) = card (fst ` set deps - set path - {c})"
      by (rule arg_cong [of _ _ card]) auto
    also have "\<dots> \<le> f" using "1.prems"(2) f \<open>c \<in> _ - _\<close> by (simp add: card_Diff_singleton)
    finally have "walk_all deps f ds (path @ [c]) settled \<noteq> None"
      using False ds f key "1.prems"(1) by (intro "1.IH") auto
    with False ds f show ?thesis by (auto simp: walk.simps [of deps "Suc f" c] split: option.splits)
  qed
next
  case (2 deps fuel path settled)
  then show ?case by simp
next
  case (3 deps fuel d ds path settled)
  then show ?case by (auto split: option.splits)
qed

lemma successively_dropWhile: "successively P xs \<Longrightarrow> successively P (dropWhile q xs)"
  by (induction xs rule: induct_list012) (auto simp: successively_Cons)

definition closed_walk :: "(string \<times> string list) list \<Rightarrow> string list \<Rightarrow> bool" where
  "closed_walk deps xs \<longleftrightarrow> 2 \<le> length xs \<and> hd xs = last xs \<and> successively (edge deps) xs"

lemma closed_walkI:
  assumes "c \<in> set path" and "successively (edge deps) path" and "edge deps (last path) c"
  shows "closed_walk deps (dropWhile (\<lambda>x. x \<noteq> c) path @ [c])"
proof -
  have ne: "dropWhile (\<lambda>x. x \<noteq> c) path \<noteq> []" using assms(1) by (auto simp: dropWhile_eq_Nil_conv)
  then have "hd (dropWhile (\<lambda>x. x \<noteq> c) path) = c" using hd_dropWhile [of "\<lambda>x. x \<noteq> c" path] by simp
  moreover have "last (dropWhile (\<lambda>x. x \<noteq> c) path) = last path"
    using ne by (metis last_appendR takeWhile_dropWhile_id)
  ultimately show ?thesis
    using ne assms(2,3) successively_dropWhile [of "edge deps" path]
    by (simp add: closed_walk_def successively_append_iff Suc_le_eq)
qed

text \<open>A cycle that is reported is a closed walk along dependency edges.\<close>

lemma walk_finds_closed_walk:
  "walk deps fuel c path settled = Some (Some cyc, st) \<Longrightarrow> successively (edge deps) path \<Longrightarrow>
     path = [] \<or> edge deps (last path) c \<Longrightarrow> closed_walk deps cyc"
  "walk_all deps fuel ds path settled = Some (Some cyc, st) \<Longrightarrow> successively (edge deps) path \<Longrightarrow>
     path = [] \<or> (\<forall>d \<in> set ds. edge deps (last path) d) \<Longrightarrow> closed_walk deps cyc"
proof (induction deps fuel c path settled and deps fuel ds path settled arbitrary: st and st
    rule: walk_walk_all.induct)
  case (1 deps fuel c path settled)
  show ?case
  proof (cases "c \<in> set path")
    case True
    with "1.prems" show ?thesis by (auto simp: walk.simps [of deps fuel c] intro: closed_walkI)
  next
    case False
    with "1.prems"(1) obtain ds f where
      d: "c \<notin> set settled" "map_of deps c = Some ds" "fuel = Suc f"
        "walk_all deps f ds (path @ [c]) settled = Some (Some cyc, st)"
      by (auto simp: walk.simps [of deps fuel c] split: if_splits option.splits nat.splits)
    have "successively (edge deps) (path @ [c])"
      using "1.prems"(2,3) by (cases "path = []") (auto simp: successively_append_iff)
    with "1.IH" [OF False d(1,2,3,4)] d(2) show ?thesis by (auto simp: edge_def)
  qed
next
  case (2 deps fuel path settled)
  then show ?case by simp
next
  case (3 deps fuel d ds path settled)
  then show ?case by (auto split: option.splits prod.splits)
qed

text \<open>
  Nodes settle after their dependencies: \<open>settled_ok\<close> holds of the settled list
  when every node's dependencies that are nodes come earlier in it.
\<close>

definition settled_ok :: "(string \<times> string list) list \<Rightarrow> string list \<Rightarrow> bool" where
  "settled_ok deps st \<longleftrightarrow> (\<forall>xs c ys. st = xs @ c # ys \<longrightarrow>
     (\<exists>ds. map_of deps c = Some ds \<and> set ds \<inter> fst ` set deps \<subseteq> set xs))"

lemma settled_ok_snoc:
  assumes "settled_ok deps st" and "map_of deps c = Some ds"
    and "set ds \<inter> fst ` set deps \<subseteq> set st"
  shows "settled_ok deps (st @ [c])"
  unfolding settled_ok_def
proof (intro allI impI)
  fix xs e ys
  assume eq: "st @ [c] = xs @ e # ys"
  show "\<exists>ds. map_of deps e = Some ds \<and> set ds \<inter> fst ` set deps \<subseteq> set xs"
  proof (cases ys rule: rev_cases)
    case Nil
    with eq assms show ?thesis by auto
  next
    case (snoc zs z)
    with eq have "st = xs @ e # zs" by simp
    with assms(1) show ?thesis unfolding settled_ok_def by blast
  qed
qed

lemma walk_settles:
  "walk deps fuel c path settled = Some (None, st) \<Longrightarrow> settled_ok deps settled \<Longrightarrow>
     settled_ok deps st \<and> set settled \<subseteq> set st \<and> (c \<in> fst ` set deps \<longrightarrow> c \<in> set st)"
  "walk_all deps fuel ds path settled = Some (None, st) \<Longrightarrow> settled_ok deps settled \<Longrightarrow>
     settled_ok deps st \<and> set settled \<subseteq> set st \<and> set ds \<inter> fst ` set deps \<subseteq> set st"
proof (induction deps fuel c path settled and deps fuel ds path settled arbitrary: st and st
    rule: walk_walk_all.induct)
  case (1 deps fuel c path settled)
  from "1.prems"(1) have np: "c \<notin> set path" by (auto simp: walk.simps [of deps fuel c])
  show ?case
  proof (cases "c \<in> set settled \<or> map_of deps c = None")
    case True
    then have "c \<in> set settled \<or> c \<notin> fst ` set deps" by (auto simp: map_of_eq_None_iff)
    moreover have "st = settled"
      using True "1.prems"(1) np by (auto simp: walk.simps [of deps fuel c] split: if_splits)
    ultimately show ?thesis using "1.prems"(2) by blast
  next
    case False
    with "1.prems"(1) np obtain ds f st1 where
      d: "c \<notin> set settled" "map_of deps c = Some ds" "fuel = Suc f"
        "walk_all deps f ds (path @ [c]) settled = Some (None, st1)" "st = st1 @ [c]"
      by (auto simp: walk.simps [of deps fuel c] split: option.splits nat.splits prod.splits)
    from "1.IH" [OF np d(1,2,3,4) "1.prems"(2)] d(2,5) show ?thesis
      by (auto intro: settled_ok_snoc)
  qed
next
  case (2 deps fuel path settled)
  then show ?case by simp
next
  case (3 deps fuel d ds path settled)
  from "3.prems"(1) obtain st1 where w: "walk deps fuel d path settled = Some (None, st1)"
    and rest: "walk_all deps fuel ds path st1 = Some (None, st)"
    by (auto split: option.splits prod.splits)
  from "3.IH"(1) [OF w "3.prems"(2)] have one: "settled_ok deps st1" "set settled \<subseteq> set st1"
    "d \<in> fst ` set deps \<longrightarrow> d \<in> set st1" by blast+
  from "3.IH"(2) [OF w refl refl rest one(1)] one show ?case by auto
qed

text \<open>
  The comment at the end of \<^verbatim>\<open>_find_cycle\<close> calls the final \<^verbatim>\<open>raise\<close> unreachable.  It
  is: when every manifest depends on another of the list, a cycle is found, and
  with a fuel of the number of manifests the search does not run out.
\<close>

lemma find_cycle_stuck:
  assumes "ms \<noteq> []" and "\<And>m. m \<in> set ms \<Longrightarrow> \<exists>d \<in> set (dependencies m). d \<in> code ` set ms"
  shows "\<exists>cyc. find_cycle ms = Inr cyc \<and> closed_walk (deps_dict ms) cyc"
proof -
  define deps where "deps = deps_dict ms"
  have keys: "fst ` set deps = code ` set ms" by (force simp: deps_def deps_dict_def)
  have "card (fst ` set deps - set []) \<le> length ms"
    by (simp add: keys) (metis card_image_le card_length le_trans List.finite_set)
  then have "walk_all deps (length ms) (map code ms) [] [] \<noteq> None"
    by (intro walk_enough_fuel(2)) simp_all
  then obtain found st where w: "walk_all deps (length ms) (map code ms) [] [] = Some (found, st)" by auto
  have "found \<noteq> None"
  proof
    assume "found = None"
    with w have "settled_ok deps st \<and> set [] \<subseteq> set st \<and> set (map code ms) \<inter> fst ` set deps \<subseteq> set st"
      by (intro walk_settles(2)) (simp_all add: settled_ok_def)
    then have ok: "settled_ok deps st" and "code ` set ms \<subseteq> set st" by (simp_all add: keys)
    with assms(1) obtain c ys where st: "st = [] @ c # ys" by (cases st) auto
    with ok obtain ds where ds: "map_of deps c = Some ds" "set ds \<inter> fst ` set deps \<subseteq> set []"
      unfolding settled_ok_def by blast
    then obtain m where "m \<in> set ms" "dependencies m = ds"
      by (auto simp: deps_def deps_dict_def dest!: map_of_SomeD)
    with assms(2) ds(2) show False by (auto simp: keys)
  qed
  then obtain cyc where cyc: "found = Some cyc" by auto
  with w have "closed_walk deps cyc" by (intro walk_finds_closed_walk(2)) auto
  with w cyc show ?thesis by (auto simp: find_cycle_def deps_def)
qed

subsection \<open>The startup order\<close>

text \<open>Starting in the order of the list, every dependency has been started before.\<close>

fun starts_after :: "string set \<Rightarrow> ModuleManifest list \<Rightarrow> bool" where
  "starts_after emitted [] = True"
| "starts_after emitted (m # ms) = (ready emitted m \<and> starts_after (insert (code m) emitted) ms)"

lemma ready_set: "ready emitted m \<longleftrightarrow> set (dependencies m) \<subseteq> emitted"
  by (auto simp: ready_def list_all_iff)

lemma starts_after_append:
  "starts_after e (xs @ ys) \<longleftrightarrow> starts_after e xs \<and> starts_after (e \<union> code ` set xs) ys"
  by (induction xs arbitrary: e) simp_all

lemma starts_after_nth:
  "starts_after e xs \<longleftrightarrow> (\<forall>i < length xs. set (dependencies (xs ! i)) \<subseteq> e \<union> code ` set (take i xs))"
proof (induction xs arbitrary: e)
  case Nil
  then show ?case by simp
next
  case (Cons x xs)
  have "starts_after e (x # xs) \<longleftrightarrow> set (dependencies x) \<subseteq> e \<and>
      (\<forall>i < length xs. set (dependencies (xs ! i)) \<subseteq> insert (code x) e \<union> code ` set (take i xs))"
    by (simp add: Cons.IH ready_set)
  also have "\<dots> \<longleftrightarrow> (\<forall>i < Suc (length xs).
      set (dependencies ((x # xs) ! i)) \<subseteq> e \<union> code ` set (take i (x # xs)))"
    by (simp add: All_less_Suc2)
  finally show ?case by simp
qed

lemma take_ready_Some:
  "take_ready e ms = Some (m, rest) \<Longrightarrow> ready e m \<and> mset ms = add_mset m (mset rest)"
  by (induction ms arbitrary: m rest) (auto split: if_splits)

lemma take_ready_None: "take_ready e ms = None \<longleftrightarrow> (\<forall>m \<in> set ms. \<not> ready e m)"
  by (induction ms) auto

lemma topo_loop_Inr:
  "topo_loop rem em ord = Inr out \<Longrightarrow>
     \<exists>suffix. out = ord @ suffix \<and> mset suffix = mset rem \<and> starts_after em suffix"
proof (induction rem em ord arbitrary: out rule: topo_loop.induct)
  case (1 rem em ord)
  show ?case
  proof (cases "rem = []")
    case True
    with "1.prems" show ?thesis by (simp add: topo_loop.simps [of "[]"])
  next
    case False
    with "1.prems" obtain m rest where
      t: "take_ready em rem = Some (m, rest)"
      and rec: "topo_loop rest (insert (code m) em) (ord @ [m]) = Inr out"
      by (auto simp: topo_loop.simps [of rem] bindr_eq_Inr split: option.splits)
    from "1.IH" [OF False t refl rec] obtain suffix where
      "out = ord @ m # suffix" "mset suffix = mset rest" "starts_after (insert (code m) em) suffix"
      by auto
    with take_ready_Some [OF t] show ?thesis by (intro exI [of _ "m # suffix"]) auto
  qed
qed

text \<open>If nothing has to move, nothing moves: declaration order is kept.\<close>

lemma topo_loop_in_order: "starts_after em rem \<Longrightarrow> topo_loop rem em ord = Inr (ord @ rem)"
  by (induction rem arbitrary: em ord) (simp_all add: topo_loop.simps)

lemma topo_loop_Inl:
  assumes "topo_loop rem em ord = Inl e"
    and "\<And>m. m \<in> set rem \<Longrightarrow> set (dependencies m) \<subseteq> em \<union> code ` set rem"
  shows "\<exists>cyc left. e = ModuleDependencyCycleError cyc \<and> set left \<subseteq> set rem \<and> closed_walk (deps_dict left) cyc"
  using assms
proof (induction rem em ord rule: topo_loop.induct)
  case (1 rem em ord)
  from "1.prems"(1) have ne: "rem \<noteq> []" by (auto simp: topo_loop.simps [of rem])
  show ?case
  proof (cases "take_ready em rem")
    case None
    have "\<exists>d \<in> set (dependencies m). d \<in> code ` set rem" if "m \<in> set rem" for m
    proof -
      from that None have "\<not> set (dependencies m) \<subseteq> em" by (auto simp: take_ready_None ready_set)
      with "1.prems"(2) [OF that] show ?thesis by blast
    qed
    with find_cycle_stuck [OF ne] obtain cyc where
      "find_cycle rem = Inr cyc" "closed_walk (deps_dict rem) cyc" by blast
    with "1.prems"(1) ne None show ?thesis by (auto simp: topo_loop.simps [of rem])
  next
    case (Some p)
    then obtain m rest where t: "take_ready em rem = Some (m, rest)" by (cases p) auto
    with "1.prems"(1) ne have rec: "topo_loop rest (insert (code m) em) (ord @ [m]) = Inl e"
      by (simp add: topo_loop.simps [of rem])
    have sets: "set rem = insert m (set rest)"
      using take_ready_Some [OF t] by (metis set_mset_add_mset_insert set_mset_mset)
    have "set (dependencies k) \<subseteq> insert (code m) em \<union> code ` set rest" if "k \<in> set rest" for k
      using "1.prems"(2) [of k] that sets by auto
    from "1.IH" [OF ne t refl rec this] show ?thesis using sets by (metis subset_insertI2)
  qed
qed

definition dependency_cycle :: "ModuleManifest list \<Rightarrow> string list \<Rightarrow> bool" where
  "dependency_cycle ms cyc \<longleftrightarrow> 2 \<le> length cyc \<and> hd cyc = last cyc \<and>
     successively (\<lambda>a b. \<exists>m \<in> set ms. code m = a \<and> b \<in> set (dependencies m)) cyc"

lemma closed_walk_dependency_cycle:
  assumes "closed_walk (deps_dict left) cyc" and "set left \<subseteq> set ms"
  shows "dependency_cycle ms cyc"
proof -
  have "\<exists>m \<in> set ms. code m = a \<and> b \<in> set (dependencies m)" if "edge (deps_dict left) a b" for a b
    using that assms(2) by (fastforce simp: edge_def deps_dict_def dest!: map_of_SomeD)
  then show ?thesis
    using assms(1) by (auto simp: closed_walk_def dependency_cycle_def elim!: successively_mono)
qed

lemma check_unique_codes_Inr: "check_unique_codes ms = Inr u \<longleftrightarrow> distinct (map code ms)"
proof -
  have "duplicate_codes ms seen = [] \<longleftrightarrow> distinct (map code ms) \<and> code ` set ms \<inter> set seen = {}" for seen
    by (induction ms seen rule: duplicate_codes.induct) (auto simp: List.insert_def)
  then show ?thesis by (simp add: check_unique_codes_def)
qed

lemma sort_eq_Nil [simp]: "sort xs = [] \<longleftrightarrow> xs = []"
  by (metis set_empty set_sort)

lemma edges_outside_Nil:
  "edges_outside inside ms = [] \<longleftrightarrow> (\<forall>m \<in> set ms. set (dependencies m) \<subseteq> inside)"
  by (auto simp: edges_outside_def filter_empty_conv)

lemma check_dependencies_installed_Inr:
  "check_dependencies_installed ms = Inr u \<longleftrightarrow> (\<forall>m \<in> set ms. set (dependencies m) \<subseteq> code ` set ms)"
  by (simp add: check_dependencies_installed_def edges_outside_Nil)

text \<open>In a valid order, positions strictly decrease along dependency edges.\<close>

lemma starts_after_no_cycle:
  assumes "starts_after {} ms" and "distinct (map code ms)"
  shows "\<not> dependency_cycle ms cyc"
proof
  assume cyc: "dependency_cycle ms cyc"
  define pos where "pos c = (THE i. i < length ms \<and> code (ms ! i) = c)" for c
  have pos: "pos (code (ms ! i)) = i" if "i < length ms" for i
    unfolding pos_def using that assms(2)
    by (intro the_equality) (auto simp: distinct_conv_nth)
  have dec: "pos b < pos a" if "\<exists>m \<in> set ms. code m = a \<and> b \<in> set (dependencies m)" for a b
  proof -
    from that obtain i where i: "i < length ms" "code (ms ! i) = a" "b \<in> set (dependencies (ms ! i))"
      by (metis in_set_conv_nth)
    with assms(1) have "b \<in> code ` set (take i ms)" by (auto simp: starts_after_nth)
    then obtain j where "j < i" "code (ms ! j) = b" by (auto simp: in_set_conv_nth)
    with i pos show ?thesis by fastforce
  qed
  have "successively (\<lambda>a b. pos b < pos a) cyc"
    using cyc dec by (auto simp: dependency_cycle_def elim!: successively_mono)
  then have "pos (last cyc) < pos (hd cyc)" if "2 \<le> length cyc"
    using that
  proof (induction cyc rule: induct_list012)
    case (3 x y zs)
    then show ?case by (cases zs) (auto simp: successively_Cons)
  qed simp_all
  with cyc show False by (simp add: dependency_cycle_def)
qed

lemma dependency_cycle_mset: "mset xs = mset ys \<Longrightarrow> dependency_cycle xs = dependency_cycle ys"
  by (drule mset_eq_setD) (simp add: dependency_cycle_def fun_eq_iff)

lemma topological_order_Inr:
  assumes "topological_order ms = Inr order"
  shows "mset order = mset ms" and "starts_after {} order"
  using topo_loop_Inr [OF assms [unfolded topological_order_def]] by auto

lemma ModuleRegistry_init_Inr:
  assumes "ModuleRegistry_init reg supported ms = Inr r"
  obtains declared where "map_result (adapt reg) ms = Inr declared" "distinct (map code declared)"
    "\<forall>m \<in> set declared. contract_version m \<in> supported"
    "\<forall>m \<in> set declared. set (dependencies m) \<subseteq> code ` set declared"
    "topological_order declared = Inr (start_order r)"
    "by_code r = map (\<lambda>m. (code m, m)) (start_order r)"
proof -
  from assms obtain declared where d: "map_result (adapt reg) ms = Inr declared"
    "check_unique_codes declared = Inr ()" "check_contract_versions declared supported = Inr ()"
    "check_dependencies_installed declared = Inr ()" "topological_order declared = Inr (start_order r)"
    "by_code r = map (\<lambda>m. (code m, m)) (start_order r)"
    by (auto simp: ModuleRegistry_init_def bindr_eq_Inr)
  have "\<forall>m \<in> set declared. contract_version m \<in> supported"
    using d(3) by (auto simp: check_contract_versions_def Let_def filter_empty_conv split: if_splits)
  with that d show ?thesis by (simp add: check_unique_codes_Inr check_dependencies_installed_Inr)
qed

text \<open>Two modules declared against their dependency order.\<close>

definition sample_modules :: "AnyManifest list" where
  "sample_modules =
     [Module ((module_defaults ''orders'' ''1.0.0'')\<lparr>contract_version := 2, dependencies := [''party'']\<rparr>),
      Module ((module_defaults ''party'' ''1.2.0'')\<lparr>contract_version := 2\<rparr>)]"

definition sample_registry :: "assembly_error + ModuleRegistry" where
  "sample_registry = ModuleRegistry_init initial_registry SUPPORTED_MODULE_CONTRACT_VERSIONS sample_modules"

lemma sample_registry_constructs: "sample_registry = Inr (projr sample_registry)"
proof -
  have "\<not> isl sample_registry"
    unfolding sample_registry_def ModuleRegistry_init_def ledger_from_manifests by code_simp
  then show ?thesis by (cases sample_registry) simp_all
qed

lemma sample_registry_order: "map code (startup_order (projr sample_registry)) = [''party'', ''orders'']"
  unfolding sample_registry_def ModuleRegistry_init_def ledger_from_manifests by code_simp

text \<open>
  C10. The startup order of a registry that constructs: it is the installed set,
  each module once; every module starts after all of its dependencies; and where
  the declared order already satisfies the dependencies it is kept unchanged.
\<close>

theorem startup_order_correct:
  assumes "ModuleRegistry_init reg supported ms = Inr r"
  shows "\<exists>declared. map_result (adapt reg) ms = Inr declared
    \<and> mset (startup_order r) = mset declared
    \<and> distinct (map code (startup_order r))
    \<and> (\<forall>i < length (startup_order r).
         set (dependencies (startup_order r ! i)) \<subseteq> code ` set (take i (startup_order r)))
    \<and> (starts_after {} declared \<longrightarrow> startup_order r = declared)"
proof -
  obtain declared where d: "map_result (adapt reg) ms = Inr declared" "distinct (map code declared)"
    "topological_order declared = Inr (start_order r)"
    using ModuleRegistry_init_Inr [OF assms] by metis
  note t = topological_order_Inr [OF d(3)]
  have "mset (map code (start_order r)) = mset (map code declared)" using t(1) by simp
  then have "distinct (map code (start_order r))" using d(2) by (metis mset_eq_imp_distinct_iff)
  moreover have "start_order r = declared" if "starts_after {} declared"
    using d(3) topo_loop_in_order [OF that, of "[]"] by (simp add: topological_order_def)
  ultimately show ?thesis
    using d(1) t by (auto simp: startup_order_def starts_after_nth)
qed

theorem startup_order_correct_witness:
  "map code (startup_order (projr sample_registry)) = [''party'', ''orders'']
   \<and> set (dependencies (startup_order (projr sample_registry) ! 1))
        \<subseteq> code ` set (take 1 (startup_order (projr sample_registry)))"
proof -
  have "1 < length (startup_order (projr sample_registry))"
    using arg_cong [OF sample_registry_order, of length] by simp
  moreover have "\<forall>i < length (startup_order (projr sample_registry)).
      set (dependencies (startup_order (projr sample_registry) ! i))
        \<subseteq> code ` set (take i (startup_order (projr sample_registry)))"
    using startup_order_correct [OF sample_registry_constructs [unfolded sample_registry_def]]
    unfolding sample_registry_def by blast
  ultimately show ?thesis using sample_registry_order by blast
qed

text \<open>
  C23. Startup fails exactly when the installed modules have a dependency cycle,
  and the path named in the error is a cycle of them: it is closed and each step
  follows a declared dependency.
\<close>

theorem cycle_error_iff_cycle:
  assumes "check_unique_codes ms = Inr ()" and "check_dependencies_installed ms = Inr ()"
  shows "case topological_order ms of
      Inr order \<Rightarrow> mset order = mset ms \<and> (\<forall>cyc. \<not> dependency_cycle ms cyc)
    | Inl e \<Rightarrow> \<exists>cyc. e = ModuleDependencyCycleError cyc \<and> dependency_cycle ms cyc"
proof (cases "topological_order ms")
  case (Inl e)
  then show ?thesis
    using topo_loop_Inl [OF Inl [unfolded topological_order_def]] assms(2)
      closed_walk_dependency_cycle by (fastforce simp: check_dependencies_installed_Inr)
next
  case (Inr order)
  note t = topological_order_Inr [OF Inr]
  have "mset (map code order) = mset (map code ms)" using t(1) by simp
  with assms(1) have "distinct (map code order)"
    by (metis check_unique_codes_Inr mset_eq_imp_distinct_iff)
  with starts_after_no_cycle [OF t(2)] dependency_cycle_mset [OF t(1)] Inr t(1) show ?thesis by simp
qed

theorem cycle_error_iff_cycle_witness:
  "\<exists>cyc. topological_order
       [(module_defaults ''a'' ''1'')\<lparr>dependencies := [''b'']\<rparr>,
        (module_defaults ''b'' ''1'')\<lparr>dependencies := [''c'', ''a'']\<rparr>,
        module_defaults ''c'' ''1''] = Inl (ModuleDependencyCycleError cyc)
     \<and> dependency_cycle
       [(module_defaults ''a'' ''1'')\<lparr>dependencies := [''b'']\<rparr>,
        (module_defaults ''b'' ''1'')\<lparr>dependencies := [''c'', ''a'']\<rparr>,
        module_defaults ''c'' ''1''] cyc"
    (is "\<exists>cyc. topological_order ?ms = _ \<and> _")
proof -
  have "check_unique_codes ?ms = Inr ()" "check_dependencies_installed ?ms = Inr ()" by code_simp+
  note named = cycle_error_iff_cycle [OF this]
  have "topological_order ?ms = Inl (ModuleDependencyCycleError [''a'', ''b'', ''a''])" by code_simp
  with named show ?thesis by simp
qed

lemma starts_after_filter:
  assumes "starts_after e xs" and "\<And>m. m \<in> set xs \<Longrightarrow> P m \<longleftrightarrow> code m \<in> K"
    and "\<And>m. m \<in> set xs \<Longrightarrow> P m \<Longrightarrow> set (dependencies m) \<subseteq> K"
  shows "starts_after (e \<inter> K) (filter P xs)"
  using assms
proof (induction xs arbitrary: e)
  case Nil
  then show ?case by simp
next
  case (Cons x xs)
  have IH: "starts_after (insert (code x) e \<inter> K) (filter P xs)"
    using Cons.prems by (intro Cons.IH) auto
  show ?case
  proof (cases "P x")
    case True
    with Cons.prems have "code x \<in> K" "set (dependencies x) \<subseteq> e \<inter> K" by (auto simp: ready_set)
    with True IH show ?thesis by (simp add: ready_set)
  next
    case False
    with Cons.prems(2) [of x] have "insert (code x) e \<inter> K = e \<inter> K" by auto
    with False IH show ?thesis by simp
  qed
qed

text \<open>
  What a deployment mounts: either the enabled order is the startup order
  restricted to the enabled modules and in it every module still comes after all
  of its dependencies, or an enabled module needs one that is not enabled and the
  deployment is refused.
\<close>

theorem enabled_order_closed:
  assumes "ModuleRegistry_init reg supported ms = Inr r"
  shows "case enabled_order r disabled of
      Inr on \<Rightarrow> on = filter (\<lambda>m. code m \<notin> disabled \<and> enabled_by_default m) (startup_order r)
        \<and> (\<forall>i < length on. set (dependencies (on ! i)) \<subseteq> code ` set (take i on))
    | Inl e \<Rightarrow> \<exists>m d. m \<in> set (startup_order r) \<and> code m \<in> enabled_codes r disabled
        \<and> d \<in> set (dependencies m) \<and> d \<notin> enabled_codes r disabled"
proof -
  obtain declared where d: "distinct (map code declared)"
    "topological_order declared = Inr (start_order r)"
    using ModuleRegistry_init_Inr [OF assms] by metis
  note t = topological_order_Inr [OF d(2)]
  have "mset (map code (start_order r)) = mset (map code declared)" using t(1) by simp
  then have dist: "distinct (map code (start_order r))" using d(1) by (metis mset_eq_imp_distinct_iff)
  define P where "P m \<longleftrightarrow> code m \<notin> disabled \<and> enabled_by_default m" for m :: ModuleManifest
  define K where "K = enabled_codes r disabled"
  have K: "K = code ` set (filter P (start_order r))" by (simp add: K_def enabled_codes_def P_def)
  have iff: "P m \<longleftrightarrow> code m \<in> K" if "m \<in> set (start_order r)" for m
    using that dist inj_on_eq_iff [of code "set (start_order r)"] by (auto simp: K distinct_map)
  have same: "filter (\<lambda>m. code m \<in> K) (start_order r) = filter P (start_order r)"
    using iff by (intro filter_cong) auto
  show ?thesis
  proof (cases "edges_outside K (filter P (start_order r)) = []")
    case True
    then have "starts_after ({} \<inter> K) (filter P (start_order r))"
      by (intro starts_after_filter t(2)) (auto simp: iff edges_outside_Nil)
    with True same show ?thesis
      by (simp add: enabled_order_def K_def [symmetric] Let_def startup_order_def starts_after_nth)
        (simp add: P_def [abs_def])
  next
    case False
    then obtain m d where "m \<in> set (start_order r)" "P m" "d \<in> set (dependencies m)" "d \<notin> K"
      by (auto simp: edges_outside_Nil)
    with iff False same show ?thesis
      by (auto simp: enabled_order_def K_def [symmetric] Let_def startup_order_def)
  qed
qed

theorem enabled_order_closed_witness:
  "(\<exists>on. enabled_order (projr sample_registry) {} = Inr on \<and> length on = 2)
   \<and> (\<exists>e m d. enabled_order (projr sample_registry) {''party''} = Inl e
        \<and> m \<in> set (startup_order (projr sample_registry)) \<and> d \<in> set (dependencies m)
        \<and> d \<notin> enabled_codes (projr sample_registry) {''party''})"
proof -
  note closed = enabled_order_closed [OF sample_registry_constructs [unfolded sample_registry_def],
      folded sample_registry_def]
  have "\<not> isl (enabled_order (projr sample_registry) {})"
    "isl (enabled_order (projr sample_registry) {''party''})"
    "length (projr (enabled_order (projr sample_registry) {})) = 2"
    unfolding sample_registry_def ModuleRegistry_init_def ledger_from_manifests by code_simp+
  with closed [of "{''party''}"] show ?thesis
    by (cases "enabled_order (projr sample_registry) {}";
        cases "enabled_order (projr sample_registry) {''party''}") auto
qed

end
