(* ===== verification/Catalogues.thy ===== *)
theory Catalogues
  imports Manifests "HOL-Library.AList"
begin

text \<open>
  The declaration catalogues built from the installed manifests: capabilities
  (\<^verbatim>\<open>capabilities.py\<close>), permissions (\<^verbatim>\<open>permissions.py\<close>), durable event types
  (\<^verbatim>\<open>outbox_event_types.py\<close>) and audit actions (\<^verbatim>\<open>audit_actions.py\<close>), each with its
  loop, its readers and its process-active instance.  The locale
  \<open>declaration_catalogue\<close> states what the four have in common, and is interpreted
  on each of them.  A Python \<^verbatim>\<open>dict\<close> is an association list in insertion order.
\<close>

subsection \<open>Capabilities\<close>

record CapabilityCatalogue =
  cap_owner_by_code :: "(string \<times> string) list"
  cap_spec_by_code :: "(string \<times> CapabilitySpec) list"

text \<open>One iteration of the inner loop, on a declaration of the module \<open>name\<close>.\<close>

definition cap_declare ::
    "string \<Rightarrow> capability_declaration \<Rightarrow> CapabilityCatalogue \<Rightarrow> assembly_error + CapabilityCatalogue" where
  "cap_declare name declaration cat =
     bindr (coerce_capability declaration) (\<lambda>spec.
     case map_of (cap_owner_by_code cat) (cap_code spec) of
       Some existing \<Rightarrow> if existing \<noteq> name then Inl (DuplicateCapabilityError (cap_code spec) existing name)
         else Inr \<lparr>cap_owner_by_code = AList.update (cap_code spec) name (cap_owner_by_code cat),
                   cap_spec_by_code = AList.update (cap_code spec) spec (cap_spec_by_code cat)\<rparr>
     | None \<Rightarrow> Inr \<lparr>cap_owner_by_code = AList.update (cap_code spec) name (cap_owner_by_code cat),
                    cap_spec_by_code = AList.update (cap_code spec) spec (cap_spec_by_code cat)\<rparr>)"

fun fold_result :: "('a \<Rightarrow> 's \<Rightarrow> 'e + 's) \<Rightarrow> 'a list \<Rightarrow> 's \<Rightarrow> 'e + 's" where
  "fold_result f [] s = Inr s"
| "fold_result f (x # xs) s = bindr (f x s) (fold_result f xs)"

definition cap_from_manifests :: "AnyManifest list \<Rightarrow> assembly_error + CapabilityCatalogue" where
  "cap_from_manifests ms = fold_result
     (\<lambda>m. fold_result (cap_declare (any_name m)) (any_capabilities m)) ms
     \<lparr>cap_owner_by_code = [], cap_spec_by_code = []\<rparr>"

definition cap_is_declared :: "CapabilityCatalogue \<Rightarrow> string \<Rightarrow> bool" where
  "cap_is_declared cat c \<longleftrightarrow> c \<in> fst ` set (cap_owner_by_code cat)"

definition cap_require :: "CapabilityCatalogue \<Rightarrow> string \<Rightarrow> assembly_error + unit" where
  "cap_require cat c = ensure (c \<in> fst ` set (cap_owner_by_code cat)) (UndeclaredCapabilityError c)"

text \<open>\<^verbatim>\<open>_spec_by_code.get(code, CapabilitySpec(code=code))\<close>: the default is built first.\<close>

definition cap_spec :: "CapabilityCatalogue \<Rightarrow> string \<Rightarrow> assembly_error + CapabilitySpec" where
  "cap_spec cat c =
     bindr (cap_require cat c) (\<lambda>_.
     bindr (make_CapabilitySpec c [] True) (\<lambda>default.
     Inr (case map_of (cap_spec_by_code cat) c of None \<Rightarrow> default | Some s \<Rightarrow> s)))"

fun granted_by_default :: "CapabilityCatalogue \<Rightarrow> string list \<Rightarrow> assembly_error + string list" where
  "granted_by_default cat [] = Inr []"
| "granted_by_default cat (c # cs) =
     bindr (cap_spec cat c) (\<lambda>s.
     bindr (granted_by_default cat cs) (\<lambda>rest. Inr (if default_granted s then c # rest else rest)))"

definition default_granted_codes :: "CapabilityCatalogue \<Rightarrow> assembly_error + string list" where
  "default_granted_codes cat =
     bindr (granted_by_default cat (map fst (cap_owner_by_code cat))) (\<lambda>cs. Inr (sort cs))"

definition cap_owner :: "CapabilityCatalogue \<Rightarrow> string \<Rightarrow> string option" where
  "cap_owner cat c = map_of (cap_owner_by_code cat) c"

definition cap_codes :: "CapabilityCatalogue \<Rightarrow> string set" where
  "cap_codes cat = fst ` set (cap_owner_by_code cat)"

subsection \<open>Permissions\<close>

record PermissionCatalogue =
  perm_owner_by_code :: "(string \<times> string) list"
  perm_spec_by_code :: "(string \<times> PermissionSpec) list"

definition perm_declare ::
    "string \<times> PermissionSpec \<Rightarrow> PermissionCatalogue \<Rightarrow> assembly_error + PermissionCatalogue" where
  "perm_declare d cat = (case d of (owner, spec) \<Rightarrow>
     let cat' = \<lparr>perm_owner_by_code = AList.update (perm_code spec) owner (perm_owner_by_code cat),
                 perm_spec_by_code = AList.update (perm_code spec) spec (perm_spec_by_code cat)\<rparr> in
     case map_of (perm_owner_by_code cat) (perm_code spec) of
       Some existing \<Rightarrow> if existing \<noteq> owner then Inl (DuplicatePermissionError (perm_code spec) existing owner)
         else Inr cat'
     | None \<Rightarrow> Inr cat')"

definition PermissionCatalogue_init ::
    "(string \<times> PermissionSpec) list \<Rightarrow> assembly_error + PermissionCatalogue" where
  "PermissionCatalogue_init declarations =
     fold_result perm_declare declarations \<lparr>perm_owner_by_code = [], perm_spec_by_code = []\<rparr>"

definition perm_from_manifests :: "AnyManifest list \<Rightarrow> assembly_error + PermissionCatalogue" where
  "perm_from_manifests ms = PermissionCatalogue_init
     (concat (map (\<lambda>m. map (\<lambda>s. (any_name m, s)) (any_permissions m)) ms))"

definition perm_is_declared :: "PermissionCatalogue \<Rightarrow> string \<Rightarrow> bool" where
  "perm_is_declared cat c \<longleftrightarrow> c \<in> fst ` set (perm_spec_by_code cat)"

definition perm_require :: "PermissionCatalogue \<Rightarrow> string \<Rightarrow> assembly_error + PermissionSpec" where
  "perm_require cat c = (case map_of (perm_spec_by_code cat) c of
     None \<Rightarrow> Inl (UndeclaredPermissionError c) | Some s \<Rightarrow> Inr s)"

definition perm_spec :: "PermissionCatalogue \<Rightarrow> string \<Rightarrow> PermissionSpec option" where
  "perm_spec cat c = map_of (perm_spec_by_code cat) c"

definition perm_owner :: "PermissionCatalogue \<Rightarrow> string \<Rightarrow> string option" where
  "perm_owner cat c = map_of (perm_owner_by_code cat) c"

definition perm_codes :: "PermissionCatalogue \<Rightarrow> string set" where
  "perm_codes cat = fst ` set (perm_spec_by_code cat)"

subsection \<open>Durable event types and audit actions\<close>

text \<open>Both registries are owner maps; the event types also refuse an empty code.\<close>

type_synonym owner_map = "(string \<times> string) list"

definition event_declare :: "string \<times> string \<Rightarrow> owner_map \<Rightarrow> assembly_error + owner_map" where
  "event_declare d reg = (case d of (owner, event_type) \<Rightarrow>
     if event_type = [] then Inl (ValueError ''outbox event type declarations must be non-empty'')
     else case map_of reg event_type of
       Some existing \<Rightarrow> if existing \<noteq> owner
         then Inl (DuplicateOutboxEventTypeError event_type existing owner)
         else Inr (AList.update event_type owner reg)
     | None \<Rightarrow> Inr (AList.update event_type owner reg))"

definition OutboxEventTypeRegistry_init :: "(string \<times> string) list \<Rightarrow> assembly_error + owner_map" where
  "OutboxEventTypeRegistry_init declarations = fold_result event_declare declarations []"

definition event_from_manifests :: "AnyManifest list \<Rightarrow> assembly_error + owner_map" where
  "event_from_manifests ms = OutboxEventTypeRegistry_init
     (concat (map (\<lambda>m. map (\<lambda>e. (any_name m, e)) (any_outbox_event_types m)) ms))"

definition event_require :: "owner_map \<Rightarrow> string \<Rightarrow> assembly_error + unit" where
  "event_require reg e = ensure (e \<in> fst ` set reg) (UndeclaredOutboxEventTypeError e)"

definition event_owner :: "owner_map \<Rightarrow> string \<Rightarrow> string option" where
  "event_owner reg e = map_of reg e"

definition event_types :: "owner_map \<Rightarrow> string set" where
  "event_types reg = fst ` set reg"

definition audit_declare :: "string \<times> string \<Rightarrow> owner_map \<Rightarrow> assembly_error + owner_map" where
  "audit_declare d reg = (case d of (owner, action) \<Rightarrow>
     case map_of reg action of
       Some existing \<Rightarrow> if existing \<noteq> owner then Inl (DuplicateAuditActionError action existing owner)
         else Inr (AList.update action owner reg)
     | None \<Rightarrow> Inr (AList.update action owner reg))"

definition AuditActionRegistry_init :: "(string \<times> string) list \<Rightarrow> assembly_error + owner_map" where
  "AuditActionRegistry_init declarations = fold_result audit_declare declarations []"

definition kernel_manifest :: FeatureManifest where
  "kernel_manifest = (feature_defaults ''kernel'')
     \<lparr>fm_audit_actions := [''identity.history_imported'', ''credential.password.assigned'']\<rparr>"

text \<open>
  The generator \<^verbatim>\<open>declarations()\<close> interleaves with the constructor's loop: a reserved
  action is refused when the loop reaches it.
\<close>

definition audit_declare_manifest ::
    "string \<times> string \<Rightarrow> owner_map \<Rightarrow> assembly_error + owner_map" where
  "audit_declare_manifest d reg =
     (if snd d \<in> set (fm_audit_actions kernel_manifest)
      then Inl (DuplicateAuditActionError (snd d) (fm_name kernel_manifest) (fst d))
      else audit_declare d reg)"

definition audit_from_manifests :: "AnyManifest list \<Rightarrow> assembly_error + owner_map" where
  "audit_from_manifests ms =
     bindr (fold_result audit_declare
        (map (\<lambda>a. (fm_name kernel_manifest, a)) (fm_audit_actions kernel_manifest)) [])
       (fold_result audit_declare_manifest
        (concat (map (\<lambda>m. map (\<lambda>a. (any_name m, a)) (any_audit_actions m)) ms)))"

definition audit_is_declared :: "owner_map \<Rightarrow> string \<Rightarrow> bool" where
  "audit_is_declared reg a \<longleftrightarrow> a \<in> fst ` set reg"

definition audit_require :: "owner_map \<Rightarrow> string \<Rightarrow> assembly_error + unit" where
  "audit_require reg a = ensure (a \<in> fst ` set reg) (UndeclaredAuditActionError a)"

definition audit_owner :: "owner_map \<Rightarrow> string \<Rightarrow> string option" where
  "audit_owner reg a = map_of reg a"

definition actions :: "owner_map \<Rightarrow> string set" where
  "actions reg = fst ` set reg"

subsection \<open>The process-active catalogues\<close>

record catalogue_process =
  active_cap :: CapabilityCatalogue
  active_perm :: PermissionCatalogue
  active_events :: "owner_map option"
  active_audit :: "owner_map option"

definition catalogue_process_start :: catalogue_process where
  "catalogue_process_start = \<lparr>
     active_cap = \<lparr>cap_owner_by_code = [], cap_spec_by_code = []\<rparr>,
     active_perm = \<lparr>perm_owner_by_code = [], perm_spec_by_code = []\<rparr>,
     active_events = None, active_audit = None\<rparr>"

definition install_capabilities :: "CapabilityCatalogue \<Rightarrow> catalogue_process \<Rightarrow> catalogue_process" where
  "install_capabilities cat p = p\<lparr>active_cap := cat\<rparr>"

definition active_capabilities :: "catalogue_process \<Rightarrow> CapabilityCatalogue" where
  "active_capabilities p = active_cap p"

definition install_permissions :: "PermissionCatalogue \<Rightarrow> catalogue_process \<Rightarrow> catalogue_process" where
  "install_permissions cat p = p\<lparr>active_perm := cat\<rparr>"

definition active_permissions :: "catalogue_process \<Rightarrow> PermissionCatalogue" where
  "active_permissions p = active_perm p"

definition install_outbox_event_types :: "owner_map \<Rightarrow> catalogue_process \<Rightarrow> catalogue_process" where
  "install_outbox_event_types reg p = p\<lparr>active_events := Some reg\<rparr>"

definition active_outbox_event_types :: "catalogue_process \<Rightarrow> assembly_error + owner_map" where
  "active_outbox_event_types p = (case active_events p of
     None \<Rightarrow> Inl OutboxEventTypesNotInstalledError | Some reg \<Rightarrow> Inr reg)"

definition install_audit_actions :: "owner_map \<Rightarrow> catalogue_process \<Rightarrow> catalogue_process" where
  "install_audit_actions reg p = p\<lparr>active_audit := Some reg\<rparr>"

definition active_audit_actions :: "catalogue_process \<Rightarrow> assembly_error + owner_map" where
  "active_audit_actions p = (case active_audit p of
     None \<Rightarrow> Inl AuditActionsNotInstalledError | Some reg \<Rightarrow> Inr reg)"

text \<open>Before anything is installed, every reference is refused.\<close>

lemma nothing_installed_denies:
  "cap_require (active_capabilities catalogue_process_start) c = Inl (UndeclaredCapabilityError c)"
  "perm_require (active_permissions catalogue_process_start) c = Inl (UndeclaredPermissionError c)"
  "active_outbox_event_types catalogue_process_start = Inl OutboxEventTypesNotInstalledError"
  "active_audit_actions catalogue_process_start = Inl AuditActionsNotInstalledError"
  by (simp_all add: catalogue_process_start_def active_capabilities_def cap_require_def
      active_permissions_def perm_require_def active_outbox_event_types_def active_audit_actions_def)

subsection \<open>The declaring loop\<close>

text \<open>
  What one iteration of each loop promises: it refuses a code another module owns,
  and otherwise records the declaring module as the owner.
\<close>

locale owner_loop =
  fixes step :: "'d \<Rightarrow> 's \<Rightarrow> 'e + 's"
    and view :: "'s \<Rightarrow> string \<Rightarrow> string option"
    and cd :: "'d \<Rightarrow> string"
    and nm :: "'d \<Rightarrow> string"
    and wf :: "'d \<Rightarrow> bool"
  assumes step_ok: "wf d \<Longrightarrow> view s (cd d) = None \<or> view s (cd d) = Some (nm d) \<Longrightarrow> \<exists>s'. step d s = Inr s'"
    and step_Inr: "step d s = Inr s' \<Longrightarrow> wf d \<and> (view s (cd d) = None \<or> view s (cd d) = Some (nm d))
      \<and> view s' = (view s)(cd d \<mapsto> nm d)"
begin

lemma loop_owner:
  "fold_result step ds s = Inr s' \<Longrightarrow>
     view s' c = Some n \<longleftrightarrow> view s c = Some n \<or> (\<exists>d \<in> set ds. cd d = c \<and> nm d = n)"
proof (induction ds arbitrary: s)
  case Nil
  then show ?case by simp
next
  case (Cons d ds)
  then obtain s1 where d: "step d s = Inr s1" and rest: "fold_result step ds s1 = Inr s'"
    by (auto simp: bindr_eq_Inr)
  from step_Inr [OF d] Cons.IH [OF rest] show ?case by auto
qed

lemma loop_consistent:
  assumes "fold_result step ds s = Inr s'" and "d \<in> set ds"
  shows "wf d" and "view s' (cd d) = Some (nm d)"
proof -
  show "view s' (cd d) = Some (nm d)" using loop_owner [OF assms(1)] assms(2) by blast
  show "wf d" using assms
    by (induction ds arbitrary: s) (auto simp: bindr_eq_Inr dest: step_Inr)
qed

lemma loop_total:
  assumes "\<And>d. d \<in> set ds \<Longrightarrow> wf d" and "\<And>d. d \<in> set ds \<Longrightarrow> view s (cd d) \<in> {None, Some (nm d)}"
    and "\<And>d e. d \<in> set ds \<Longrightarrow> e \<in> set ds \<Longrightarrow> cd d = cd e \<Longrightarrow> nm d = nm e"
  shows "\<exists>s'. fold_result step ds s = Inr s'"
  using assms
proof (induction ds arbitrary: s)
  case Nil
  show ?case by simp
next
  case (Cons d ds)
  have "wf d" "view s (cd d) = None \<or> view s (cd d) = Some (nm d)"
    using Cons.prems(1,2) [of d] by simp_all
  then obtain s1 where d: "step d s = Inr s1" using step_ok by blast
  have "\<exists>s'. fold_result step ds s1 = Inr s'"
  proof (rule Cons.IH)
    fix e
    assume e: "e \<in> set ds"
    then show "wf e" using Cons.prems(1) by simp
    have v: "view s1 = (view s)(cd d \<mapsto> nm d)" using step_Inr [OF d] by blast
    show "view s1 (cd e) \<in> {None, Some (nm e)}"
    proof (cases "cd e = cd d")
      case True
      then show ?thesis using v Cons.prems(3) [of d e] e by simp
    next
      case False
      then show ?thesis using v Cons.prems(2) [of e] e by simp
    qed
    show "nm e = nm e'" if "e' \<in> set ds" "cd e = cd e'" for e'
      using that e Cons.prems(3) by auto
  qed
  with d show ?case by simp
qed

lemma loop_succeeds_iff:
  assumes "\<And>d. d \<in> set ds \<Longrightarrow> wf d \<Longrightarrow> view s (cd d) = None"
  shows "(\<exists>s'. fold_result step ds s = Inr s') \<longleftrightarrow>
    (\<forall>d \<in> set ds. wf d) \<and> (\<forall>d \<in> set ds. \<forall>e \<in> set ds. cd d = cd e \<longrightarrow> nm d = nm e)"
proof
  assume "\<exists>s'. fold_result step ds s = Inr s'"
  then obtain s' where s': "fold_result step ds s = Inr s'" ..
  show "(\<forall>d \<in> set ds. wf d) \<and> (\<forall>d \<in> set ds. \<forall>e \<in> set ds. cd d = cd e \<longrightarrow> nm d = nm e)"
  proof (intro conjI ballI impI)
    fix d e
    assume de: "d \<in> set ds" "e \<in> set ds"
    show "wf d" using loop_consistent(1) [OF s' de(1)] .
    show "nm d = nm e" if "cd d = cd e"
      using loop_consistent(2) [OF s' de(1)] loop_consistent(2) [OF s' de(2)] that by simp
  qed
next
  assume "(\<forall>d \<in> set ds. wf d) \<and> (\<forall>d \<in> set ds. \<forall>e \<in> set ds. cd d = cd e \<longrightarrow> nm d = nm e)"
  with assms show "\<exists>s'. fold_result step ds s = Inr s'" by (intro loop_total) blast+
qed

end

text \<open>The code a capability declaration names.\<close>

definition decl_code :: "capability_declaration \<Rightarrow> string" where
  "decl_code d = (case d of BareCode c \<Rightarrow> c | Spec s \<Rightarrow> cap_code s)"

lemma coerce_capability_Inr:
  "coerce_capability d = Inr s \<Longrightarrow> d \<noteq> BareCode [] \<and> cap_code s = decl_code d"
  by (auto simp: coerce_capability_def make_CapabilitySpec_def decl_code_def
      split: capability_declaration.splits if_splits)

lemma coerce_capability_total: "d \<noteq> BareCode [] \<Longrightarrow> \<exists>s. coerce_capability d = Inr s"
  by (auto simp: coerce_capability_def make_CapabilitySpec_def split: capability_declaration.splits)

interpretation cap_loop: owner_loop "\<lambda>(n, d). cap_declare n d" "\<lambda>cat. map_of (cap_owner_by_code cat)"
  "\<lambda>d. decl_code (snd d)" fst "\<lambda>d. snd d \<noteq> BareCode []"
proof (unfold_locales, goal_cases)
  case (1 nd cat)
  obtain n d where nd: "nd = (n, d)" by force
  with 1(1) obtain spec where "coerce_capability d = Inr spec" using coerce_capability_total by auto
  with 1(2) nd coerce_capability_Inr [of d spec] show ?case
    by (auto simp: cap_declare_def split: option.splits)
next
  case (2 nd cat cat')
  obtain n d where nd: "nd = (n, d)" by force
  with 2 obtain spec where "coerce_capability d = Inr spec"
    by (auto simp: cap_declare_def bindr_eq_Inr)
  with 2 nd coerce_capability_Inr [of d spec] show ?case
    by (auto simp: cap_declare_def update_conv' split: option.splits if_splits)
qed

interpretation perm_loop: owner_loop perm_declare "\<lambda>cat. map_of (perm_owner_by_code cat)"
  "\<lambda>d. perm_code (snd d)" fst "\<lambda>_. True"
  by unfold_locales
    (auto simp: perm_declare_def Let_def update_conv' split: option.splits if_splits)

interpretation event_loop: owner_loop event_declare map_of snd fst "\<lambda>d. snd d \<noteq> []"
  by unfold_locales
    (auto simp: event_declare_def update_conv' split: option.splits if_splits)

interpretation audit_loop: owner_loop audit_declare map_of snd fst "\<lambda>_. True"
  by unfold_locales
    (auto simp: audit_declare_def update_conv' split: option.splits if_splits)

interpretation audit_manifest_loop: owner_loop audit_declare_manifest map_of snd fst
  "\<lambda>d. snd d \<notin> set (fm_audit_actions kernel_manifest)"
  by unfold_locales
    (auto simp: audit_declare_manifest_def audit_declare_def update_conv' split: option.splits if_splits)

subsection \<open>What the four catalogues promise\<close>

text \<open>
  The contract of a catalogue built from the installed manifests: it exists
  exactly when no code is contested, malformed or reserved, and then a code's
  owner is exactly the module that declares it (or the kernel, if reserved).
\<close>

locale declaration_catalogue =
  fixes build :: "AnyManifest list \<Rightarrow> assembly_error + 'cat"
    and owner :: "'cat \<Rightarrow> string \<Rightarrow> string option"
    and declares :: "AnyManifest \<Rightarrow> string set"
    and reserved :: "string \<Rightarrow> string option"
    and wf :: "AnyManifest \<Rightarrow> bool"
  assumes owner_exact: "build ms = Inr cat \<Longrightarrow>
      owner cat c = Some n \<longleftrightarrow> reserved c = Some n \<or> (\<exists>m \<in> set ms. any_name m = n \<and> c \<in> declares m)"
    and builds_iff: "(\<exists>cat. build ms = Inr cat) \<longleftrightarrow>
      (\<forall>m \<in> set ms. wf m \<and> (\<forall>c \<in> declares m. reserved c = None)) \<and>
      (\<forall>m \<in> set ms. \<forall>m' \<in> set ms. \<forall>c \<in> declares m \<inter> declares m'. any_name m = any_name m')"
begin

lemma declared_has_its_owner:
  "build ms = Inr cat \<Longrightarrow> m \<in> set ms \<Longrightarrow> c \<in> declares m \<Longrightarrow> owner cat c = Some (any_name m)"
  using owner_exact by blast

lemma one_owner:
  "build ms = Inr cat \<Longrightarrow> m \<in> set ms \<Longrightarrow> m' \<in> set ms \<Longrightarrow> c \<in> declares m \<Longrightarrow> c \<in> declares m' \<Longrightarrow>
     any_name m = any_name m'"
  using builds_iff [of ms] by blast

lemma contested_fails:
  "m \<in> set ms \<Longrightarrow> m' \<in> set ms \<Longrightarrow> c \<in> declares m \<Longrightarrow> c \<in> declares m' \<Longrightarrow> any_name m \<noteq> any_name m' \<Longrightarrow>
     \<exists>e. build ms = Inl e"
  using one_owner by (metis sum.exhaust)

lemma undeclared_iff:
  "build ms = Inr cat \<Longrightarrow> owner cat c = None \<longleftrightarrow> reserved c = None \<and> (\<forall>m \<in> set ms. c \<notin> declares m)"
  using owner_exact [of ms cat c] by (cases "owner cat c"; cases "reserved c") auto

text \<open>The order in which modules are installed, and repetitions, do not matter.\<close>

lemma order_independent:
  assumes "build ms = Inr cat" and "set ms = set ms'"
  shows "\<exists>cat'. build ms' = Inr cat' \<and> owner cat' = owner cat"
proof -
  from builds_iff [of ms] builds_iff [of ms'] assms obtain cat' where cat': "build ms' = Inr cat'"
    by metis
  have "owner cat' c = Some n \<longleftrightarrow> owner cat c = Some n" for c n
    using owner_exact [OF cat'] owner_exact [OF assms(1)] assms(2) by simp
  then have "owner cat' c = owner cat c" for c by (metis not_Some_eq)
  with cat' show ?thesis by auto
qed

text \<open>A smaller installed set composes too, and never re-assigns a code.\<close>

lemma fewer_modules:
  assumes "build ms = Inr cat" and "set ms' \<subseteq> set ms"
  shows "\<exists>cat'. build ms' = Inr cat' \<and> (\<forall>c n. owner cat' c = Some n \<longrightarrow> owner cat c = Some n)"
proof -
  from builds_iff [of ms] assms(1) have "(\<forall>m \<in> set ms'. wf m \<and> (\<forall>c \<in> declares m. reserved c = None)) \<and>
      (\<forall>m \<in> set ms'. \<forall>m' \<in> set ms'. \<forall>c \<in> declares m \<inter> declares m'. any_name m = any_name m')"
    using assms(2) by (metis subsetD)
  with builds_iff [of ms'] obtain cat' where cat': "build ms' = Inr cat'" by blast
  with owner_exact [OF cat'] owner_exact [OF assms(1)] assms(2) show ?thesis by blast
qed

end

text \<open>From the loop to the contract: the declarations of the installed set, flattened.\<close>

definition declarations_of :: "(AnyManifest \<Rightarrow> 'd list) \<Rightarrow> AnyManifest list \<Rightarrow> (string \<times> 'd) list" where
  "declarations_of field ms = concat (map (\<lambda>m. map (\<lambda>d. (any_name m, d)) (field m)) ms)"

lemma declarations_of_set:
  "(n, d) \<in> set (declarations_of field ms) \<longleftrightarrow> (\<exists>m \<in> set ms. any_name m = n \<and> d \<in> set (field m))"
  by (auto simp: declarations_of_def)

lemma fold_result_append:
  "fold_result f (xs @ ys) s = bindr (fold_result f xs s) (fold_result f ys)"
  by (induction xs arbitrary: s) (auto simp: bindr_def split: sum.splits)

lemma cap_from_manifests_flat:
  "cap_from_manifests ms = fold_result (\<lambda>(n, d). cap_declare n d) (declarations_of any_capabilities ms)
     \<lparr>cap_owner_by_code = [], cap_spec_by_code = []\<rparr>"
proof -
  have inner: "fold_result (cap_declare n) ds s = fold_result (\<lambda>(n, d). cap_declare n d) (map (\<lambda>d. (n, d)) ds) s"
    for n ds s by (induction ds arbitrary: s) (auto simp: bindr_def split: sum.splits)
  have "fold_result (\<lambda>m. fold_result (cap_declare (any_name m)) (any_capabilities m)) ms s =
      fold_result (\<lambda>(n, d). cap_declare n d) (declarations_of any_capabilities ms) s" for s
    by (induction ms arbitrary: s)
      (auto simp: declarations_of_def fold_result_append inner bindr_def split: sum.splits)
  then show ?thesis by (simp add: cap_from_manifests_def)
qed

text \<open>
  Each catalogue is a loop over the flattened declarations, started from the
  reserved owners; the contract follows once for all of them.
\<close>

lemma declarations_of_image:
  "(\<lambda>(n, d). (n, cd d)) ` set (declarations_of field ms) = (\<Union>m \<in> set ms. {any_name m} \<times> cd ` set (field m))"
  by (force simp: declarations_of_def)

lemma catalogue_contract:
  assumes loop: "owner_loop step view (\<lambda>d. cd (snd d)) fst (\<lambda>d. W (snd d))"
    and build: "\<And>ms. build ms = fold_result step (declarations_of field ms) s0"
    and W: "\<And>d. W d \<Longrightarrow> view s0 (cd d) = None"
    and ok: "\<And>m. ok m \<and> (\<forall>c \<in> cd ` set (field m). view s0 c = None) \<longleftrightarrow> (\<forall>d \<in> set (field m). W d)"
  shows "declaration_catalogue build view (\<lambda>m. cd ` set (field m)) (view s0) ok"
proof
  note L = owner_loop.loop_owner [OF loop] and S = owner_loop.loop_succeeds_iff [OF loop]
  fix ms c n
  define D where "D = (\<lambda>(n, d). (n, cd d)) ` set (declarations_of field ms)"
  have D: "(n, c) \<in> D \<longleftrightarrow> (\<exists>m \<in> set ms. any_name m = n \<and> c \<in> cd ` set (field m))" for n c
    unfolding D_def declarations_of_image by auto
  have mem: "(\<exists>d \<in> set (declarations_of field ms). cd (snd d) = c \<and> fst d = n) \<longleftrightarrow> (n, c) \<in> D" for n c
    by (force simp: D_def)
  {
    fix cat
    assume "build ms = Inr cat"
    then have "view cat c = Some n \<longleftrightarrow> view s0 c = Some n \<or>
        (\<exists>d \<in> set (declarations_of field ms). cd (snd d) = c \<and> fst d = n)"
      using L build by simp
    then show "view cat c = Some n \<longleftrightarrow> view s0 c = Some n \<or>
        (\<exists>m \<in> set ms. any_name m = n \<and> c \<in> cd ` set (field m))"
      by (simp only: mem D)
  }
  have "(\<exists>cat. build ms = Inr cat) \<longleftrightarrow> (\<forall>d \<in> set (declarations_of field ms). W (snd d)) \<and>
      (\<forall>d \<in> set (declarations_of field ms). \<forall>e \<in> set (declarations_of field ms).
         cd (snd d) = cd (snd e) \<longrightarrow> fst d = fst e)"
    unfolding build by (rule S) (simp add: W)
  also have "(\<forall>d \<in> set (declarations_of field ms). W (snd d)) \<longleftrightarrow> (\<forall>m \<in> set ms. \<forall>d \<in> set (field m). W d)"
    by (force simp: declarations_of_def)
  also have "(\<forall>d \<in> set (declarations_of field ms). \<forall>e \<in> set (declarations_of field ms).
         cd (snd d) = cd (snd e) \<longrightarrow> fst d = fst e) \<longleftrightarrow> (\<forall>n n' c. (n, c) \<in> D \<longrightarrow> (n', c) \<in> D \<longrightarrow> n = n')"
    by (simp only: mem [symmetric]) blast
  also have "(\<forall>n n' c. (n, c) \<in> D \<longrightarrow> (n', c) \<in> D \<longrightarrow> n = n') \<longleftrightarrow>
      (\<forall>m \<in> set ms. \<forall>m' \<in> set ms. \<forall>c \<in> cd ` set (field m) \<inter> cd ` set (field m'). any_name m = any_name m')"
    by (simp only: D) blast
  finally show "(\<exists>cat. build ms = Inr cat) \<longleftrightarrow>
      (\<forall>m \<in> set ms. ok m \<and> (\<forall>c \<in> cd ` set (field m). view s0 c = None)) \<and>
      (\<forall>m \<in> set ms. \<forall>m' \<in> set ms. \<forall>c \<in> cd ` set (field m) \<inter> cd ` set (field m'). any_name m = any_name m')"
    by (simp only: ok)
qed

interpretation cap_catalogue: declaration_catalogue cap_from_manifests "\<lambda>cat. map_of (cap_owner_by_code cat)"
  "\<lambda>m. decl_code ` set (any_capabilities m)" "\<lambda>_. None" "\<lambda>m. BareCode [] \<notin> set (any_capabilities m)"
proof -
  have "declaration_catalogue cap_from_manifests (\<lambda>cat. map_of (cap_owner_by_code cat))
      (\<lambda>m. decl_code ` set (any_capabilities m))
      (map_of (cap_owner_by_code \<lparr>cap_owner_by_code = [], cap_spec_by_code = []\<rparr>))
      (\<lambda>m. BareCode [] \<notin> set (any_capabilities m))"
    by (rule catalogue_contract [OF cap_loop.owner_loop_axioms cap_from_manifests_flat]) auto
  then show "declaration_catalogue cap_from_manifests (\<lambda>cat. map_of (cap_owner_by_code cat))
      (\<lambda>m. decl_code ` set (any_capabilities m)) (\<lambda>_. None) (\<lambda>m. BareCode [] \<notin> set (any_capabilities m))"
    by simp
qed

interpretation perm_catalogue: declaration_catalogue perm_from_manifests "\<lambda>cat. map_of (perm_owner_by_code cat)"
  "\<lambda>m. perm_code ` set (any_permissions m)" "\<lambda>_. None" "\<lambda>_. True"
proof -
  have flat: "perm_from_manifests ms = fold_result perm_declare (declarations_of any_permissions ms)
      \<lparr>perm_owner_by_code = [], perm_spec_by_code = []\<rparr>" for ms
    by (simp add: perm_from_manifests_def PermissionCatalogue_init_def declarations_of_def)
  have "declaration_catalogue perm_from_manifests (\<lambda>cat. map_of (perm_owner_by_code cat))
      (\<lambda>m. perm_code ` set (any_permissions m))
      (map_of (perm_owner_by_code \<lparr>perm_owner_by_code = [], perm_spec_by_code = []\<rparr>)) (\<lambda>_. True)"
    by (rule catalogue_contract [OF perm_loop.owner_loop_axioms flat]) auto
  then show "declaration_catalogue perm_from_manifests (\<lambda>cat. map_of (perm_owner_by_code cat))
      (\<lambda>m. perm_code ` set (any_permissions m)) (\<lambda>_. None) (\<lambda>_. True)"
    by simp
qed

interpretation event_catalogue: declaration_catalogue event_from_manifests map_of
  "\<lambda>m. id ` set (any_outbox_event_types m)" "map_of []" "\<lambda>m. [] \<notin> set (any_outbox_event_types m)"
proof -
  have flat: "event_from_manifests ms = fold_result event_declare (declarations_of any_outbox_event_types ms) []" for ms
    by (simp add: event_from_manifests_def OutboxEventTypeRegistry_init_def declarations_of_def)
  have loop: "owner_loop event_declare map_of (\<lambda>d. id (snd d)) fst (\<lambda>d. snd d \<noteq> [])"
    using event_loop.owner_loop_axioms by simp
  show "declaration_catalogue event_from_manifests map_of (\<lambda>m. id ` set (any_outbox_event_types m))
      (map_of []) (\<lambda>m. [] \<notin> set (any_outbox_event_types m))"
    by (rule catalogue_contract [OF loop flat]) auto
qed

text \<open>The kernel's reserved actions are the state the manifest loop starts from.\<close>

definition kernel_actions :: owner_map where
  "kernel_actions =
     [(''identity.history_imported'', ''kernel''), (''credential.password.assigned'', ''kernel'')]"

lemma kernel_loop:
  "fold_result audit_declare
     (map (\<lambda>a. (fm_name kernel_manifest, a)) (fm_audit_actions kernel_manifest)) [] = Inr kernel_actions"
  by (simp add: kernel_manifest_def feature_defaults_def audit_declare_def kernel_actions_def)

lemma kernel_actions_reserved:
  "a \<in> set (fm_audit_actions kernel_manifest) \<longleftrightarrow> map_of kernel_actions a = Some ''kernel''"
  "a \<notin> set (fm_audit_actions kernel_manifest) \<longleftrightarrow> map_of kernel_actions a = None"
  by (simp_all add: kernel_manifest_def kernel_actions_def)

interpretation audit_catalogue: declaration_catalogue audit_from_manifests map_of
  "\<lambda>m. id ` set (any_audit_actions m)" "map_of kernel_actions" "\<lambda>_. True"
proof -
  have flat: "audit_from_manifests ms =
      fold_result audit_declare_manifest (declarations_of any_audit_actions ms) kernel_actions" for ms
    by (simp add: audit_from_manifests_def kernel_loop declarations_of_def)
  have loop: "owner_loop audit_declare_manifest map_of (\<lambda>d. id (snd d)) fst
      (\<lambda>d. snd d \<notin> set (fm_audit_actions kernel_manifest))"
    using audit_manifest_loop.owner_loop_axioms by simp
  show "declaration_catalogue audit_from_manifests map_of (\<lambda>m. id ` set (any_audit_actions m))
      (map_of kernel_actions) (\<lambda>_. True)"
    by (rule catalogue_contract [OF loop flat]) (auto simp: kernel_actions_reserved(2))
qed

subsection \<open>References are decided exactly by the installed declarations\<close>

lemma in_keys: "c \<in> fst ` set d \<longleftrightarrow> map_of d c \<noteq> None"
  by (simp add: map_of_eq_None_iff)

text \<open>The specification kept for a code is the owner's own declaration of it.\<close>

lemma perm_specs_declared:
  assumes "fold_result perm_declare ds cat0 = Inr cat"
    and "\<And>c. map_of (perm_spec_by_code cat0) c = None"
    and "\<And>c. map_of (perm_owner_by_code cat0) c = None"
  shows "(map_of (perm_spec_by_code cat) c = None \<longleftrightarrow> map_of (perm_owner_by_code cat) c = None) \<and>
    (\<forall>s. map_of (perm_spec_by_code cat) c = Some s \<longrightarrow>
       perm_code s = c \<and> (\<exists>n. map_of (perm_owner_by_code cat) c = Some n \<and> (n, s) \<in> set ds))"
  using assms
proof (induction ds arbitrary: cat rule: rev_induct)
  case Nil
  then show ?case by auto
next
  case (snoc d ds)
  obtain n s where d: "d = (n, s)" by force
  from snoc.prems(1) obtain cat1 where one: "fold_result perm_declare ds cat0 = Inr cat1"
    and step: "perm_declare (n, s) cat1 = Inr cat"
    by (auto simp: fold_result_append bindr_eq_Inr d)
  from step have
    "cat = \<lparr>perm_owner_by_code = AList.update (perm_code s) n (perm_owner_by_code cat1),
            perm_spec_by_code = AList.update (perm_code s) s (perm_spec_by_code cat1)\<rparr>"
    by (auto simp: perm_declare_def Let_def split: option.splits if_splits)
  with snoc.IH [OF one snoc.prems(2,3)] d show ?case by (auto simp: update_conv')
qed

text \<open>
  A route guard's permission reference is decided exactly by the installed
  declarations: \<^verbatim>\<open>require\<close> returns a specification of that code, written on the manifest
  of the code's single owner; and it refuses precisely the codes no installed
  module declares.
\<close>

theorem permission_require_exact:
  assumes "perm_from_manifests ms = Inr cat"
  shows "case perm_require cat c of
      Inr s \<Rightarrow> perm_code s = c \<and> (\<exists>m \<in> set ms. perm_owner cat c = Some (any_name m) \<and> s \<in> set (any_permissions m))
    | Inl e \<Rightarrow> e = UndeclaredPermissionError c \<and> (\<forall>m \<in> set ms. c \<notin> perm_code ` set (any_permissions m))"
proof -
  have flat: "fold_result perm_declare (declarations_of any_permissions ms)
      \<lparr>perm_owner_by_code = [], perm_spec_by_code = []\<rparr> = Inr cat"
    using assms by (simp add: perm_from_manifests_def PermissionCatalogue_init_def declarations_of_def)
  note S = perm_specs_declared [OF flat, of c, simplified]
  show ?thesis
  proof (cases "map_of (perm_spec_by_code cat) c")
    case None
    with S perm_catalogue.undeclared_iff [OF assms, of c] show ?thesis by (simp add: perm_require_def)
  next
    case (Some s)
    with S obtain n where "perm_code s = c" "map_of (perm_owner_by_code cat) c = Some n"
      "(n, s) \<in> set (declarations_of any_permissions ms)" by blast
    with Some show ?thesis by (auto simp: perm_require_def perm_owner_def declarations_of_set)
  qed
qed

theorem permission_require_exact_witness:
  "perm_require (projr (perm_from_manifests [Feature ((feature_defaults ''rbac'')\<lparr>fm_permissions :=
       [\<lparr>perm_code = ''rbac.audit.read'', perm_description = [], default_roles = [''admin'']\<rparr>]\<rparr>)]))
     ''rbac.audit.read'' =
     Inr \<lparr>perm_code = ''rbac.audit.read'', perm_description = [], default_roles = [''admin'']\<rparr>
   \<and> perm_owner (projr (perm_from_manifests [Feature ((feature_defaults ''rbac'')\<lparr>fm_permissions :=
       [\<lparr>perm_code = ''rbac.audit.read'', perm_description = [], default_roles = [''admin'']\<rparr>]\<rparr>)]))
     ''rbac.audit.read'' = Some ''rbac''"
    (is "perm_require (projr (perm_from_manifests ?ms)) ?c = Inr ?s \<and> _")
proof -
  have "perm_from_manifests ?ms = Inr (projr (perm_from_manifests ?ms))" by code_simp
  note exact = permission_require_exact [OF this, of ?c]
  have "perm_require (projr (perm_from_manifests ?ms)) ?c = Inr ?s" by code_simp
  with exact show ?thesis by (simp add: any_name_def feature_defaults_def)
qed

text \<open>
  The capability catalogue does not depend on the order (or repetition) of the
  installed modules, \<^verbatim>\<open>require\<close> accepts exactly the declared codes, and a declared
  code's owner is the module that declares it.
\<close>

theorem capability_catalogue_exact:
  assumes "cap_from_manifests ms = Inr cat" and "set ms' = set ms"
  shows "\<exists>cat'. cap_from_manifests ms' = Inr cat'
    \<and> (\<forall>c. cap_require cat' c = cap_require cat c \<and> cap_owner cat' c = cap_owner cat c)
    \<and> (\<forall>c. cap_require cat c = Inr () \<longleftrightarrow> (\<exists>m \<in> set ms. c \<in> decl_code ` set (any_capabilities m)))
    \<and> (\<forall>m \<in> set ms. \<forall>d \<in> set (any_capabilities m). cap_owner cat (decl_code d) = Some (any_name m))"
proof -
  obtain cat' where cat': "cap_from_manifests ms' = Inr cat'"
    "map_of (cap_owner_by_code cat') = map_of (cap_owner_by_code cat)"
    using cap_catalogue.order_independent [OF assms(1) assms(2) [symmetric]] by blast
  have "cap_require cat' c = cap_require cat c \<and> cap_owner cat' c = cap_owner cat c" for c
    by (simp add: cap_require_def cap_owner_def in_keys cat'(2))
  moreover have "cap_require cat c = Inr () \<longleftrightarrow> (\<exists>m \<in> set ms. c \<in> decl_code ` set (any_capabilities m))" for c
    using cap_catalogue.undeclared_iff [OF assms(1), of c] by (simp add: cap_require_def in_keys)
  moreover have "cap_owner cat (decl_code d) = Some (any_name m)"
    if "m \<in> set ms" "d \<in> set (any_capabilities m)" for m d
    using cap_catalogue.declared_has_its_owner [OF assms(1) that(1), of "decl_code d"] that(2)
    by (simp add: cap_owner_def)
  ultimately show ?thesis using cat'(1) by blast
qed

theorem capability_catalogue_exact_witness:
  "\<exists>cat'. cap_from_manifests
      [Feature ((feature_defaults ''crm'')\<lparr>fm_capabilities := [BareCode ''crm.use'']\<rparr>),
       Feature ((feature_defaults ''inventory'')\<lparr>fm_capabilities := [BareCode ''inventory.use'']\<rparr>)] = Inr cat'
    \<and> cap_owner cat' ''inventory.use'' = Some ''inventory''"
proof -
  define a b where "a = Feature ((feature_defaults ''inventory'')\<lparr>fm_capabilities := [BareCode ''inventory.use'']\<rparr>)"
    and "b = Feature ((feature_defaults ''crm'')\<lparr>fm_capabilities := [BareCode ''crm.use'']\<rparr>)"
  have "cap_from_manifests [a, b] = Inr (projr (cap_from_manifests [a, b]))"
    unfolding a_def b_def by code_simp
  from capability_catalogue_exact [OF this, of "[b, a]"] obtain cat' where
    cat': "cap_from_manifests [b, a] = Inr cat'"
    and same: "cap_owner cat' ''inventory.use'' = cap_owner (projr (cap_from_manifests [a, b])) ''inventory.use''"
    by (auto simp: insert_commute)
  have "cap_owner (projr (cap_from_manifests [a, b])) ''inventory.use'' = Some ''inventory''"
    unfolding a_def b_def by code_simp
  with cat' same show ?thesis unfolding a_def b_def by auto
qed

text \<open>
  C27. The audit vocabulary: a composed registry always declares the kernel's own
  actions under the kernel, attributes every other action to the module that
  declares it, and cannot be composed at all when a manifest, whatever its name,
  declares a reserved action.
\<close>

theorem audit_registry_exact:
  "case audit_from_manifests ms of
     Inr reg \<Rightarrow> (\<forall>a \<in> set (fm_audit_actions kernel_manifest). audit_owner reg a = Some ''kernel''
         \<and> (\<forall>m \<in> set ms. a \<notin> set (any_audit_actions m)))
       \<and> (\<forall>a n. a \<notin> set (fm_audit_actions kernel_manifest) \<longrightarrow>
            (audit_owner reg a = Some n \<longleftrightarrow> (\<exists>m \<in> set ms. any_name m = n \<and> a \<in> set (any_audit_actions m))))
   | Inl e \<Rightarrow> (\<exists>m \<in> set ms. \<exists>a \<in> set (any_audit_actions m).
         a \<in> set (fm_audit_actions kernel_manifest)
         \<or> (\<exists>m' \<in> set ms. a \<in> set (any_audit_actions m') \<and> any_name m \<noteq> any_name m'))"
proof (cases "audit_from_manifests ms")
  case (Inr reg)
  have free: "\<forall>m \<in> set ms. \<forall>a \<in> set (any_audit_actions m). a \<notin> set (fm_audit_actions kernel_manifest)"
    using audit_catalogue.builds_iff [of ms] Inr by (simp add: kernel_actions_reserved(2))
  have own: "audit_owner reg a = Some n \<longleftrightarrow>
      map_of kernel_actions a = Some n \<or> (\<exists>m \<in> set ms. any_name m = n \<and> a \<in> set (any_audit_actions m))" for a n
    using audit_catalogue.owner_exact [OF Inr, of a n] by (simp add: audit_owner_def)
  have kernel: "audit_owner reg a = Some ''kernel''" if "a \<in> set (fm_audit_actions kernel_manifest)" for a
    using own [of a "''kernel''"] that kernel_actions_reserved(1) [of a] by simp
  have other: "audit_owner reg a = Some n \<longleftrightarrow> (\<exists>m \<in> set ms. any_name m = n \<and> a \<in> set (any_audit_actions m))"
    if "a \<notin> set (fm_audit_actions kernel_manifest)" for a n
    using own [of a n] kernel_actions_reserved(2) [of a] that by simp
  from free have "\<forall>a \<in> set (fm_audit_actions kernel_manifest). \<forall>m \<in> set ms. a \<notin> set (any_audit_actions m)"
    by blast
  with kernel other show ?thesis by (simp add: Inr)
next
  case (Inl e)
  then have "\<not> ((\<forall>m \<in> set ms. \<forall>a \<in> set (any_audit_actions m). a \<notin> set (fm_audit_actions kernel_manifest)) \<and>
      (\<forall>m \<in> set ms. \<forall>m' \<in> set ms. \<forall>a \<in> set (any_audit_actions m) \<inter> set (any_audit_actions m').
         any_name m = any_name m'))"
    using audit_catalogue.builds_iff [of ms] by (simp add: kernel_actions_reserved(2))
  then have "\<exists>m \<in> set ms. \<exists>a \<in> set (any_audit_actions m).
      a \<in> set (fm_audit_actions kernel_manifest)
      \<or> (\<exists>m' \<in> set ms. a \<in> set (any_audit_actions m') \<and> any_name m \<noteq> any_name m')"
    by blast
  with Inl show ?thesis by simp
qed

theorem audit_registry_exact_witness:
  "audit_owner (projr (audit_from_manifests [Feature ((feature_defaults ''rbac'')\<lparr>fm_audit_actions := [''role.grant'']\<rparr>)]))
     ''credential.password.assigned'' = Some ''kernel''
   \<and> (\<exists>e. audit_from_manifests
        [Feature ((feature_defaults ''kernel'')\<lparr>fm_audit_actions := [''credential.password.assigned'']\<rparr>)] = Inl e)"
proof -
  define m where "m = Feature ((feature_defaults ''rbac'')\<lparr>fm_audit_actions := [''role.grant'']\<rparr>)"
  define k where "k = Feature ((feature_defaults ''kernel'')\<lparr>fm_audit_actions := [''credential.password.assigned'']\<rparr>)"
  have "\<not> isl (audit_from_manifests [m])" unfolding m_def by code_simp
  then obtain reg where reg: "audit_from_manifests [m] = Inr reg" by (cases "audit_from_manifests [m]") auto
  then have "audit_owner (projr (audit_from_manifests [m])) ''credential.password.assigned'' = Some ''kernel''"
    using audit_registry_exact [of "[m]"] by (simp add: kernel_manifest_def)
  moreover have "isl (audit_from_manifests [k])" unfolding k_def by code_simp
  ultimately show ?thesis unfolding m_def k_def by (auto simp: isl_def)
qed

end
