(* ===== verification/Access.thy ===== *)
theory Access
  imports Catalogues Idempotency
begin

text \<open>
  Who may do what: tenant entitlements (\<^verbatim>\<open>entitlements.py\<close>), access tokens
  (\<^verbatim>\<open>decode_access_token\<close> of \<^verbatim>\<open>security.py\<close>) and the route guards of \<^verbatim>\<open>deps.py\<close>.  The
  tables are lists of rows.  The keyed digests, the base64 and JSON decoding of a
  token's payload and the text form of a UUID are the fields of \<open>token_env\<close>; the
  theorems hold for every choice of them.  Row-level security is a second wall
  behind the queries modelled here and is not used: what is proved rests on the
  queries' own tenant conditions and on the foreign keys.
\<close>

subsection \<open>Entitlements\<close>

record TenantEntitlementGrant =
  eg_tenant :: uuid
  eg_code :: string
  eg_granted :: bool
  eg_limits :: json_object
  eg_source :: "string option"

record EntitlementDecision =
  d_code :: string
  allowed :: bool
  reason :: string
  d_limits :: json_object

definition grant_key :: "TenantEntitlementGrant \<Rightarrow> uuid \<times> string" where
  "grant_key g = (eg_tenant g, eg_code g)"

text \<open>
  \<^verbatim>\<open>grant_entitlement\<close>: validate, then update the row of the key or insert one.
\<close>

definition grant_entitlement ::
    "CapabilityCatalogue \<Rightarrow> uuid \<Rightarrow> string \<Rightarrow> bool \<Rightarrow> json_object option \<Rightarrow> string option
       \<Rightarrow> TenantEntitlementGrant list \<Rightarrow> assembly_error + (TenantEntitlementGrant \<times> TenantEntitlementGrant list)" where
  "grant_entitlement cat tenant c granted limits src rows =
     bindr (cap_require cat c) (\<lambda>_.
     case find_row grant_key (tenant, c) rows of
       Some existing \<Rightarrow>
         (let upd = (\<lambda>r. r\<lparr>eg_granted := granted, eg_limits := dict_or_empty limits, eg_source := src\<rparr>) in
          Inr (upd existing, update_rows (\<lambda>r. grant_key r = (tenant, c)) upd rows))
     | None \<Rightarrow>
         (let row = \<lparr>eg_tenant = tenant, eg_code = c, eg_granted = granted,
            eg_limits = dict_or_empty limits, eg_source = src\<rparr> in
          Inr (row, rows @ [row])))"

definition is_entitled :: "TenantEntitlementGrant list \<Rightarrow> uuid \<Rightarrow> string \<Rightarrow> EntitlementDecision" where
  "is_entitled rows tenant c = (case find_row grant_key (tenant, c) rows of
     None \<Rightarrow> \<lparr>d_code = c, allowed = False, reason = ''not_granted'', d_limits = []\<rparr>
   | Some row \<Rightarrow>
       if \<not> eg_granted row
       then \<lparr>d_code = c, allowed = False, reason = ''revoked'', d_limits = eg_limits row\<rparr>
       else \<lparr>d_code = c, allowed = True, reason = ''granted'', d_limits = eg_limits row\<rparr>)"

subsection \<open>Access tokens\<close>

datatype access_error = HTTPException nat string | Assembly assembly_error | AttributeError

record token_env =
  sign :: "string \<Rightarrow> string"
  parse_payload :: "string \<Rightarrow> json option"
  hash_token :: "string \<Rightarrow> string"
  uuid_str :: "uuid \<Rightarrow> string"
  parse_uuid :: "string \<Rightarrow> uuid option"

text \<open>\<^verbatim>\<open>isinstance(exp, int)\<close>: a JSON Boolean is an \<^verbatim>\<open>int\<close> in Python.\<close>

definition json_int :: "json \<Rightarrow> int option" where
  "json_int j = (case j of JInt i \<Rightarrow> Some i | JBool b \<Rightarrow> Some (if b then 1 else 0) | _ \<Rightarrow> None)"

definition decode_access_token ::
    "token_env \<Rightarrow> datetime \<Rightarrow> string \<Rightarrow> access_error + json_object option" where
  "decode_access_token env now token = (case split_on CHR ''.'' token of
     [header, body, signature] \<Rightarrow>
       if sign env (header @ ''.'' @ body) \<noteq> signature then Inr None
       else (case parse_payload env body of
         None \<Rightarrow> Inr None
       | Some (JObj payload) \<Rightarrow>
           (case map_option json_int (map_of payload ''exp'') of
              Some (Some e) \<Rightarrow> if e < now div 1000000 then Inr None else Inr (Some payload)
            | _ \<Rightarrow> Inr None)
       | Some _ \<Rightarrow> Inl AttributeError)
   | _ \<Rightarrow> Inr None)"

subsection \<open>The identity tables\<close>

datatype party_type = person | organization

record Party =
  pa_id :: uuid
  pa_tenant :: uuid
  pa_type :: party_type

record Role =
  ro_id :: uuid
  ro_tenant :: uuid
  ro_slug :: string

record PartyRoleGrant =
  rg_tenant :: uuid
  rg_party :: uuid
  rg_role :: uuid

record AuthSession =
  as_tenant :: uuid
  as_party :: uuid
  as_token_hash :: string
  as_expires_at :: datetime
  as_revoked_at :: "datetime option"

record identity_db =
  parties :: "Party list"
  roles :: "Role list"
  role_grants :: "PartyRoleGrant list"
  sessions :: "AuthSession list"
  entitlements :: "TenantEntitlementGrant list"

text \<open>The schema's primary key on parties and foreign key from sessions to parties.\<close>

definition identity_db_ok :: "identity_db \<Rightarrow> bool" where
  "identity_db_ok db \<longleftrightarrow> distinct (map pa_id (parties db)) \<and>
     (\<forall>s \<in> set (sessions db). \<exists>p \<in> set (parties db). pa_tenant p = as_tenant s \<and> pa_id p = as_party s)"

subsection \<open>Guards\<close>

record request =
  req_tenant :: "uuid option"
  authorization :: "string option"
  req_now :: datetime

definition require_tenant :: "request \<Rightarrow> access_error + uuid" where
  "require_tenant req = (case req_tenant req of
     None \<Rightarrow> Inl (HTTPException 404 ''Tenant not found'') | Some t \<Rightarrow> Inr t)"

definition live_session ::
    "token_env \<Rightarrow> uuid \<Rightarrow> string \<Rightarrow> datetime \<Rightarrow> AuthSession \<Rightarrow> bool" where
  "live_session env tenant token now s \<longleftrightarrow> as_tenant s = tenant \<and> as_token_hash s = hash_token env token
     \<and> as_revoked_at s = None \<and> now < as_expires_at s"

text \<open>
  \<^verbatim>\<open>UUID(str(payload["sub"]))\<close>: the text of a string or of a number may be a UUID; that
  of any other JSON value contains a character \<^verbatim>\<open>UUID\<close> refuses with \<^verbatim>\<open>ValueError\<close>.
\<close>

definition subject :: "token_env \<Rightarrow> json_object \<Rightarrow> uuid option" where
  "subject env payload = (case map_of payload ''sub'' of
     Some (JStr s) \<Rightarrow> parse_uuid env s
   | Some (JInt i) \<Rightarrow> parse_uuid env (int_str i)
   | _ \<Rightarrow> None)"

text \<open>The session query of \<^verbatim>\<open>authenticate_request\<close> and the checks on the row it returns.\<close>

definition session_party ::
    "token_env \<Rightarrow> identity_db \<Rightarrow> uuid \<Rightarrow> string \<Rightarrow> datetime \<Rightarrow> uuid \<Rightarrow> Party option" where
  "session_party env db tenant token now party_id =
     (case find (live_session env tenant token now) (sessions db) of
        None \<Rightarrow> None
      | Some s \<Rightarrow>
          if as_party s \<noteq> party_id \<or> as_tenant s \<noteq> tenant then None
          else (case find_row pa_id party_id (parties db) of
            None \<Rightarrow> None
          | Some p \<Rightarrow> if pa_type p \<noteq> person then None else Some p))"

definition authenticate_request ::
    "token_env \<Rightarrow> identity_db \<Rightarrow> request \<Rightarrow> string \<Rightarrow> access_error + Party option" where
  "authenticate_request env db req token = (case req_tenant req of
     None \<Rightarrow> Inr None
   | Some tenant \<Rightarrow>
       bindr (decode_access_token env (req_now req) token) (\<lambda>decoded. case decoded of
         None \<Rightarrow> Inr None
       | Some payload \<Rightarrow>
           if map_of payload ''tenant_id'' \<noteq> Some (JStr (uuid_str env tenant)) then Inr None
           else (case subject env payload of
             None \<Rightarrow> Inr None
           | Some party_id \<Rightarrow> Inr (session_party env db tenant token (req_now req) party_id))))"

text \<open>\<^verbatim>\<open>authorization.partition(" ")\<close> and the case-insensitive scheme.\<close>

definition to_lower :: "char \<Rightarrow> char" where
  "to_lower c = (if is_upper c then char_of ((of_char c :: nat) + 32) else c)"

definition bearer_token :: "string option \<Rightarrow> string option" where
  "bearer_token header = (case header of
     None \<Rightarrow> None
   | Some h \<Rightarrow>
       if h = [] then None
       else let scheme = takeWhile (\<lambda>c. c \<noteq> CHR '' '') h;
                token = tl (dropWhile (\<lambda>c. c \<noteq> CHR '' '') h) in
         if map to_lower scheme \<noteq> ''bearer'' \<or> token = [] then None else Some token)"

definition require_user_auth :: "token_env \<Rightarrow> identity_db \<Rightarrow> request \<Rightarrow> access_error + Party" where
  "require_user_auth env db req =
     bindr (require_tenant req) (\<lambda>_. case bearer_token (authorization req) of
       None \<Rightarrow> Inl (HTTPException 401 ''Unauthorized'')
     | Some token \<Rightarrow> bindr (authenticate_request env db req token) (\<lambda>party. case party of
           None \<Rightarrow> Inl (HTTPException 401 ''Unauthorized'') | Some p \<Rightarrow> Inr p))"

definition holds_any_role :: "identity_db \<Rightarrow> uuid \<Rightarrow> Party \<Rightarrow> string list \<Rightarrow> bool" where
  "holds_any_role db tenant party role_slugs \<longleftrightarrow>
     (\<exists>g \<in> set (role_grants db). \<exists>r \<in> set (roles db).
        ro_id r = rg_role g \<and> ro_tenant r = rg_tenant g \<and> rg_tenant g = tenant \<and> rg_party g = pa_id party
        \<and> ro_tenant r = tenant \<and> ro_slug r \<in> set role_slugs)"

definition authorize_party ::
    "catalogue_process \<Rightarrow> identity_db \<Rightarrow> uuid \<Rightarrow> Party \<Rightarrow> string \<Rightarrow> access_error + bool" where
  "authorize_party proc db tenant party c = (case perm_require (active_permissions proc) c of
     Inl e \<Rightarrow> Inl (Assembly e)
   | Inr spec \<Rightarrow> Inr (holds_any_role db tenant party (default_roles spec)))"

definition require_role :: "token_env \<Rightarrow> identity_db \<Rightarrow> string \<Rightarrow> request \<Rightarrow> access_error + Party" where
  "require_role env db role_slug req =
     bindr (require_user_auth env db req) (\<lambda>party.
     bindr (require_tenant req) (\<lambda>tenant.
     if \<not> holds_any_role db tenant party [role_slug] then Inl (HTTPException 403 ''Forbidden'')
     else Inr party))"

text \<open>
  The dependency that \<^verbatim>\<open>permission_guard\<close> returns, over any authentication; the refusal
  is the argument \<open>denied\<close>.  \<^verbatim>\<open>require_permission\<close> binds it to the bearer flow.
\<close>

definition permission_guard ::
    "catalogue_process \<Rightarrow> identity_db \<Rightarrow> string \<Rightarrow> (request \<Rightarrow> access_error + Party) \<Rightarrow> (request \<Rightarrow> access_error)
       \<Rightarrow> request \<Rightarrow> access_error + Party" where
  "permission_guard proc db c authenticated_party denied req =
     bindr (authenticated_party req) (\<lambda>party.
     bindr (require_tenant req) (\<lambda>tenant.
     bindr (authorize_party proc db tenant party c) (\<lambda>may.
     if \<not> may then Inl (denied req) else Inr party)))"

definition require_permission ::
    "catalogue_process \<Rightarrow> token_env \<Rightarrow> identity_db \<Rightarrow> string \<Rightarrow> request \<Rightarrow> access_error + Party" where
  "require_permission proc env db c =
     permission_guard proc db c (require_user_auth env db) (\<lambda>_. HTTPException 403 ''Forbidden'')"

definition require_capability ::
    "catalogue_process \<Rightarrow> identity_db \<Rightarrow> string \<Rightarrow> request \<Rightarrow> access_error + EntitlementDecision" where
  "require_capability proc db c req =
     bindr (require_tenant req) (\<lambda>tenant. case cap_require (active_capabilities proc) c of
       Inl e \<Rightarrow> Inl (Assembly e)
     | Inr _ \<Rightarrow> (let decision = is_entitled (entitlements db) tenant c in
         if \<not> allowed decision then Inl (HTTPException 403 (reason decision)) else Inr decision))"

text \<open>The \<^verbatim>\<open>Idempotency-Key\<close> header: trimmed, not blank, within the ledger's limit.\<close>

definition idempotency_key :: "string option \<Rightarrow> access_error + string option" where
  "idempotency_key header = (case header of
     None \<Rightarrow> Inr None
   | Some h \<Rightarrow>
       let trimmed = strip h in
       if trimmed = [] then Inl (HTTPException 400 ''Idempotency-Key must not be blank'')
       else if length trimmed > MAX_KEY_LENGTH then Inl (HTTPException 400 ''Idempotency-Key too long'')
       else Inr (Some trimmed))"

subsection \<open>Entitlements: the last accepted write decides\<close>

record grant_request =
  gr_tenant :: uuid
  gr_code :: string
  gr_granted :: bool
  gr_limits :: "json_object option"
  gr_source :: "string option"

text \<open>A sequence of grant calls against one catalogue; a refused call changes nothing.\<close>

fun run_grants ::
    "CapabilityCatalogue \<Rightarrow> grant_request list \<Rightarrow> TenantEntitlementGrant list \<Rightarrow> TenantEntitlementGrant list" where
  "run_grants cat [] rows = rows"
| "run_grants cat (q # qs) rows = run_grants cat qs
     (case grant_entitlement cat (gr_tenant q) (gr_code q) (gr_granted q) (gr_limits q) (gr_source q) rows of
        Inl _ \<Rightarrow> rows | Inr (_, rows') \<Rightarrow> rows')"

lemma run_grants_append: "run_grants cat (xs @ ys) rows = run_grants cat ys (run_grants cat xs rows)"
  by (induction xs arbitrary: rows) simp_all

lemma grant_entitlement_Inr_iff:
  "(\<exists>r rows'. grant_entitlement cat t c g l src rows = Inr (r, rows')) \<longleftrightarrow> cap_is_declared cat c"
  by (auto simp: grant_entitlement_def cap_require_def cap_is_declared_def bindr_eq_Inr Let_def
      split: option.splits)

lemma grant_then_find:
  assumes "grant_entitlement cat t c g l src rows = Inr (r, rows')"
  shows "find_row grant_key k rows' = (if k = (t, c) then Some r else find_row grant_key k rows)"
    and "eg_granted r = g" and "eg_limits r = dict_or_empty l" and "grant_key r = (t, c)"
proof -
  define upd where "upd = (\<lambda>r :: TenantEntitlementGrant. r\<lparr>eg_granted := g, eg_limits := dict_or_empty l, eg_source := src\<rparr>)"
  define row where "row = \<lparr>eg_tenant = t, eg_code = c, eg_granted = g, eg_limits = dict_or_empty l, eg_source = src\<rparr>"
  have key: "grant_key (upd x) = grant_key x" for x by (simp add: upd_def grant_key_def)
  have row_key: "grant_key row = (t, c)" by (simp add: row_def grant_key_def)
  have cases: "(\<exists>x. find_row grant_key (t, c) rows = Some x \<and> r = upd x
        \<and> rows' = update_rows (\<lambda>r. grant_key r = (t, c)) upd rows)
      \<or> (find_row grant_key (t, c) rows = None \<and> r = row \<and> rows' = rows @ [row])"
    using assms by (auto simp: grant_entitlement_def bindr_eq_Inr Let_def upd_def row_def split: option.splits)
  show "eg_granted r = g" "eg_limits r = dict_or_empty l"
    using cases by (auto simp: upd_def row_def)
  show "grant_key r = (t, c)"
    using cases key row_key by (auto dest: find_row_Some)
  show "find_row grant_key k rows' = (if k = (t, c) then Some r else find_row grant_key k rows)"
  proof (cases "find_row grant_key (t, c) rows")
    case None
    have "find_row grant_key k [row] = (if k = (t, c) then Some row else None)"
      using row_key by (simp add: find_row_def)
    with cases None show ?thesis by (auto simp: find_row_append split: option.splits)
  next
    case (Some x)
    with cases have r: "r = upd x" and rows': "rows' = update_rows (\<lambda>r. grant_key r = (t, c)) upd rows" by auto
    have "find_row grant_key k rows' =
        map_option (\<lambda>r. if grant_key r = (t, c) then upd r else r) (find_row grant_key k rows)"
      unfolding rows' by (rule find_row_update_rows) (rule key)
    with Some r show ?thesis
      by (cases "find_row grant_key k rows") (auto dest: find_row_Some)
  qed
qed

definition decision_of :: "string \<Rightarrow> (bool \<times> json_object) option \<Rightarrow> EntitlementDecision" where
  "decision_of c w = (case w of
     None \<Rightarrow> \<lparr>d_code = c, allowed = False, reason = ''not_granted'', d_limits = []\<rparr>
   | Some (True, l) \<Rightarrow> \<lparr>d_code = c, allowed = True, reason = ''granted'', d_limits = l\<rparr>
   | Some (False, l) \<Rightarrow> \<lparr>d_code = c, allowed = False, reason = ''revoked'', d_limits = l\<rparr>)"

definition last_accepted :: "CapabilityCatalogue \<Rightarrow> grant_request list \<Rightarrow> uuid \<Rightarrow> string \<Rightarrow> (bool \<times> json_object) option" where
  "last_accepted cat qs t c = map_option (\<lambda>q. (gr_granted q, dict_or_empty (gr_limits q)))
     (find (\<lambda>q. gr_tenant q = t \<and> gr_code q = c \<and> cap_is_declared cat c) (rev qs))"

lemma find_row_run_grants:
  "map_option (\<lambda>r. (eg_granted r, eg_limits r)) (find_row grant_key (t, c) (run_grants cat qs [])) =
     last_accepted cat qs t c"
proof (induction qs rule: rev_induct)
  case Nil
  then show ?case by (simp add: last_accepted_def find_row_def)
next
  case (snoc q qs)
  define rows where "rows = run_grants cat qs []"
  show ?case
  proof (cases "grant_entitlement cat (gr_tenant q) (gr_code q) (gr_granted q) (gr_limits q) (gr_source q) rows")
    case (Inl e)
    then have "\<not> cap_is_declared cat (gr_code q)"
      by (auto simp: cap_is_declared_def grant_entitlement_def cap_require_def bindr_eq_Inl Let_def
          split: option.splits)
    with Inl snoc show ?thesis by (auto simp: run_grants_append rows_def last_accepted_def)
  next
    case (Inr rr)
    then obtain r rows' where ok: "grant_entitlement cat (gr_tenant q) (gr_code q) (gr_granted q)
        (gr_limits q) (gr_source q) rows = Inr (r, rows')" by (cases rr) auto
    then have "cap_is_declared cat (gr_code q)" using grant_entitlement_Inr_iff by blast
    with ok grant_then_find [OF ok] snoc show ?thesis
      by (auto simp: run_grants_append rows_def last_accepted_def)
  qed
qed

text \<open>
  C28. Entitlement decisions: after any sequence of grant and revoke calls, the
  decision for a tenant and a capability is that of the last call for exactly
  that tenant and that declared capability; calls for other tenants or other
  codes, and calls naming an undeclared code, have no influence on it.
\<close>

theorem entitlement_last_write_decides:
  "is_entitled (run_grants cat qs []) t c = decision_of c (last_accepted cat qs t c)"
  unfolding find_row_run_grants [symmetric]
  by (cases "find_row grant_key (t, c) (run_grants cat qs [])")
    (auto simp: is_entitled_def decision_of_def split: bool.splits)

subsection \<open>The guards\<close>

lemma authenticate_request_Inr:
  assumes "authenticate_request env db req token = Inr (Some p)"
  obtains tenant s where "req_tenant req = Some tenant" "s \<in> set (sessions db)"
    "live_session env tenant token (req_now req) s" "as_party s = pa_id p"
    "p \<in> set (parties db)" "pa_type p = person"
proof -
  from assms obtain tenant pid where tenant: "req_tenant req = Some tenant"
    and "session_party env db tenant token (req_now req) pid = Some p"
    by (auto simp: authenticate_request_def bindr_eq_Inr split: option.splits if_splits)
  then obtain s where
    t: "req_tenant req = Some tenant"
      "find (live_session env tenant token (req_now req)) (sessions db) = Some s"
      "as_party s = pid" "find_row pa_id pid (parties db) = Some p" "pa_type p = person"
    by (auto simp: session_party_def split: option.splits if_splits)
  from t(2) have "s \<in> set (sessions db)" "live_session env tenant token (req_now req) s"
    by (auto simp: find_Some_iff)
  moreover from find_row_Some [OF t(4)] t(3) have "p \<in> set (parties db)" "as_party s = pa_id p" by auto
  ultimately show ?thesis using that t(1,5) by blast
qed

lemma authenticated_in_tenant:
  assumes "identity_db_ok db" and "s \<in> set (sessions db)" and "p \<in> set (parties db)"
    and "as_party s = pa_id p"
  shows "pa_tenant p = as_tenant s"
proof -
  from assms(1,2) obtain p' where "p' \<in> set (parties db)" "pa_tenant p' = as_tenant s" "pa_id p' = as_party s"
    by (auto simp: identity_db_ok_def)
  moreover have "inj_on pa_id (set (parties db))"
    using assms(1) by (simp add: identity_db_ok_def distinct_map)
  ultimately show ?thesis using assms(3,4) by (metis inj_onD)
qed

text \<open>
  C11. A request passes a permission guard only for a reason: its tenant is
  resolved, its bearer token is bound to a live, unrevoked session of a person of
  that same tenant, the permission is declared by an installed module, and that
  person holds, in that tenant, a role the declaration names.
\<close>

theorem guarded_request_authorised:
  assumes "identity_db_ok db" and "require_permission proc env db c req = Inr p"
  shows "\<exists>tenant token s spec g r. req_tenant req = Some tenant
    \<and> bearer_token (authorization req) = Some token
    \<and> s \<in> set (sessions db) \<and> as_tenant s = tenant \<and> as_token_hash s = hash_token env token
    \<and> as_revoked_at s = None \<and> req_now req < as_expires_at s
    \<and> as_party s = pa_id p \<and> pa_tenant p = tenant \<and> pa_type p = person
    \<and> perm_require (active_permissions proc) c = Inr spec
    \<and> g \<in> set (role_grants db) \<and> rg_tenant g = tenant \<and> rg_party g = pa_id p
    \<and> r \<in> set (roles db) \<and> ro_tenant r = tenant \<and> ro_id r = rg_role g
    \<and> ro_slug r \<in> set (default_roles spec)"
proof -
  from assms(2) obtain tenant token spec where
    t: "req_tenant req = Some tenant" "bearer_token (authorization req) = Some token"
      "authenticate_request env db req token = Inr (Some p)"
      "perm_require (active_permissions proc) c = Inr spec"
      "holds_any_role db tenant p (default_roles spec)"
    by (auto simp: require_permission_def permission_guard_def require_user_auth_def require_tenant_def
        authorize_party_def bindr_eq_Inr split: option.splits sum.splits if_splits)
  obtain s where s: "s \<in> set (sessions db)" "live_session env tenant token (req_now req) s"
    "as_party s = pa_id p" "p \<in> set (parties db)" "pa_type p = person"
    using authenticate_request_Inr [OF t(3)] t(1) by (metis option.inject)
  have "pa_tenant p = tenant"
    using authenticated_in_tenant [OF assms(1) s(1,4,3)] s(2) by (simp add: live_session_def)
  moreover obtain g r where "g \<in> set (role_grants db)" "r \<in> set (roles db)" "ro_id r = rg_role g"
    "rg_tenant g = tenant" "rg_party g = pa_id p" "ro_tenant r = tenant" "ro_slug r \<in> set (default_roles spec)"
    using t(5) by (auto simp: holds_any_role_def)
  ultimately show ?thesis using t s by (auto simp: live_session_def)
qed

theorem guarded_request_authorised_witness:
  "\<exists>s g. s \<in> set (sessions
       \<lparr>parties = [\<lparr>pa_id = 7, pa_tenant = 1, pa_type = person\<rparr>],
        roles = [\<lparr>ro_id = 3, ro_tenant = 1, ro_slug = ''admin''\<rparr>],
        role_grants = [\<lparr>rg_tenant = 1, rg_party = 7, rg_role = 3\<rparr>],
        sessions = [\<lparr>as_tenant = 1, as_party = 7, as_token_hash = ''h.b.s'', as_expires_at = 9000000,
          as_revoked_at = None\<rparr>], entitlements = []\<rparr>)
     \<and> as_tenant s = 1 \<and> g = \<lparr>rg_tenant = 1, rg_party = 7, rg_role = 3\<rparr>"
proof -
  define db where "db = \<lparr>parties = [\<lparr>pa_id = 7, pa_tenant = 1, pa_type = person\<rparr>],
    roles = [\<lparr>ro_id = 3, ro_tenant = 1, ro_slug = ''admin''\<rparr>],
    role_grants = [\<lparr>rg_tenant = 1, rg_party = 7, rg_role = 3\<rparr>],
    sessions = [\<lparr>as_tenant = 1, as_party = 7, as_token_hash = ''h.b.s'', as_expires_at = 9000000,
      as_revoked_at = None\<rparr>], entitlements = []\<rparr>"
  define env where "env = \<lparr>sign = (\<lambda>_. ''s''),
    parse_payload = (\<lambda>_. Some (JObj [(''exp'', JInt 9), (''tenant_id'', JStr ''t1''), (''sub'', JStr ''p7'')])),
    hash_token = (\<lambda>t. t), uuid_str = (\<lambda>_. ''t1''), parse_uuid = (\<lambda>_. Some 7)\<rparr>"
  define spec where "spec = \<lparr>perm_code = ''rbac.audit.read'', perm_description = [], default_roles = [''admin'']\<rparr>"
  define proc where "proc = install_permissions \<lparr>perm_owner_by_code = [(''rbac.audit.read'', ''rbac'')],
    perm_spec_by_code = [(''rbac.audit.read'', spec)]\<rparr> catalogue_process_start"
  define req where "req = \<lparr>req_tenant = Some 1, authorization = Some ''Bearer h.b.s'', req_now = 5000000\<rparr>"
  have ok: "identity_db_ok db" unfolding db_def by code_simp
  have "require_permission proc env db ''rbac.audit.read'' req =
      Inr \<lparr>pa_id = 7, pa_tenant = 1, pa_type = person\<rparr>"
    unfolding db_def env_def proc_def spec_def req_def by code_simp
  from guarded_request_authorised [OF ok this] show ?thesis
    unfolding db_def req_def by auto
qed

text \<open>Deny by default: the capability guard admits only on a granted row of the tenant.\<close>

lemma require_capability_Inr:
  assumes "require_capability proc db c req = Inr d"
  shows "cap_is_declared (active_capabilities proc) c \<and> (\<exists>tenant row. req_tenant req = Some tenant
    \<and> row \<in> set (entitlements db) \<and> grant_key row = (tenant, c) \<and> eg_granted row \<and> d_limits d = eg_limits row)"
  using assms
  by (auto simp: require_capability_def require_tenant_def cap_require_def cap_is_declared_def
      is_entitled_def bindr_eq_Inr Let_def dest: find_row_Some split: option.splits sum.splits if_splits)

text \<open>A key the header dependency accepts is one the idempotency ledger accepts.\<close>

lemma idempotency_key_accepted:
  assumes "idempotency_key h = Inr (Some k)"
  shows "k \<noteq> []" and "length k \<le> MAX_KEY_LENGTH" and "\<not> py_isspace (hd k)"
proof -
  from assms obtain x where k: "k = strip x" "k \<noteq> []" "length k \<le> MAX_KEY_LENGTH"
    by (auto simp: idempotency_key_def Let_def split: option.splits if_splits)
  show "k \<noteq> []" "length k \<le> MAX_KEY_LENGTH" using k by auto
  define y where "y = dropWhile py_isspace x"
  have "k = rev (dropWhile py_isspace (rev y))" using k(1) by (simp add: strip_def y_def)
  moreover have "\<exists>zs. y = rev (dropWhile py_isspace (rev y)) @ zs"
    by (metis rev_append rev_rev_ident takeWhile_dropWhile_id)
  ultimately obtain zs where "y = k @ zs" by blast
  with k(2) have "y \<noteq> []" "hd k = hd y" by auto
  then show "\<not> py_isspace (hd k)" unfolding y_def using hd_dropWhile [of py_isspace x] by simp
qed

end
