(* ===== verification/Byte_Codes.thy ===== *)
theory Byte_Codes
  imports Prelude
begin

text \<open>
  Byte strings and self-delimiting codes: UTF-8, the length-prefixed frame of
  \<^verbatim>\<open>semantic_encoding.py\<close>, and the contract \<open>prefix_code\<close> of an encoder whose output can
  be told apart from whatever follows it.  A byte is a character of HOL's
  \<open>string\<close>; a Python \<^verbatim>\<open>str\<close> with arbitrary content is the list of its code points.
\<close>

type_synonym bytes = string
type_synonym py_text = "nat list"

datatype encoding_error =
    CanonicalEncodingError string
  | UnicodeEncodeError
  | ValueError
  | OverflowError

subsection \<open>Codes that delimit themselves\<close>

text \<open>
  The contract of an encoder: two encodings followed by anything agree only when
  they encode the same thing (up to \<open>same\<close>) and are followed by the same bytes.
  \<open>ok\<close> is the set of values the promise is made for.
\<close>

locale prefix_code =
  fixes enc :: "'a \<Rightarrow> 'e + bytes" and same :: "'a \<Rightarrow> 'a \<Rightarrow> bool" and ok :: "'a \<Rightarrow> bool"
  assumes cancel: "\<lbrakk>ok x; ok y; enc x = Inr b; enc y = Inr c; b @ r = c @ s\<rbrakk> \<Longrightarrow> same x y \<and> r = s"
    and nonempty: "enc x = Inr b \<Longrightarrow> b \<noteq> []"
begin

lemma code_injective: "\<lbrakk>ok x; ok y; enc x = Inr b; enc y = Inr b\<rbrakk> \<Longrightarrow> same x y"
  using cancel [of x y b b "[]" "[]"] by simp

text \<open>A concatenation of encodings splits in one way only.\<close>

lemma concat_injective:
  assumes "list_all ok xs" and "list_all ok ys"
    and "map_result enc xs = Inr bs" and "map_result enc ys = Inr cs" and "concat bs = concat cs"
  shows "list_all2 same xs ys"
  using assms
proof (induction xs arbitrary: ys bs cs)
  case Nil
  show ?case
  proof (cases ys)
    case (Cons y ys')
    with Nil.prems nonempty show ?thesis by (auto simp: bindr_eq_Inr)
  qed simp
next
  case (Cons x xs)
  from Cons.prems obtain b bs' where b: "enc x = Inr b" "map_result enc xs = Inr bs'" "bs = b # bs'"
    by (auto simp: bindr_eq_Inr)
  then have "ys \<noteq> []" using Cons.prems nonempty [OF b(1)] by auto
  then obtain y ys' where ys: "ys = y # ys'" by (cases ys) auto
  with Cons.prems obtain c cs' where c: "enc y = Inr c" "map_result enc ys' = Inr cs'" "cs = c # cs'"
    by (auto simp: bindr_eq_Inr)
  have "same x y \<and> concat bs' = concat cs'"
    using Cons.prems ys b c by (intro cancel [OF _ _ b(1) c(1)]) simp_all
  with Cons b c ys show ?case by simp
qed

end

subsection \<open>Frames\<close>

text \<open>\<^verbatim>\<open>_frame(tag, body)\<close>: \<^verbatim>\<open><tag><byte-length>:<body>\<close>.\<close>

definition frame :: "char \<Rightarrow> bytes \<Rightarrow> bytes" where
  "frame tag body = tag # nat_str (length body) @ CHR '':'' # body"

lemma colon_not_digit: "CHR '':'' \<notin> set (nat_str n)"
  using nat_str_digits [of n] by (auto simp: list_all_iff is_digit_def)

lemma frame_cancel:
  assumes "frame t b @ r = frame u c @ s"
  shows "t = u \<and> b = c \<and> r = s"
proof -
  have "nat_str (length b) @ CHR '':'' # (b @ r) = nat_str (length c) @ CHR '':'' # (c @ s)" and "t = u"
    using assms by (simp_all add: frame_def)
  then have "nat_str (length b) = nat_str (length c)" and br: "b @ r = c @ s"
    using append_sep_eq [OF colon_not_digit colon_not_digit] by blast+
  then have "length b = length c" by simp
  with br \<open>t = u\<close> show ?thesis by simp
qed

lemma frame_eq [simp]: "frame t b = frame u c \<longleftrightarrow> t = u \<and> b = c"
  using frame_cancel [of t b "[]" u c "[]"] by auto

lemma frame_nonempty [simp]: "frame t b \<noteq> []"
  by (simp add: frame_def)

text \<open>Any encoder that frames an injective body is a prefix code.\<close>

lemma frame_prefix_code:
  assumes "\<And>x. enc x = map_sum id (\<lambda>(t, b). frame t b) (body x)"
    and "\<And>x y t b. ok x \<Longrightarrow> ok y \<Longrightarrow> body x = Inr (t, b) \<Longrightarrow> body y = Inr (t, b) \<Longrightarrow> same x y"
  shows "prefix_code enc same ok"
proof
  fix x y b c r s
  assume ok: "ok x" "ok y" and "enc x = Inr b" and "enc y = Inr c" and br: "b @ r = c @ s"
  then obtain t b' u c' where "body x = Inr (t, b')" "b = frame t b'" "body y = Inr (u, c')" "c = frame u c'"
    by (cases "body x"; cases "body y") (auto simp: assms(1) split: prod.splits)
  with frame_cancel [of t b' r u c' s] br assms(2) [OF ok] show "same x y \<and> r = s" by simp
next
  fix x b
  assume "enc x = Inr b"
  then show "b \<noteq> []" by (cases "body x") (auto simp: assms(1) split: prod.splits)
qed

interpretation frames: prefix_code "\<lambda>(t, b). Inr (frame t b)" "(=)" "\<lambda>_. True"
  by (rule frame_prefix_code [where body = Inr]) auto

subsection \<open>UTF-8\<close>

definition utf8_units :: "nat \<Rightarrow> nat list" where
  "utf8_units n =
     (if n < 0x80 then [n]
      else if n < 0x800 then [0xC0 + n div 64, 0x80 + n mod 64]
      else if n < 0x10000 then [0xE0 + n div 4096, 0x80 + n div 64 mod 64, 0x80 + n mod 64]
      else [0xF0 + n div 262144, 0x80 + n div 4096 mod 64, 0x80 + n div 64 mod 64, 0x80 + n mod 64])"

text \<open>A lone surrogate cannot be encoded; there is no code point from 0x110000 on.\<close>

definition encodable :: "nat \<Rightarrow> bool" where
  "encodable n \<longleftrightarrow> n < 0x110000 \<and> \<not> (0xD800 \<le> n \<and> n \<le> 0xDFFF)"

definition utf8_point :: "nat \<Rightarrow> encoding_error + bytes" where
  "utf8_point n = (if encodable n then Inr (map char_of (utf8_units n)) else Inl UnicodeEncodeError)"

definition utf8_encode :: "py_text \<Rightarrow> encoding_error + bytes" where
  "utf8_encode s = bindr (map_result utf8_point s) (\<lambda>bs. Inr (concat bs))"

lemma char_of_eq: "m < 256 \<Longrightarrow> n < 256 \<Longrightarrow> (char_of (m :: nat) = char_of n) \<longleftrightarrow> m = n"
  by (metis of_char_of mod_less)

text \<open>The code point of the first character of a UTF-8 sequence, and the rest.\<close>

definition utf8_first :: "nat list \<Rightarrow> nat \<times> nat list" where
  "utf8_first us = (let a = us ! 0 in
     if a < 0x80 then (a, drop 1 us)
     else if a < 0xE0 then ((a - 0xC0) * 64 + (us ! 1 - 0x80), drop 2 us)
     else if a < 0xF0 then (((a - 0xE0) * 64 + (us ! 1 - 0x80)) * 64 + (us ! 2 - 0x80), drop 3 us)
     else ((((a - 0xF0) * 64 + (us ! 1 - 0x80)) * 64 + (us ! 2 - 0x80)) * 64 + (us ! 3 - 0x80), drop 4 us))"

lemma utf8_first_units:
  assumes "n < 0x110000"
  shows "utf8_first (utf8_units n @ rest) = (n, rest)"
proof -
  consider "n < 0x80" | "0x80 \<le> n" "n < 0x800" | "0x800 \<le> n" "n < 0x10000" | "0x10000 \<le> n" by linarith
  then show ?thesis
  proof cases
    case 2
    have "n = n div 64 * 64 + n mod 64" by simp
    then show ?thesis using 2 by (simp add: utf8_units_def utf8_first_def Let_def)
  next
    case 3
    have "n div 64 div 64 = n div 4096" by (simp add: div_mult2_eq [symmetric])
    then have "n = (n div 4096 * 64 + n div 64 mod 64) * 64 + n mod 64" by (metis div_mult_mod_eq)
    then show ?thesis using 3 by (simp add: utf8_units_def utf8_first_def Let_def)
  next
    case 4
    have "n div 64 div 64 = n div 4096" "n div 4096 div 64 = n div 262144" by (simp_all add: div_mult2_eq [symmetric])
    then have eq: "((n div 262144 * 64 + n div 4096 mod 64) * 64 + n div 64 mod 64) * 64 + n mod 64 = n"
      by (metis div_mult_mod_eq)
    have "\<not> 240 + n div 262144 < 240" using 4 by simp
    then show ?thesis using 4 eq by (simp add: utf8_units_def utf8_first_def Let_def)
  qed (simp add: utf8_units_def utf8_first_def)
qed

lemma utf8_units_bytes: "n < 0x110000 \<Longrightarrow> u \<in> set (utf8_units n) \<Longrightarrow> u < 256"
  by (auto simp: utf8_units_def split: if_splits)

lemma utf8_point_units:
  "utf8_point n = Inr b \<Longrightarrow> map of_char b = utf8_units n \<and> n < 0x110000"
  using utf8_units_bytes [of n]
  by (auto simp: utf8_point_def encodable_def comp_def intro!: map_idI split: if_splits)

interpretation utf8: prefix_code utf8_point "(=)" "\<lambda>_. True"
proof
  fix x y b c r s
  assume x: "utf8_point x = Inr b" and y: "utf8_point y = Inr c" and "b @ r = c @ s"
  then have "map of_char (b @ r) = (map of_char (c @ s) :: nat list)" by simp
  then have "utf8_units x @ map of_char r = utf8_units y @ map of_char s"
    using utf8_point_units [OF x] utf8_point_units [OF y] by simp
  then have xy: "x = y"
    using utf8_first_units utf8_point_units [OF x] utf8_point_units [OF y] by (metis prod.inject)
  with x y \<open>b @ r = c @ s\<close> show "x = y \<and> r = s" by simp
next
  fix x b
  assume "utf8_point x = Inr b"
  then show "b \<noteq> []" by (auto simp: utf8_point_def utf8_units_def split: if_splits)
qed

lemma utf8_encode_injective:
  assumes "utf8_encode s = Inr b" and "utf8_encode t = Inr b"
  shows "s = t"
proof -
  from assms obtain bs cs where "map_result utf8_point s = Inr bs" "map_result utf8_point t = Inr cs" "concat bs = concat cs"
    by (auto simp: utf8_encode_def bindr_eq_Inr)
  then have "list_all2 (=) s t"
    by (intro utf8.concat_injective [of s t bs cs]) (simp_all add: list_all_iff)
  then show ?thesis by (simp add: list.rel_eq)
qed

text \<open>ASCII text is its own encoding.\<close>

definition text_of :: "string \<Rightarrow> py_text" where
  "text_of s = map of_char s"

lemma text_of_inj [simp]: "text_of s = text_of t \<longleftrightarrow> s = t"
  by (auto simp: text_of_def inj_map_eq_map [OF inj_of_char])

end
