(* ===== verification/Py_Decimal.thy ===== *)
theory Py_Decimal
  imports Prelude Complex_Main
begin

text \<open>
  Python's \<^verbatim>\<open>decimal\<close> arithmetic as the money code uses it: finite decimals in the
  default context, 28 significant digits and \<^verbatim>\<open>ROUND_HALF_EVEN\<close>.  A decimal is a
  signed coefficient and an exponent; the sign of zero and the non-finite values
  are not represented, and exponents are assumed to stay within the context's
  range of a million.  Division follows the specification's algorithm: a quotient
  with at least one digit more than the precision, a sticky digit when it is
  inexact, trailing zeros removed down to the ideal exponent when it is exact,
  and one rounding.
\<close>

datatype rounding = ROUND_HALF_UP | ROUND_HALF_DOWN | ROUND_HALF_EVEN | ROUND_UP | ROUND_DOWN
  | ROUND_FLOOR | ROUND_CEILING | ROUND_05UP

datatype dec = Dec (coef: int) (dexp: int)

definition PREC :: nat where "PREC = 28"

definition ndigits :: "nat \<Rightarrow> nat" where "ndigits n = length (nat_str n)"

subsection \<open>Rounding a coefficient\<close>

definition rounds_away :: "rounding \<Rightarrow> bool \<Rightarrow> nat \<Rightarrow> nat \<Rightarrow> nat \<Rightarrow> bool" where
  "rounds_away mode neg q r p = (case mode of
     ROUND_HALF_UP \<Rightarrow> 2 * r \<ge> p
   | ROUND_HALF_DOWN \<Rightarrow> 2 * r > p
   | ROUND_HALF_EVEN \<Rightarrow> 2 * r > p \<or> (2 * r = p \<and> odd q)
   | ROUND_UP \<Rightarrow> True
   | ROUND_DOWN \<Rightarrow> False
   | ROUND_FLOOR \<Rightarrow> neg
   | ROUND_CEILING \<Rightarrow> \<not> neg
   | ROUND_05UP \<Rightarrow> q mod 5 = 0)"

definition round_nat :: "rounding \<Rightarrow> bool \<Rightarrow> nat \<Rightarrow> nat \<Rightarrow> nat" where
  "round_nat mode neg k n = (let p = 10 ^ k; q = n div p; r = n mod p in
     if r \<noteq> 0 \<and> rounds_away mode neg q r p then q + 1 else q)"

text \<open>Drop the last \<open>k\<close> digits of a signed coefficient.\<close>

definition round_coef :: "rounding \<Rightarrow> nat \<Rightarrow> int \<Rightarrow> int" where
  "round_coef mode k c = sgn c * int (round_nat mode (c < 0) k (nat \<bar>c\<bar>))"

definition dec_fix :: "dec \<Rightarrow> dec" where
  "dec_fix d = (case d of Dec c e \<Rightarrow>
     let n = ndigits (nat \<bar>c\<bar>) in
     if n \<le> PREC then Dec c e
     else let k = n - PREC; c' = round_coef ROUND_HALF_EVEN k c in
       if ndigits (nat \<bar>c'\<bar>) > PREC then Dec (c' div 10) (e + int k + 1) else Dec c' (e + int k))"

subsection \<open>Operations\<close>

definition dec_of_int :: "int \<Rightarrow> dec" where "dec_of_int i = Dec i 0"

definition scale_to :: "int \<Rightarrow> dec \<Rightarrow> int" where
  "scale_to e d = coef d * 10 ^ nat (dexp d - e)"

definition dec_add :: "dec \<Rightarrow> dec \<Rightarrow> dec" where
  "dec_add a b = (let e = min (dexp a) (dexp b) in dec_fix (Dec (scale_to e a + scale_to e b) e))"

definition dec_neg :: "dec \<Rightarrow> dec" where
  "dec_neg a = dec_fix (Dec (- coef a) (dexp a))"

definition dec_sub :: "dec \<Rightarrow> dec \<Rightarrow> dec" where
  "dec_sub a b = (let e = min (dexp a) (dexp b) in dec_fix (Dec (scale_to e a - scale_to e b) e))"

definition dec_mul :: "dec \<Rightarrow> dec \<Rightarrow> dec" where
  "dec_mul a b = dec_fix (Dec (coef a * coef b) (dexp a + dexp b))"

text \<open>At most \<open>k\<close> trailing zeros are removed; the second component is what is left of \<open>k\<close>.\<close>

fun strip_zeros :: "nat \<Rightarrow> nat \<Rightarrow> nat \<times> nat" where
  "strip_zeros 0 c = (c, 0)"
| "strip_zeros (Suc k) c = (if c mod 10 = 0 then strip_zeros k (c div 10) else (c, Suc k))"

definition div_shift :: "nat \<Rightarrow> nat \<Rightarrow> int" where
  "div_shift a b = int (ndigits b) - int (ndigits a) + int PREC + 1"

definition div_operands :: "nat \<Rightarrow> nat \<Rightarrow> nat \<times> nat" where
  "div_operands a b = (let s = div_shift a b in
     (a * 10 ^ nat s, b * 10 ^ nat (- s)))"

definition dec_div :: "dec \<Rightarrow> dec \<Rightarrow> dec" where
  "dec_div x y = (let a = nat \<bar>coef x\<bar>; b = nat \<bar>coef y\<bar>; ideal = dexp x - dexp y in
     if a = 0 then Dec 0 ideal
     else let (num, den) = div_operands a b; s = div_shift a b; q = num div den;
        (c, e) = (if num mod den \<noteq> 0 then (if q mod 5 = 0 then q + 1 else q, ideal - s)
           else let (c, left) = strip_zeros (nat s) q in (c, ideal - s + (int (nat s) - int left))) in
       dec_fix (Dec (sgn (coef x) * sgn (coef y) * int c) e))"

text \<open>Rescale to an exponent; \<^verbatim>\<open>quantize\<close> raises when the result needs too many digits.\<close>

definition rescale :: "rounding \<Rightarrow> int \<Rightarrow> dec \<Rightarrow> int" where
  "rescale mode e d =
     (if dexp d \<ge> e then scale_to e d else round_coef mode (nat (e - dexp d)) (coef d))"

definition quantize :: "rounding \<Rightarrow> int \<Rightarrow> dec \<Rightarrow> dec option" where
  "quantize mode e d =
     (if coef d = 0 then Some (Dec 0 e)
      else if dexp d + int (ndigits (nat \<bar>coef d\<bar>)) - e > int PREC then None
      else let c = rescale mode e d in
        if ndigits (nat \<bar>c\<bar>) > PREC then None else Some (Dec c e))"

definition to_integral_value :: "rounding \<Rightarrow> dec \<Rightarrow> dec" where
  "to_integral_value mode d = (if dexp d \<ge> 0 then d else Dec (rescale mode 0 d) 0)"

definition dec_int :: "dec \<Rightarrow> int" where
  "dec_int d = (if dexp d \<ge> 0 then coef d * 10 ^ nat (dexp d)
     else sgn (coef d) * (\<bar>coef d\<bar> div 10 ^ nat (- dexp d)))"

definition dec_less :: "dec \<Rightarrow> dec \<Rightarrow> bool" where
  "dec_less a b \<longleftrightarrow> (let e = min (dexp a) (dexp b) in scale_to e a < scale_to e b)"

definition dec_le :: "dec \<Rightarrow> dec \<Rightarrow> bool" where
  "dec_le a b \<longleftrightarrow> (let e = min (dexp a) (dexp b) in scale_to e a \<le> scale_to e b)"

definition dec_eq :: "dec \<Rightarrow> dec \<Rightarrow> bool" where
  "dec_eq a b \<longleftrightarrow> (let e = min (dexp a) (dexp b) in scale_to e a = scale_to e b)"

subsection \<open>The value of a decimal\<close>

definition dval :: "dec \<Rightarrow> rat" where
  "dval d = of_int (coef d) * 10 powi dexp d"

lemma powi_nat: "e \<le> f \<Longrightarrow> (10 :: rat) ^ nat (f - e) * 10 powi e = 10 powi f"
proof -
  assume "e \<le> f"
  then have "(10 :: rat) ^ nat (f - e) = 10 powi (f - e)" by (simp add: power_int_def)
  then show ?thesis by (simp add: power_int_add [symmetric])
qed

lemma dval_scale_to: "e \<le> dexp d \<Longrightarrow> of_int (scale_to e d) * 10 powi e = dval d"
  by (simp add: dval_def scale_to_def mult.assoc powi_nat)

lemma dec_less_iff: "dec_less a b \<longleftrightarrow> dval a < dval b"
proof -
  define e where "e = min (dexp a) (dexp b)"
  have "dval a < dval b \<longleftrightarrow> of_int (scale_to e a) * (10 :: rat) powi e < of_int (scale_to e b) * 10 powi e"
    by (simp only: dval_scale_to e_def min.cobounded1 min.cobounded2)
  then show ?thesis by (simp add: dec_less_def e_def Let_def)
qed

subsection \<open>Digits\<close>

lemma ndigits_bounds: "n < 10 ^ ndigits n \<and> (0 < n \<longrightarrow> 10 ^ (ndigits n - 1) \<le> n)"
proof (induction n rule: nat_str.induct)
  case (1 n)
  show ?case
  proof (cases "n < 10")
    case True
    then show ?thesis by (simp add: ndigits_def nat_str.simps [of n])
  next
    case False
    then have IH: "n div 10 < 10 ^ ndigits (n div 10)" "10 ^ (ndigits (n div 10) - 1) \<le> n div 10"
      using 1 by auto
    have len: "ndigits n = Suc (ndigits (n div 10))"
      using False by (simp add: ndigits_def nat_str.simps [of n])
    have pos: "0 < ndigits (n div 10)" by (simp add: ndigits_def)
    have "10 * 10 ^ (ndigits (n div 10) - 1) = (10 :: nat) ^ ndigits (n div 10)"
      using pos by (simp add: power_eq_if)
    moreover have "n < 10 * 10 ^ ndigits (n div 10)" using IH(1) by linarith
    moreover have "10 * 10 ^ (ndigits (n div 10) - 1) \<le> n" using IH(2) by linarith
    ultimately show ?thesis using len by simp
  qed
qed

lemma ndigits_le_iff: "0 < k \<Longrightarrow> ndigits n \<le> k \<longleftrightarrow> n < 10 ^ k"
proof
  assume "0 < k" "n < 10 ^ k"
  show "ndigits n \<le> k"
  proof (cases "n = 0")
    case True
    then show ?thesis using \<open>0 < k\<close> by (simp add: ndigits_def nat_str.simps [of 0])
  next
    case False
    with ndigits_bounds [of n] have "10 ^ (ndigits n - 1) \<le> n" by simp
    with \<open>n < 10 ^ k\<close> have "(10 :: nat) ^ (ndigits n - 1) < 10 ^ k" by (rule le_less_trans [rotated])
    then have "ndigits n - 1 < k" by (rule power_less_imp_less_exp [rotated]) simp
    then show ?thesis by simp
  qed
next
  assume "ndigits n \<le> k"
  then have "(10 :: nat) ^ ndigits n \<le> 10 ^ k" by (simp add: power_increasing)
  with ndigits_bounds [of n] show "n < 10 ^ k" by (meson less_le_trans)
qed

subsection \<open>Rounding is monotone and exact on what is representable\<close>

lemma round_nat_ge: "M * 10 ^ k \<le> n \<Longrightarrow> M \<le> round_nat mode neg k n"
proof -
  assume "M * 10 ^ k \<le> n"
  then have "M \<le> n div 10 ^ k" by (simp add: less_eq_div_iff_mult_less_eq)
  then show ?thesis by (simp add: round_nat_def Let_def)
qed

lemma round_nat_le: "n \<le> N * 10 ^ k \<Longrightarrow> round_nat mode neg k n \<le> N"
proof -
  assume le: "n \<le> N * 10 ^ k"
  have eq: "n div 10 ^ k * 10 ^ k + n mod 10 ^ k = n" by (rule div_mult_mod_eq)
  show ?thesis
  proof (cases "n mod 10 ^ k = 0")
    case True
    with eq le have "n div 10 ^ k * 10 ^ k \<le> N * 10 ^ k" by simp
    then show ?thesis using True by (simp add: round_nat_def Let_def)
  next
    case False
    with eq le have "n div 10 ^ k * 10 ^ k < N * 10 ^ k" by linarith
    then have "n div 10 ^ k < N" by simp
    then show ?thesis by (simp add: round_nat_def Let_def)
  qed
qed

lemma round_nat_0 [simp]: "round_nat mode neg 0 n = n"
  by (simp add: round_nat_def)

text \<open>Rounding with floor is floor division.\<close>

lemma round_coef_floor: "round_coef ROUND_FLOOR k c = c div 10 ^ k"
proof (cases "0 \<le> c")
  case True
  then show ?thesis
    by (cases "c = 0")
      (simp_all add: round_coef_def round_nat_def rounds_away_def Let_def nat_div_distrib nat_power_eq zdiv_int)
next
  case False
  define n where "n = nat (- c)"
  then have c: "c = - int n" "0 < n" using False by simp_all
  have "round_coef ROUND_FLOOR k c = - int (if n mod 10 ^ k \<noteq> 0 then n div 10 ^ k + 1 else n div 10 ^ k)"
    using c by (simp add: round_coef_def round_nat_def rounds_away_def Let_def)
  also have "\<dots> = (- int n) div 10 ^ k"
    using of_nat_mod [of n "10 ^ k", where 'a = int] of_nat_div [of n "10 ^ k", where 'a = int]
    by (simp add: zdiv_zminus1_eq_if)
  finally show ?thesis using c by simp
qed

lemma powi_neg: "(10 :: rat) powi (- int k) * 10 ^ k = 1"
  by (simp add: power_int_minus power_int_of_nat)

text \<open>\<^verbatim>\<open>int(d.to_integral_value(ROUND_FLOOR))\<close> is the floor of the value.\<close>

lemma dec_int_floor: "dec_int (to_integral_value ROUND_FLOOR d) = \<lfloor>dval d\<rfloor>"
proof (cases "0 \<le> dexp d")
  case True
  then have "dval d = of_int (coef d * 10 ^ nat (dexp d))" by (simp add: dval_def power_int_def)
  then have "\<lfloor>dval d\<rfloor> = coef d * 10 ^ nat (dexp d)" by (simp only: floor_of_int)
  then show ?thesis using True by (simp add: to_integral_value_def dec_int_def)
next
  case False
  define k where "k = nat (- dexp d)"
  with False have e: "dexp d = - int k" by simp
  have "dval d = of_int (coef d) / of_int (10 ^ k)"
    by (simp add: dval_def e power_int_minus power_int_of_nat divide_inverse)
  then have "\<lfloor>dval d\<rfloor> = coef d div 10 ^ k" by (simp only: floor_divide_of_int_eq)
  then show ?thesis
    using False e by (simp add: to_integral_value_def dec_int_def rescale_def round_coef_floor)
qed

subsection \<open>The final rounding\<close>

lemma round_coef_0 [simp]: "round_coef mode 0 c = c"
  by (simp add: round_coef_def sgn_mult_abs)

lemma round_coef_abs: "nat \<bar>round_coef mode k c\<bar> = round_nat mode (c < 0) k (nat \<bar>c\<bar>)"
  by (cases "c = 0") (auto simp: round_coef_def round_nat_def abs_mult abs_sgn_eq)

lemma dec_fix_dval:
  "dval (dec_fix (Dec c e)) =
     of_int (round_coef ROUND_HALF_EVEN (ndigits (nat \<bar>c\<bar>) - PREC) c) * 10 powi (e + int (ndigits (nat \<bar>c\<bar>) - PREC))"
proof (cases "ndigits (nat \<bar>c\<bar>) \<le> PREC")
  case True
  then show ?thesis by (simp add: dec_fix_def dval_def)
next
  case False
  define k where "k = ndigits (nat \<bar>c\<bar>) - PREC"
  define c' where "c' = round_coef ROUND_HALF_EVEN k c"
  have "nat \<bar>c\<bar> < 10 ^ ndigits (nat \<bar>c\<bar>)" using ndigits_bounds by blast
  also have "(10 :: nat) ^ ndigits (nat \<bar>c\<bar>) = 10 ^ PREC * 10 ^ k"
    using False by (simp add: k_def flip: power_add)
  finally have le: "nat \<bar>c'\<bar> \<le> 10 ^ PREC"
    unfolding c'_def round_coef_abs by (intro round_nat_le) simp
  show ?thesis
  proof (cases "ndigits (nat \<bar>c'\<bar>) > PREC")
    case True
    then have "\<not> nat \<bar>c'\<bar> < 10 ^ PREC" using ndigits_le_iff [of PREC "nat \<bar>c'\<bar>"] by (simp add: PREC_def)
    with le have "\<bar>c'\<bar> = 10 ^ PREC" by simp
    then have "10 dvd \<bar>c'\<bar>" by (simp add: PREC_def)
    then have dvd: "10 dvd c'" by simp
    have "of_int (c' div 10) * 10 powi (e + int k + 1) = (of_int (c' div 10 * 10) :: rat) * 10 powi (e + int k)"
      by (simp add: power_int_add_1 mult.commute mult.left_commute)
    also have "\<dots> = of_int c' * 10 powi (e + int k)" using dvd by simp
    finally have "dval (Dec (c' div 10) (e + int k + 1)) = of_int c' * 10 powi (e + int k)"
      by (simp only: dval_def dec.sel)
    with False True show ?thesis by (simp add: dec_fix_def Let_def flip: k_def c'_def)
  next
    case nofix: False
    with False show ?thesis by (simp add: dec_fix_def Let_def dval_def flip: k_def c'_def)
  qed
qed

text \<open>
  \<open>rounds_to x v\<close>: the value \<open>v\<close> is \<open>x\<close> or \<open>x\<close> rounded to a unit small enough for 28
  digits; rounding never crosses a multiple of the unit.
\<close>

definition rounds_to :: "rat \<Rightarrow> rat \<Rightarrow> bool" where
  "rounds_to x v \<longleftrightarrow> v = x \<or> (\<exists>z :: int.
     10 ^ 27 * 10 powi z \<le> x
     \<and> (\<forall>m :: nat. of_nat m * 10 powi z \<le> x \<longrightarrow> of_nat m * 10 powi z \<le> v)
     \<and> (\<forall>m :: nat. x \<le> of_nat m * 10 powi z \<longrightarrow> v \<le> of_nat m * 10 powi z))"

lemma rounds_to_exact_coef:
  assumes "x = of_nat c * 10 powi e" and "k = ndigits c - PREC"
  shows "rounds_to x (of_nat (round_nat mode neg k c) * 10 powi (e + int k))"
proof (cases "ndigits c \<le> PREC")
  case True
  with assms show ?thesis by (simp add: rounds_to_def)
next
  case False
  define u :: rat where "u = 10 powi e"
  have u: "0 < u" by (simp add: u_def)
  have unit: "(10 :: rat) powi (e + int k) = 10 ^ k * u"
    by (simp add: u_def power_int_add mult.commute power_int_of_nat)
  have scale: "of_nat m * (10 :: rat) powi (e + int k) = of_nat (m * 10 ^ k) * u" for m
    by (simp add: unit)
  have "0 < c" using False by (cases "c = 0") (auto simp: ndigits_def nat_str.simps [of 0] PREC_def)
  with ndigits_bounds [of c] have "10 ^ (ndigits c - 1) \<le> c" by simp
  moreover have "ndigits c - 1 = 27 + k" using False assms(2) by (simp add: PREC_def)
  ultimately have big: "10 ^ 27 * 10 ^ k \<le> c" by (simp add: power_add)
  have "10 ^ 27 * (10 :: rat) powi (e + int k) = of_nat (10 ^ 27 * 10 ^ k) * u" by (simp add: unit)
  also have "\<dots> \<le> of_nat c * u" using big u by (intro mult_right_mono) (simp_all only: of_nat_le_iff less_imp_le)
  finally have one: "10 ^ 27 * 10 powi (e + int k) \<le> x" by (simp add: assms(1) u_def)
  have x: "x = of_nat c * u" by (simp add: assms(1) u_def)
  have lo: "of_nat m * (10 :: rat) powi (e + int k) \<le> of_nat (round_nat mode neg k c) * 10 powi (e + int k)"
    if "of_nat m * 10 powi (e + int k) \<le> x" for m
  proof -
    from that have "of_nat (m * 10 ^ k) * u \<le> of_nat c * u" by (simp only: scale x)
    with u have "m * 10 ^ k \<le> c" by (simp only: mult_le_cancel_right_pos of_nat_le_iff)
    then have "m \<le> round_nat mode neg k c" by (rule round_nat_ge)
    then show ?thesis by (intro mult_right_mono) simp_all
  qed
  have hi: "of_nat (round_nat mode neg k c) * (10 :: rat) powi (e + int k) \<le> of_nat m * 10 powi (e + int k)"
    if "x \<le> of_nat m * 10 powi (e + int k)" for m
  proof -
    from that have "of_nat c * u \<le> of_nat (m * 10 ^ k) * u" by (simp only: scale x)
    with u have "c \<le> m * 10 ^ k" by (simp only: mult_le_cancel_right_pos of_nat_le_iff)
    then have "round_nat mode neg k c \<le> m" by (rule round_nat_le)
    then show ?thesis by (intro mult_right_mono) simp_all
  qed
  show ?thesis unfolding rounds_to_def using one lo hi by blast
qed

text \<open>An inexact quotient: the sticky digit keeps the rounding on the right side.\<close>

lemma rounds_to_inexact_coef:
  assumes x: "of_nat q * 10 powi e < x" "x < of_nat (q + 1) * 10 powi e"
    and q: "10 ^ PREC \<le> q" and c: "c = (if q mod 5 = 0 then q + 1 else q)"
    and k: "k = ndigits c - PREC"
  shows "rounds_to x (of_nat (round_nat mode neg k c) * 10 powi (e + int k))"
proof -
  define u :: rat where "u = 10 powi e"
  have u: "0 < u" by (simp add: u_def)
  have unit: "(10 :: rat) powi (e + int k) = 10 ^ k * u"
    by (simp add: u_def power_int_add mult.commute power_int_of_nat)
  have scale: "of_nat m * (10 :: rat) powi (e + int k) = of_nat (m * 10 ^ k) * u" for m
    by (simp add: unit)
  have qc: "q \<le> c" "c \<le> q + 1" using c by auto
  have "\<not> c < 10 ^ PREC" using q qc by simp
  then have nd: "PREC < ndigits c" using ndigits_le_iff [of PREC c] by (simp add: PREC_def)
  have "0 < c" using q qc by (cases c) (simp_all add: PREC_def)
  with ndigits_bounds [of c] have "10 ^ (ndigits c - 1) \<le> c" by simp
  moreover have "ndigits c - 1 = 27 + k" using nd k by (simp add: PREC_def)
  ultimately have bigc: "10 ^ (27 + k) \<le> c" by simp
  have bigq: "10 ^ (27 + k) \<le> q"
  proof (rule ccontr)
    assume "\<not> 10 ^ (27 + k) \<le> q"
    with bigc qc have "c = q + 1" "q + 1 = 10 ^ (27 + k)" by linarith+
    then have "q mod 5 = 0" using c by (auto split: if_splits)
    moreover have "(q + 1) mod 5 = 0" unfolding \<open>q + 1 = 10 ^ (27 + k)\<close> by (simp add: power_add mod_mult_left_eq [symmetric])
    ultimately show False by presburger
  qed
  have "10 ^ 27 * (10 :: rat) powi (e + int k) = of_nat (10 ^ (27 + k)) * u" by (simp add: unit power_add)
  also have "\<dots> \<le> of_nat q * u" using bigq u by (intro mult_right_mono) (simp_all only: of_nat_le_iff less_imp_le)
  also have "\<dots> \<le> x" using x(1) by (simp add: u_def)
  finally have one: "10 ^ 27 * 10 powi (e + int k) \<le> x" .
  have lo: "of_nat m * (10 :: rat) powi (e + int k) \<le> of_nat (round_nat mode neg k c) * 10 powi (e + int k)"
    if "of_nat m * 10 powi (e + int k) \<le> x" for m
  proof -
    have "of_nat (m * 10 ^ k) * u < of_nat (q + 1) * u"
      using that x(2) unfolding scale u_def by (rule le_less_trans)
    with u have "m * 10 ^ k < q + 1" by (simp only: mult_less_cancel_right_pos of_nat_less_iff)
    with qc have "m * 10 ^ k \<le> c" by simp
    then have "m \<le> round_nat mode neg k c" by (rule round_nat_ge)
    then show ?thesis by (intro mult_right_mono) simp_all
  qed
  have hi: "of_nat (round_nat mode neg k c) * (10 :: rat) powi (e + int k) \<le> of_nat m * 10 powi (e + int k)"
    if "x \<le> of_nat m * 10 powi (e + int k)" for m
  proof -
    have "of_nat q * u < of_nat (m * 10 ^ k) * u"
      using x(1) that unfolding scale u_def by (rule less_le_trans)
    with u have "q < m * 10 ^ k" by (simp only: mult_less_cancel_right_pos of_nat_less_iff)
    with qc have "c \<le> m * 10 ^ k" by simp
    then have "round_nat mode neg k c \<le> m" by (rule round_nat_le)
    then show ?thesis by (intro mult_right_mono) simp_all
  qed
  show ?thesis unfolding rounds_to_def using one lo hi by blast
qed

lemma strip_zeros_value:
  "strip_zeros k c = (c', left) \<Longrightarrow> left \<le> k \<and> c = c' * 10 ^ (k - left)"
proof (induction k c rule: strip_zeros.induct)
  case (1 c)
  then show ?case by simp
next
  case (2 k c)
  show ?case
  proof (cases "c mod 10 = 0")
    case True
    with 2 have IH: "left \<le> k" "c div 10 = c' * 10 ^ (k - left)" by auto
    have "c = c div 10 * 10" using True by auto
    then have "c = c' * 10 ^ (k - left) * 10" using IH(2) by simp
    with IH(1) show ?thesis by (simp add: Suc_diff_le)
  next
    case False
    with 2 show ?thesis by auto
  qed
qed

subsection \<open>Division\<close>

lemma div_operands_ratio:
  assumes "0 < b"
  shows "of_nat (fst (div_operands a b)) / of_nat (snd (div_operands a b))
     = (of_nat a / of_nat b :: rat) * 10 powi div_shift a b" and "0 < snd (div_operands a b)"
proof -
  show "0 < snd (div_operands a b)" using assms by (simp add: div_operands_def Let_def)
  show "of_nat (fst (div_operands a b)) / of_nat (snd (div_operands a b))
     = (of_nat a / of_nat b :: rat) * 10 powi div_shift a b"
  proof (cases "0 \<le> div_shift a b")
    case True
    then have "(10 :: rat) powi div_shift a b = 10 ^ nat (div_shift a b)" by (simp add: power_int_def)
    with True show ?thesis by (simp add: div_operands_def Let_def)
  next
    case False
    then have "(10 :: rat) powi div_shift a b = 1 / 10 ^ nat (- div_shift a b)"
      by (simp add: power_int_def power_one_over)
    with False show ?thesis by (simp add: div_operands_def Let_def)
  qed
qed

lemma div_operands_big:
  assumes "0 < a" and "0 < b"
  shows "10 ^ PREC \<le> fst (div_operands a b) div snd (div_operands a b)"
proof -
  define na nb where "na = ndigits a" and "nb = ndigits b"
  have a: "10 ^ (na - 1) \<le> a" "0 < na" using ndigits_bounds [of a] assms by (simp_all add: na_def ndigits_def)
  have b: "b < 10 ^ nb" using ndigits_bounds [of b] by (simp add: nb_def)
  define s where "s = div_shift a b"
  have s: "s = int nb - int na + 29" by (simp add: s_def div_shift_def na_def nb_def PREC_def)
  have e: "na - 1 + nat s = 28 + nb + nat (- s)" using s a(2) by linarith
  have "10 ^ 28 * (b * 10 ^ nat (- s)) \<le> (10 :: nat) ^ 28 * (10 ^ nb * 10 ^ nat (- s))"
    using b by (intro mult_left_mono mult_right_mono) simp_all
  also have "\<dots> = 10 ^ (na - 1 + nat s)" by (simp only: e power_add mult.assoc)
  also have "\<dots> \<le> a * 10 ^ nat s" using a(1) by (simp add: power_add)
  finally have "10 ^ 28 * snd (div_operands a b) \<le> fst (div_operands a b)"
    by (simp add: div_operands_def Let_def flip: s_def)
  with div_operands_ratio(2) [OF assms(2), of a] show ?thesis
    by (simp add: PREC_def less_eq_div_iff_mult_less_eq)
qed

lemma sgn_times_coef:
  assumes "p \<noteq> (0 :: int)"
  shows "of_int (sgn p) * of_int (round_coef mode k (sgn p * int c)) =
    (of_nat (round_nat mode (sgn p * int c < 0) k c) :: rat)"
proof -
  have "nat \<bar>sgn p * int c\<bar> = c" using assms by (simp add: abs_mult abs_sgn_eq)
  then show ?thesis
    using assms by (cases "c = 0") (auto simp: round_coef_def sgn_mult sgn_if round_nat_def)
qed

lemma dec_div_rounds:
  assumes "p \<noteq> 0" and "0 < b"
  shows "rounds_to (of_nat (nat \<bar>p\<bar>) / of_nat b) (of_int (sgn p) * dval (dec_div (Dec p e0) (Dec (int b) e0)))"
proof -
  define a where "a = nat \<bar>p\<bar>"
  have a: "0 < a" using assms(1) by (simp add: a_def)
  define s num den q where "s = div_shift a b" and "num = fst (div_operands a b)"
    and "den = snd (div_operands a b)" and "q = num div den"
  note ratio = div_operands_ratio [OF assms(2), of a, folded num_def den_def s_def]
  define x :: rat where "x = of_nat a / of_nat b"
  have x: "x = of_nat num / of_nat den * 10 powi (- s)"
    by (simp add: x_def ratio(1) power_int_minus)
  obtain c e where ce: "(c, e) = (if num mod den \<noteq> 0 then (if q mod 5 = 0 then q + 1 else q, 0 - s)
       else let (c, left) = strip_zeros (nat s) q in (c, 0 - s + (int (nat s) - int left)))"
    by (metis surj_pair)
  define k where "k = ndigits c - PREC"
  have rounds: "rounds_to x (of_nat (round_nat ROUND_HALF_EVEN neg k c) * 10 powi (e + int k))" for neg
  proof (cases "num mod den = 0")
    case True
    obtain c' left where st: "strip_zeros (nat s) q = (c', left)" by (cases "strip_zeros (nat s) q")
    with ce True have c: "c = c'" "e = - s + (int (nat s) - int left)" by auto
    have v: "left \<le> nat s" "q = c' * 10 ^ (nat s - left)" using strip_zeros_value [OF st] by auto
    have "num = q * den" using True by (simp add: q_def mod_eq_0_iff_dvd)
    then have "x = of_nat q * 10 powi (- s)" using x ratio(2) by simp
    also have "\<dots> = of_nat c' * (10 ^ (nat s - left) * 10 powi (- s))" by (simp add: v(2) mult.assoc)
    also have "(10 :: rat) ^ (nat s - left) * 10 powi (- s) = 10 powi e"
    proof -
      have "e = int (nat s - left) + - s" using v(1) c(2) by simp
      moreover have "(10 :: rat) powi (int (nat s - left) + - s) = 10 powi int (nat s - left) * 10 powi (- s)"
        by (rule power_int_add) simp
      ultimately show ?thesis by (simp only: power_int_of_nat)
    qed
    finally show ?thesis using c(1) k_def by (intro rounds_to_exact_coef) simp_all
  next
    case False
    with ce have c: "c = (if q mod 5 = 0 then q + 1 else q)" "e = - s" by auto
    have eq: "num = q * den + num mod den" by (simp add: q_def)
    have "of_nat q < (of_nat num / of_nat den :: rat)"
      using ratio(2) eq False by (simp add: pos_less_divide_eq) (metis of_nat_less_iff of_nat_mult less_add_same_cancel1 neq0_conv)
    moreover have "(of_nat num / of_nat den :: rat) < of_nat (q + 1)"
    proof -
      have "num < (q + 1) * den" using eq ratio(2) mod_less_divisor [OF ratio(2), of num] by simp
      then have "(of_nat num :: rat) < of_nat (q + 1) * of_nat den" by (metis of_nat_less_iff of_nat_mult)
      then show ?thesis using ratio(2) by (simp add: pos_divide_less_eq)
    qed
    ultimately have "of_nat q * 10 powi e < x" "x < of_nat (q + 1) * 10 powi e"
      unfolding x c(2) by (intro mult_strict_right_mono; simp)+
    moreover have "10 ^ PREC \<le> q"
      using div_operands_big [OF a assms(2)] by (simp add: q_def num_def den_def)
    ultimately show ?thesis using c(1) k_def by (intro rounds_to_inexact_coef) simp_all
  qed
  have abs: "nat \<bar>sgn p * int c\<bar> = c" using assms(1) by (simp add: abs_mult abs_sgn_eq)
  have "dec_div (Dec p e0) (Dec (int b) e0) = dec_fix (Dec (sgn p * int c) e)"
    using a assms(2) ce
    by (simp add: dec_div_def Let_def split_beta flip: a_def num_def den_def q_def s_def split: if_splits)
  then have "of_int (sgn p) * dval (dec_div (Dec p e0) (Dec (int b) e0)) =
      of_nat (round_nat ROUND_HALF_EVEN (sgn p * int c < 0) k c) * 10 powi (e + int k)"
    using sgn_times_coef [OF assms(1), of ROUND_HALF_EVEN k c]
    by (simp add: dec_fix_dval abs k_def mult.assoc [symmetric])
  with rounds show ?thesis by (simp add: x_def a_def)
qed

text \<open>
  Consequences of \<open>rounds_to\<close> when the unit is no coarser than \<open>1\<close>: an integer stays
  itself, and the floor and the ceiling of a fraction with a small denominator are
  not moved.
\<close>

lemma rounds_to_unit:
  assumes "10 ^ 27 * 10 powi z \<le> x" and "x < (10 :: rat) ^ a" and "a \<le> 28"
  shows "\<exists>j. z = - int j \<and> 28 - a \<le> j"
proof -
  have "(10 :: rat) powi (27 + z) < 10 powi int a"
    using assms(1,2) by (simp add: power_int_add power_int_of_nat power_int_numeral)
  then have "27 + z < int a" using power_int_increasing [of "int a" "27 + z" "10 :: rat"] by fastforce
  with assms(3) have "z = - int (nat (- z))" "28 - a \<le> nat (- z)" by linarith+
  then show ?thesis by blast
qed

lemma one_over_pow: "(10 :: rat) powi (- int j) = 1 / 10 ^ j"
  by (simp add: power_int_minus power_int_of_nat divide_inverse)

lemma rounds_to_integer:
  assumes "rounds_to (of_nat n) v" and "n < 10 ^ 28"
  shows "v = of_nat n"
proof (cases "v = of_nat n")
  case False
  then obtain z where z: "10 ^ 27 * 10 powi z \<le> (of_nat n :: rat)"
    and lo: "\<And>m. of_nat m * 10 powi z \<le> (of_nat n :: rat) \<Longrightarrow> of_nat m * 10 powi z \<le> v"
    and hi: "\<And>m. (of_nat n :: rat) \<le> of_nat m * 10 powi z \<Longrightarrow> v \<le> of_nat m * 10 powi z"
    using assms(1) unfolding rounds_to_def by blast
  have "(of_nat n :: rat) < 10 ^ 28"
    using assms(2) by (metis of_nat_less_iff of_nat_numeral of_nat_power)
  from rounds_to_unit [OF z this] obtain j where j: "z = - int j" by auto
  have eq: "of_nat (n * 10 ^ j) * (10 :: rat) powi z = of_nat n" by (simp add: j one_over_pow)
  from lo [of "n * 10 ^ j", unfolded eq] hi [of "n * 10 ^ j", unfolded eq] show ?thesis by simp
qed

lemma rounds_to_between:
  assumes "rounds_to x v" and "x < 10 ^ a" and "a \<le> 28" and "d \<le> 10 ^ (28 - a)" and "0 < d"
    and "of_nat n + 1 / of_nat d \<le> x \<or> x = of_nat n" and "x \<le> of_nat (n + 1) - 1 / of_nat d"
  shows "of_nat n \<le> v \<and> v < of_nat (n + 1) \<and> (v = of_nat n \<longrightarrow> x = of_nat n)"
proof (cases "v = x")
  case True
  have "0 < (1 / of_nat d :: rat)" using assms(5) by simp
  with True assms(6,7) have "of_nat n \<le> v" "v < of_nat (n + 1)" by linarith+
  with True show ?thesis by simp
next
  case False
  then obtain z where z: "10 ^ 27 * 10 powi z \<le> x"
    and lo: "\<And>m. of_nat m * 10 powi z \<le> x \<Longrightarrow> of_nat m * 10 powi z \<le> v"
    and hi: "\<And>m. x \<le> of_nat m * 10 powi z \<Longrightarrow> v \<le> of_nat m * 10 powi z"
    using assms(1) unfolding rounds_to_def by blast
  obtain j where j: "z = - int j" "28 - a \<le> j" using rounds_to_unit [OF z assms(2,3)] by blast
  define u :: rat where "u = 10 powi z"
  have u: "u = 1 / 10 ^ j" "0 < u" by (simp_all add: u_def j(1) one_over_pow)
  have "d \<le> 10 ^ j" using assms(4) j(2) by (meson le_trans one_le_numeral power_increasing)
  then have "(of_nat d :: rat) \<le> 10 ^ j" by (metis of_nat_le_iff of_nat_numeral of_nat_power)
  then have ud: "u \<le> 1 / of_nat d" using assms(5) u(1) by (simp add: divide_left_mono)
  have int: "of_nat (m * 10 ^ j) * u = of_nat m" for m by (simp add: u(1))
  have ge: "of_nat n \<le> v"
  proof -
    have "0 < (1 / of_nat d :: rat)" using assms(5) by simp
    with assms(6) have "of_nat (n * 10 ^ j) * u \<le> x" unfolding int by linarith
    with lo [of "n * 10 ^ j"] show ?thesis unfolding u_def [symmetric] int by blast
  qed
  have pos: "0 < n * 10 ^ j + 10 ^ j" by simp
  have sub: "of_nat (n * 10 ^ j + 10 ^ j - 1) * u = of_nat (n + 1) - u"
  proof -
    have e: "n * 10 ^ j + 10 ^ j = (n + 1) * 10 ^ j" by simp
    have "of_nat ((n + 1) * 10 ^ j - 1) = (of_nat ((n + 1) * 10 ^ j) - of_nat 1 :: rat)"
      using pos unfolding e by (intro of_nat_diff) (simp add: Suc_le_eq)
    then show ?thesis unfolding e using int [of "n + 1"] by (simp only: left_diff_distrib of_nat_1 mult_1)
  qed
  have "x \<le> of_nat (n * 10 ^ j + 10 ^ j - 1) * u" using assms(7) ud unfolding sub by simp
  with hi have "v \<le> of_nat (n + 1) - u" unfolding u_def [symmetric] sub [symmetric] by blast
  then have lt: "v < of_nat (n + 1)" using u(2) by linarith
  have "x = of_nat n" if "v = of_nat n"
  proof (rule ccontr)
    assume "x \<noteq> of_nat n"
    with assms(6) ud have "of_nat n + u \<le> x" by linarith
    have next_unit: "of_nat (n * 10 ^ j + 1) * u = of_nat n + u"
      using int [of n] by (simp only: of_nat_add of_nat_1 distrib_right mult_1)
    have "of_nat n + u \<le> v"
      using lo [of "n * 10 ^ j + 1"] \<open>of_nat n + u \<le> x\<close> unfolding u_def [symmetric] next_unit by blast
    with that u(2) show False by simp
  qed
  with ge lt show ?thesis by blast
qed

lemma dec_div_zero: "dval (dec_div (Dec 0 e0) y) = 0"
  by (simp add: dec_div_def Let_def dval_def)

lemma dec_div_integer:
  assumes "0 < b" and "int b dvd p" and "\<bar>p div int b\<bar> < 10 ^ 28"
  shows "dval (dec_div (Dec p e0) (Dec (int b) e0)) = of_int (p div int b)"
proof (cases "p = 0")
  case True
  then show ?thesis by (simp add: dec_div_zero)
next
  case False
  define n where "n = nat \<bar>p div int b\<bar>"
  have abs: "\<bar>p\<bar> = int n * int b" using assms(2) by (auto simp: n_def abs_mult)
  then have ratio: "of_nat (nat \<bar>p\<bar>) / of_nat b = (of_nat n :: rat)"
    using assms(1) by (metis nat_int nonzero_mult_div_cancel_right of_nat_eq_0_iff of_nat_mult neq0_conv)
  have "of_int (sgn p) * dval (dec_div (Dec p e0) (Dec (int b) e0)) = of_nat n"
    using dec_div_rounds [OF False assms(1), of e0] assms(3) unfolding ratio
    by (intro rounds_to_integer) (simp_all add: n_def nat_less_iff)
  then have "dval (dec_div (Dec p e0) (Dec (int b) e0)) = of_int (sgn p) * of_nat n"
    using False by (cases "0 < p") (simp_all add: sgn_if)
  also have "\<dots> = of_int (sgn p * \<bar>p div int b\<bar>)" by (simp add: n_def)
  also have "sgn p * \<bar>p div int b\<bar> = p div int b"
    using assms(1,2) by (auto simp: abs_mult sgn_mult mult_sgn_abs)
  finally show ?thesis .
qed

text \<open>Rounding to 28 digits does not move the floor of a quotient with a small denominator.\<close>

lemma dec_div_floor:
  assumes "0 < w" and "w \<le> 10 ^ (28 - a)" and "a \<le> 28" and "\<bar>p\<bar> < 10 ^ a * int w"
  shows "\<lfloor>dval (dec_div (Dec p e0) (Dec (int w) e0))\<rfloor> = p div int w"
proof (cases "int w dvd p")
  case True
  then obtain q where q: "p = int w * q" by blast
  with assms(1,4) have "\<bar>q\<bar> < 10 ^ a" by (simp add: abs_mult mult.commute)
  moreover have "(10 :: int) ^ a \<le> 10 ^ 28" using assms(3) by (intro power_increasing) simp_all
  ultimately have "\<bar>p div int w\<bar> < 10 ^ 28" using q assms(1) by simp
  with dec_div_integer [OF assms(1) True] show ?thesis by simp
next
  case False
  define m where "m = nat \<bar>p\<bar>"
  define n r where "n = m div w" and "r = m mod w"
  have p0: "p \<noteq> 0" using False by auto
  have m: "m = n * w + r" "r < w" using assms(1) by (simp_all add: n_def r_def)
  have r0: "0 < r"
  proof (rule ccontr)
    assume "\<not> 0 < r"
    then have "w dvd m" by (simp add: r_def mod_eq_0_iff_dvd)
    then show False using False by (simp add: m_def)
  qed
  define x :: rat where "x = of_nat m / of_nat w"
  have x: "x = of_nat n + of_nat r / of_nat w" using assms(1) by (simp add: x_def m(1) add_divide_distrib)
  define v where "v = of_int (sgn p) * dval (dec_div (Dec p e0) (Dec (int w) e0))"
  have "rounds_to x v" using dec_div_rounds [OF p0 assms(1), of e0] by (simp add: x_def v_def m_def)
  moreover have "x < 10 ^ a"
  proof -
    have "int m < 10 ^ a * int w" using assms(4) by (simp add: m_def)
    then have "m < 10 ^ a * w" by (metis of_nat_less_iff of_nat_mult of_nat_numeral of_nat_power)
    then have "(of_nat m :: rat) < 10 ^ a * of_nat w" by (metis of_nat_less_iff of_nat_mult of_nat_numeral of_nat_power)
    then show ?thesis using assms(1) by (simp add: x_def pos_divide_less_eq)
  qed
  moreover have "of_nat n + 1 / of_nat w \<le> x" unfolding x using r0 assms(1) by (simp add: divide_right_mono Suc_leI)
  moreover have "x \<le> of_nat (n + 1) - 1 / of_nat w"
  proof -
    have "(of_nat (r + 1) :: rat) \<le> of_nat w" using m(2) by (simp only: of_nat_le_iff Suc_leI Suc_eq_plus1 [symmetric])
    then have "of_nat r / of_nat w + 1 / of_nat w \<le> (1 :: rat)"
      using assms(1) by (simp add: add_divide_distrib [symmetric] pos_divide_le_eq)
    then show ?thesis unfolding x by simp
  qed
  ultimately have v: "of_nat n \<le> v" "v < of_nat (n + 1)" "v \<noteq> of_nat n"
    using rounds_to_between [of x v a w n] assms(1-3) r0 x by auto
  have dv: "dval (dec_div (Dec p e0) (Dec (int w) e0)) = of_int (sgn p) * v"
    using p0 by (simp add: v_def sgn_if)
  show ?thesis
  proof (cases "0 < p")
    case True
    then have "p div int w = int n" by (simp add: n_def m_def zdiv_int)
    with True dv v show ?thesis by (simp add: floor_unique)
  next
    case neg: False
    have pm: "p = - int m" using neg p0 by (simp add: m_def)
    have "int m mod int w \<noteq> 0" using r0 by (simp add: r_def zmod_int [symmetric])
    then have "p div int w = - int n - 1"
      using assms(1) by (simp add: pm zdiv_zminus1_eq_if n_def zdiv_int)
    moreover have "\<lfloor>- v\<rfloor> = - int n - 1" using v by (intro floor_unique) simp_all
    ultimately show ?thesis using dv neg p0 by (simp add: sgn_if)
  qed
qed

lemma dec_int_integral:
  assumes "dval d = of_int c"
  shows "dec_int (to_integral_value mode d) = c"
proof (cases "0 \<le> dexp d")
  case True
  then have "dval d = of_int (coef d * 10 ^ nat (dexp d))" by (simp add: dval_def power_int_def)
  with assms have "coef d * 10 ^ nat (dexp d) = c" by (metis of_int_eq_iff)
  with True show ?thesis by (simp add: to_integral_value_def dec_int_def)
next
  case False
  define k where "k = nat (- dexp d)"
  with False have e: "dexp d = - int k" by simp
  have "dval d * 10 ^ k = of_int (coef d)" by (simp add: dval_def e mult.assoc powi_neg)
  with assms have "of_int (c * 10 ^ k) = (of_int (coef d) :: rat)" by simp
  then have coef: "coef d = c * 10 ^ k" by (metis of_int_eq_iff)
  have "nat \<bar>coef d\<bar> = nat \<bar>c\<bar> * 10 ^ k" by (simp add: coef abs_mult nat_mult_distrib nat_power_eq)
  then have "round_nat mode (coef d < 0) k (nat \<bar>coef d\<bar>) = nat \<bar>c\<bar>" by (simp add: round_nat_def)
  then have "round_coef mode k (coef d) = c" by (simp add: round_coef_def coef sgn_mult sgn_mult_abs)
  with False e show ?thesis by (simp add: to_integral_value_def dec_int_def rescale_def)
qed

end
