(* ===== verification/Canonical_Text.thy ===== *)
theory Canonical_Text
  imports Byte_Codes Py_Decimal
begin

text \<open>
  The scalar renderings of \<^verbatim>\<open>semantic_encoding.py\<close>: \<^verbatim>\<open>canonical_decimal\<close> (fixed-point text
  without insignificant zeroes) and \<^verbatim>\<open>canonical_instant\<close> (UTC ISO text to the
  microsecond), with the parts of Python's \<^verbatim>\<open>format(d, "f")\<close> and \<^verbatim>\<open>isoformat\<close> they use.
  Decimals are shown to render equally exactly when they are numerically equal,
  instants exactly when they are the same.
\<close>

subsection \<open>Decimals\<close>

text \<open>A decimal argument: finite, or one of the infinities and NaNs.\<close>

datatype decimal_value = Finite dec | NonFinite

text \<open>The digits before and after the point of \<^verbatim>\<open>format(d, "f")\<close>.\<close>

definition fixed_parts :: "nat \<Rightarrow> int \<Rightarrow> string \<times> string" where
  "fixed_parts n e = (let digits = nat_str n; dotplace = int (length digits) + e in
     if dotplace < 0 then (''0'', replicate (nat (- dotplace)) CHR ''0'' @ digits)
     else if dotplace > int (length digits)
     then (digits @ replicate (nat (dotplace - int (length digits))) CHR ''0'', [])
     else (if take (nat dotplace) digits = [] then ''0'' else take (nat dotplace) digits, drop (nat dotplace) digits))"

definition format_f :: "dec \<Rightarrow> string" where
  "format_f d = (case fixed_parts (nat \<bar>coef d\<bar>) (dexp d) of (intpart, fracpart) \<Rightarrow>
     (if coef d < 0 then ''-'' else []) @ intpart @ (if fracpart = [] then [] else CHR ''.'' # fracpart))"

definition rstrip :: "char \<Rightarrow> string \<Rightarrow> string" where
  "rstrip c s = rev (dropWhile (\<lambda>x. x = c) (rev s))"

definition canonical_decimal :: "decimal_value \<Rightarrow> encoding_error + string" where
  "canonical_decimal v = (case v of
     NonFinite \<Rightarrow> Inl (CanonicalEncodingError ''A canonical decimal must be a finite Decimal.'')
   | Finite d \<Rightarrow>
       if coef d = 0 then Inr ''0''
       else let rendered = format_f d;
                rendered = (if CHR ''.'' \<in> set rendered then rstrip CHR ''.'' (rstrip CHR ''0'' rendered) else rendered)
            in Inr (if rendered = ''-0'' \<or> rendered = [] then ''0'' else rendered))"

subsection \<open>Fixed-point text\<close>

lemma rstrip_append: "rstrip c (a @ b) = (if rstrip c b = [] then rstrip c a else a @ rstrip c b)"
  by (simp add: rstrip_def dropWhile_append)

lemma rstrip_Nil [simp]: "rstrip c [] = []"
  by (simp add: rstrip_def)

lemma rstrip_none: "c \<notin> set s \<Longrightarrow> rstrip c s = s"
  by (cases s rule: rev_cases) (auto simp: rstrip_def)

lemma rstrip_subset: "set (rstrip c s) \<subseteq> set s"
  by (auto simp: rstrip_def dest: set_dropWhileD)

lemma rstrip_replicate: "\<exists>k. s = rstrip c s @ replicate k c"
proof -
  define z where "z = rev (takeWhile (\<lambda>x. x = c) (rev s))"
  have "replicate (length z) c = z" by (rule replicate_length_same) (auto simp: z_def dest: set_takeWhileD)
  moreover have "s = rstrip c s @ z"
    unfolding rstrip_def z_def by (simp flip: rev_append)
  ultimately show ?thesis by metis
qed

lemma rstrip_snoc_same [simp]: "rstrip c (s @ [c]) = rstrip c s"
  by (simp add: rstrip_def)

lemma rstrip_Cons_neq: "x \<noteq> c \<Longrightarrow> rstrip c (x # s) = x # rstrip c s"
  using rstrip_append [of c "[x]" s] by (simp add: rstrip_def)

definition digits_only :: "string \<Rightarrow> bool" where
  "digits_only s \<longleftrightarrow> list_all is_digit s"

lemma digits_only_simps [simp]:
  "digits_only []" "digits_only (x # s) \<longleftrightarrow> is_digit x \<and> digits_only s"
  "digits_only (s @ t) \<longleftrightarrow> digits_only s \<and> digits_only t" "digits_only (nat_str n)"
  "digits_only (replicate k CHR ''0'')"
  using nat_str_digits [of n] by (auto simp: digits_only_def list_all_iff is_digit_def)

lemma digits_only_take: "digits_only s \<Longrightarrow> digits_only (take k s) \<and> digits_only (drop k s)"
  by (auto simp: digits_only_def list_all_iff dest: in_set_takeD in_set_dropD)

lemma digits_only_not: "digits_only s \<Longrightarrow> CHR ''.'' \<notin> set s \<and> CHR ''-'' \<notin> set s"
  by (auto simp: digits_only_def list_all_iff is_digit_def)

lemma fixed_parts_digits:
  "fixed_parts n e = (ip, fp) \<Longrightarrow> digits_only ip \<and> digits_only fp \<and> ip \<noteq> []"
  using digits_only_take [of "nat_str n"]
  by (auto simp: fixed_parts_def Let_def is_digit_def split: if_splits)

text \<open>The canonical text of a non-zero decimal from its two parts.\<close>

lemma canonical_parts:
  assumes "coef d \<noteq> 0" and "fixed_parts (nat \<bar>coef d\<bar>) (dexp d) = (ip, fp)"
    and "ip \<noteq> ''0'' \<or> rstrip CHR ''0'' fp \<noteq> []"
  shows "canonical_decimal (Finite d) = Inr ((if coef d < 0 then ''-'' else []) @ ip
    @ (if rstrip CHR ''0'' fp = [] then [] else CHR ''.'' # rstrip CHR ''0'' fp))"
proof -
  define sg g where "sg = (if coef d < 0 then ''-'' else [])" and "g = rstrip CHR ''0'' fp"
  note dg = fixed_parts_digits [OF assms(2)]
  have nd: "CHR ''.'' \<notin> set ip" "CHR ''.'' \<notin> set fp" "CHR ''.'' \<notin> set sg" "CHR ''.'' \<notin> set g"
    using dg digits_only_not rstrip_subset by (auto simp: sg_def g_def)
  have dot: "rstrip CHR ''.'' [CHR ''.''] = []" by (simp add: rstrip_def)
  have point: "rstrip CHR ''.'' (CHR ''.'' # g) = CHR ''.'' # g" if "g \<noteq> []"
    using rstrip_append [of "CHR ''.''" "[CHR ''.'']" g] that nd(4) by (simp add: rstrip_none)
  have strip: "rstrip CHR ''.'' (rstrip CHR ''0'' ((sg @ ip) @ CHR ''.'' # fp)) = sg @ ip @ (if g = [] then [] else CHR ''.'' # g)"
    using nd by (cases "g = []") (simp_all add: rstrip_append rstrip_Cons_neq rstrip_none dot point flip: g_def)
  have form: "format_f d = sg @ ip @ (if fp = [] then [] else CHR ''.'' # fp)"
    using assms(2) by (simp add: format_f_def sg_def)
  have out: "sg @ ip @ (if g = [] then [] else CHR ''.'' # g) \<noteq> ''-0''"
    "sg @ ip @ (if g = [] then [] else CHR ''.'' # g) \<noteq> []"
    using dg assms(3) by (auto simp: sg_def g_def append_eq_Cons_conv is_digit_def split: if_splits)
  show ?thesis
    using assms(1) form strip out nd by (auto simp: canonical_decimal_def Let_def g_def sg_def)
qed

text \<open>Reading the text back: the number it denotes.\<close>

definition text_value :: "string \<Rightarrow> rat" where
  "text_value s = (let neg = (s \<noteq> [] \<and> hd s = CHR ''-''); u = (if neg then tl s else s);
     ip = takeWhile (\<lambda>x. x \<noteq> CHR ''.'') u; fp = drop (Suc (length ip)) u in
     (if neg then - 1 else 1) * (of_nat (str_nat (ip @ fp)) / 10 ^ length fp))"

lemma str_nat_append_zeros: "str_nat (s @ replicate k CHR ''0'') = str_nat s * 10 ^ k"
  by (induction k) (simp_all add: str_nat_def replicate_append_same [symmetric] char_digit_def
      del: replicate_Suc add: replicate_Suc [folded replicate_append_same])

lemma str_nat_zeros_append: "str_nat (replicate k CHR ''0'' @ s) = str_nat s"
  by (induction k) (simp_all add: str_nat_def char_digit_def)

lemma fixed_parts_value:
  assumes "fixed_parts n e = (ip, fp)"
  shows "of_nat (str_nat (ip @ fp)) / 10 ^ length fp = (of_nat n * 10 powi e :: rat)"
proof -
  define L where "L = length (nat_str n)"
  have zero: "str_nat (CHR ''0'' # s) = str_nat s" for s
    using str_nat_zeros_append [of 1 s] by simp
  have neg: "(10 :: rat) powi e = 1 / 10 ^ k" if "e = - int k" for k
    using that by (simp add: power_int_minus divide_inverse)
  consider "int L + e < 0" | "0 < e" | "0 \<le> int L + e" "e \<le> 0" by linarith
  then show ?thesis
  proof cases
    case 1
    then have "ip = ''0''" "fp = replicate (nat (- (int L + e))) CHR ''0'' @ nat_str n"
      using assms by (auto simp: fixed_parts_def Let_def L_def)
    then have "str_nat (ip @ fp) = n" "e = - int (length fp)"
      using 1 by (simp_all add: zero str_nat_zeros_append L_def)
    then show ?thesis using neg [of "length fp"] by simp
  next
    case 2
    then have "ip = nat_str n @ replicate (nat e) CHR ''0''" "fp = []"
      using assms by (auto simp: fixed_parts_def Let_def L_def)
    then show ?thesis using 2 by (simp add: str_nat_append_zeros power_int_def)
  next
    case 3
    define p where "p = nat (int L + e)"
    have parts: "ip = (if take p (nat_str n) = [] then ''0'' else take p (nat_str n))" "fp = drop p (nat_str n)"
      using assms 3 by (auto simp: fixed_parts_def Let_def L_def p_def)
    have "str_nat (ip @ fp) = n"
      by (cases "p = 0") (simp_all add: parts zero)
    moreover have "e = - int (length fp)" using 3 by (simp add: parts p_def L_def)
    ultimately show ?thesis using neg [of "length fp"] by simp
  qed
qed

lemma canonical_nonzero:
  assumes "coef d \<noteq> 0" and "fixed_parts (nat \<bar>coef d\<bar>) (dexp d) = (ip, fp)"
  shows "ip \<noteq> ''0'' \<or> rstrip CHR ''0'' fp \<noteq> []"
proof (rule ccontr)
  assume "\<not> (ip \<noteq> ''0'' \<or> rstrip CHR ''0'' fp \<noteq> [])"
  then obtain k where "ip = ''0''" "fp = replicate k CHR ''0''" using rstrip_replicate [of fp "CHR ''0''"] by auto
  then have "str_nat (ip @ fp) = 0"
    using str_nat_append_zeros [of "''0''" k] by (simp add: str_nat_def char_digit_def)
  with fixed_parts_value [OF assms(2)] assms(1) show False by simp
qed

definition canonical_text :: "dec \<Rightarrow> string" where
  "canonical_text d = (case fixed_parts (nat \<bar>coef d\<bar>) (dexp d) of (ip, fp) \<Rightarrow>
     (if coef d < 0 then ''-'' else []) @ ip
     @ (if rstrip CHR ''0'' fp = [] then [] else CHR ''.'' # rstrip CHR ''0'' fp))"

lemma canonical_decimal_text:
  "coef d \<noteq> 0 \<Longrightarrow> canonical_decimal (Finite d) = Inr (canonical_text d)"
  using canonical_parts [of d] canonical_nonzero [of d]
  by (simp add: canonical_text_def split: prod.splits)

lemma canonical_decimal_zero: "coef d = 0 \<Longrightarrow> canonical_decimal (Finite d) = Inr ''0''"
  by (simp add: canonical_decimal_def)

lemma takeWhile_point:
  assumes "CHR ''.'' \<notin> set ip"
  shows "takeWhile (\<lambda>x. x \<noteq> CHR ''.'') (ip @ (if g = [] then [] else CHR ''.'' # g)) = ip"
  using assms by (auto simp: takeWhile_append intro!: takeWhile_eq_all_conv [THEN iffD2])

lemma text_value_canonical:
  assumes "coef d \<noteq> 0"
  shows "text_value (canonical_text d) = dval d"
proof -
  obtain ip fp where p: "fixed_parts (nat \<bar>coef d\<bar>) (dexp d) = (ip, fp)" by fastforce
  define g where "g = rstrip CHR ''0'' fp"
  obtain k where k: "fp = g @ replicate k CHR ''0''" using rstrip_replicate g_def by blast
  note dg = fixed_parts_digits [OF p]
  define u where "u = ip @ (if g = [] then [] else CHR ''.'' # g)"
  have tw: "takeWhile (\<lambda>x. x \<noteq> CHR ''.'') u = ip" "drop (Suc (length ip)) u = g"
    using dg digits_only_not takeWhile_point [of ip g] by (auto simp: u_def)
  have len: "length u - Suc (length ip) = length g" by (simp add: u_def)
  have hd: "u \<noteq> []" "hd u \<noteq> CHR ''-''"
    using dg digits_only_not [of ip] by (auto simp: u_def hd_append intro: hd_in_set dest: hd_in_set)
  have "of_nat (str_nat (ip @ g)) / 10 ^ length g = (of_nat (str_nat (ip @ fp)) / 10 ^ length fp :: rat)"
    using str_nat_append_zeros [of "ip @ g" k] by (simp add: k power_add)
  also have "\<dots> = of_nat (nat \<bar>coef d\<bar>) * 10 powi dexp d" by (rule fixed_parts_value [OF p])
  finally have val: "of_nat (str_nat (ip @ g)) / 10 ^ length g = (of_int \<bar>coef d\<bar> * 10 powi dexp d :: rat)"
    by (simp add: of_nat_nat)
  have shown: "canonical_text d = (if coef d < 0 then ''-'' else []) @ u"
    by (simp add: canonical_text_def p u_def g_def)
  show ?thesis
    using hd val by (auto simp: len shown text_value_def Let_def tw dval_def)
qed

text \<open>Insignificant zeroes do not show.\<close>

lemma nat_str_times_ten: "0 < n \<Longrightarrow> nat_str (n * 10) = nat_str n @ ''0''"
proof -
  assume "0 < n"
  have "digit_char 0 = CHR ''0''" by code_simp
  then show ?thesis using \<open>0 < n\<close> by (subst nat_str.simps) simp
qed

lemma canonical_text_times_ten:
  assumes "c \<noteq> 0"
  shows "canonical_text (Dec (c * 10) (e - 1)) = canonical_text (Dec c e)"
proof -
  define n where "n = nat \<bar>c\<bar>"
  have n: "0 < n" "nat \<bar>c * 10\<bar> = n * 10" using assms by (simp_all add: n_def abs_mult nat_mult_distrib)
  define L where "L = length (nat_str n)"
  have "fst (fixed_parts (n * 10) (e - 1)) = fst (fixed_parts n e)
      \<and> rstrip CHR ''0'' (snd (fixed_parts (n * 10) (e - 1))) = rstrip CHR ''0'' (snd (fixed_parts n e))"
  proof -
    consider "int L + e < 0" | "1 < e" | "e = 1" | "0 \<le> int L + e" "e \<le> 0" by linarith
    then show ?thesis
    proof cases
      case 1
      then show ?thesis
        using rstrip_snoc_same [of "CHR ''0''" "replicate (nat (- (int L + e))) CHR ''0'' @ nat_str n"]
        by (simp add: fixed_parts_def Let_def nat_str_times_ten [OF n(1)] flip: L_def)
    next
      case 2
      then have "nat e = Suc (nat (e - 1))" by simp
      with 2 show ?thesis by (simp add: fixed_parts_def Let_def nat_str_times_ten [OF n(1)])
    next
      case 3
      then show ?thesis by (simp add: fixed_parts_def Let_def nat_str_times_ten [OF n(1)])
    next
      case 4
      define p where "p = nat (int L + e)"
      have "p \<le> L" "int L + e = int p" using 4 by (simp_all add: p_def)
      then show ?thesis
        using 4 by (simp add: fixed_parts_def Let_def nat_str_times_ten [OF n(1)] flip: L_def)
    qed
  qed
  moreover have "c * 10 < 0 \<longleftrightarrow> c < 0" by simp
  ultimately show ?thesis
    by (simp add: canonical_text_def n(2) split_beta flip: n_def)
qed

lemma canonical_text_scaled: "c \<noteq> 0 \<Longrightarrow> canonical_text (Dec (c * 10 ^ k) (e - int k)) = canonical_text (Dec c e)"
proof (induction k)
  case (Suc k)
  have "canonical_text (Dec (c * 10 ^ k * 10) (e - int k - 1)) = canonical_text (Dec (c * 10 ^ k) (e - int k))"
    using Suc.prems by (intro canonical_text_times_ten) simp
  with Suc show ?case by (simp add: mult.commute mult.left_commute diff_diff_eq add.commute)
qed simp

lemma dval_zero_iff: "dval d = 0 \<longleftrightarrow> coef d = 0"
  by (simp add: dval_def)

text \<open>Two decimals have the same canonical text exactly when they are the same number.\<close>

lemma canonical_decimal_exact:
  "canonical_decimal (Finite a) = canonical_decimal (Finite b) \<longleftrightarrow> dval a = dval b"
proof (cases "coef a = 0 \<or> coef b = 0")
  case True
  have nz: "canonical_text d \<noteq> ''0''" if "coef d \<noteq> 0" for d
  proof
    assume "canonical_text d = ''0''"
    then have "dval d = text_value ''0''" using text_value_canonical [OF that] by simp
    then show False using that dval_zero_iff [of d] by (simp add: text_value_def str_nat_def char_digit_def)
  qed
  show ?thesis
    using True nz [of a] nz [of b] dval_zero_iff [of a] dval_zero_iff [of b]
    by (cases "coef a = 0"; cases "coef b = 0") (auto simp: canonical_decimal_text canonical_decimal_zero)
next
  case False
  have scaled: "canonical_text x = canonical_text y"
    if "dval x = dval y" "dexp x \<le> dexp y" "coef y \<noteq> 0" for x y
  proof -
    define k where "k = nat (dexp y - dexp x)"
    have "of_int (scale_to (dexp x) y) * 10 powi dexp x = (of_int (coef x) * 10 powi dexp x :: rat)"
      using dval_scale_to [OF that(2)] that(1) by (simp add: dval_def)
    then have "(of_int (coef x) :: rat) = of_int (coef y * 10 ^ k)" by (simp add: scale_to_def k_def)
    then have "coef x = coef y * 10 ^ k" by (simp only: of_int_eq_iff)
    moreover have "dexp x = dexp y - int k" using that(2) by (simp add: k_def)
    ultimately have "x = Dec (coef y * 10 ^ k) (dexp y - int k)" by (simp add: dec.expand)
    then show ?thesis using canonical_text_scaled [OF that(3), of k "dexp y"] by simp
  qed
  have "canonical_text a = canonical_text b" if "dval a = dval b"
    using scaled [of a b] scaled [of b a] that False by (cases "dexp a \<le> dexp b") auto
  moreover have "dval a = dval b" if "canonical_text a = canonical_text b"
    using that text_value_canonical False by metis
  ultimately show ?thesis using False by (auto simp: canonical_decimal_text)
qed

subsection \<open>Instants\<close>

text \<open>
  A \<^verbatim>\<open>datetime\<close> argument: naive, or aware, then given by its UTC instant in
  microseconds since \<^verbatim>\<open>0001-01-01T00:00:00Z\<close>.  \<^verbatim>\<open>astimezone(UTC)\<close> raises
  \<^verbatim>\<open>OverflowError\<close> when the instant falls outside the years 1 to 9999.
\<close>

datatype instant_value = Naive | Aware datetime

definition is_leap :: "nat \<Rightarrow> bool" where
  "is_leap y \<longleftrightarrow> y mod 4 = 0 \<and> (y mod 100 \<noteq> 0 \<or> y mod 400 = 0)"

definition month_lengths :: "nat \<Rightarrow> nat list" where
  "month_lengths y = [31, if is_leap y then 29 else 28, 31, 30, 31, 30, 31, 31, 30, 31, 30, 31]"

lemma year_positive: "0 < sum_list (month_lengths y)"
  by (simp add: month_lengths_def)

function year_from :: "nat \<Rightarrow> nat \<Rightarrow> nat \<times> nat" where
  "year_from y n = (if n < sum_list (month_lengths y) then (y, n)
     else year_from (Suc y) (n - sum_list (month_lengths y)))"
  by auto
termination
proof (relation "measure snd")
  fix y n
  assume "\<not> n < sum_list (month_lengths y)"
  then show "((Suc y, n - sum_list (month_lengths y)), (y, n)) \<in> measure snd"
    using year_positive [of y] by simp
qed simp

declare year_from.simps [simp del]

fun month_from :: "nat \<Rightarrow> nat list \<Rightarrow> nat \<Rightarrow> nat \<times> nat" where
  "month_from m [] n = (m, n)"
| "month_from m (l # ls) n = (if n < l then (m, n) else month_from (Suc m) ls (n - l))"

definition isoformat_utc :: "nat \<Rightarrow> nat \<Rightarrow> nat \<Rightarrow> nat \<Rightarrow> string" where
  "isoformat_utc y m d us = pad_str 4 y @ ''-'' @ pad_str 2 m @ ''-'' @ pad_str 2 d @ ''T''
     @ pad_str 2 (us div 3600000000) @ '':'' @ pad_str 2 (us div 60000000 mod 60) @ '':''
     @ pad_str 2 (us div 1000000 mod 60) @ ''.'' @ pad_str 6 (us mod 1000000) @ ''+00:00''"

definition MICROS_PER_DAY :: nat where "MICROS_PER_DAY = 86400000000"

definition canonical_instant :: "instant_value \<Rightarrow> encoding_error + string" where
  "canonical_instant v = (case v of
     Naive \<Rightarrow> Inl (CanonicalEncodingError ''A canonical instant must be timezone-aware.'')
   | Aware t \<Rightarrow>
       if t < 0 then Inl OverflowError
       else let (y, n) = year_from 1 (nat t div MICROS_PER_DAY);
                (m, d) = month_from 1 (month_lengths y) n
            in if y > 9999 then Inl OverflowError
               else Inr (isoformat_utc y m (d + 1) (nat t mod MICROS_PER_DAY)))"

lemma year_from_day:
  "year_from y n = (y', r) \<Longrightarrow> n = (\<Sum>i = y..<y'. sum_list (month_lengths i)) + r
     \<and> r < sum_list (month_lengths y') \<and> y \<le> y'"
proof (induction y n rule: year_from.induct)
  case (1 y n)
  show ?case
  proof (cases "n < sum_list (month_lengths y)")
    case True
    then show ?thesis using "1.prems" by (simp add: year_from.simps [of y n])
  next
    case False
    then have "year_from (Suc y) (n - sum_list (month_lengths y)) = (y', r)"
      using "1.prems" by (simp add: year_from.simps [of y n])
    from "1.IH" [OF False this] False show ?thesis by (auto simp: sum.atLeast_Suc_lessThan)
  qed
qed

lemma month_from_day:
  "month_from m ls n = (m', r) \<Longrightarrow> n < sum_list ls \<Longrightarrow>
     m \<le> m' \<and> m' < m + length ls \<and> n = sum_list (take (m' - m) ls) + r \<and> r < ls ! (m' - m)"
proof (induction m ls n rule: month_from.induct)
  case (2 m l ls n)
  show ?case
  proof (cases "n < l")
    case True
    with 2 show ?thesis by simp
  next
    case False
    with 2 have "Suc m \<le> m' \<and> m' < Suc m + length ls \<and> n - l = sum_list (take (m' - Suc m) ls) + r
        \<and> r < ls ! (m' - Suc m)"
      by (intro "2.IH") auto
    moreover from this have "m' - m = Suc (m' - Suc m)" by linarith
    ultimately show ?thesis using False by (simp, linarith)
  qed
qed simp

lemma time_of_day:
  "us = ((us div 3600000000) * 60 + us div 60000000 mod 60) * 60000000
     + (us div 1000000 mod 60) * 1000000 + us mod (1000000 :: nat)"
proof -
  define a b h where "a = us div 1000000" and "b = us div 60000000" and "h = us div 3600000000"
  have "b = h * 60 + b mod 60" "a = b * 60 + a mod 60"
    using div_mult_mod_eq [of b 60] div_mult_mod_eq [of a 60]
    by (simp_all add: a_def b_def h_def div_mult2_eq [symmetric])
  moreover have "us = a * 1000000 + us mod 1000000" by (simp add: a_def)
  ultimately have "us = ((h * 60 + b mod 60) * 60 + a mod 60) * 1000000 + us mod 1000000" by metis
  then show ?thesis by (simp add: a_def b_def h_def distrib_right)
qed

lemma isoformat_utc_injective:
  assumes "isoformat_utc y m d u = isoformat_utc y' m' d' u'"
    and "y < 10000" "y' < 10000" "m < 100" "m' < 100" "d < 100" "d' < 100"
    and "u < MICROS_PER_DAY" "u' < MICROS_PER_DAY"
  shows "y = y' \<and> m = m' \<and> d = d' \<and> u = u'"
proof -
  have h: "u div 3600000000 < 100" "u' div 3600000000 < 100"
    using assms(8,9) by (auto simp: MICROS_PER_DAY_def less_mult_imp_div_less)
  have "y = y'" "m = m'" "d = d'" "u div 3600000000 = u' div 3600000000"
    "u div 60000000 mod 60 = u' div 60000000 mod 60" "u div 1000000 mod 60 = u' div 1000000 mod 60"
    "u mod 1000000 = u' mod 1000000"
    using assms(1-7) h pad_str_inj [of _ 4] pad_str_inj [of _ 2] pad_str_inj [of _ 6]
    by (simp_all add: isoformat_utc_def less_trans [of "_ mod 60" 60 100])
  then show ?thesis using time_of_day [of u] time_of_day [of u'] by simp
qed

lemma month_lengths_bound: "i < length (month_lengths y) \<Longrightarrow> month_lengths y ! i \<le> 31"
  by (auto simp: month_lengths_def nth_Cons' split: if_splits)

lemma canonical_instant_injective:
  assumes "canonical_instant (Aware s) = Inr x" and "canonical_instant (Aware t) = Inr x"
  shows "s = t"
proof -
  have fields: "\<exists>y m d. x = isoformat_utc y m (d + 1) (nat s mod MICROS_PER_DAY) \<and> y < 10000 \<and> m < 100 \<and> d + 1 < 100
      \<and> 0 \<le> s \<and> year_from 1 (nat s div MICROS_PER_DAY) = (y, sum_list (take (m - 1) (month_lengths y)) + d)"
    if "canonical_instant (Aware s) = Inr x" for s
  proof -
    obtain y n where y: "year_from 1 (nat s div MICROS_PER_DAY) = (y, n)" by fastforce
    obtain m d where m: "month_from 1 (month_lengths y) n = (m, d)" by fastforce
    have day: "m < 1 + length (month_lengths y)" "n = sum_list (take (m - 1) (month_lengths y)) + d"
      "d < month_lengths y ! (m - 1)" "1 \<le> m"
      using month_from_day [OF m] year_from_day [OF y] by auto
    then have "d < 31" using month_lengths_bound [of "m - 1" y] by linarith
    moreover have "m < 100" using day(1) by (simp add: month_lengths_def)
    ultimately show ?thesis
      using that y m day(2)
      by (intro exI [of _ y] exI [of _ m] exI [of _ d]) (auto simp: canonical_instant_def Let_def split: if_splits)
  qed
  obtain y m d where s: "x = isoformat_utc y m (d + 1) (nat s mod MICROS_PER_DAY)" "y < 10000" "m < 100" "d + 1 < 100" "0 \<le> s"
    "year_from 1 (nat s div MICROS_PER_DAY) = (y, sum_list (take (m - 1) (month_lengths y)) + d)"
    using fields [OF assms(1)] by blast
  obtain y' m' d' where t: "x = isoformat_utc y' m' (d' + 1) (nat t mod MICROS_PER_DAY)" "y' < 10000" "m' < 100" "d' + 1 < 100" "0 \<le> t"
    "year_from 1 (nat t div MICROS_PER_DAY) = (y', sum_list (take (m' - 1) (month_lengths y')) + d')"
    using fields [OF assms(2)] by blast
  have "y = y' \<and> m = m' \<and> d + 1 = d' + 1 \<and> nat s mod MICROS_PER_DAY = nat t mod MICROS_PER_DAY"
    using s t by (intro isoformat_utc_injective) (simp_all add: MICROS_PER_DAY_def)
  moreover from this have "nat s div MICROS_PER_DAY = nat t div MICROS_PER_DAY"
    using year_from_day [OF s(6)] year_from_day [OF t(6)] by simp
  ultimately have "nat s = nat t" by (metis div_mult_mod_eq)
  with s(5) t(5) show ?thesis by simp
qed

end
