(* ===== verification/Money.thy ===== *)
theory Money
  imports Py_Decimal
begin

text \<open>
  Exact money and exchange rates (\<^verbatim>\<open>money.py\<close>): currencies, amounts quantised to the
  currency's minor units, arithmetic that refuses to mix currencies, the exact
  proportional split, and rate snapshots.  An amount, a factor or a weight is a
  finite decimal (the \<^verbatim>\<open>int\<close>, \<^verbatim>\<open>str\<close> and \<^verbatim>\<open>Decimal\<close> arguments after \<^verbatim>\<open>Decimal(...)\<close>).
  Currency codes are ASCII.  \<open>InvalidOperation\<close> is the exception of \<^verbatim>\<open>quantize\<close> when
  the result needs more than 28 digits; the code does not catch it.
\<close>

datatype money_error =
    MoneyError string
  | CurrencyMismatchError string string
  | InvalidOperation
  | IndexError

subsection \<open>Currencies\<close>

record Currency =
  cur_code :: string
  minor_units :: int

definition is_alpha :: "char \<Rightarrow> bool" where
  "is_alpha c \<longleftrightarrow> is_lower c \<or> is_upper c"

definition make_Currency :: "string \<Rightarrow> int \<Rightarrow> money_error + Currency" where
  "make_Currency c units =
     (if \<not> (length c = 3 \<and> list_all is_alpha c) then Inl (MoneyError ''invalid ISO-4217 code'')
      else if units < 0 then Inl (MoneyError ''minor_units must be >= 0'')
      else Inr \<lparr>cur_code = map to_upper c, minor_units = units\<rparr>)"

text \<open>The exponent of \<^verbatim>\<open>Decimal(1).scaleb(-minor_units)\<close>; its coefficient is one.\<close>

definition quantum :: "Currency \<Rightarrow> dec" where
  "quantum cur = Dec 1 (- minor_units cur)"

definition REGISTRY :: "(string \<times> Currency) list" where
  "REGISTRY = map (\<lambda>(c, u). (c, \<lparr>cur_code = c, minor_units = u\<rparr>))
     [(''NGN'', 2), (''USD'', 2), (''EUR'', 2), (''GBP'', 2), (''JPY'', 0)]"

text \<open>The default of \<^verbatim>\<open>dict.get\<close> is constructed first, so a malformed code raises.\<close>

definition currency_of :: "string \<Rightarrow> money_error + Currency" where
  "currency_of c = bindr (make_Currency c 2) (\<lambda>default.
     Inr (case map_of REGISTRY (map to_upper c) of None \<Rightarrow> default | Some cur \<Rightarrow> cur))"

subsection \<open>Amounts\<close>

record Money =
  amount :: dec
  currency :: Currency

definition DEFAULT_ROUNDING :: rounding where "DEFAULT_ROUNDING = ROUND_HALF_UP"

definition quantize_to :: "rounding \<Rightarrow> Currency \<Rightarrow> dec \<Rightarrow> money_error + dec" where
  "quantize_to mode cur d = (case quantize mode (dexp (quantum cur)) d of
     None \<Rightarrow> Inl InvalidOperation | Some q \<Rightarrow> Inr q)"

text \<open>\<^verbatim>\<open>Money(amount, currency)\<close>: the constructor quantises.\<close>

definition make_Money :: "dec \<Rightarrow> Currency \<Rightarrow> money_error + Money" where
  "make_Money d cur = bindr (quantize_to DEFAULT_ROUNDING cur d)
     (\<lambda>q. Inr \<lparr>amount = q, currency = cur\<rparr>)"

definition Money_of :: "dec \<Rightarrow> Currency \<Rightarrow> rounding \<Rightarrow> money_error + Money" where
  "Money_of d cur mode = bindr (quantize_to mode cur d) (\<lambda>q. make_Money q cur)"

definition Money_zero :: "Currency \<Rightarrow> money_error + Money" where
  "Money_zero cur = make_Money (Dec 0 0) cur"

definition same_currency :: "Money \<Rightarrow> Money \<Rightarrow> money_error + unit" where
  "same_currency m n = ensure (currency m = currency n)
     (CurrencyMismatchError (cur_code (currency m)) (cur_code (currency n)))"

definition money_add :: "Money \<Rightarrow> Money \<Rightarrow> money_error + Money" where
  "money_add m n = bindr (same_currency m n) (\<lambda>_. make_Money (dec_add (amount m) (amount n)) (currency m))"

definition money_subtract :: "Money \<Rightarrow> Money \<Rightarrow> money_error + Money" where
  "money_subtract m n = bindr (same_currency m n) (\<lambda>_. make_Money (dec_sub (amount m) (amount n)) (currency m))"

definition money_multiply :: "Money \<Rightarrow> dec \<Rightarrow> rounding \<Rightarrow> money_error + Money" where
  "money_multiply m factor mode =
     bindr (quantize_to mode (currency m) (dec_mul (amount m) factor)) (\<lambda>q. make_Money q (currency m))"

definition money_neg :: "Money \<Rightarrow> money_error + Money" where
  "money_neg m = make_Money (dec_neg (amount m)) (currency m)"

definition money_less :: "Money \<Rightarrow> Money \<Rightarrow> money_error + bool" where
  "money_less m n = bindr (same_currency m n) (\<lambda>_. Inr (dec_less (amount m) (amount n)))"

definition money_le :: "Money \<Rightarrow> Money \<Rightarrow> money_error + bool" where
  "money_le m n = bindr (same_currency m n) (\<lambda>_. Inr (dec_le (amount m) (amount n)))"

definition is_zero :: "Money \<Rightarrow> bool" where "is_zero m \<longleftrightarrow> coef (amount m) = 0"
definition is_negative :: "Money \<Rightarrow> bool" where "is_negative m \<longleftrightarrow> coef (amount m) < 0"
definition is_positive :: "Money \<Rightarrow> bool" where "is_positive m \<longleftrightarrow> coef (amount m) > 0"

subsection \<open>Exact distribution\<close>

text \<open>\<^verbatim>\<open>sum(decs)\<close> starts from the integer zero.\<close>

definition dec_sum :: "dec list \<Rightarrow> dec" where
  "dec_sum ds = foldl dec_add (Dec 0 0) ds"

definition shares :: "int \<Rightarrow> dec list \<Rightarrow> dec \<Rightarrow> dec list" where
  "shares units ws weight_sum = map (\<lambda>w. dec_div (dec_mul (dec_of_int units) w) weight_sum) ws"

text \<open>
  \<^verbatim>\<open>sorted(range(n), key=..., reverse=True)\<close>: by descending fractional part, and
  stable, so equal parts keep their order.
\<close>

definition remainder_order :: "dec list \<Rightarrow> int list \<Rightarrow> nat list" where
  "remainder_order raw floors =
     sort_key (\<lambda>i. - dval (dec_sub (raw ! i) (dec_of_int (floors ! i)))) [0..<length raw]"

text \<open>\<^verbatim>\<open>for k in range(remainder): floors[order[k]] += 1\<close>.\<close>

fun hand_out :: "nat list \<Rightarrow> nat \<Rightarrow> int list \<Rightarrow> money_error + int list" where
  "hand_out order 0 floors = Inr floors"
| "hand_out [] (Suc k) floors = Inl IndexError"
| "hand_out (i # order) (Suc k) floors = hand_out order k (floors[i := floors ! i + 1])"

definition allocate :: "Money \<Rightarrow> dec list \<Rightarrow> money_error + Money list" where
  "allocate m ws =
     (if ws = [] then Inl (MoneyError ''allocate needs at least one weight'')
      else if list_ex (\<lambda>w. coef w < 0) ws then Inl (MoneyError ''allocate weights must be non-negative'')
      else let weight_sum = dec_sum ws in
      if coef weight_sum \<le> 0 then Inl (MoneyError ''allocate weights must sum to a positive value'')
      else let
        q = quantum (currency m);
        total_units = dec_int (to_integral_value ROUND_HALF_EVEN (dec_div (amount m) q));
        raw = shares total_units ws weight_sum;
        floors = map (\<lambda>r. dec_int (to_integral_value ROUND_FLOOR r)) raw;
        remainder = total_units - sum_list floors;
        order = remainder_order raw floors
      in bindr (hand_out order (nat remainder) floors) (\<lambda>units.
         map_result (\<lambda>u. make_Money (dec_mul (dec_of_int u) q) (currency m)) units))"

definition split :: "Money \<Rightarrow> int \<Rightarrow> money_error + Money list" where
  "split m n = (if n \<le> 0 then Inl (MoneyError ''split n must be >= 1'')
     else allocate m (replicate (nat n) (dec_of_int 1)))"

subsection \<open>Exchange rates\<close>

record ExchangeRate =
  base :: Currency
  quote :: Currency
  rate :: dec
  as_of :: datetime
  rate_source :: string
  rate_id :: "string option"

definition make_ExchangeRate :: "ExchangeRate \<Rightarrow> money_error + ExchangeRate" where
  "make_ExchangeRate r =
     (if coef (rate r) \<le> 0 then Inl (MoneyError ''exchange rate must be positive'')
      else if base r = quote r then Inl (MoneyError ''base and quote currencies must differ'')
      else Inr r)"

definition convert :: "ExchangeRate \<Rightarrow> Money \<Rightarrow> rounding \<Rightarrow> money_error + Money" where
  "convert r m mode =
     (if currency m \<noteq> base r
      then Inl (CurrencyMismatchError (cur_code (base r)) (cur_code (currency m)))
      else Money_of (dec_mul (amount m) (rate r)) (quote r) mode)"

subsection \<open>Well-formed amounts\<close>

text \<open>Every \<^verbatim>\<open>Money\<close> is quantised to its currency and fits the context's precision.\<close>

definition money_ok :: "Money \<Rightarrow> bool" where
  "money_ok m \<longleftrightarrow> dexp (amount m) = - minor_units (currency m) \<and> \<bar>coef (amount m)\<bar> < 10 ^ 28"

lemma quantize_Some:
  assumes "quantize mode e d = Some q"
  shows "dexp q = e \<and> \<bar>coef q\<bar> < 10 ^ 28"
proof -
  have fits: "\<bar>c\<bar> < 10 ^ 28" if "\<not> ndigits (nat \<bar>c\<bar>) > PREC" for c :: int
    using that ndigits_le_iff [of PREC "nat \<bar>c\<bar>"] by (simp add: PREC_def nat_less_iff)
  show ?thesis
    using assms fits by (auto simp: quantize_def Let_def split: if_splits)
qed

lemma make_Money_ok:
  assumes "make_Money d cur = Inr m"
  shows "money_ok m" and "currency m = cur"
  using assms quantize_Some
  by (auto simp: make_Money_def quantize_to_def quantum_def money_ok_def bindr_eq_Inr split: option.splits)

lemma quantize_exact:
  assumes "\<bar>c\<bar> < 10 ^ 28"
  shows "quantize mode e (Dec c e) = Some (Dec c e)"
proof -
  have "ndigits (nat \<bar>c\<bar>) \<le> PREC"
    using assms ndigits_le_iff [of PREC "nat \<bar>c\<bar>"] by (simp add: PREC_def nat_less_iff)
  then show ?thesis by (simp add: quantize_def Let_def rescale_def scale_to_def)
qed

lemma dec_fix_exact: "\<bar>c\<bar> < 10 ^ 28 \<Longrightarrow> dec_fix (Dec c e) = Dec c e"
  using ndigits_le_iff [of PREC "nat \<bar>c\<bar>"] by (simp add: dec_fix_def PREC_def nat_less_iff)

lemma quantize_too_long:
  assumes "\<not> \<bar>c\<bar> < 10 ^ 28"
  shows "quantize mode e (dec_fix (Dec c e)) = None"
proof -
  define n k c' where "n = ndigits (nat \<bar>c\<bar>)" and "k = n - 28" and "c' = round_coef ROUND_HALF_EVEN k c"
  have n: "28 < n" using assms ndigits_le_iff [of 28 "nat \<bar>c\<bar>"] by (simp add: n_def nat_less_iff)
  have lo: "10 ^ 27 * 10 ^ k \<le> nat \<bar>c\<bar>"
  proof -
    have "c \<noteq> 0" using assms by auto
    with ndigits_bounds [of "nat \<bar>c\<bar>"] have "10 ^ (n - 1) \<le> nat \<bar>c\<bar>" by (simp add: n_def)
    moreover have "n - 1 = 27 + k" using n by (simp add: k_def)
    ultimately show ?thesis by (simp only: power_add)
  qed
  then have "10 ^ 27 \<le> nat \<bar>c'\<bar>" unfolding c'_def round_coef_abs by (rule round_nat_ge)
  then have nd: "28 \<le> ndigits (nat \<bar>c'\<bar>)" "c' \<noteq> 0"
    using ndigits_le_iff [of 27 "nat \<bar>c'\<bar>"] by auto
  show ?thesis
  proof (cases "ndigits (nat \<bar>c'\<bar>) > 28")
    case True
    have "\<not> nat \<bar>c'\<bar> < 10 ^ 28" using True ndigits_le_iff [of 28 "nat \<bar>c'\<bar>"] by simp
    then have big: "10 ^ 27 * 10 \<le> \<bar>c'\<bar>" by (simp add: nat_less_iff)
    then have "10 ^ 27 \<le> \<bar>c' div 10\<bar>" by linarith
    then have "\<not> ndigits (nat \<bar>c' div 10\<bar>) \<le> 27" "c' div 10 \<noteq> 0"
      using ndigits_le_iff [of 27 "nat \<bar>c' div 10\<bar>"] by auto
    with True n show ?thesis
      by (simp add: dec_fix_def Let_def PREC_def quantize_def flip: n_def k_def c'_def)
  next
    case False
    moreover have "0 < k" using n by (simp add: k_def)
    ultimately show ?thesis using nd n
      by (simp add: dec_fix_def Let_def PREC_def quantize_def flip: n_def k_def c'_def)
  qed
qed

text \<open>
  Addition of two amounts: it refuses to mix currencies, it raises when the
  exact sum needs more than 28 digits, and in every other case it is the exact
  sum in the common currency at its minor-unit scale; it never rounds.
\<close>

theorem money_add_exact:
  assumes "money_ok m" and "money_ok n"
  shows "money_add m n =
     (if currency m \<noteq> currency n
      then Inl (CurrencyMismatchError (cur_code (currency m)) (cur_code (currency n)))
      else if \<bar>coef (amount m) + coef (amount n)\<bar> < 10 ^ 28
      then Inr \<lparr>amount = Dec (coef (amount m) + coef (amount n)) (- minor_units (currency m)),
                currency = currency m\<rparr>
      else Inl InvalidOperation)"
proof (cases "currency m = currency n")
  case True
  define e where "e = - minor_units (currency m)"
  have am: "amount m = Dec (coef (amount m)) e" "amount n = Dec (coef (amount n)) e"
    using assms True by (auto simp: money_ok_def e_def intro: dec.expand)
  have add: "dec_add (amount m) (amount n) = dec_fix (Dec (coef (amount m) + coef (amount n)) e)"
  proof -
    have "dexp (amount m) = e" "dexp (amount n) = e" using am by (metis dec.sel(2))+
    then show ?thesis by (simp add: dec_add_def scale_to_def)
  qed
  show ?thesis
    using True quantize_too_long
    by (auto simp: money_add_def same_currency_def make_Money_def quantize_to_def quantum_def
        add dec_fix_exact quantize_exact e_def)
next
  case False
  then show ?thesis by (simp add: money_add_def same_currency_def)
qed

theorem money_add_exact_witness:
  "money_add \<lparr>amount = Dec 1050 (- 2), currency = \<lparr>cur_code = ''NGN'', minor_units = 2\<rparr>\<rparr>
     \<lparr>amount = Dec 995 (- 2), currency = \<lparr>cur_code = ''NGN'', minor_units = 2\<rparr>\<rparr>
   = Inr \<lparr>amount = Dec 2045 (- 2), currency = \<lparr>cur_code = ''NGN'', minor_units = 2\<rparr>\<rparr>"
  by (subst money_add_exact) (simp_all add: money_ok_def)

subsection \<open>The exact split\<close>

lemma sum_list_increment: "i < length xs \<Longrightarrow> sum_list (xs[i := xs ! i + 1]) = sum_list xs + (1 :: int)"
  by (induction xs arbitrary: i) (auto simp: nth_Cons' split: nat.splits)

lemma hand_out_adds:
  assumes "distinct order" and "set order \<subseteq> {..<length floors}" and "k \<le> length order"
  shows "\<exists>units. hand_out order k floors = Inr units \<and> length units = length floors
    \<and> sum_list units = sum_list floors + int k
    \<and> (\<forall>i < length floors. floors ! i \<le> units ! i \<and> units ! i \<le> floors ! i + (if i \<in> set order then 1 else 0))"
  using assms
proof (induction order k floors rule: hand_out.induct)
  case (1 order floors)
  then show ?case by auto
next
  case (2 k floors)
  then show ?case by simp
next
  case (3 i order k floors)
  define f where "f = floors[i := floors ! i + 1]"
  have i: "i < length floors" "i \<notin> set order" using 3 by auto
  have "\<exists>units. hand_out order k f = Inr units \<and> length units = length f
    \<and> sum_list units = sum_list f + int k
    \<and> (\<forall>j < length f. f ! j \<le> units ! j \<and> units ! j \<le> f ! j + (if j \<in> set order then 1 else 0))"
    unfolding f_def using 3 by (intro "3.IH") auto
  then obtain units where u: "hand_out order k f = Inr units" "length units = length f"
    "sum_list units = sum_list f + int k"
    "\<forall>j < length f. f ! j \<le> units ! j \<and> units ! j \<le> f ! j + (if j \<in> set order then 1 else 0)" by blast
  have "sum_list f = sum_list floors + 1" using i(1) by (simp add: f_def sum_list_increment)
  moreover have "floors ! j \<le> units ! j \<and> units ! j \<le> floors ! j + (if j \<in> set (i # order) then 1 else 0)"
    if "j < length floors" for j
    using u(4) that i by (cases "j = i") (auto simp: f_def)
  ultimately show ?case using u by (auto simp: f_def)
qed

lemma div_sum_bounds:
  fixes ws :: "nat list" and U :: int
  assumes "0 < W"
  shows "\<exists>r. U * int (sum_list ws) = W * (\<Sum>w\<leftarrow>ws. (U * int w) div W) + r \<and> 0 \<le> r
    \<and> (ws \<noteq> [] \<longrightarrow> r < W * int (length ws)) \<and> (ws = [] \<longrightarrow> r = 0)"
proof (induction ws)
  case Nil
  then show ?case by simp
next
  case (Cons w ws)
  then obtain r where r: "U * int (sum_list ws) = W * (\<Sum>w\<leftarrow>ws. (U * int w) div W) + r" "0 \<le> r"
    "ws \<noteq> [] \<longrightarrow> r < W * int (length ws)" "ws = [] \<longrightarrow> r = 0" by blast
  define r1 where "r1 = (U * int w) mod W"
  have "U * int w = W * ((U * int w) div W) + r1" by (simp add: r1_def)
  moreover have "0 \<le> r1" "r1 < W" using assms by (simp_all add: r1_def)
  ultimately have "U * int (sum_list (w # ws)) = W * (\<Sum>w\<leftarrow>w # ws. (U * int w) div W) + (r1 + r)"
    using r(1) by (simp add: distrib_left)
  moreover have "r1 + r < W * int (length (w # ws))"
    using \<open>r1 < W\<close> r(3,4) by (cases "ws = []") (auto simp: distrib_left)
  ultimately show ?case using \<open>0 \<le> r1\<close> r(2) by (intro exI [of _ "r1 + r"]) simp
qed

lemma floors_remainder:
  fixes ws :: "nat list" and U :: int
  assumes "0 < sum_list ws"
  shows "0 \<le> U - (\<Sum>w\<leftarrow>ws. (U * int w) div int (sum_list ws))
    \<and> U - (\<Sum>w\<leftarrow>ws. (U * int w) div int (sum_list ws)) < int (length ws)"
proof -
  define W where "W = int (sum_list ws)"
  define Q where "Q = (\<Sum>w\<leftarrow>ws. (U * int w) div W)"
  have W: "0 < W" using assms by (simp add: W_def)
  have ne: "ws \<noteq> []" using assms by auto
  obtain r where r: "U * W = W * Q + r" "0 \<le> r" "r < W * int (length ws)"
    using div_sum_bounds [OF W, of U ws] ne by (auto simp: W_def [symmetric] Q_def)
  from r(1) have "W * (U - Q) = r" by (simp add: right_diff_distrib mult.commute)
  with r W have "0 \<le> U - Q" "U - Q < int (length ws)"
    by (metis zero_le_mult_iff not_less) (metis r(3) W \<open>W * (U - Q) = r\<close> mult_less_cancel_left_pos)
  then show ?thesis by (simp add: Q_def W_def)
qed

lemma share_bound:
  assumes "\<bar>U * int w\<bar> < 10 ^ a * int W" and "0 < W" and "a \<le> 27"
  shows "- (10 ^ 27) \<le> (U * int w) div int W \<and> (U * int w) div int W < 10 ^ 27"
proof -
  have "(10 :: int) ^ a \<le> 10 ^ 27" using assms(3) by (intro power_increasing) auto
  moreover have "(U * int w) div int W < 10 ^ a"
  proof -
    have "int W * ((U * int w) div int W) \<le> U * int w"
      using assms(2) minus_mod_eq_mult_div [of "U * int w" "int W"] pos_mod_sign [of "int W" "U * int w"] by linarith
    then have "int W * ((U * int w) div int W) < int W * 10 ^ a" using assms(1) by (simp add: mult.commute)
    then show ?thesis using assms(2) by simp
  qed
  moreover have "- (10 ^ a) \<le> (U * int w) div int W"
  proof -
    have "- (10 ^ a) * int W \<le> U * int w" using assms(1) by simp
    then have "(- (10 ^ a) * int W) div int W \<le> (U * int w) div int W" by (rule zdiv_mono1) (use assms(2) in simp)
    then show ?thesis using assms(2) nonzero_mult_div_cancel_right [of "int W" "- (10 ^ a)"] by linarith
  qed
  ultimately show ?thesis by linarith
qed

lemma dec_sum_nat:
  "acc + sum_list ws < 10 ^ 28 \<Longrightarrow>
     foldl dec_add (Dec (int acc) 0) (map (\<lambda>w. dec_of_int (int w)) ws) = Dec (int (acc + sum_list ws)) 0"
proof (induction ws arbitrary: acc)
  case Nil
  then show ?case by simp
next
  case (Cons w ws)
  then have "dec_add (Dec (int acc) 0) (dec_of_int (int w)) = Dec (int (acc + w)) 0"
    by (simp add: dec_add_def dec_of_int_def scale_to_def dec_fix_exact)
  with Cons.IH [of "acc + w"] Cons.prems show ?case by (simp add: add.assoc)
qed

lemma share_product_bound:
  assumes "\<bar>U\<bar> < 10 ^ a" and "w \<le> W" and "0 < W" and "a \<le> 28" and "W \<le> 10 ^ (28 - a)"
  shows "\<bar>U * int w\<bar> < 10 ^ a * int W \<and> \<bar>U * int w\<bar> < 10 ^ 28"
proof -
  have "\<bar>U * int w\<bar> \<le> \<bar>U\<bar> * int W" using assms(2) by (simp add: abs_mult mult_left_mono)
  also have "\<dots> < 10 ^ a * int W" using assms(1,3) by simp
  finally have one: "\<bar>U * int w\<bar> < 10 ^ a * int W" .
  have "10 ^ a * int W \<le> 10 ^ a * 10 ^ (28 - a)" using assms(5) by simp
  also have "\<dots> = 10 ^ 28" using assms(4) by (simp flip: power_add)
  finally show ?thesis using one by linarith
qed

text \<open>The rounded quotient of \<^verbatim>\<open>allocate\<close> has the exact floor within these bounds.\<close>

lemma share_floor:
  assumes "\<bar>U\<bar> < 10 ^ a" and "w \<le> W" and "0 < W" and "a \<le> 27" and "W \<le> 10 ^ (28 - a)"
  shows "dec_int (to_integral_value ROUND_FLOOR
      (dec_div (dec_mul (dec_of_int U) (dec_of_int (int w))) (Dec (int W) 0))) = (U * int w) div int W"
proof -
  have b: "\<bar>U * int w\<bar> < 10 ^ a * int W" "\<bar>U * int w\<bar> < 10 ^ 28"
    using share_product_bound [OF assms(1,2,3) _ assms(5)] assms(4) by simp_all
  then have "dec_mul (dec_of_int U) (dec_of_int (int w)) = Dec (U * int w) 0"
    by (simp add: dec_mul_def dec_of_int_def dec_fix_exact)
  then show ?thesis
    using dec_div_floor [of W a "U * int w" 0] assms(3,4,5) b(1) by (simp add: dec_int_floor)
qed

lemma amount_in_units:
  assumes "money_ok m"
  shows "dec_int (to_integral_value ROUND_HALF_EVEN (dec_div (amount m) (quantum (currency m)))) = coef (amount m)"
proof -
  define U e where "U = coef (amount m)" and "e = - minor_units (currency m)"
  have am: "amount m = Dec U e" using assms by (auto simp: money_ok_def U_def e_def intro: dec.expand)
  have "dval (dec_div (Dec U e) (Dec (int 1) e)) = of_int (U div int 1)"
    using assms by (intro dec_div_integer) (simp_all add: money_ok_def U_def)
  then have "dval (dec_div (amount m) (quantum (currency m))) = of_int U"
    by (simp add: am quantum_def flip: e_def)
  then show ?thesis unfolding U_def by (rule dec_int_integral)
qed

lemma make_Money_units:
  assumes "\<bar>u\<bar> < 10 ^ 28"
  shows "make_Money (dec_mul (dec_of_int u) (quantum cur)) cur = Inr \<lparr>amount = Dec u (- minor_units cur), currency = cur\<rparr>"
  using assms
  by (simp add: make_Money_def quantize_to_def dec_mul_def dec_of_int_def quantum_def dec_fix_exact quantize_exact)

text \<open>
  The split in whole minor units: the floors of the exact shares, plus one for as
  many positions as there are units left.
\<close>

lemma allocate_units:
  assumes "money_ok m" and "0 < sum_list ws" and "1 \<le> a" and "a \<le> 27"
    and "\<bar>coef (amount m)\<bar> < 10 ^ a" and "sum_list ws \<le> 10 ^ (28 - a)"
  shows "\<exists>us. allocate m (map (\<lambda>w. dec_of_int (int w)) ws)
        = Inr (map (\<lambda>u. \<lparr>amount = Dec u (- minor_units (currency m)), currency = currency m\<rparr>) us)
      \<and> length us = length ws \<and> sum_list us = coef (amount m)
      \<and> (\<forall>i < length ws. let share = (coef (amount m) * int (ws ! i)) div int (sum_list ws) in
           (us ! i = share \<or> us ! i = share + 1) \<and> \<bar>us ! i\<bar> < 10 ^ 28)"
proof -
  define U W where "U = coef (amount m)" and "W = sum_list ws"
  define raw where "raw = shares U (map (\<lambda>w. dec_of_int (int w)) ws) (Dec (int W) 0)"
  define fl where "fl = map (\<lambda>w. (U * int w) div int W) ws"
  define order where "order = remainder_order raw fl"
  define k where "k = U - sum_list fl"
  have ne: "ws \<noteq> []" and W0: "0 < W" using assms(2) by (auto simp: W_def)
  have le: "w \<le> W" if "w \<in> set ws" for w using that by (simp add: W_def member_le_sum_list)
  have floors: "map (\<lambda>r. dec_int (to_integral_value ROUND_FLOOR r)) raw = fl"
    unfolding raw_def shares_def fl_def using share_floor [of U a _ W] le W0 assms(4,5,6)
    by (simp add: U_def W_def)
  have "(10 :: nat) ^ (28 - a) \<le> 10 ^ 27" using assms(3) by (intro power_increasing) auto
  then have total: "dec_sum (map (\<lambda>w. dec_of_int (int w)) ws) = Dec (int W) 0"
    using dec_sum_nat [of 0 ws] assms(6) by (simp add: dec_sum_def W_def)
  have len: "length raw = length ws" "length fl = length ws" by (simp_all add: raw_def shares_def fl_def)
  have ord: "distinct order" "set order = {..<length ws}" "length order = length ws"
    by (auto simp: order_def remainder_order_def len)
  have k: "0 \<le> k" "k < int (length ws)"
    using floors_remainder [of ws U] assms(2) by (simp_all add: k_def fl_def W_def)
  obtain us where us: "hand_out order (nat k) fl = Inr us" "length us = length ws" "sum_list us = sum_list fl + k"
    "\<forall>i < length ws. fl ! i \<le> us ! i \<and> us ! i \<le> fl ! i + 1"
    using hand_out_adds [of order fl "nat k"] ord len k by fastforce
  have ui: "(us ! i = fl ! i \<or> us ! i = fl ! i + 1) \<and> \<bar>us ! i\<bar> < 10 ^ 28" if "i < length ws" for i
    using share_bound [of U "ws ! i" a W] share_product_bound [of U a "ws ! i" W] le [of "ws ! i"]
      us(4) [rule_format, OF that] that W0 assms(4,5,6) by (auto simp: fl_def U_def W_def)
  have part: "make_Money (dec_mul (dec_of_int u) (quantum (currency m))) (currency m)
      = Inr \<lparr>amount = Dec u (- minor_units (currency m)), currency = currency m\<rparr>" if "u \<in> set us" for u
    using that ui us(2) by (intro make_Money_units) (auto simp: in_set_conv_nth)
  have "shares U (map (\<lambda>w. Dec (int w) 0) ws) (Dec (int W) 0) = raw" by (simp add: raw_def dec_of_int_def)
  then have "allocate m (map (\<lambda>w. dec_of_int (int w)) ws)
      = Inr (map (\<lambda>u. \<lparr>amount = Dec u (- minor_units (currency m)), currency = currency m\<rparr>) us)"
    using ne W0 us(1) total [unfolded dec_of_int_def] amount_in_units [OF assms(1)] floors
      map_result_total [of us, OF part, unfolded dec_of_int_def]
    by (simp add: allocate_def Let_def list_ex_iff dec_of_int_def flip: order_def k_def U_def)
  moreover have "sum_list us = U" using us(3) by (simp add: k_def)
  ultimately show ?thesis using us(2) ui by (intro exI [of _ us]) (simp add: Let_def fl_def U_def W_def)
qed



end
