(* ===== verification/Semantic_Encoding.thy ===== *)
theory Semantic_Encoding
  imports Canonical_Text Money Sha256 "HOL-Library.Multiset"
begin

text \<open>
  The \<^verbatim>\<open>cv1\<close> semantic encoding (\<^verbatim>\<open>semantic_encoding.py\<close>): the canonical bytes of one
  value, of a field list, of ordered and unordered collections, and the domain
  separated digest.  The encoding is shown injective: up to the numeric value of a
  decimal, two encodable values with equal bytes are equal, also inside field
  lists and collections.
\<close>

text \<open>
  The arguments \<^verbatim>\<open>encode\<close> distinguishes, in the order of its tests.  An enumeration
  member is given by \<^verbatim>\<open>str(value.value)\<close>; \<open>Unsupported\<close> is any other type, by name.
\<close>

datatype cvalue =
    ABSENT
  | PyNone
  | MoneyV Money
  | NonFiniteMoney Currency
  | EnumV py_text
  | BoolV bool
  | IntV int
  | DecimalV decimal_value
  | DatetimeV instant_value
  | StrV py_text
  | BytesV bytes
  | Unsupported string

definition CANONICAL_ALGORITHM :: string where "CANONICAL_ALGORITHM = ''cv1''"

text \<open>\<^verbatim>\<open>str(i)\<close> of an integer raises above the interpreter's limit of 4300 digits.\<close>

definition py_str_int :: "int \<Rightarrow> encoding_error + string" where
  "py_str_int i = (if length (nat_str (nat \<bar>i\<bar>)) > 4300 then Inl ValueError else Inr (int_str i))"

text \<open>\<^verbatim>\<open>_text\<close>.\<close>

definition text_frame :: "py_text \<Rightarrow> encoding_error + bytes" where
  "text_frame s = bindr (utf8_encode s) (\<lambda>b. Inr (frame CHR ''s'' b))"

text \<open>\<^verbatim>\<open>minor.lstrip("0") or "0"\<close>, and the exact coefficient of an amount moved to currency scale, as text.\<close>

definition lstrip_zeros :: "string \<Rightarrow> string" where
  "lstrip_zeros s = (let t = dropWhile (\<lambda>c. c = CHR ''0'') s in if t = [] then ''0'' else t)"

definition minor_text :: "Money \<Rightarrow> string" where
  "minor_text m = (let
     digits = nat_str (nat \<bar>coef (amount m)\<bar>);
     shift = dexp (amount m) + minor_units (currency m);
     moved = (if shift \<ge> 0 then digits @ replicate (nat shift) CHR ''0''
              else take (nat (int (length digits) + shift)) digits);
     minor = lstrip_zeros moved
   in if coef (amount m) < 0 \<and> minor \<noteq> ''0'' then CHR ''-'' # minor else minor)"

definition money_body :: "Money \<Rightarrow> encoding_error + bytes" where
  "money_body m =
     bindr (text_frame (text_of (cur_code (currency m)))) (\<lambda>code.
     bindr (py_str_int (minor_units (currency m))) (\<lambda>units.
     Inr (code @ frame CHR ''i'' units @ frame CHR ''i'' (minor_text m))))"

text \<open>The tag and the body of the frame \<^verbatim>\<open>encode\<close> returns.\<close>

definition encode_body :: "cvalue \<Rightarrow> encoding_error + (char \<times> bytes)" where
  "encode_body v = (case v of
     ABSENT \<Rightarrow> Inr (CHR ''z'', [])
   | PyNone \<Rightarrow> Inl (CanonicalEncodingError ''None is not encodable'')
   | MoneyV m \<Rightarrow> bindr (money_body m) (\<lambda>b. Inr (CHR ''m'', b))
   | NonFiniteMoney _ \<Rightarrow> Inl (CanonicalEncodingError ''Canonical money must have a finite amount.'')
   | EnumV s \<Rightarrow> bindr (text_frame s) (\<lambda>b. Inr (CHR ''e'', b))
   | BoolV b \<Rightarrow> Inr (CHR ''b'', if b then ''1'' else ''0'')
   | IntV i \<Rightarrow> bindr (py_str_int i) (\<lambda>b. Inr (CHR ''i'', b))
   | DecimalV d \<Rightarrow> bindr (canonical_decimal d) (\<lambda>b. Inr (CHR ''d'', b))
   | DatetimeV t \<Rightarrow> bindr (canonical_instant t) (\<lambda>b. Inr (CHR ''t'', b))
   | StrV s \<Rightarrow> bindr (utf8_encode s) (\<lambda>b. Inr (CHR ''s'', b))
   | BytesV b \<Rightarrow> Inr (CHR ''x'', b)
   | Unsupported t \<Rightarrow> Inl (CanonicalEncodingError (''No canonical encoding for '' @ t @ ''.'')))"

definition encode :: "cvalue \<Rightarrow> encoding_error + bytes" where
  "encode v = bindr (encode_body v) (\<lambda>(tag, body). Inr (frame tag body))"

definition encode_field :: "py_text \<times> cvalue \<Rightarrow> encoding_error + bytes" where
  "encode_field f = bindr (text_frame (fst f)) (\<lambda>name. bindr (encode (snd f)) (\<lambda>val. Inr (name @ val)))"

definition encode_fields :: "(py_text \<times> cvalue) list \<Rightarrow> encoding_error + bytes" where
  "encode_fields fs = bindr (map_result encode_field fs) (\<lambda>bs. Inr (frame CHR ''o'' (concat bs)))"

definition encode_ordered_frames :: "bytes list \<Rightarrow> bytes" where
  "encode_ordered_frames items = frame CHR ''l'' (concat items)"

definition encode_ordered :: "cvalue list \<Rightarrow> encoding_error + bytes" where
  "encode_ordered items = bindr (map_result encode items) (\<lambda>bs. Inr (encode_ordered_frames bs))"

definition encode_unordered :: "bytes list \<Rightarrow> bytes" where
  "encode_unordered items = frame CHR ''u'' (concat (sort items))"

text \<open>The bytes that are hashed.  A domain that is not ASCII raises.\<close>

definition digest_input :: "py_text \<Rightarrow> bytes \<Rightarrow> encoding_error + bytes" where
  "digest_input domain body =
     (if list_all (\<lambda>n. n < 128) domain
      then Inr (CANONICAL_ALGORITHM @ '':'' @ map char_of domain @ '':'' @ body) else Inl UnicodeEncodeError)"

definition digest :: "py_text \<Rightarrow> bytes \<Rightarrow> encoding_error + string" where
  "digest domain body =
     bindr (digest_input domain body) (\<lambda>data. Inr (CANONICAL_ALGORITHM @ '':'' @ sha256_hex data))"

text \<open>The white space \<^verbatim>\<open>str.strip\<close> removes, and \<^verbatim>\<open>domain == domain.strip()\<close>.\<close>

definition space_point :: "nat \<Rightarrow> bool" where
  "space_point n \<longleftrightarrow> (9 \<le> n \<and> n \<le> 13) \<or> (28 \<le> n \<and> n \<le> 32) \<or> n = 0x85 \<or> n = 0xA0 \<or> n = 0x1680
     \<or> (0x2000 \<le> n \<and> n \<le> 0x200A) \<or> n = 0x2028 \<or> n = 0x2029 \<or> n = 0x202F \<or> n = 0x205F \<or> n = 0x3000"

definition unpadded :: "py_text \<Rightarrow> bool" where
  "unpadded s \<longleftrightarrow> s \<noteq> [] \<and> \<not> space_point (hd s) \<and> \<not> space_point (last s)"

definition digest_of :: "py_text \<Rightarrow> bytes \<Rightarrow> encoding_error + string" where
  "digest_of domain body =
     (if domain = [] \<or> \<not> unpadded domain
      then Inl (CanonicalEncodingError ''A fingerprint domain must be non-empty.'')
      else digest domain body)"

subsection \<open>Scalars\<close>

text \<open>Equality of encodable values: decimals by their number, everything else exactly.\<close>

definition same_value :: "cvalue \<Rightarrow> cvalue \<Rightarrow> bool" where
  "same_value v w = (case v of
     DecimalV (Finite a) \<Rightarrow> (case w of DecimalV (Finite b) \<Rightarrow> dval a = dval b | _ \<Rightarrow> False)
   | _ \<Rightarrow> v = w)"

definition ok_value :: "cvalue \<Rightarrow> bool" where
  "ok_value v = (case v of MoneyV m \<Rightarrow> money_ok m | _ \<Rightarrow> True)"

lemma py_str_int_injective: "py_str_int i = Inr b \<Longrightarrow> py_str_int j = Inr b \<Longrightarrow> i = j"
  by (auto simp: py_str_int_def split: if_splits)

lemma text_frame_Inr: "text_frame s = Inr b \<longleftrightarrow> (\<exists>u. utf8_encode s = Inr u \<and> b = frame CHR ''s'' u)"
  by (auto simp: text_frame_def bindr_eq_Inr)

lemma text_frame_cancel:
  assumes "text_frame s = Inr b" and "text_frame t = Inr c" and "b @ r = c @ q"
  shows "s = t \<and> r = q"
proof -
  obtain u v where "utf8_encode s = Inr u" "b = frame CHR ''s'' u" "utf8_encode t = Inr v" "c = frame CHR ''s'' v"
    using assms by (auto simp: text_frame_Inr)
  with frame_cancel [of "CHR ''s''" u r "CHR ''s''" v q] assms(3) utf8_encode_injective [of s u t] show ?thesis by simp
qed

lemma text_frame_injective: "text_frame s = Inr b \<Longrightarrow> text_frame t = Inr b \<Longrightarrow> s = t"
  using text_frame_cancel [of s b t b "[]" "[]"] by simp

text \<open>An amount at currency scale is written as its number of minor units.\<close>

lemma lstrip_zeros_nat_str: "lstrip_zeros (nat_str n) = nat_str n"
proof (cases "n = 0")
  case True
  have "nat_str 0 = ''0''" by code_simp
  then show ?thesis using True by (simp add: lstrip_zeros_def)
next
  case False
  then show ?thesis using nat_str_hd_zero [of n] by (cases "nat_str n") (auto simp: lstrip_zeros_def)
qed

lemma minor_text_ok:
  assumes "money_ok m"
  shows "minor_text m = int_str (coef (amount m))"
proof -
  have shift: "dexp (amount m) + minor_units (currency m) = 0" using assms by (simp add: money_ok_def)
  have "nat_str n \<noteq> ''0''" if "n \<noteq> 0" for n
    using that nat_str_hd_zero [of n] by (metis list.sel(1))
  then show ?thesis
    by (simp add: minor_text_def shift lstrip_zeros_nat_str int_str_def)
qed

lemma money_body_injective:
  assumes "money_ok m" and "money_ok n" and "money_body m = Inr b" and "money_body n = Inr b"
  shows "m = n"
proof -
  obtain c u where m: "text_frame (text_of (cur_code (currency m))) = Inr c"
    "py_str_int (minor_units (currency m)) = Inr u"
    "b = c @ frame CHR ''i'' u @ frame CHR ''i'' (minor_text m)"
    using assms(3) by (auto simp: money_body_def bindr_eq_Inr)
  obtain d v where n: "text_frame (text_of (cur_code (currency n))) = Inr d"
    "py_str_int (minor_units (currency n)) = Inr v"
    "b = d @ frame CHR ''i'' v @ frame CHR ''i'' (minor_text n)"
    using assms(4) by (auto simp: money_body_def bindr_eq_Inr)
  have code: "text_of (cur_code (currency m)) = text_of (cur_code (currency n)) \<and>
      frame CHR ''i'' u @ frame CHR ''i'' (minor_text m) = frame CHR ''i'' v @ frame CHR ''i'' (minor_text n)"
    by (rule text_frame_cancel [OF m(1) n(1)]) (simp flip: m(3) n(3))
  then have "u = v \<and> frame CHR ''i'' (minor_text m) = frame CHR ''i'' (minor_text n)"
    using frame_cancel by blast
  then have "minor_units (currency m) = minor_units (currency n)" "coef (amount m) = coef (amount n)"
    using m(2) n(2) py_str_int_injective minor_text_ok [OF assms(1)] minor_text_ok [OF assms(2)] by auto
  moreover from this have "dexp (amount m) = dexp (amount n)" using assms(1,2) by (simp add: money_ok_def)
  ultimately have "amount m = amount n" "currency m = currency n"
    using code by (simp_all add: dec.expand)
  then show ?thesis by (cases m, cases n) simp
qed

lemma canonical_decimal_injective:
  assumes "canonical_decimal d = Inr b" and "canonical_decimal e = Inr b"
  shows "same_value (DecimalV d) (DecimalV e)"
proof -
  obtain x y where "d = Finite x" "e = Finite y"
    using assms by (auto simp: canonical_decimal_def split: decimal_value.splits)
  with assms canonical_decimal_exact [of x y] show ?thesis by (simp add: same_value_def)
qed

lemma canonical_instant_aware: "canonical_instant v = Inr b \<Longrightarrow> \<exists>t. v = Aware t"
  by (cases v) (auto simp: canonical_instant_def)

lemma canonical_instant_same: "canonical_instant v = Inr b \<Longrightarrow> canonical_instant w = Inr b \<Longrightarrow> v = w"
  using canonical_instant_aware canonical_instant_injective by metis

lemma encode_body_injective:
  assumes "ok_value v" and "ok_value w" and "encode_body v = Inr (t, b)" and "encode_body w = Inr (t, b)"
  shows "same_value v w"
proof (cases v)
  case (DecimalV d)
  with assms show ?thesis
    by (cases w) (auto simp: encode_body_def bindr_eq_Inr intro: canonical_decimal_injective)
qed (use assms in \<open>cases w; auto simp: encode_body_def bindr_eq_Inr same_value_def ok_value_def
      dest: money_body_injective text_frame_injective py_str_int_injective canonical_instant_same
        utf8_encode_injective split: if_splits\<close>)+

interpretation cv1: prefix_code encode same_value ok_value
proof (rule frame_prefix_code [where body = encode_body])
  show "encode x = map_sum id (\<lambda>(t, b). frame t b) (encode_body x)" for x
    by (cases "encode_body x") (auto simp: encode_def)
qed (rule encode_body_injective)

lemma encode_same_value:
  assumes "same_value v w"
  shows "encode v = encode w"
proof (cases "v = w")
  case False
  then obtain a b where "v = DecimalV (Finite a)" "w = DecimalV (Finite b)" "dval a = dval b"
    using assms by (cases w) (auto simp: same_value_def split: cvalue.splits decimal_value.splits)
  then show ?thesis using canonical_decimal_exact [of a b] by (simp add: encode_def encode_body_def)
qed simp

subsection \<open>Field lists and collections\<close>

definition same_field :: "py_text \<times> cvalue \<Rightarrow> py_text \<times> cvalue \<Rightarrow> bool" where
  "same_field f g \<longleftrightarrow> fst f = fst g \<and> same_value (snd f) (snd g)"

definition ok_field :: "py_text \<times> cvalue \<Rightarrow> bool" where
  "ok_field f \<longleftrightarrow> ok_value (snd f)"

interpretation named: prefix_code encode_field same_field ok_field
proof
  fix x y b c r s
  assume ok: "ok_field x" "ok_field y" and "encode_field x = Inr b" "encode_field y = Inr c" and br: "b @ r = c @ s"
  then obtain n v n' v' where
    x: "text_frame (fst x) = Inr n" "encode (snd x) = Inr v" "b = n @ v" and
    y: "text_frame (fst y) = Inr n'" "encode (snd y) = Inr v'" "c = n' @ v'"
    by (auto simp: encode_field_def bindr_eq_Inr)
  from br x(3) y(3) have "fst x = fst y \<and> v @ r = v' @ s" by (intro text_frame_cancel [OF x(1) y(1)]) simp
  with cv1.cancel [OF _ _ x(2) y(2), of r s] ok show "same_field x y \<and> r = s"
    by (simp add: same_field_def ok_field_def)
next
  fix x b
  assume "encode_field x = Inr b"
  then show "b \<noteq> []" by (auto simp: encode_field_def bindr_eq_Inr text_frame_Inr)
qed

lemma map_result_cong2: "list_all2 R xs ys \<Longrightarrow> (\<And>x y. R x y \<Longrightarrow> f x = f y) \<Longrightarrow> map_result f xs = map_result f ys"
  by (induction xs ys rule: list_all2_induct) auto

lemma fields_exact:
  assumes "list_all ok_field fs" and "list_all ok_field gs"
    and "encode_fields fs = Inr b" and "encode_fields gs = Inr c"
  shows "b = c \<longleftrightarrow> list_all2 same_field fs gs"
proof
  obtain bs cs where bs: "map_result encode_field fs = Inr bs" "b = frame CHR ''o'' (concat bs)"
    "map_result encode_field gs = Inr cs" "c = frame CHR ''o'' (concat cs)"
    using assms(3,4) by (auto simp: encode_fields_def bindr_eq_Inr)
  then show "list_all2 same_field fs gs" if "b = c"
    using that assms(1,2) by (intro named.concat_injective [of fs gs bs cs]) simp_all
next
  assume "list_all2 same_field fs gs"
  then have "map_result encode_field fs = map_result encode_field gs"
    by (rule map_result_cong2) (auto simp: encode_field_def same_field_def dest: encode_same_value)
  then show "b = c" using assms(3,4) by (simp add: encode_fields_def)
qed



lemma encode_is_frame: "encode v = Inr b \<Longrightarrow> \<exists>t u. b = frame t u"
  by (auto simp: encode_def bindr_eq_Inr split: prod.splits)

lemma frames_split:
  assumes "\<And>b. b \<in> set bs \<Longrightarrow> \<exists>t u. b = frame t u" and "\<And>c. c \<in> set cs \<Longrightarrow> \<exists>t u. c = frame t u"
    and "concat bs = concat cs"
  shows "bs = cs"
proof -
  have "\<exists>xs. map_result (\<lambda>(t, b). Inr (frame t b) :: encoding_error + bytes) xs = Inr ds"
    if "\<And>b. b \<in> set ds \<Longrightarrow> \<exists>t u. b = frame t u" for ds
    using that
  proof (induction ds)
    case Nil
    show ?case by (rule exI [of _ "[]"]) simp
  next
    case (Cons d ds)
    then obtain xs t u where "map_result (\<lambda>(t, b). Inr (frame t b) :: encoding_error + bytes) xs = Inr ds" "d = frame t u"
      by (metis list.set_intros)
    then show ?case by (intro exI [of _ "(t, u) # xs"]) simp
  qed
  then obtain xs ys where xs: "map_result (\<lambda>(t, b). Inr (frame t b) :: encoding_error + bytes) xs = Inr bs"
    and ys: "map_result (\<lambda>(t, b). Inr (frame t b) :: encoding_error + bytes) ys = Inr cs"
    using assms(1,2) by metis
  have "list_all2 (=) xs ys"
    by (rule frames.concat_injective [OF _ _ xs ys assms(3)]) (simp_all add: list_all_iff)
  then have "xs = ys" by (simp add: list.rel_eq)
  with xs ys show ?thesis by simp
qed

lemma unordered_exact:
  assumes "map_result encode vs = Inr bs" and "map_result encode ws = Inr cs"
  shows "encode_unordered bs = encode_unordered cs \<longleftrightarrow> mset bs = mset cs"
proof -
  have fr: "\<exists>t u. b = frame t u" if "b \<in> set ds" "map_result encode us = Inr ds" for b ds us
    using that encode_is_frame by (fastforce simp: map_result_Inr_iff list_all2_conv_all_nth in_set_conv_nth)
  have "sort bs = sort cs" if "concat (sort bs) = concat (sort cs)"
    using that fr assms by (intro frames_split) auto
  moreover have "sort bs = sort cs \<longleftrightarrow> mset bs = mset cs"
    using properties_for_sort [of "sort cs" bs] by (metis mset_sort sorted_sort)
  ultimately show ?thesis by (auto simp: encode_unordered_def)
qed

text \<open>
  Collections.  An unordered collection of encoded members has the same bytes as
  another exactly when it has the same members with the same multiplicities, in
  whatever order they arrive; an ordered collection of values exactly when the
  values agree position by position.
\<close>

theorem encode_collections_exact:
  assumes "map_result encode vs = Inr bs" and "map_result encode ws = Inr cs"
  shows "(encode_unordered bs = encode_unordered cs \<longleftrightarrow> mset bs = mset cs)
    \<and> (list_all ok_value vs \<and> list_all ok_value ws
         \<longrightarrow> (encode_ordered vs = encode_ordered ws \<longleftrightarrow> list_all2 same_value vs ws))"
proof (intro conjI impI)
  show "encode_unordered bs = encode_unordered cs \<longleftrightarrow> mset bs = mset cs"
    using assms by (rule unordered_exact)
next
  assume ok: "list_all ok_value vs \<and> list_all ok_value ws"
  have "list_all2 same_value vs ws" if "concat bs = concat cs"
    using that ok assms by (intro cv1.concat_injective [of vs ws bs cs]) simp_all
  moreover have "bs = cs" if "list_all2 same_value vs ws"
    using map_result_cong2 [OF that encode_same_value] assms by simp
  ultimately show "encode_ordered vs = encode_ordered ws \<longleftrightarrow> list_all2 same_value vs ws"
    using assms by (auto simp: encode_ordered_def encode_ordered_frames_def)
qed

theorem encode_collections_exact_witness:
  "encode_unordered [frame CHR ''i'' ''2'', frame CHR ''b'' ''1''] = encode_unordered [frame CHR ''b'' ''1'', frame CHR ''i'' ''2'']
   \<and> encode_ordered [IntV 2, BoolV True] \<noteq> encode_ordered [BoolV True, IntV 2]"
proof -
  have "map_result encode [IntV 2, BoolV True] = Inr [frame CHR ''i'' ''2'', frame CHR ''b'' ''1'']"
    "map_result encode [BoolV True, IntV 2] = Inr [frame CHR ''b'' ''1'', frame CHR ''i'' ''2'']"
    by code_simp+
  note exact = encode_collections_exact [OF this]
  moreover have "\<not> list_all2 same_value [IntV 2, BoolV True] [BoolV True, IntV 2]" by (simp add: same_value_def)
  ultimately show ?thesis by (simp add: ok_value_def)
qed

subsection \<open>The digest\<close>

lemma map_char_of_injective:
  assumes "list_all (\<lambda>n. n < 128) s" and "list_all (\<lambda>n. n < 128) t"
  shows "map char_of s = map char_of t \<longleftrightarrow> s = (t :: nat list)"
  using assms
proof (induction s arbitrary: t)
  case Nil
  then show ?case by auto
next
  case (Cons n s)
  then show ?case by (cases t) (auto simp: char_of_eq)
qed

lemma digest_input_injective:
  assumes "digest_input d b = Inr x" and "digest_input e c = Inr x" and "58 \<notin> set d" and "58 \<notin> set e"
  shows "d = e \<and> b = c"
proof -
  have ascii: "list_all (\<lambda>n. n < 128) d" "list_all (\<lambda>n. n < 128) e"
    using assms(1,2) by (auto simp: digest_input_def split: if_splits)
  have colon: "CHR '':'' \<notin> set (map char_of s)" if "list_all (\<lambda>n. n < 128) s" "58 \<notin> set s" for s :: "nat list"
  proof
    assume "CHR '':'' \<in> set (map char_of s)"
    then obtain n where n: "n \<in> set s" "char_of n = CHR '':''" by auto
    have "CHR '':'' = char_of (58 :: nat)" by code_simp
    moreover have "n < 128" using that(1) n(1) by (simp add: list_all_iff)
    ultimately have "n = 58" using n(2) char_of_eq [of n 58] by simp
    with n(1) that(2) show False by simp
  qed
  have "map char_of d @ CHR '':'' # b = map char_of e @ CHR '':'' # c"
    using assms(1,2) by (auto simp: digest_input_def split: if_splits)
  then have "map char_of d = map char_of e \<and> b = c"
    using append_sep_eq [OF colon colon] ascii assms(3,4) by blast
  then show ?thesis using map_char_of_injective [OF ascii] by simp
qed

text \<open>
  C31. Domain separation.  For domains without a colon the hashed bytes determine
  both the domain and the body; a domain may contain a colon, however, and then two
  domains can share a digest: an ordered collection that holds one absent value, in
  the domain \<^verbatim>\<open>a\<close>, has the digest of an absent value in the domain \<^verbatim>\<open>a:l3\<close>.
\<close>

theorem digest_domain_separation:
  "(\<forall>d b e c. 58 \<notin> set d \<and> 58 \<notin> set e \<and> \<not> isl (digest_input d b)
       \<longrightarrow> (digest_input d b = digest_input e c \<longleftrightarrow> d = e \<and> b = c))
   \<and> (\<exists>body body'. encode_ordered [ABSENT] = Inr body \<and> encode ABSENT = Inr body'
       \<and> digest_of (text_of ''a'') body = digest_of (text_of ''a:l3'') body'
       \<and> \<not> isl (digest_of (text_of ''a'') body))"
proof (intro conjI allI impI)
  fix d e :: py_text and b c
  assume "58 \<notin> set d \<and> 58 \<notin> set e \<and> \<not> isl (digest_input d b)"
  then show "digest_input d b = digest_input e c \<longleftrightarrow> d = e \<and> b = c"
    using digest_input_injective [of d b _ e c] by (cases "digest_input d b") auto
next
  have "encode_ordered [ABSENT] = Inr ''l3:z0:''" "encode ABSENT = Inr ''z0:''" by code_simp+
  moreover have "digest_input (text_of ''a'') ''l3:z0:'' = Inr ''cv1:a:l3:z0:''"
    "digest_input (text_of ''a:l3'') ''z0:'' = Inr ''cv1:a:l3:z0:''"
    by code_simp+
  moreover have "unpadded (text_of ''a'')" "unpadded (text_of ''a:l3'')" by code_simp+
  ultimately show "\<exists>body body'. encode_ordered [ABSENT] = Inr body \<and> encode ABSENT = Inr body'
       \<and> digest_of (text_of ''a'') body = digest_of (text_of ''a:l3'') body'
       \<and> \<not> isl (digest_of (text_of ''a'') body)"
    by (simp add: digest_of_def digest_def unpadded_def)
qed

theorem digest_domain_separation_witness:
  "digest_input (text_of ''orders'') ''z0:'' \<noteq> digest_input (text_of ''refunds'') ''z0:''"
proof -
  have "\<not> isl (digest_input (text_of ''orders'') ''z0:'')" by code_simp
  then show ?thesis using digest_domain_separation by (auto simp: text_of_def)
qed

end
