(* ===== verification/Ledger_Digest.thy ===== *)
theory Ledger_Digest
  imports Semantic_Encoding Ledger
begin

text \<open>
  The content digest of the migration-owner ledger (the serialization section of
  \<^verbatim>\<open>namespaces.py\<close>): the canonical bytes of a row and of the ledger, the digest and its
  verification.  The bytes are shown to identify the rows, whatever their order.
\<close>

definition MIGRATION_OWNER_LEDGER_DIGEST_DOMAIN :: py_text where
  "MIGRATION_OWNER_LEDGER_DIGEST_DOMAIN = text_of ''dotmac.migration_owner_ledger.v1''"

definition optional_text :: "string option \<Rightarrow> cvalue" where
  "optional_text s = (case s of None \<Rightarrow> ABSENT | Some t \<Rightarrow> StrV (text_of t))"

definition encode_migration_owner :: "MigrationOwner \<Rightarrow> encoding_error + bytes" where
  "encode_migration_owner row =
     bindr (map_result (\<lambda>name. encode (StrV (text_of name))) (provides row)) (\<lambda>names.
     encode_fields
       [(text_of ''owner'', StrV (text_of (owner row))),
        (text_of ''prefix'', StrV (text_of (prefix row))),
        (text_of ''branch_label'', StrV (text_of (branch_label row))),
        (text_of ''db_schema'', optional_text (db_schema row)),
        (text_of ''legacy_revision_pattern'', optional_text (legacy_revision_pattern row)),
        (text_of ''provides'', BytesV (encode_unordered names))])"

definition encode_migration_owner_ledger :: "MigrationOwner list \<Rightarrow> encoding_error + bytes" where
  "encode_migration_owner_ledger ledger =
     bindr (map_result encode_migration_owner (sort_key owner ledger)) (\<lambda>frames.
     Inr (encode_ordered_frames frames))"

definition migration_owner_ledger_digest :: "MigrationOwner list option \<Rightarrow> encoding_error + string" where
  "migration_owner_ledger_digest ledger =
     (let rows = (case ledger of None \<Rightarrow> MIGRATION_OWNER_LEDGER | Some l \<Rightarrow> l) in
      bindr (encode_migration_owner_ledger rows) (digest_of MIGRATION_OWNER_LEDGER_DIGEST_DOMAIN))"

definition MIGRATION_OWNER_LEDGER_DIGEST :: string where
  "MIGRATION_OWNER_LEDGER_DIGEST = ''cv1:e5f874b1a0ee526067a5dc3f1273d8bbe4ff51f133cb5b8ee282bf3c6e11fc67''"

datatype ledger_digest_error = MalformedDigest string | StaleDigest string string | Encoding encoding_error

definition hex_lower :: "char \<Rightarrow> bool" where
  "hex_lower c \<longleftrightarrow> is_digit c \<or> (let n = (of_char c :: nat) in 97 \<le> n \<and> n \<le> 102)"

definition ledger_digest_pattern :: "string \<Rightarrow> bool" where
  "ledger_digest_pattern s \<longleftrightarrow> length s = 68 \<and> take 4 s = CANONICAL_ALGORITHM @ '':'' \<and> list_all hex_lower (drop 4 s)"

definition verify_migration_owner_ledger_digest ::
    "MigrationOwner list option \<Rightarrow> string option \<Rightarrow> ledger_digest_error + unit" where
  "verify_migration_owner_ledger_digest ledger given =
     (let committed = (case given of None \<Rightarrow> MIGRATION_OWNER_LEDGER_DIGEST | Some d \<Rightarrow> d) in
      if \<not> ledger_digest_pattern committed then Inl (MalformedDigest committed)
      else (case migration_owner_ledger_digest ledger of
          Inl e \<Rightarrow> Inl (Encoding e)
        | Inr recomputed \<Rightarrow> if committed \<noteq> recomputed then Inl (StaleDigest recomputed committed) else Inr ()))"

subsection \<open>Rows and their bytes\<close>

definition latin_utf8 :: "string \<Rightarrow> bytes" where
  "latin_utf8 s = concat (map (\<lambda>c. map char_of (utf8_units (of_char c))) s)"

lemma utf8_text_of: "utf8_encode (text_of s) = Inr (latin_utf8 s)"
proof -
  have "encodable (of_char c)" for c
  proof -
    have "of_char c < (256 :: nat)" by (metis of_char_mod_256 mod_less_divisor zero_less_numeral)
    then show ?thesis unfolding encodable_def by linarith
  qed
  then have "map_result utf8_point (text_of s) = Inr (map (\<lambda>n. map char_of (utf8_units n)) (text_of s))"
    by (intro map_result_total) (auto simp: utf8_point_def text_of_def)
  then show ?thesis by (simp add: utf8_encode_def latin_utf8_def text_of_def comp_def)
qed

lemma latin_utf8_inj: "inj latin_utf8"
  using utf8_encode_injective utf8_text_of by (metis injI text_of_inj)

lemma encode_text: "encode (StrV (text_of s)) = Inr (frame CHR ''s'' (latin_utf8 s))"
  by (simp add: encode_def encode_body_def utf8_text_of)

lemma text_frame_text: "text_frame (text_of s) = Inr (frame CHR ''s'' (latin_utf8 s))"
  by (simp add: text_frame_def utf8_text_of)

definition name_frame :: "string \<Rightarrow> bytes" where
  "name_frame s = frame CHR ''s'' (latin_utf8 s)"

lemma name_frame_inj: "inj name_frame"
  using latin_utf8_inj by (auto simp: name_frame_def inj_on_def)

lemma names_encoded: "map_result (\<lambda>name. encode (StrV (text_of name))) xs = Inr (map name_frame xs)"
  by (rule map_result_total) (simp add: encode_text name_frame_def)

text \<open>What a row declares, its claims as a collection.\<close>

definition row_content ::
    "MigrationOwner \<Rightarrow> string \<times> string \<times> string \<times> string option \<times> string option \<times> string multiset" where
  "row_content r = (owner r, prefix r, branch_label r, db_schema r, legacy_revision_pattern r, mset (provides r))"

lemma unordered_names: "encode_unordered (map name_frame xs) = encode_unordered (map name_frame ys) \<longleftrightarrow> mset xs = mset ys"
proof -
  have "map_result encode (map (\<lambda>s. StrV (text_of s)) zs) = Inr (map name_frame zs)" for zs
    by (induction zs) (simp_all add: encode_text name_frame_def)
  then have "encode_unordered (map name_frame xs) = encode_unordered (map name_frame ys)
      \<longleftrightarrow> mset (map name_frame xs) = mset (map name_frame ys)"
    by (intro unordered_exact) auto
  then show ?thesis using multiset.inj_map [OF name_frame_inj] by (simp add: inj_eq)
qed

lemma encode_row:
  "encode_migration_owner r = encode_fields
     [(text_of ''owner'', StrV (text_of (owner r))),
      (text_of ''prefix'', StrV (text_of (prefix r))),
      (text_of ''branch_label'', StrV (text_of (branch_label r))),
      (text_of ''db_schema'', optional_text (db_schema r)),
      (text_of ''legacy_revision_pattern'', optional_text (legacy_revision_pattern r)),
      (text_of ''provides'', BytesV (encode_unordered (map name_frame (provides r))))]"
  by (simp add: encode_migration_owner_def names_encoded)

lemma optional_text_encodes: "\<exists>b. encode (optional_text x) = Inr b"
  by (cases x) (simp_all add: optional_text_def encode_text, simp add: encode_def encode_body_def)

lemma encode_row_total: "\<exists>b. encode_migration_owner r = Inr b \<and> (\<exists>t u. b = frame t u)"
proof -
  obtain b c where "encode (optional_text (db_schema r)) = Inr b"
    "encode (optional_text (legacy_revision_pattern r)) = Inr c"
    using optional_text_encodes by metis
  then show ?thesis
    by (auto simp: encode_row encode_fields_def encode_field_def text_frame_text encode_text)
      (auto simp: encode_def encode_body_def)
qed

lemma optional_text_ok: "ok_value (optional_text x)"
  by (cases x) (simp_all add: optional_text_def ok_value_def)

lemma optional_text_same: "same_value (optional_text x) (optional_text y) \<longleftrightarrow> x = y"
  by (cases x; cases y) (auto simp: optional_text_def same_value_def)

lemma encode_row_exact: "encode_migration_owner r = encode_migration_owner s \<longleftrightarrow> row_content r = row_content s"
proof -
  obtain b c where bc: "encode_migration_owner r = Inr b" "encode_migration_owner s = Inr c"
    using encode_row_total by metis
  have "b = c \<longleftrightarrow> row_content r = row_content s"
    by (subst fields_exact [OF _ _ bc [unfolded encode_row]])
      (auto simp: ok_field_def ok_value_def [of "StrV _"] ok_value_def [of "BytesV _"] optional_text_ok same_field_def
        optional_text_same unordered_names row_content_def same_value_def [of "StrV _"] same_value_def [of "BytesV _"])
  with bc show ?thesis by simp
qed

lemma ledger_frames:
  "\<exists>bs. map_result encode_migration_owner rows = Inr bs \<and> (\<forall>b \<in> set bs. \<exists>t u. b = frame t u)"
proof (induction rows)
  case (Cons r rows)
  obtain b where "encode_migration_owner r = Inr b" "\<exists>t u. b = frame t u" using encode_row_total by blast
  with Cons show ?case by auto
qed simp

lemma ledger_frames_eq:
  assumes "map_result encode_migration_owner rs = Inr bs" and "map_result encode_migration_owner ss = Inr cs"
  shows "bs = cs \<longleftrightarrow> map row_content rs = map row_content ss"
  using assms
proof (induction rs arbitrary: ss bs cs)
  case Nil
  then show ?case by (cases ss) (auto simp: bindr_eq_Inr)
next
  case (Cons r rs)
  show ?case
  proof (cases ss)
    case Nil
    with Cons.prems show ?thesis by (auto simp: bindr_eq_Inr)
  next
    case ss: (Cons q qs)
    with Cons.prems obtain b bs' c cs' where
      r: "encode_migration_owner r = Inr b" "map_result encode_migration_owner rs = Inr bs'" "bs = b # bs'" and
      q: "encode_migration_owner q = Inr c" "map_result encode_migration_owner qs = Inr cs'" "cs = c # cs'"
      by (auto simp: bindr_eq_Inr)
    from r(1) q(1) have "b = c \<longleftrightarrow> row_content r = row_content q" using encode_row_exact [of r q] by simp
    then show ?thesis using Cons.IH [OF r(2) q(2)] ss r(3) q(3) by simp
  qed
qed

lemma sorted_rows_content:
  assumes "distinct (map owner xs)" and "distinct (map owner ys)"
  shows "map row_content (sort_key owner xs) = map row_content (sort_key owner ys)
    \<longleftrightarrow> mset (map row_content xs) = mset (map row_content ys)"
proof
  assume "map row_content (sort_key owner xs) = map row_content (sort_key owner ys)"
  then have "mset (map row_content (sort_key owner xs)) = mset (map row_content (sort_key owner ys))" by simp
  then show "mset (map row_content xs) = mset (map row_content ys)" by simp
next
  assume eq: "mset (map row_content xs) = mset (map row_content ys)"
  have by_owner: "map fst (map row_content zs) = map owner zs" for zs by (simp add: row_content_def comp_def)
  have "inj_on fst (set (map row_content zs))" if "distinct (map owner zs)" for zs
    using that unfolding by_owner [symmetric] distinct_map by blast
  note inj = this [OF assms(1)]
  have "sort_key fst (map row_content xs) = map row_content (sort_key owner xs)"
    by (rule sort_key_inj_key_eq [OF _ inj]) (simp_all add: by_owner [unfolded map_map])
  moreover have "sort_key fst (map row_content xs) = map row_content (sort_key owner ys)"
    by (rule sort_key_inj_key_eq [OF _ inj]) (simp_all add: eq [unfolded mset_map] by_owner [unfolded map_map])
  ultimately show "map row_content (sort_key owner xs) = map row_content (sort_key owner ys)" by simp
qed

text \<open>
  C32. The ledger's canonical bytes are its content: for two ledgers whose owners are
  distinct the bytes are equal exactly when the ledgers have the same rows, where
  neither the position of a row nor the order of the claims within a row counts;
  so an allocation inserted anywhere moves the digested bytes, and a relocation
  does not.
\<close>

theorem ledger_bytes_exact:
  assumes "distinct (map owner xs)" and "distinct (map owner ys)"
  shows "encode_migration_owner_ledger xs = encode_migration_owner_ledger ys
    \<longleftrightarrow> mset (map row_content xs) = mset (map row_content ys)"
proof -
  obtain bs cs where bs: "map_result encode_migration_owner (sort_key owner xs) = Inr bs" "\<forall>b \<in> set bs. \<exists>t u. b = frame t u"
    and cs: "map_result encode_migration_owner (sort_key owner ys) = Inr cs" "\<forall>c \<in> set cs. \<exists>t u. c = frame t u"
    using ledger_frames by metis
  have "encode_migration_owner_ledger xs = encode_migration_owner_ledger ys \<longleftrightarrow> bs = cs"
    using frames_split [of bs cs] bs cs by (auto simp: encode_migration_owner_ledger_def encode_ordered_frames_def)
  then show ?thesis using ledger_frames_eq [OF bs(1) cs(1)] sorted_rows_content [OF assms] by simp
qed

theorem ledger_bytes_exact_witness:
  "encode_migration_owner_ledger HOST_MIGRATION_OWNERS = encode_migration_owner_ledger (rev HOST_MIGRATION_OWNERS)
   \<and> encode_migration_owner_ledger HOST_MIGRATION_OWNERS \<noteq> encode_migration_owner_ledger []"
proof -
  have d: "distinct (map owner HOST_MIGRATION_OWNERS)" "distinct (map owner (rev HOST_MIGRATION_OWNERS))"
    "HOST_MIGRATION_OWNERS \<noteq> []" by code_simp+
  then show ?thesis
    using ledger_bytes_exact [OF d(1,2)] ledger_bytes_exact [OF d(1), of "[]"] by (simp add: rev_map)
qed

text \<open>Verification accepts exactly the digest of the ledger.\<close>

lemma verify_digest_exact:
  "verify_migration_owner_ledger_digest l (Some d) = Inr () \<longleftrightarrow>
     ledger_digest_pattern d \<and> migration_owner_ledger_digest l = Inr d"
  by (auto simp: verify_migration_owner_ledger_digest_def Let_def split: sum.splits)

end
