(* ===== verification/Py_Text.thy ===== *)
theory Py_Text
  imports Sha256
begin

text \<open>
  Text operations of the standard library the modules use: \<^verbatim>\<open>str.join\<close>, \<^verbatim>\<open>str.zfill\<close>, the
  text of a UUID and of a calendar date, and how they are read back.
\<close>

subsection \<open>Naming a computed value\<close>

lemma Inr_projr: "\<not> isl x \<Longrightarrow> x = Inr (projr x)"
  by (cases x) simp_all

lemma Inr_projr_pair: "\<not> isl x \<Longrightarrow> x = Inr (fst (projr x), snd (projr x))"
  by (cases x) simp_all

lemma Some_the: "\<not> Option.is_none x \<Longrightarrow> x = Some (the x)"
  by (cases x) simp_all

subsection \<open>Joining and padding\<close>

fun join :: "string \<Rightarrow> string list \<Rightarrow> string" where
  "join sep [] = []"
| "join sep [x] = x"
| "join sep (x # y # ys) = x @ sep @ join sep (y # ys)"

lemma join_Cons: "join sep (x # xs) = x @ concat (map (\<lambda>y. sep @ y) xs)"
  by (induction xs arbitrary: x) simp_all

lemma join_append: "xs \<noteq> [] \<Longrightarrow> ys \<noteq> [] \<Longrightarrow> join sep (xs @ ys) = join sep xs @ sep @ join sep ys"
  by (cases xs; cases ys) (simp_all add: join_Cons)

text \<open>\<^verbatim>\<open>str(n).zfill(w)\<close> of a natural number.\<close>

definition zfill :: "nat \<Rightarrow> nat \<Rightarrow> string" where
  "zfill w n = replicate (w - length (nat_str n)) CHR ''0'' @ nat_str n"

lemma str_nat_zeros: "str_nat (replicate k CHR ''0'' @ s) = str_nat s"
proof -
  have "foldl (\<lambda>a c. 10 * a + char_digit c) 0 (replicate k CHR ''0'') = 0"
    by (induction k) (simp_all add: char_digit_def)
  then show ?thesis by (simp add: str_nat_def)
qed

lemma str_nat_zfill [simp]: "str_nat (zfill w n) = n"
  by (simp add: zfill_def str_nat_zeros)

lemma zfill_inj [simp]: "zfill w m = zfill w n \<longleftrightarrow> m = n"
  by (metis str_nat_zfill)

subsection \<open>Hexadecimal text and UUIDs\<close>

fun hex_digits :: "nat \<Rightarrow> nat \<Rightarrow> string" where
  "hex_digits 0 n = []"
| "hex_digits (Suc w) n = hex_digits w (n div 16) @ [hex_char (n mod 16)]"

text \<open>\<^verbatim>\<open>str(uuid)\<close>: 32 hexadecimal digits in groups of 8, 4, 4, 4 and 12.\<close>

definition uuid_str :: "uuid \<Rightarrow> string" where
  "uuid_str n = (let s = hex_digits 32 n in
     take 8 s @ ''-'' @ take 4 (drop 8 s) @ ''-'' @ take 4 (drop 12 s) @ ''-'' @ take 4 (drop 16 s) @ ''-'' @ drop 20 s)"

text \<open>\<^verbatim>\<open>UUID(text)\<close> on text of that shape; other text raises \<^verbatim>\<open>ValueError\<close>.\<close>

definition char_hex :: "char \<Rightarrow> nat" where
  "char_hex c = (if is_digit c then of_char c - 48 else of_char c - 87)"

definition hex_lower :: "char \<Rightarrow> bool" where
  "hex_lower c \<longleftrightarrow> is_digit c \<or> (let n = (of_char c :: nat) in 97 \<le> n \<and> n \<le> 102)"

definition str_hex :: "string \<Rightarrow> nat" where
  "str_hex s = foldl (\<lambda>a c. 16 * a + char_hex c) 0 s"

definition uuid_of_str :: "string \<Rightarrow> uuid option" where
  "uuid_of_str s = (let h = filter (\<lambda>c. c \<noteq> CHR ''-'') s in
     if length h = 32 \<and> list_all hex_lower h then Some (str_hex h) else None)"

lemma hex_char_props [simp]:
  assumes "n < 16"
  shows "char_hex (hex_char n) = n" and "hex_lower (hex_char n)" and "hex_char n \<noteq> CHR ''-''"
proof -
  show "char_hex (hex_char n) = n" "hex_lower (hex_char n)"
    using assms by (simp_all add: char_hex_def hex_lower_def hex_char_def is_digit_def Let_def)
  then show "hex_char n \<noteq> CHR ''-''" by (auto simp: hex_lower_def is_digit_def)
qed

lemma hex_digits_props:
  shows "length (hex_digits w n) = w" and "list_all hex_lower (hex_digits w n)" and "CHR ''-'' \<notin> set (hex_digits w n)"
proof -
  have "length (hex_digits w n) = w \<and> list_all hex_lower (hex_digits w n) \<and> CHR ''-'' \<notin> set (hex_digits w n)"
    using hex_char_props(3) [symmetric] by (induction w arbitrary: n) (simp_all del: hex_char_props(3))
  then show "length (hex_digits w n) = w" "list_all hex_lower (hex_digits w n)" "CHR ''-'' \<notin> set (hex_digits w n)"
    by simp_all
qed

lemma str_hex_digits: "n < 16 ^ w \<Longrightarrow> str_hex (hex_digits w n) = n"
proof (induction w arbitrary: n)
  case (Suc w)
  then have "n div 16 < 16 ^ w" by (simp add: div_less_iff_less_mult mult.commute)
  from Suc.IH [OF this] show ?case by (simp add: str_hex_def)
qed (simp add: str_hex_def)

lemma uuid_of_str_uuid_str:
  assumes "n < 2 ^ 128"
  shows "uuid_of_str (uuid_str n) = Some n"
proof -
  define s where "s = hex_digits 32 n"
  have s: "length s = 32" "list_all hex_lower s" "CHR ''-'' \<notin> set s" "str_hex s = n"
    using hex_digits_props [of 32 n] str_hex_digits [of n 32] assms by (simp_all add: s_def)
  have keep: "filter (\<lambda>c. c \<noteq> CHR ''-'') t = t" if "set t \<subseteq> set s" for t
    using that s(3) by (auto simp: filter_id_conv)
  have sub: "set (take k (drop m s)) \<subseteq> set s" "set (take k s) \<subseteq> set s" "set (drop m s) \<subseteq> set s" for k m
    using set_take_subset set_drop_subset by fast+
  have "filter (\<lambda>c. c \<noteq> CHR ''-'') (uuid_str n) =
      take 8 s @ take 4 (drop 8 s) @ take 4 (drop 12 s) @ take 4 (drop 16 s) @ drop 20 s"
    using keep [OF sub(1)] keep [OF sub(2)] keep [OF sub(3)] by (simp add: uuid_str_def Let_def flip: s_def)
  also have "\<dots> = s"
    using append_take_drop_id [of 8 s] append_take_drop_id [of 4 "drop 8 s"] append_take_drop_id [of 4 "drop 12 s"]
      append_take_drop_id [of 4 "drop 16 s"] by simp
  finally show ?thesis using s by (simp add: uuid_of_str_def)
qed

subsection \<open>Dates\<close>

record date =
  year :: nat
  month :: nat
  day :: nat

definition valid_date :: "date \<Rightarrow> bool" where
  "valid_date d \<longleftrightarrow> 1 \<le> year d \<and> year d \<le> 9999 \<and> 1 \<le> month d \<and> month d \<le> 12 \<and> 1 \<le> day d \<and> day d \<le> 31"

definition date_isoformat :: "date \<Rightarrow> string" where
  "date_isoformat d = pad_str 4 (year d) @ ''-'' @ pad_str 2 (month d) @ ''-'' @ pad_str 2 (day d)"

text \<open>
  \<^verbatim>\<open>date.fromisoformat\<close> on the extended form, which is the only one the modules write;
  \<open>None\<close> is the \<^verbatim>\<open>ValueError\<close>.
\<close>

definition date_fromisoformat :: "string \<Rightarrow> date option" where
  "date_fromisoformat s =
     (let d = \<lparr>year = str_nat (take 4 s), month = str_nat (take 2 (drop 5 s)), day = str_nat (drop 8 s)\<rparr> in
      if length s = 10 \<and> list_all is_digit (take 4 s) \<and> list_all is_digit (take 2 (drop 5 s))
         \<and> list_all is_digit (drop 8 s) \<and> s ! 4 = CHR ''-'' \<and> s ! 7 = CHR ''-'' \<and> valid_date d
      then Some d else None)"

lemma str_nat_pad_str [simp]: "n < 10 ^ w \<Longrightarrow> str_nat (pad_str w n) = n"
proof (induction w arbitrary: n)
  case (Suc w)
  then have "n div 10 < 10 ^ w" by (simp add: div_less_iff_less_mult mult.commute)
  from Suc.IH [OF this] show ?case by (simp add: str_nat_def)
qed (simp add: str_nat_def)

lemma date_fromisoformat_isoformat:
  assumes "valid_date d"
  shows "date_fromisoformat (date_isoformat d) = Some d"
proof -
  have "year d < 10 ^ 4" "month d < 10 ^ 2" "day d < 10 ^ 2" using assms by (auto simp: valid_date_def)
  then show ?thesis
    using assms pad_str_digits by (simp add: date_fromisoformat_def date_isoformat_def nth_append Let_def valid_date_def)
qed

end
