(* ===== verification/Approval_Policy.thy ===== *)
theory Approval_Policy
  imports Py_Text
begin

text \<open>
  The approval vocabulary and rules of \<^verbatim>\<open>dotmac-approvals\<close>: levels and policy revisions
  with their construction checks (\<^verbatim>\<open>contracts.py\<close>), and the decision rules
  (\<^verbatim>\<open>policy.py\<close>): who may approve, when a level's quorum is met, and the evaluation
  of a request.  An exception is its type; the messages are left out, and
  \<open>ContractValueError\<close> is the \<^verbatim>\<open>ValueError\<close> of a value object's own checks.
\<close>

datatype ApprovalState = PENDING | APPROVED | REJECTED | CANCELLED | WITHDRAWN
datatype DecisionAction = APPROVE | REJECT
datatype ApproverKind = USER | ROLE
datatype SoDRule = CANNOT_BE_REQUESTER | CANNOT_BE_PREVIOUS_APPROVER

datatype ApprovalHoldRefusal =
    MALFORMED_DIGEST | REQUEST_NOT_FOUND | SUBJECT_MISMATCH | DIGEST_MISMATCH
  | HOLD_WITHDRAWN | NOT_APPROVED | NO_APPROVE_DECISION

datatype approval_error =
    PolicyNotFound | PolicyVersionExists | InvalidPolicy | ContentChanged | RequestNotPending
  | NotEligible | SoDViolation | SelfApprovalRefused | DuplicateDecision | NotRequester | MFARequired
  | WithdrawalRefused | WithdrawalReferenceConflict | ApprovalNotHeld ApprovalHoldRefusal | ContractValueError

subsection \<open>Levels and policy revisions\<close>

record ApprovalLevel =
  sequence :: int
  approver_kind :: ApproverKind
  approver_id :: string
  quorum :: int
  sod_rule :: "SoDRule option"
  requires_mfa :: bool
  allow_delegation :: bool

definition make_ApprovalLevel :: "ApprovalLevel \<Rightarrow> approval_error + ApprovalLevel" where
  "make_ApprovalLevel l =
     (if sequence l < 1 then Inl InvalidPolicy
      else if quorum l < 1 then Inl InvalidPolicy
      else if blank (approver_id l) then Inl InvalidPolicy
      else Inr l)"

record PolicyRevision =
  policy_code :: string
  version :: int
  levels :: "ApprovalLevel list"
  allow_self_approval :: bool

definition make_PolicyRevision :: "PolicyRevision \<Rightarrow> approval_error + PolicyRevision" where
  "make_PolicyRevision p =
     (if blank (policy_code p) then Inl InvalidPolicy
      else if version p < 1 then Inl InvalidPolicy
      else if levels p = [] then Inl InvalidPolicy
      else if map sequence (levels p) \<noteq> [1..int (length (levels p))] then Inl InvalidPolicy
      else Inr p)"

definition total_levels :: "PolicyRevision \<Rightarrow> int" where
  "total_levels p = int (length (levels p))"

definition level_of :: "PolicyRevision \<Rightarrow> int \<Rightarrow> approval_error + ApprovalLevel" where
  "level_of p n = (if n < 1 \<or> n > int (length (levels p)) then Inl InvalidPolicy
     else Inr (levels p ! nat (n - 1)))"

text \<open>The set of role identifiers an actor holds is given by a list of its members.\<close>

record Actor =
  actor_id :: uuid
  role_ids :: "uuid list"
  mfa_verified :: bool

record RecordedDecision =
  rd_level :: int
  rd_actor :: uuid
  rd_action :: DecisionAction

record Evaluation =
  ev_state :: ApprovalState
  ev_current_level :: int
  ev_total_levels :: int
  ev_satisfied_levels :: int
  ev_reason :: string

definition is_approved :: "Evaluation \<Rightarrow> bool" where
  "is_approved e \<longleftrightarrow> ev_state e = APPROVED"

definition DIGEST_PREFIX :: string where "DIGEST_PREFIX = ''sha256:''"

definition validate_digest :: "string \<Rightarrow> approval_error + string" where
  "validate_digest d =
     (if length d \<noteq> length DIGEST_PREFIX + 64 \<or> take (length DIGEST_PREFIX) d \<noteq> DIGEST_PREFIX then Inl ContentChanged
      else if list_ex (\<lambda>c. c \<notin> set ''0123456789abcdef'') (drop (length DIGEST_PREFIX) d) then Inl ContentChanged
      else Inr d)"

subsection \<open>The rules\<close>

definition approvals_at :: "RecordedDecision list \<Rightarrow> int \<Rightarrow> RecordedDecision list" where
  "approvals_at ds n = filter (\<lambda>d. rd_level d = n \<and> rd_action d = APPROVE) ds"

definition distinct_approvers :: "RecordedDecision list \<Rightarrow> uuid set" where
  "distinct_approvers ds = set (map rd_actor ds)"

definition level_satisfied :: "ApprovalLevel \<Rightarrow> RecordedDecision list \<Rightarrow> bool" where
  "level_satisfied l ds \<longleftrightarrow> int (card (distinct_approvers (approvals_at ds (sequence l)))) \<ge> quorum l"

definition check_eligibility :: "ApprovalLevel \<Rightarrow> Actor \<Rightarrow> approval_error + unit" where
  "check_eligibility l a = (case approver_kind l of
     USER \<Rightarrow> ensure (uuid_str (actor_id a) = approver_id l) NotEligible
   | ROLE \<Rightarrow> ensure (approver_id l \<in> set (map uuid_str (role_ids a))) NotEligible)"

definition check_sod :: "ApprovalLevel \<Rightarrow> Actor \<Rightarrow> uuid \<Rightarrow> RecordedDecision list \<Rightarrow> approval_error + unit" where
  "check_sod l a requested_by ds = (case sod_rule l of
     None \<Rightarrow> Inr ()
   | Some CANNOT_BE_REQUESTER \<Rightarrow> ensure (actor_id a \<noteq> requested_by) SoDViolation
   | Some CANNOT_BE_PREVIOUS_APPROVER \<Rightarrow>
       ensure (actor_id a \<notin> set (map rd_actor (filter (\<lambda>d. rd_level d \<noteq> sequence l) ds))) SoDViolation)"

definition check_self_approval :: "PolicyRevision \<Rightarrow> Actor \<Rightarrow> uuid \<Rightarrow> approval_error + unit" where
  "check_self_approval p a requested_by =
     ensure (\<not> (\<not> allow_self_approval p \<and> actor_id a = requested_by)) SelfApprovalRefused"

definition check_mfa :: "ApprovalLevel \<Rightarrow> Actor \<Rightarrow> approval_error + unit" where
  "check_mfa l a = ensure (\<not> (requires_mfa l \<and> \<not> mfa_verified a)) MFARequired"

definition check_not_duplicate :: "ApprovalLevel \<Rightarrow> Actor \<Rightarrow> RecordedDecision list \<Rightarrow> approval_error + unit" where
  "check_not_duplicate l a ds =
     ensure (\<not> list_ex (\<lambda>d. rd_actor d = actor_id a \<and> rd_level d = sequence l) ds) DuplicateDecision"

definition authorise_approval ::
    "PolicyRevision \<Rightarrow> int \<Rightarrow> Actor \<Rightarrow> uuid \<Rightarrow> RecordedDecision list \<Rightarrow> approval_error + ApprovalLevel" where
  "authorise_approval p n a requested_by ds =
     bindr (level_of p n) (\<lambda>l.
     bindr (check_not_duplicate l a ds) (\<lambda>_.
     if level_satisfied l ds then Inl DuplicateDecision else
     bindr (check_eligibility l a) (\<lambda>_.
     bindr (check_self_approval p a requested_by) (\<lambda>_.
     bindr (check_sod l a requested_by ds) (\<lambda>_.
     bindr (check_mfa l a) (\<lambda>_. Inr l))))))"

text \<open>The checks a rejection must pass (\<^verbatim>\<open>record_*_decision\<close> and \<^verbatim>\<open>_permitted\<close>).\<close>

definition authorise_rejection ::
    "PolicyRevision \<Rightarrow> int \<Rightarrow> Actor \<Rightarrow> RecordedDecision list \<Rightarrow> approval_error + unit" where
  "authorise_rejection p n a ds =
     bindr (level_of p n) (\<lambda>l.
     bindr (check_not_duplicate l a ds) (\<lambda>_.
     bindr (check_eligibility l a) (\<lambda>_. check_mfa l a)))"

fun satisfied_prefix :: "RecordedDecision list \<Rightarrow> ApprovalLevel list \<Rightarrow> int" where
  "satisfied_prefix ds [] = 0"
| "satisfied_prefix ds (l # ls) = (if \<not> level_satisfied l ds then 0 else 1 + satisfied_prefix ds ls)"

definition satisfied_count :: "PolicyRevision \<Rightarrow> RecordedDecision list \<Rightarrow> int" where
  "satisfied_count p ds = satisfied_prefix ds (levels p)"

definition recorded_standing :: "PolicyRevision \<Rightarrow> ApprovalState \<Rightarrow> int \<Rightarrow> RecordedDecision list \<Rightarrow> string \<Rightarrow> Evaluation" where
  "recorded_standing p st n ds why = \<lparr>ev_state = st, ev_current_level = n, ev_total_levels = total_levels p,
     ev_satisfied_levels = satisfied_count p ds, ev_reason = why\<rparr>"

definition evaluate :: "PolicyRevision \<Rightarrow> ApprovalState \<Rightarrow> int \<Rightarrow> RecordedDecision list \<Rightarrow> Evaluation" where
  "evaluate p st n ds =
     (if st = REJECTED then recorded_standing p st n ds ''rejected''
      else if st = CANCELLED then recorded_standing p st n ds ''cancelled''
      else if st = WITHDRAWN then recorded_standing p st n ds ''withdrawn''
      else let satisfied = satisfied_count p ds in
        if satisfied \<ge> total_levels p
        then \<lparr>ev_state = APPROVED, ev_current_level = total_levels p, ev_total_levels = total_levels p,
              ev_satisfied_levels = satisfied, ev_reason = ''satisfied''\<rparr>
        else \<lparr>ev_state = PENDING, ev_current_level = min (satisfied + 1) (total_levels p),
              ev_total_levels = total_levels p, ev_satisfied_levels = satisfied, ev_reason = ''pending''\<rparr>)"

subsection \<open>What the rules guarantee\<close>

lemma make_PolicyRevision_Inr:
  "make_PolicyRevision p = Inr q \<longleftrightarrow> q = p \<and> \<not> blank (policy_code p) \<and> 1 \<le> version p \<and> levels p \<noteq> []
     \<and> map sequence (levels p) = [1..int (length (levels p))]"
  by (auto simp: make_PolicyRevision_def)

lemma level_sequence:
  assumes "map sequence (levels p) = [1..int (length (levels p))]" and "i < length (levels p)"
  shows "sequence (levels p ! i) = int i + 1"
proof -
  have "sequence (levels p ! i) = [1..int (length (levels p))] ! i"
    using assms by (metis nth_map)
  then show ?thesis using assms(2) by simp
qed

lemma satisfied_prefix_bounds: "0 \<le> satisfied_prefix ds ls \<and> satisfied_prefix ds ls \<le> int (length ls)"
  by (induction ls) auto

lemma satisfied_prefix_all: "satisfied_prefix ds ls \<ge> int (length ls) \<longleftrightarrow> list_all (\<lambda>l. level_satisfied l ds) ls"
proof (induction ls)
  case (Cons l ls)
  then show ?case using satisfied_prefix_bounds [of ds ls] by auto
qed simp

lemma satisfied_prefix_next:
  assumes "satisfied_prefix ds ls = int k" and "k < length ls"
  shows "\<not> level_satisfied (ls ! k) ds" and "\<And>i. i < k \<Longrightarrow> level_satisfied (ls ! i) ds"
proof -
  have "\<not> level_satisfied (ls ! k) ds \<and> (\<forall>i < k. level_satisfied (ls ! i) ds)"
    using assms
  proof (induction ls arbitrary: k)
    case (Cons l ls)
    show ?case
    proof (cases "level_satisfied l ds")
      case True
      with Cons.prems(1) satisfied_prefix_bounds [of ds ls] obtain j where j: "k = Suc j"
        by (cases k) auto
      with Cons True have "\<not> level_satisfied (ls ! j) ds \<and> (\<forall>i < j. level_satisfied (ls ! i) ds)" by simp
      with j True show ?thesis by (auto simp: less_Suc_eq_0_disj)
    next
      case False
      with Cons.prems show ?thesis by simp
    qed
  qed simp
  then show "\<not> level_satisfied (ls ! k) ds" and "\<And>i. i < k \<Longrightarrow> level_satisfied (ls ! i) ds" by auto
qed

text \<open>An approval only moves a level towards its quorum.\<close>

lemma level_satisfied_mono: "set ds \<subseteq> set es \<Longrightarrow> level_satisfied l ds \<Longrightarrow> level_satisfied l es"
  unfolding level_satisfied_def distinct_approvers_def approvals_at_def
  by (elim order_trans) (auto intro!: card_mono)

lemma level_satisfied_set: "set ds = set es \<Longrightarrow> level_satisfied l ds = level_satisfied l es"
  using level_satisfied_mono by blast

lemma authorise_approval_Inr:
  "authorise_approval p n a who ds = Inr l \<longleftrightarrow>
     level_of p n = Inr l \<and> check_not_duplicate l a ds = Inr () \<and> \<not> level_satisfied l ds
     \<and> check_eligibility l a = Inr () \<and> check_self_approval p a who = Inr ()
     \<and> check_sod l a who ds = Inr () \<and> check_mfa l a = Inr ()"
  by (auto simp: authorise_approval_def bindr_eq_Inr split: if_splits)

end
