(* ===== verification/Approvals.thy ===== *)
theory Approvals
  imports Approval_Policy "HOL-Library.Product_Lexorder"
begin

text \<open>
  The approval lifecycle of \<^verbatim>\<open>dotmac-approvals\<close> (\<^verbatim>\<open>service.py\<close>): publishing a policy
  revision, opening a request, recording decisions, cancelling, withdrawing and
  holding an approval, and the read contracts.

  The tenant and the platform functions of the source are the same code over two
  sets of tables.  Here one set of tables carries the plane of a row, \<open>Some t\<close> for
  tenant \<open>t\<close> and \<open>None\<close> for the platform; every operation takes the plane and reads and
  writes rows of that plane only.  An operation returns the new tables, or the
  exception, after which the host's transaction rolls back.  The clock and the
  generated identifiers are arguments.  The stored policy levels are modelled by
  their decoded values; \<^verbatim>\<open>document_digest\<close> and the column widths are left out.
\<close>

type_synonym plane = "uuid option"

subsection \<open>Tables\<close>

record approval_policy =
  ap_plane :: plane
  ap_revision :: PolicyRevision

record approval_request =
  aq_plane :: plane
  aq_id :: uuid
  aq_policy_code :: string
  aq_policy_version :: int
  aq_subject_type :: string
  aq_subject_id :: string
  aq_content_digest :: string
  aq_requested_by :: uuid
  aq_state :: ApprovalState
  aq_current_level :: int
  aq_idempotency_key :: string
  aq_completed_at :: "datetime option"
  aq_note :: "string option"
  aq_created_at :: datetime

record approval_decision =
  ad_plane :: plane
  ad_id :: uuid
  ad_request :: uuid
  ad_level :: int
  ad_actor :: uuid
  ad_action :: DecisionAction
  ad_comment :: "string option"
  ad_delegated_from :: "uuid option"
  ad_mfa_verified :: bool
  ad_decided_at :: datetime

record approval_withdrawal =
  aw_plane :: plane
  aw_id :: uuid
  aw_request :: uuid
  aw_actor :: uuid
  aw_authority_ref :: string
  aw_reason :: string
  aw_effective_at :: datetime
  aw_external_ref :: string
  aw_approved_at :: datetime

record approvals_db =
  approval_policies :: "approval_policy list"
  approval_requests :: "approval_request list"
  approval_decisions :: "approval_decision list"
  approval_withdrawals :: "approval_withdrawal list"

subsection \<open>Values\<close>

record WithdrawalEvidence =
  we_id :: uuid
  we_approved_at :: datetime
  we_actor :: uuid
  we_authority_ref :: string
  we_reason :: string
  we_effective_at :: datetime
  we_external_ref :: string

definition make_WithdrawalEvidence :: "WithdrawalEvidence \<Rightarrow> approval_error + WithdrawalEvidence" where
  "make_WithdrawalEvidence e =
     (if blank (we_authority_ref e) \<or> blank (we_reason e) \<or> blank (we_external_ref e) then Inl ContractValueError
      else if length (we_authority_ref e) > 200 \<or> length (we_external_ref e) > 200 then Inl ContractValueError
      else if we_effective_at e < we_approved_at e then Inl ContractValueError
      else Inr e)"

record ApprovalEvent =
  ae_type :: string
  ae_subject_type :: string
  ae_subject_id :: string
  ae_request :: uuid
  ae_policy_code :: string
  ae_policy_version :: int
  ae_content_digest :: string
  ae_state :: ApprovalState
  ae_withdrawal :: "WithdrawalEvidence option"

definition make_ApprovalEvent :: "ApprovalEvent \<Rightarrow> approval_error + ApprovalEvent" where
  "make_ApprovalEvent e =
     (if (ae_state e = WITHDRAWN) \<noteq> (ae_withdrawal e \<noteq> None) then Inl ContractValueError else Inr e)"

definition EVENT_FOR_STATE :: "ApprovalState \<Rightarrow> string" where
  "EVENT_FOR_STATE st = (case st of
     PENDING \<Rightarrow> ''approval.requested'' | APPROVED \<Rightarrow> ''approval.approved'' | REJECTED \<Rightarrow> ''approval.rejected''
   | CANCELLED \<Rightarrow> ''approval.cancelled'' | WITHDRAWN \<Rightarrow> ''approval.withdrawn'')"

record ApprovalOutcome =
  ao_request :: uuid
  ao_evaluation :: Evaluation
  ao_events :: "ApprovalEvent list"

definition event_of :: "approval_request \<Rightarrow> WithdrawalEvidence option \<Rightarrow> approval_error + ApprovalEvent" where
  "event_of r w = make_ApprovalEvent \<lparr>ae_type = EVENT_FOR_STATE (aq_state r), ae_subject_type = aq_subject_type r,
     ae_subject_id = aq_subject_id r, ae_request = aq_id r, ae_policy_code = aq_policy_code r,
     ae_policy_version = aq_policy_version r, ae_content_digest = aq_content_digest r,
     ae_state = aq_state r, ae_withdrawal = w\<rparr>"

definition state_event :: "approval_request \<Rightarrow> approval_error + ApprovalEvent" where
  "state_event r = event_of r None"

definition withdrawal_evidence :: "approval_withdrawal \<Rightarrow> approval_error + WithdrawalEvidence" where
  "withdrawal_evidence w = make_WithdrawalEvidence \<lparr>we_id = aw_id w, we_approved_at = aw_approved_at w,
     we_actor = aw_actor w, we_authority_ref = aw_authority_ref w, we_reason = aw_reason w,
     we_effective_at = aw_effective_at w, we_external_ref = aw_external_ref w\<rparr>"

definition withdrawal_event :: "approval_request \<Rightarrow> approval_withdrawal \<Rightarrow> approval_error + ApprovalEvent" where
  "withdrawal_event r w = bindr (withdrawal_evidence w) (\<lambda>e. event_of (r\<lparr>aq_state := WITHDRAWN\<rparr>) (Some e))"

subsection \<open>Row loading\<close>

definition policy_key :: "approval_policy \<Rightarrow> plane \<times> string \<times> int" where
  "policy_key r = (ap_plane r, policy_code (ap_revision r), version (ap_revision r))"

definition request_key :: "approval_request \<Rightarrow> plane \<times> uuid" where
  "request_key r = (aq_plane r, aq_id r)"

definition revision_of :: "PolicyRevision \<Rightarrow> approval_error + PolicyRevision" where
  "revision_of p = bindr (map_result make_ApprovalLevel (levels p)) (\<lambda>_. make_PolicyRevision p)"

definition plane_policy :: "plane \<Rightarrow> string \<Rightarrow> int \<Rightarrow> approvals_db \<Rightarrow> approval_error + PolicyRevision" where
  "plane_policy pl c v db = (case find_row policy_key (pl, c, v) (approval_policies db) of
     None \<Rightarrow> Inl PolicyNotFound | Some row \<Rightarrow> revision_of (ap_revision row))"

definition plane_request :: "plane \<Rightarrow> uuid \<Rightarrow> approvals_db \<Rightarrow> approval_error + approval_request" where
  "plane_request pl i db = (case find_row request_key (pl, i) (approval_requests db) of
     None \<Rightarrow> Inl PolicyNotFound | Some r \<Rightarrow> Inr r)"

definition plane_decisions :: "plane \<Rightarrow> uuid \<Rightarrow> approvals_db \<Rightarrow> approval_decision list" where
  "plane_decisions pl i db = sort_key (\<lambda>d. (ad_decided_at d, ad_id d))
     (filter (\<lambda>d. ad_plane d = pl \<and> ad_request d = i) (approval_decisions db))"

definition recorded :: "approval_decision list \<Rightarrow> RecordedDecision list" where
  "recorded ds = map (\<lambda>d. \<lparr>rd_level = ad_level d, rd_actor = ad_actor d, rd_action = ad_action d\<rparr>) ds"

definition set_request :: "approval_request \<Rightarrow> approvals_db \<Rightarrow> approvals_db" where
  "set_request r db = db\<lparr>approval_requests :=
     update_rows (\<lambda>x. request_key x = request_key r) (\<lambda>_. r) (approval_requests db)\<rparr>"

definition outcome_of ::
    "approval_request \<Rightarrow> PolicyRevision \<Rightarrow> ApprovalEvent list \<Rightarrow> approvals_db \<Rightarrow> ApprovalOutcome" where
  "outcome_of r p es db = \<lparr>ao_request = aq_id r,
     ao_evaluation = evaluate p (aq_state r) (aq_current_level r) (recorded (plane_decisions (aq_plane r) (aq_id r) db)),
     ao_events = es\<rparr>"

subsection \<open>Lifecycle\<close>

definition publish_policy_version ::
    "plane \<Rightarrow> PolicyRevision \<Rightarrow> approvals_db \<Rightarrow> approval_error + approvals_db" where
  "publish_policy_version pl p db =
     (case find_row policy_key (pl, policy_code p, version p) (approval_policies db) of
        Some _ \<Rightarrow> Inl PolicyVersionExists
      | None \<Rightarrow> Inr (db\<lparr>approval_policies := approval_policies db @ [\<lparr>ap_plane = pl, ap_revision = p\<rparr>]\<rparr>))"

record open_request =
  or_policy_code :: string
  or_policy_version :: int
  or_subject_type :: string
  or_subject_id :: string
  or_content_digest :: string
  or_requested_by :: uuid
  or_idempotency_key :: string

definition new_request :: "plane \<Rightarrow> uuid \<Rightarrow> datetime \<Rightarrow> open_request \<Rightarrow> approval_request" where
  "new_request pl i now q = \<lparr>aq_plane = pl, aq_id = i, aq_policy_code = or_policy_code q,
     aq_policy_version = or_policy_version q, aq_subject_type = or_subject_type q, aq_subject_id = or_subject_id q,
     aq_content_digest = or_content_digest q, aq_requested_by = or_requested_by q, aq_state = PENDING,
     aq_current_level = 1, aq_idempotency_key = or_idempotency_key q, aq_completed_at = None, aq_note = None,
     aq_created_at = now\<rparr>"

definition request_approval ::
    "plane \<Rightarrow> uuid \<Rightarrow> datetime \<Rightarrow> open_request \<Rightarrow> approvals_db \<Rightarrow> approval_error + (ApprovalOutcome \<times> approvals_db)" where
  "request_approval pl i now q db =
     bindr (validate_digest (or_content_digest q)) (\<lambda>_.
     bindr (plane_policy pl (or_policy_code q) (or_policy_version q) db) (\<lambda>p.
     case find_row (\<lambda>r. (aq_plane r, aq_idempotency_key r)) (pl, or_idempotency_key q) (approval_requests db) of
       Some r \<Rightarrow>
         if aq_content_digest r \<noteq> or_content_digest q \<or> aq_policy_code r \<noteq> or_policy_code q
            \<or> aq_policy_version r \<noteq> or_policy_version q
         then Inl ContentChanged else Inr (outcome_of r p [] db, db)
     | None \<Rightarrow>
         (let r = new_request pl i now q;
              db' = db\<lparr>approval_requests := approval_requests db @ [r]\<rparr>
          in bindr (state_event r) (\<lambda>e. Inr (outcome_of r p [e] db', db')))))"

record decision_call =
  dc_id :: uuid
  dc_request :: uuid
  dc_actor :: Actor
  dc_action :: DecisionAction
  dc_content_digest :: string
  dc_comment :: "string option"
  dc_delegated_from :: "uuid option"

definition new_decision :: "plane \<Rightarrow> datetime \<Rightarrow> decision_call \<Rightarrow> int \<Rightarrow> approval_decision" where
  "new_decision pl now c n = \<lparr>ad_plane = pl, ad_id = dc_id c, ad_request = dc_request c, ad_level = n,
     ad_actor = actor_id (dc_actor c), ad_action = dc_action c, ad_comment = dc_comment c,
     ad_delegated_from = dc_delegated_from c, ad_mfa_verified = mfa_verified (dc_actor c), ad_decided_at = now\<rparr>"

text \<open>The reads and checks of \<^verbatim>\<open>record_*_decision\<close>, before it writes.\<close>

definition check_decision ::
    "plane \<Rightarrow> decision_call \<Rightarrow> approvals_db \<Rightarrow> approval_error + (approval_request \<times> PolicyRevision)" where
  "check_decision pl c db =
     bindr (plane_request pl (dc_request c) db) (\<lambda>r.
     if aq_state r \<noteq> PENDING then Inl RequestNotPending
     else if aq_content_digest r \<noteq> dc_content_digest c then Inl ContentChanged
     else
     bindr (plane_policy pl (aq_policy_code r) (aq_policy_version r) db) (\<lambda>p.
     let ds = recorded (plane_decisions pl (dc_request c) db) in
     bindr (if dc_action c = APPROVE
            then bindr (authorise_approval p (aq_current_level r) (dc_actor c) (aq_requested_by r) ds) (\<lambda>_. Inr ())
            else authorise_rejection p (aq_current_level r) (dc_actor c) ds)
       (\<lambda>_. Inr (r, p))))"

text \<open>The writes: the decision row, then the state of the request.\<close>

definition write_decision ::
    "plane \<Rightarrow> datetime \<Rightarrow> decision_call \<Rightarrow> approval_request \<Rightarrow> PolicyRevision \<Rightarrow> approvals_db
       \<Rightarrow> approval_error + (ApprovalOutcome \<times> approvals_db)" where
  "write_decision pl now c r p db =
     (let db1 = db\<lparr>approval_decisions := approval_decisions db @ [new_decision pl now c (aq_current_level r)]\<rparr> in
      if dc_action c = REJECT
      then let r' = r\<lparr>aq_state := REJECTED, aq_completed_at := Some now, aq_note := dc_comment c\<rparr>;
               db2 = set_request r' db1
           in bindr (state_event r') (\<lambda>e. Inr (outcome_of r' p [e] db2, db2))
      else let ev = evaluate p PENDING (aq_current_level r) (recorded (plane_decisions pl (dc_request c) db1));
               r' = r\<lparr>aq_current_level := ev_current_level ev\<rparr>
           in if ev_state ev = APPROVED
              then let r'' = r'\<lparr>aq_state := APPROVED, aq_completed_at := Some now\<rparr>;
                       db2 = set_request r'' db1
                   in bindr (state_event r'') (\<lambda>e. Inr (outcome_of r'' p [e] db2, db2))
              else let db2 = set_request r' db1 in Inr (outcome_of r' p [] db2, db2))"

definition record_decision ::
    "plane \<Rightarrow> datetime \<Rightarrow> decision_call \<Rightarrow> approvals_db \<Rightarrow> approval_error + (ApprovalOutcome \<times> approvals_db)" where
  "record_decision pl now c db = bindr (check_decision pl c db) (\<lambda>(r, p). write_decision pl now c r p db)"

definition cancel_request ::
    "plane \<Rightarrow> datetime \<Rightarrow> uuid \<Rightarrow> uuid \<Rightarrow> string \<Rightarrow> approvals_db \<Rightarrow> approval_error + (ApprovalOutcome \<times> approvals_db)" where
  "cancel_request pl now i who reason db =
     bindr (plane_request pl i db) (\<lambda>r.
     if aq_state r \<noteq> PENDING then Inl RequestNotPending
     else if aq_requested_by r \<noteq> who then Inl NotRequester
     else let r' = r\<lparr>aq_state := CANCELLED, aq_completed_at := Some now, aq_note := Some reason\<rparr>;
              db' = set_request r' db
          in bindr (plane_policy pl (aq_policy_code r) (aq_policy_version r) db') (\<lambda>p.
             bindr (state_event r') (\<lambda>e. Inr (outcome_of r' p [e] db', db'))))"

definition evaluate_approval :: "plane \<Rightarrow> uuid \<Rightarrow> approvals_db \<Rightarrow> approval_error + Evaluation" where
  "evaluate_approval pl i db =
     bindr (plane_request pl i db) (\<lambda>r.
     bindr (plane_policy pl (aq_policy_code r) (aq_policy_version r) db) (\<lambda>p.
     Inr (evaluate p (aq_state r) (aq_current_level r) (recorded (plane_decisions pl i db)))))"

subsection \<open>Withdrawal\<close>

record withdraw_call =
  wc_id :: uuid
  wc_request :: uuid
  wc_actor :: Actor
  wc_authority_ref :: string
  wc_reason :: string
  wc_external_ref :: string

definition validate_withdrawal_fields :: "withdraw_call \<Rightarrow> approval_error + unit" where
  "validate_withdrawal_fields c =
     (if blank (wc_authority_ref c) \<or> blank (wc_reason c) \<or> blank (wc_external_ref c) then Inl WithdrawalRefused
      else if length (wc_authority_ref c) > 200 \<or> length (wc_external_ref c) > 200 then Inl WithdrawalRefused
      else Inr ())"

definition check_withdrawal_replay ::
    "approval_request \<Rightarrow> approval_withdrawal option \<Rightarrow> withdraw_call \<Rightarrow> approval_error + bool" where
  "check_withdrawal_replay r row c = (case row of
     None \<Rightarrow> Inr False
   | Some w \<Rightarrow>
       if aw_request w \<noteq> aq_id r \<or> aw_external_ref w \<noteq> wc_external_ref c \<or> aw_actor w \<noteq> actor_id (wc_actor c)
          \<or> aw_authority_ref w \<noteq> wc_authority_ref c \<or> aw_reason w \<noteq> wc_reason c
       then Inl WithdrawalReferenceConflict else Inr True)"

definition new_withdrawal :: "plane \<Rightarrow> datetime \<Rightarrow> withdraw_call \<Rightarrow> datetime \<Rightarrow> approval_withdrawal" where
  "new_withdrawal pl now c approved = \<lparr>aw_plane = pl, aw_id = wc_id c, aw_request = wc_request c,
     aw_actor = actor_id (wc_actor c), aw_authority_ref = wc_authority_ref c, aw_reason = wc_reason c,
     aw_effective_at = now, aw_external_ref = wc_external_ref c, aw_approved_at = approved\<rparr>"

definition withdraw_approval ::
    "plane \<Rightarrow> datetime \<Rightarrow> withdraw_call \<Rightarrow> approvals_db \<Rightarrow> approval_error + (ApprovalOutcome \<times> approvals_db)" where
  "withdraw_approval pl now c db =
     bindr (validate_withdrawal_fields c) (\<lambda>_.
     bindr (plane_request pl (wc_request c) db) (\<lambda>r.
     let by_ref = find_row (\<lambda>w. (aw_plane w, aw_external_ref w)) (pl, wc_external_ref c) (approval_withdrawals db);
         by_request = find_row (\<lambda>w. (aw_plane w, aw_request w)) (pl, wc_request c) (approval_withdrawals db)
     in if by_ref \<noteq> None \<and> aw_request (the by_ref) \<noteq> wc_request c then Inl WithdrawalReferenceConflict
     else
     bindr (check_withdrawal_replay r (if by_request \<noteq> None then by_request else by_ref) c) (\<lambda>replay.
     if replay then
       (if aq_state r \<noteq> WITHDRAWN then Inl WithdrawalRefused
        else bindr (plane_policy pl (aq_policy_code r) (aq_policy_version r) db) (\<lambda>p. Inr (outcome_of r p [] db, db)))
     else (case (aq_state r, aq_completed_at r) of
       (APPROVED, Some completed) \<Rightarrow>
         bindr (plane_policy pl (aq_policy_code r) (aq_policy_version r) db) (\<lambda>p.
         if \<not> is_approved (evaluate p APPROVED (aq_current_level r) (recorded (plane_decisions pl (wc_request c) db)))
         then Inl WithdrawalRefused
         else let w = new_withdrawal pl now c completed;
                  r' = r\<lparr>aq_state := WITHDRAWN\<rparr>;
                  db' = set_request r' (db\<lparr>approval_withdrawals := approval_withdrawals db @ [w]\<rparr>)
              in bindr (withdrawal_event r' w) (\<lambda>e. Inr (outcome_of r' p [e] db', db')))
     | _ \<Rightarrow> Inl WithdrawalRefused))))"

subsection \<open>Holding a platform approval\<close>

record HeldPlatformApproval =
  hp_request :: uuid
  hp_subject_type :: string
  hp_subject_id :: string
  hp_content_digest :: string
  hp_policy_code :: string
  hp_policy_version :: int
  hp_decided_at :: datetime
  hp_approvers :: "uuid list"

definition hold_platform_approval ::
    "uuid \<Rightarrow> string \<Rightarrow> string \<Rightarrow> string \<Rightarrow> approvals_db \<Rightarrow> approval_error + HeldPlatformApproval" where
  "hold_platform_approval i st sid digest db =
     (case validate_digest digest of Inl _ \<Rightarrow> Inl (ApprovalNotHeld MALFORMED_DIGEST) | Inr _ \<Rightarrow>
     (case find_row request_key (None, i) (approval_requests db) of
        None \<Rightarrow> Inl (ApprovalNotHeld REQUEST_NOT_FOUND)
      | Some r \<Rightarrow>
        if aq_subject_type r \<noteq> st \<or> aq_subject_id r \<noteq> sid then Inl (ApprovalNotHeld SUBJECT_MISMATCH)
        else if aq_content_digest r \<noteq> digest then Inl (ApprovalNotHeld DIGEST_MISMATCH)
        else if aq_state r = WITHDRAWN then Inl (ApprovalNotHeld HOLD_WITHDRAWN)
        else (case (aq_state r, aq_completed_at r) of
          (APPROVED, Some completed) \<Rightarrow>
            let approvers = map ad_actor (filter (\<lambda>d. ad_action d = APPROVE) (plane_decisions None i db)) in
            if approvers = [] then Inl (ApprovalNotHeld NO_APPROVE_DECISION)
            else Inr \<lparr>hp_request = aq_id r, hp_subject_type = aq_subject_type r, hp_subject_id = aq_subject_id r,
              hp_content_digest = aq_content_digest r, hp_policy_code = aq_policy_code r,
              hp_policy_version = aq_policy_version r, hp_decided_at = completed, hp_approvers = approvers\<rparr>
        | _ \<Rightarrow> Inl (ApprovalNotHeld NOT_APPROVED))))"

subsection \<open>Reads\<close>

datatype RequestAction = ACT_APPROVE | ACT_REJECT | ACT_CANCEL

record ActionRefusal =
  af_action :: RequestAction
  af_code :: approval_error

definition permitted ::
    "PolicyRevision \<Rightarrow> approval_request \<Rightarrow> RecordedDecision list \<Rightarrow> Actor
       \<Rightarrow> approval_error + (RequestAction list \<times> ActionRefusal list)" where
  "permitted p r ds viewer =
     (if aq_state r \<noteq> PENDING then Inr ([], [])
      else bindr (level_of p (aq_current_level r)) (\<lambda>l.
        let (a1, f1) = (case authorise_approval p (aq_current_level r) viewer (aq_requested_by r) ds of
               Inl e \<Rightarrow> ([], [\<lparr>af_action = ACT_APPROVE, af_code = e\<rparr>]) | Inr _ \<Rightarrow> ([ACT_APPROVE], []));
            (a2, f2) = (case bindr (check_not_duplicate l viewer ds) (\<lambda>_. bindr (check_eligibility l viewer) (\<lambda>_. check_mfa l viewer)) of
               Inl e \<Rightarrow> ([], [\<lparr>af_action = ACT_REJECT, af_code = e\<rparr>]) | Inr _ \<Rightarrow> ([ACT_REJECT], []));
            (a3, f3) = (if aq_requested_by r = actor_id viewer then ([ACT_CANCEL], [])
               else ([], [\<lparr>af_action = ACT_CANCEL, af_code = NotRequester\<rparr>]))
        in Inr (a1 @ a2 @ a3, f1 @ f2 @ f3)))"

record RequestDetail =
  dt_request :: approval_request
  dt_policy :: PolicyRevision
  dt_decisions :: "approval_decision list"
  dt_evaluation :: Evaluation
  dt_permitted :: "RequestAction list"
  dt_refusals :: "ActionRefusal list"
  dt_withdrawal :: "WithdrawalEvidence option"

definition get_withdrawal :: "plane \<Rightarrow> uuid \<Rightarrow> approvals_db \<Rightarrow> approval_error + WithdrawalEvidence option" where
  "get_withdrawal pl i db =
     (case find_row (\<lambda>w. (aw_plane w, aw_request w)) (pl, i) (approval_withdrawals db) of
        None \<Rightarrow> Inr None | Some w \<Rightarrow> bindr (withdrawal_evidence w) (\<lambda>e. Inr (Some e)))"

definition make_RequestDetail :: "RequestDetail \<Rightarrow> approval_error + RequestDetail" where
  "make_RequestDetail d =
     (if (ev_state (dt_evaluation d) = WITHDRAWN) \<noteq> (dt_withdrawal d \<noteq> None) then Inl ContractValueError else Inr d)"

definition get_request ::
    "plane \<Rightarrow> uuid \<Rightarrow> Actor option \<Rightarrow> approvals_db \<Rightarrow> approval_error + RequestDetail option" where
  "get_request pl i viewer db =
     (case find_row request_key (pl, i) (approval_requests db) of
        None \<Rightarrow> Inr None
      | Some r \<Rightarrow>
        bindr (plane_policy pl (aq_policy_code r) (aq_policy_version r) db) (\<lambda>p.
        let rows = plane_decisions pl i db; ds = recorded rows in
        bindr (case viewer of None \<Rightarrow> Inr ([], []) | Some v \<Rightarrow> permitted p r ds v) (\<lambda>(acts, refusals).
        bindr (get_withdrawal pl i db) (\<lambda>w.
        bindr (make_RequestDetail \<lparr>dt_request = r, dt_policy = p, dt_decisions = rows,
            dt_evaluation = evaluate p (aq_state r) (aq_current_level r) ds,
            dt_permitted = acts, dt_refusals = refusals, dt_withdrawal = w\<rparr>) (\<lambda>d. Inr (Some d))))))"

record RequestFilter =
  rf_state :: "ApprovalState option"
  rf_policy_code :: "string option"
  rf_subject_type :: "string option"
  rf_subject_id :: "string option"
  rf_requested_by :: "uuid option"
  rf_page :: int
  rf_page_size :: int

definition make_RequestFilter :: "RequestFilter \<Rightarrow> approval_error + RequestFilter" where
  "make_RequestFilter f =
     (if rf_page f < 1 then Inl ContractValueError
      else if \<not> (1 \<le> rf_page_size f \<and> rf_page_size f \<le> 200) then Inl ContractValueError else Inr f)"

definition matches :: "'a option \<Rightarrow> 'a \<Rightarrow> bool" where
  "matches want x = (case want of None \<Rightarrow> True | Some y \<Rightarrow> x = y)"

definition filter_conditions :: "RequestFilter \<Rightarrow> approval_request \<Rightarrow> bool" where
  "filter_conditions f r \<longleftrightarrow> matches (rf_state f) (aq_state r) \<and> matches (rf_policy_code f) (aq_policy_code r)
     \<and> matches (rf_subject_type f) (aq_subject_type r) \<and> matches (rf_subject_id f) (aq_subject_id r)
     \<and> matches (rf_requested_by f) (aq_requested_by r)"

record RequestPage =
  pg_requests :: "approval_request list"
  pg_total :: int
  pg_page :: int
  pg_page_size :: int

definition has_more :: "RequestPage \<Rightarrow> bool" where
  "has_more p \<longleftrightarrow> pg_page p * pg_page_size p < pg_total p"

definition list_requests :: "plane \<Rightarrow> RequestFilter \<Rightarrow> approvals_db \<Rightarrow> RequestPage" where
  "list_requests pl f db =
     (let rows = sort_key (\<lambda>r. (aq_created_at r, aq_id r))
            (filter (\<lambda>r. aq_plane r = pl \<and> filter_conditions f r) (approval_requests db))
      in \<lparr>pg_requests = take (nat (rf_page_size f)) (drop (nat ((rf_page f - 1) * rf_page_size f)) rows),
          pg_total = int (length rows), pg_page = rf_page f, pg_page_size = rf_page_size f\<rparr>)"

definition get_policy :: "plane \<Rightarrow> string \<Rightarrow> int \<Rightarrow> approvals_db \<Rightarrow> approval_error + PolicyRevision option" where
  "get_policy pl c v db = (case find_row policy_key (pl, c, v) (approval_policies db) of
     None \<Rightarrow> Inr None | Some row \<Rightarrow> bindr (revision_of (ap_revision row)) (\<lambda>p. Inr (Some p)))"

definition list_policy_versions :: "plane \<Rightarrow> string \<Rightarrow> approvals_db \<Rightarrow> approval_error + PolicyRevision list" where
  "list_policy_versions pl c db = map_result revision_of (sort_key version (map ap_revision
     (filter (\<lambda>r. ap_plane r = pl \<and> policy_code (ap_revision r) = c) (approval_policies db))))"

subsection \<open>The two planes\<close>

definition "publish_tenant_policy_version t = publish_policy_version (Some t)"
definition "publish_platform_policy_version = publish_policy_version None"
definition "request_tenant_approval t = request_approval (Some t)"
definition "request_platform_approval = request_approval None"
definition "record_tenant_decision t = record_decision (Some t)"
definition "record_platform_decision = record_decision None"
definition "cancel_tenant_request t = cancel_request (Some t)"
definition "cancel_platform_request = cancel_request None"
definition "evaluate_tenant_approval t = evaluate_approval (Some t)"
definition "evaluate_platform_approval = evaluate_approval None"
definition "withdraw_tenant_approval t = withdraw_approval (Some t)"
definition "withdraw_platform_approval = withdraw_approval None"
definition "get_tenant_request t = get_request (Some t)"
definition "get_platform_request = get_request None"
definition "list_tenant_requests t = list_requests (Some t)"
definition "list_platform_requests = list_requests None"

end
