(* ===== verification/Approval_Safety.thy ===== *)
theory Approval_Safety
  imports Approvals
begin

text \<open>
  What an approval means: over every sequence of lifecycle calls, a request that
  stands as approved (or was withdrawn from that standing) has, at each level of
  its immutable policy revision, a quorum of distinct actors each of whom passed
  every rule of that level when deciding, on the content the request was opened
  for.  The read model's permitted actions are those the write path accepts.  Two
  decisions whose transactions overlap can complete a quorum without completing
  the request.
\<close>

subsection \<open>Votes\<close>

definition votes :: "plane \<Rightarrow> uuid \<Rightarrow> approvals_db \<Rightarrow> RecordedDecision list" where
  "votes pl i db = recorded (filter (\<lambda>d. ad_plane d = pl \<and> ad_request d = i) (approval_decisions db))"

lemma recorded_set: "set (recorded (plane_decisions pl i db)) = set (votes pl i db)"
  by (simp add: recorded_def plane_decisions_def votes_def)

lemma satisfied_prefix_set:
  assumes "set ds = set es"
  shows "satisfied_prefix ds ls = satisfied_prefix es ls"
  by (induction ls) (simp_all add: level_satisfied_set [OF assms])

lemma satisfied_count_recorded:
  "satisfied_count p (recorded (plane_decisions pl i db)) = satisfied_count p (votes pl i db)"
  unfolding satisfied_count_def by (rule satisfied_prefix_set [OF recorded_set])

lemma satisfied_count_le: "satisfied_count p ds \<le> total_levels p"
  using satisfied_prefix_bounds [of ds "levels p"] by (simp add: satisfied_count_def total_levels_def)

lemma votes_append:
  "votes pl i (db\<lparr>approval_decisions := approval_decisions db @ [d]\<rparr>) =
     votes pl i db @ (if ad_plane d = pl \<and> ad_request d = i
       then [\<lparr>rd_level = ad_level d, rd_actor = ad_actor d, rd_action = ad_action d\<rparr>] else [])"
  by (simp add: votes_def recorded_def)

lemma votes_simps [simp]:
  "votes pl i (set_request r db) = votes pl i db"
  "votes pl i (db\<lparr>approval_requests := rs\<rparr>) = votes pl i db"
  "votes pl i (db\<lparr>approval_policies := ps\<rparr>) = votes pl i db"
  "votes pl i (db\<lparr>approval_withdrawals := ws\<rparr>) = votes pl i db"
  by (simp_all add: votes_def set_request_def)

lemma plane_policy_simps [simp]:
  "plane_policy pl c v (set_request r db) = plane_policy pl c v db"
  "plane_policy pl c v (db\<lparr>approval_requests := rs\<rparr>) = plane_policy pl c v db"
  "plane_policy pl c v (db\<lparr>approval_decisions := ds\<rparr>) = plane_policy pl c v db"
  "plane_policy pl c v (db\<lparr>approval_withdrawals := ws\<rparr>) = plane_policy pl c v db"
  by (simp_all add: plane_policy_def set_request_def)

subsection \<open>Runs\<close>

text \<open>A ghost record of each accepted approval: who, on what, and after which decisions.\<close>

record vote =
  vt_plane :: plane
  vt_request :: uuid
  vt_level :: int
  vt_actor :: Actor
  vt_digest :: string
  vt_before :: "RecordedDecision list"

definition vote_of :: "plane \<Rightarrow> decision_call \<Rightarrow> approvals_db \<Rightarrow> vote list" where
  "vote_of pl c db = (if dc_action c = APPROVE
     then (case plane_request pl (dc_request c) db of
         Inr r \<Rightarrow> [\<lparr>vt_plane = pl, vt_request = dc_request c, vt_level = aq_current_level r, vt_actor = dc_actor c,
           vt_digest = dc_content_digest c, vt_before = recorded (plane_decisions pl (dc_request c) db)\<rparr>]
       | Inl _ \<Rightarrow> [])
     else [])"

text \<open>
  One call after the other.  A revision that is published is a constructed value,
  so it has passed its own checks; the identifier of a new request is new.
\<close>

inductive approval_run :: "approvals_db \<Rightarrow> vote list \<Rightarrow> bool" where
  empty: "approval_run \<lparr>approval_policies = [], approval_requests = [], approval_decisions = [], approval_withdrawals = []\<rparr> []"
| publish: "approval_run db lg \<Longrightarrow> revision_of p = Inr p \<Longrightarrow> publish_policy_version pl p db = Inr db' \<Longrightarrow> approval_run db' lg"
| requested: "approval_run db lg \<Longrightarrow> (pl, i) \<notin> request_key ` set (approval_requests db) \<Longrightarrow>
    request_approval pl i now q db = Inr (out, db') \<Longrightarrow> approval_run db' lg"
| decide: "approval_run db lg \<Longrightarrow> record_decision pl now c db = Inr (out, db') \<Longrightarrow> approval_run db' (lg @ vote_of pl c db)"
| cancel: "approval_run db lg \<Longrightarrow> cancel_request pl now i who reason db = Inr (out, db') \<Longrightarrow> approval_run db' lg"
| withdraw: "approval_run db lg \<Longrightarrow> withdraw_approval pl now w db = Inr (out, db') \<Longrightarrow> approval_run db' lg"

subsection \<open>The invariant\<close>

definition policies_ok :: "approvals_db \<Rightarrow> bool" where
  "policies_ok db \<longleftrightarrow> distinct (map policy_key (approval_policies db))
     \<and> (\<forall>row \<in> set (approval_policies db). revision_of (ap_revision row) = Inr (ap_revision row))"

definition standing_ok :: "approvals_db \<Rightarrow> approval_request \<Rightarrow> bool" where
  "standing_ok db r \<longleftrightarrow> (\<exists>p. plane_policy (aq_plane r) (aq_policy_code r) (aq_policy_version r) db = Inr p
     \<and> (aq_state r = PENDING \<longrightarrow> satisfied_count p (votes (aq_plane r) (aq_id r) db) < total_levels p
          \<and> aq_current_level r = satisfied_count p (votes (aq_plane r) (aq_id r) db) + 1)
     \<and> (aq_state r = APPROVED \<or> aq_state r = WITHDRAWN
          \<longrightarrow> satisfied_count p (votes (aq_plane r) (aq_id r) db) = total_levels p))"

definition vote_ok :: "approvals_db \<Rightarrow> vote \<Rightarrow> bool" where
  "vote_ok db e \<longleftrightarrow> (\<exists>r \<in> set (approval_requests db). request_key r = (vt_plane e, vt_request e)
     \<and> vt_digest e = aq_content_digest r
     \<and> (\<exists>p l. plane_policy (aq_plane r) (aq_policy_code r) (aq_policy_version r) db = Inr p
          \<and> authorise_approval p (vt_level e) (vt_actor e) (aq_requested_by r) (vt_before e) = Inr l))"

definition logged :: "vote list \<Rightarrow> approval_decision \<Rightarrow> bool" where
  "logged lg d \<longleftrightarrow> ad_action d = APPROVE \<longrightarrow> (\<exists>e \<in> set lg. vt_plane e = ad_plane d \<and> vt_request e = ad_request d
     \<and> vt_level e = ad_level d \<and> actor_id (vt_actor e) = ad_actor d)"

text \<open>The invariant, except for the standing of the requests with a key in \<open>K\<close>.\<close>

definition inv_except :: "(plane \<times> uuid) set \<Rightarrow> approvals_db \<Rightarrow> vote list \<Rightarrow> bool" where
  "inv_except K db lg \<longleftrightarrow> policies_ok db \<and> distinct (map request_key (approval_requests db))
     \<and> list_all (\<lambda>r. request_key r \<notin> K \<longrightarrow> standing_ok db r) (approval_requests db)
     \<and> list_all (\<lambda>d. (ad_plane d, ad_request d) \<in> request_key ` set (approval_requests db) \<and> logged lg d) (approval_decisions db)
     \<and> list_all (vote_ok db) lg"

definition approvals_inv :: "approvals_db \<Rightarrow> vote list \<Rightarrow> bool" where
  "approvals_inv db lg \<longleftrightarrow> inv_except {} db lg"

lemmas approvals_inv_defs = approvals_inv_def inv_except_def policies_ok_def list_all_iff

text \<open>What a lifecycle call never changes in a request.\<close>

definition same_request :: "approval_request \<Rightarrow> approval_request \<Rightarrow> bool" where
  "same_request r s \<longleftrightarrow> request_key r = request_key s \<and> aq_policy_code r = aq_policy_code s
     \<and> aq_policy_version r = aq_policy_version s \<and> aq_content_digest r = aq_content_digest s
     \<and> aq_requested_by r = aq_requested_by s"

lemma plane_request_Inr: "plane_request pl i db = Inr r \<Longrightarrow> r \<in> set (approval_requests db) \<and> request_key r = (pl, i)"
  using find_row_Some [of request_key "(pl, i)" "approval_requests db" r]
  by (auto simp: plane_request_def split: option.splits)

lemma set_request_rows:
  assumes "r \<in> set (approval_requests db)" and "request_key r = request_key r'"
  shows "set (approval_requests (set_request r' db)) = insert r' {x \<in> set (approval_requests db). request_key x \<noteq> request_key r'}"
    and "map request_key (approval_requests (set_request r' db)) = map request_key (approval_requests db)"
proof -
  show "set (approval_requests (set_request r' db)) = insert r' {x \<in> set (approval_requests db). request_key x \<noteq> request_key r'}"
    using assms by (auto simp: set_request_def update_rows_set image_iff)
  show "map request_key (approval_requests (set_request r' db)) = map request_key (approval_requests db)"
    by (auto simp: set_request_def update_rows_def)
qed

lemma vote_ok_set_request:
  assumes "vote_ok db e" and "r \<in> set (approval_requests db)" and "same_request r' r"
    and "distinct (map request_key (approval_requests db))"
  shows "vote_ok (set_request r' db) e"
proof -
  have key: "request_key r = request_key r'" using assms(3) by (simp add: same_request_def)
  obtain s where s: "s \<in> set (approval_requests db)" "request_key s = (vt_plane e, vt_request e)"
    "vt_digest e = aq_content_digest s" "\<exists>p l. plane_policy (aq_plane s) (aq_policy_code s) (aq_policy_version s) db = Inr p
      \<and> authorise_approval p (vt_level e) (vt_actor e) (aq_requested_by s) (vt_before e) = Inr l"
    using assms(1) by (auto simp: vote_ok_def)
  show ?thesis
  proof (cases "request_key s = request_key r'")
    case True
    then have "s = r" using assms(2,4) key s(1) by (metis distinct_map inj_onD)
    moreover have "aq_plane r' = aq_plane r" using key by (simp add: request_key_def)
    ultimately show ?thesis
      using s assms(3) set_request_rows(1) [OF assms(2) key]
      by (auto simp: vote_ok_def same_request_def)
  next
    case False
    then show ?thesis using s set_request_rows(1) [OF assms(2) key] by (auto simp: vote_ok_def)
  qed
qed

lemma approvals_inv_set_request:
  assumes "inv_except {request_key r} db lg" and "r \<in> set (approval_requests db)" and "same_request r' r"
    and "standing_ok db r'"
  shows "approvals_inv (set_request r' db) lg"
proof -
  have key: "request_key r = request_key r'" using assms(3) by (simp add: same_request_def)
  note rows = set_request_rows [OF assms(2) key]
  have "standing_ok (set_request r' db) s" if "standing_ok db s" for s
    using that by (simp add: standing_ok_def)
  moreover have "request_key ` set (approval_requests (set_request r' db)) = request_key ` set (approval_requests db)"
    using rows(2) by (metis list.set_map)
  moreover have "approval_decisions (set_request r' db) = approval_decisions db"
    "approval_policies (set_request r' db) = approval_policies db" by (simp_all add: set_request_def)
  moreover have "vote_ok (set_request r' db) e" if "e \<in> set lg" for e
    using assms that by (intro vote_ok_set_request [OF _ assms(2,3)]) (auto simp: approvals_inv_defs)
  ultimately show ?thesis
    using assms(1,4) rows key by (auto simp: approvals_inv_defs)
qed

lemma inv_except_mono: "approvals_inv db lg \<Longrightarrow> inv_except K db lg"
  by (auto simp: approvals_inv_defs)

lemma standing_of:
  assumes "approvals_inv db lg" and "plane_request pl i db = Inr r"
    and "plane_policy pl (aq_policy_code r) (aq_policy_version r) db = Inr p"
  shows "aq_state r = PENDING \<longrightarrow> satisfied_count p (votes pl i db) < total_levels p
      \<and> aq_current_level r = satisfied_count p (votes pl i db) + 1"
    and "aq_state r = APPROVED \<or> aq_state r = WITHDRAWN \<longrightarrow> satisfied_count p (votes pl i db) = total_levels p"
proof -
  have "r \<in> set (approval_requests db)" "aq_plane r = pl" "aq_id r = i"
    using plane_request_Inr [OF assms(2)] by (auto simp: request_key_def)
  moreover from this have "standing_ok db r" using assms(1) by (simp add: approvals_inv_defs)
  ultimately show "aq_state r = PENDING \<longrightarrow> satisfied_count p (votes pl i db) < total_levels p
      \<and> aq_current_level r = satisfied_count p (votes pl i db) + 1"
    and "aq_state r = APPROVED \<or> aq_state r = WITHDRAWN \<longrightarrow> satisfied_count p (votes pl i db) = total_levels p"
    using assms(3) by (auto simp: standing_ok_def)
qed

subsection \<open>Every call keeps it\<close>

lemma plane_policy_valid:
  assumes "plane_policy pl c v db = Inr p"
  shows "levels p \<noteq> [] \<and> list_all (\<lambda>l. 1 \<le> quorum l) (levels p) \<and> map sequence (levels p) = [1..int (length (levels p))]"
proof -
  obtain q where "revision_of q = Inr p" using assms by (auto simp: plane_policy_def split: option.splits)
  then have "list_all2 (\<lambda>l y. make_ApprovalLevel l = Inr y) (levels q) ls \<and> make_PolicyRevision q = Inr p" if "map_result make_ApprovalLevel (levels q) = Inr ls" for ls
    using that by (auto simp: revision_of_def map_result_Inr_iff)
  then obtain ls where ls: "list_all2 (\<lambda>l y. make_ApprovalLevel l = Inr y) (levels q) ls" "make_PolicyRevision q = Inr p"
    using \<open>revision_of q = Inr p\<close> by (auto simp: revision_of_def bindr_eq_Inr)
  then have "q = p" by (simp add: make_PolicyRevision_Inr)
  have "1 \<le> quorum l" if "l \<in> set (levels q)" for l
    using ls(1) that by (auto simp: list_all2_conv_all_nth in_set_conv_nth make_ApprovalLevel_def split: if_splits)
  with ls(2) \<open>q = p\<close> show ?thesis by (auto simp: make_PolicyRevision_Inr list_all_iff)
qed

lemma fresh_satisfied_count:
  assumes "plane_policy pl c v db = Inr p"
  shows "satisfied_count p [] = 0 \<and> 0 < total_levels p"
proof -
  obtain l ls where "levels p = l # ls" "1 \<le> quorum l"
    using plane_policy_valid [OF assms] by (cases "levels p") auto
  then show ?thesis
    by (simp add: satisfied_count_def total_levels_def level_satisfied_def distinct_approvers_def approvals_at_def)
qed

lemma plane_policy_publish:
  assumes "publish_policy_version pl p db = Inr db'" and "plane_policy pl' c v db = Inr q"
  shows "plane_policy pl' c v db' = Inr q"
  using assms by (auto simp: publish_policy_version_def plane_policy_def find_row_append split: option.splits)

lemma publish_keeps:
  assumes "approvals_inv db lg" and "revision_of p = Inr p" and "publish_policy_version pl p db = Inr db'"
  shows "approvals_inv db' lg"
proof -
  have db': "db' = db\<lparr>approval_policies := approval_policies db @ [\<lparr>ap_plane = pl, ap_revision = p\<rparr>]\<rparr>"
    and new: "(pl, policy_code p, version p) \<notin> policy_key ` set (approval_policies db)"
    using assms(3) by (auto simp: publish_policy_version_def find_row_None split: option.splits)
  have "standing_ok db' r" if "standing_ok db r" for r
    using that plane_policy_publish [OF assms(3)] by (auto simp: standing_ok_def db')
  moreover have "vote_ok db' e" if "vote_ok db e" for e
    using that plane_policy_publish [OF assms(3)] by (fastforce simp: vote_ok_def db')
  moreover have "policies_ok db'"
    using assms(1,2) new by (auto simp: approvals_inv_defs db' policy_key_def)
  ultimately show ?thesis
    using assms(1) by (auto simp: approvals_inv_def inv_except_def list_all_iff db')
qed

lemma request_keeps:
  assumes "approvals_inv db lg" and "(pl, i) \<notin> request_key ` set (approval_requests db)"
    and "request_approval pl i now q db = Inr (out, db')"
  shows "approvals_inv db' lg"
proof -
  define r where "r = new_request pl i now q"
  obtain p where p: "plane_policy pl (or_policy_code q) (or_policy_version q) db = Inr p"
    using assms(3) by (auto simp: request_approval_def bindr_eq_Inr)
  then consider "db' = db" | "db' = db\<lparr>approval_requests := approval_requests db @ [r]\<rparr>"
    using assms(3) by (auto simp: request_approval_def bindr_eq_Inr r_def Let_def split: option.splits if_splits)
  then show ?thesis
  proof cases
    case 1
    with assms(1) show ?thesis by simp
  next
    case 2
    have "filter (\<lambda>d. ad_plane d = pl \<and> ad_request d = i) (approval_decisions db) = []"
      using assms(1,2) by (auto simp: approvals_inv_defs filter_empty_conv)
    then have "votes pl i db = []" by (simp add: votes_def recorded_def)
    then have "standing_ok db' r"
      using p fresh_satisfied_count [OF p] by (simp add: standing_ok_def 2 r_def new_request_def)
    moreover have "standing_ok db' s" if "standing_ok db s" for s using that by (simp add: standing_ok_def 2)
    moreover have "vote_ok db' e" if "vote_ok db e" for e using that by (auto simp: vote_ok_def 2)
    moreover have "request_key r = (pl, i)" by (simp add: r_def new_request_def request_key_def)
    ultimately show ?thesis
      using assms(1,2) by (auto simp: approvals_inv_defs 2)
  qed
qed

lemma check_decision_Inr:
  assumes "check_decision pl c db = Inr (r, p)"
  shows "plane_request pl (dc_request c) db = Inr r" and "aq_state r = PENDING"
    and "aq_content_digest r = dc_content_digest c"
    and "plane_policy pl (aq_policy_code r) (aq_policy_version r) db = Inr p"
    and "dc_action c = APPROVE \<Longrightarrow> \<exists>l. authorise_approval p (aq_current_level r) (dc_actor c) (aq_requested_by r)
           (recorded (plane_decisions pl (dc_request c) db)) = Inr l"
  using assms by (auto simp: check_decision_def bindr_eq_Inr Let_def split: if_splits)

text \<open>The tables after the decision row is written and before the request is.\<close>

lemma decision_written:
  assumes inv: "approvals_inv db lg" and ok: "check_decision pl c db = Inr (r, p)"
  shows "inv_except {request_key r}
    (db\<lparr>approval_decisions := approval_decisions db @ [new_decision pl now c (aq_current_level r)]\<rparr>) (lg @ vote_of pl c db)"
    (is "inv_except _ ?db1 ?lg1")
proof -
  note c = check_decision_Inr [OF ok]
  have r: "r \<in> set (approval_requests db)" "request_key r = (pl, dc_request c)" "aq_plane r = pl"
    using plane_request_Inr [OF c(1)] by (auto simp: request_key_def)
  have "standing_ok ?db1 s" if "s \<in> set (approval_requests db)" "request_key s \<noteq> request_key r" for s
  proof -
    have "votes (aq_plane s) (aq_id s) ?db1 = votes (aq_plane s) (aq_id s) db"
      using that(2) r(2) by (auto simp: votes_append new_decision_def request_key_def)
    moreover have "standing_ok db s" using inv that(1) by (simp add: approvals_inv_defs)
    ultimately show ?thesis by (simp add: standing_ok_def)
  qed
  moreover have "vote_ok ?db1 e" if "vote_ok db e" for e using that by (auto simp: vote_ok_def)
  moreover have "vote_ok ?db1 e" if "e \<in> set (vote_of pl c db)" for e
  proof -
    have "dc_action c = APPROVE" using that by (cases "dc_action c = APPROVE") (simp_all add: vote_of_def)
    with c(5) obtain l where "authorise_approval p (aq_current_level r) (dc_actor c) (aq_requested_by r)
      (recorded (plane_decisions pl (dc_request c) db)) = Inr l" by blast
    moreover have "e = \<lparr>vt_plane = pl, vt_request = dc_request c, vt_level = aq_current_level r, vt_actor = dc_actor c,
        vt_digest = dc_content_digest c, vt_before = recorded (plane_decisions pl (dc_request c) db)\<rparr>"
      using that c(1) \<open>dc_action c = APPROVE\<close> by (simp add: vote_of_def)
    ultimately show ?thesis
      using r c(3,4) unfolding vote_ok_def by (intro bexI [of _ r]) simp_all
  qed
  moreover have "logged ?lg1 (new_decision pl now c (aq_current_level r))"
    using c(1) by (auto simp: logged_def new_decision_def vote_of_def)
  moreover have "logged ?lg1 d" if "logged lg d" for d using that by (auto simp: logged_def)
  moreover have "(pl, dc_request c) \<in> request_key ` set (approval_requests db)" using r(1,2) by force
  ultimately show ?thesis
    using inv by (auto simp: approvals_inv_defs new_decision_def)
qed

lemma decide_keeps:
  assumes inv: "approvals_inv db lg" and "record_decision pl now c db = Inr (out, db')"
  shows "approvals_inv db' (lg @ vote_of pl c db)"
proof -
  obtain r p where ok: "check_decision pl c db = Inr (r, p)" and w: "write_decision pl now c r p db = Inr (out, db')"
    using assms(2) by (auto simp: record_decision_def bindr_eq_Inr)
  note c = check_decision_Inr [OF ok]
  define db1 where "db1 = db\<lparr>approval_decisions := approval_decisions db @ [new_decision pl now c (aq_current_level r)]\<rparr>"
  have r: "r \<in> set (approval_requests db1)" "aq_plane r = pl" "aq_id r = dc_request c"
    using plane_request_Inr [OF c(1)] by (auto simp: request_key_def db1_def)
  have pol: "plane_policy pl (aq_policy_code r) (aq_policy_version r) db1 = Inr p" using c(4) by (simp add: db1_def)
  define ds where "ds = recorded (plane_decisions pl (dc_request c) db1)"
  define sat where "sat = satisfied_count p (votes pl (dc_request c) db1)"
  have ev: "satisfied_count p ds = sat" unfolding ds_def sat_def by (rule satisfied_count_recorded)
  note step = approvals_inv_set_request [OF decision_written [OF inv ok, of now, folded db1_def] r(1)]
  show ?thesis
  proof (cases "dc_action c")
    case REJECT
    define r' where "r' = r\<lparr>aq_state := REJECTED, aq_completed_at := Some now, aq_note := dc_comment c\<rparr>"
    have "db' = set_request r' db1"
      using w REJECT by (auto simp: write_decision_def Let_def bindr_eq_Inr db1_def r'_def)
    moreover have "standing_ok db1 r'" using pol r by (simp add: standing_ok_def r'_def)
    moreover have "same_request r' r" by (simp add: same_request_def r'_def request_key_def)
    ultimately show ?thesis using step by simp
  next
    case APPROVE
    show ?thesis
    proof (cases "sat \<ge> total_levels p")
      case True
      define r' where "r' = r\<lparr>aq_current_level := total_levels p, aq_state := APPROVED, aq_completed_at := Some now\<rparr>"
      have "db' = set_request r' db1"
        using w APPROVE True ev by (auto simp: write_decision_def Let_def bindr_eq_Inr db1_def ds_def evaluate_def r'_def)
      moreover have "standing_ok db1 r'"
        using pol r True satisfied_count_le [of p "votes pl (dc_request c) db1"] by (simp add: standing_ok_def r'_def sat_def)
      moreover have "same_request r' r" by (simp add: same_request_def r'_def request_key_def)
      ultimately show ?thesis using step by simp
    next
      case False
      define r' where "r' = r\<lparr>aq_current_level := sat + 1\<rparr>"
      have "min (sat + 1) (total_levels p) = sat + 1" using False by simp
      then have "db' = set_request r' db1"
        using w APPROVE False ev by (auto simp: write_decision_def Let_def bindr_eq_Inr db1_def ds_def evaluate_def r'_def)
      moreover have "standing_ok db1 r'" using pol r False c(2) by (simp add: standing_ok_def r'_def sat_def)
      moreover have "same_request r' r" by (simp add: same_request_def r'_def request_key_def)
      ultimately show ?thesis using step by simp
    qed
  qed
qed

lemma cancel_keeps:
  assumes "approvals_inv db lg" and "cancel_request pl now i who reason db = Inr (out, db')"
  shows "approvals_inv db' lg"
proof -
  obtain r p where r: "plane_request pl i db = Inr r"
    "plane_policy pl (aq_policy_code r) (aq_policy_version r) db = Inr p"
    "db' = set_request (r\<lparr>aq_state := CANCELLED, aq_completed_at := Some now, aq_note := Some reason\<rparr>) db"
    using assms(2) by (auto simp: cancel_request_def bindr_eq_Inr Let_def split: if_splits)
  then have "standing_ok db (r\<lparr>aq_state := CANCELLED, aq_completed_at := Some now, aq_note := Some reason\<rparr>)"
    using plane_request_Inr [OF r(1)] by (auto simp: standing_ok_def request_key_def)
  then show ?thesis
    unfolding r(3) using plane_request_Inr [OF r(1)] inv_except_mono [OF assms(1)]
    by (intro approvals_inv_set_request [of r]) (auto simp: same_request_def request_key_def)
qed

lemma withdraw_keeps:
  assumes "approvals_inv db lg" and "withdraw_approval pl now w db = Inr (out, db')"
  shows "approvals_inv db' lg"
proof -
  obtain r where r: "plane_request pl (wc_request w) db = Inr r"
    using assms(2) by (auto simp: withdraw_approval_def bindr_eq_Inr)
  have rr: "r \<in> set (approval_requests db)" "aq_plane r = pl" "aq_id r = wc_request w"
    using plane_request_Inr [OF r] by (auto simp: request_key_def)
  from assms(2) r consider "db' = db"
    | completed p where "plane_policy pl (aq_policy_code r) (aq_policy_version r) db = Inr p" "aq_state r = APPROVED"
      "db' = set_request (r\<lparr>aq_state := WITHDRAWN\<rparr>)
         (db\<lparr>approval_withdrawals := approval_withdrawals db @ [new_withdrawal pl now w completed]\<rparr>)"
    by (auto simp: withdraw_approval_def bindr_eq_Inr Let_def split: if_splits ApprovalState.splits option.splits)
  then show ?thesis
  proof cases
    case 1
    with assms(1) show ?thesis by simp
  next
    case 2
    define db1 where "db1 = db\<lparr>approval_withdrawals := approval_withdrawals db @ [new_withdrawal pl now w completed]\<rparr>"
    have "approvals_inv db1 lg"
      using assms(1) by (auto simp: approvals_inv_defs standing_ok_def vote_ok_def db1_def)
    moreover have "standing_ok db1 (r\<lparr>aq_state := WITHDRAWN\<rparr>)"
      using standing_of(2) [OF assms(1) r 2(1)] 2(1,2) rr by (simp add: standing_ok_def db1_def)
    ultimately show ?thesis
      unfolding 2(3) db1_def [symmetric] using rr
      by (intro approvals_inv_set_request [of r] inv_except_mono) (auto simp: same_request_def request_key_def db1_def)
  qed
qed

lemma approval_run_inv: "approval_run db lg \<Longrightarrow> approvals_inv db lg"
proof (induction rule: approval_run.induct)
  case empty
  show ?case by (simp add: approvals_inv_defs)
qed (blast intro: publish_keeps request_keeps decide_keeps cancel_keeps withdraw_keeps)+

subsection \<open>Approved means authorised\<close>

lemma vote_entry:
  assumes inv: "approvals_inv db lg" and "plane_request pl i db = Inr r"
    and "plane_policy pl (aq_policy_code r) (aq_policy_version r) db = Inr p"
    and "d \<in> set (approvals_at (votes pl i db) n)"
  shows "\<exists>e \<in> set lg. vt_plane e = pl \<and> vt_request e = i \<and> vt_level e = n \<and> actor_id (vt_actor e) = rd_actor d
    \<and> vt_digest e = aq_content_digest r
    \<and> (\<exists>l. authorise_approval p n (vt_actor e) (aq_requested_by r) (vt_before e) = Inr l)"
proof -
  obtain x where x: "x \<in> set (approval_decisions db)" "ad_plane x = pl" "ad_request x = i" "ad_level x = n"
    "ad_action x = APPROVE" "ad_actor x = rd_actor d"
    using assms(4) by (auto simp: approvals_at_def votes_def recorded_def)
  then obtain e where e: "e \<in> set lg" "vt_plane e = pl" "vt_request e = i" "vt_level e = n" "actor_id (vt_actor e) = rd_actor d"
    using inv unfolding approvals_inv_defs logged_def by (metis x)
  have "vote_ok db e" using inv e(1) by (simp add: approvals_inv_defs)
  then obtain s where s: "s \<in> set (approval_requests db)" "request_key s = (pl, i)" "vt_digest e = aq_content_digest s"
    "\<exists>q l. plane_policy (aq_plane s) (aq_policy_code s) (aq_policy_version s) db = Inr q
       \<and> authorise_approval q n (vt_actor e) (aq_requested_by s) (vt_before e) = Inr l"
    using e by (auto simp: vote_ok_def)
  have "s = r"
    using inv s(1,2) plane_request_Inr [OF assms(2)] unfolding approvals_inv_defs distinct_map inj_on_def by metis
  moreover have "aq_plane r = pl" using plane_request_Inr [OF assms(2)] by (simp add: request_key_def)
  ultimately show ?thesis using e s(3,4) assms(3) by auto
qed


text \<open>A run: one level that needs two holders of a role.\<close>

definition sample_policy :: PolicyRevision where
  "sample_policy = \<lparr>policy_code = ''plan'', version = 1, levels = [\<lparr>sequence = 1, approver_kind = ROLE,
     approver_id = uuid_str 9, quorum = 2, sod_rule = None, requires_mfa = False, allow_delegation = True\<rparr>],
     allow_self_approval = False\<rparr>"

definition sample_digest :: string where "sample_digest = DIGEST_PREFIX @ replicate 64 CHR ''a''"

definition sample_call :: "uuid \<Rightarrow> uuid \<Rightarrow> decision_call" where
  "sample_call k who = \<lparr>dc_id = k, dc_request = 1, dc_actor = \<lparr>actor_id = who, role_ids = [9], mfa_verified = False\<rparr>,
     dc_action = APPROVE, dc_content_digest = sample_digest, dc_comment = None, dc_delegated_from = None\<rparr>"

definition sample_request :: open_request where
  "sample_request = \<lparr>or_policy_code = ''plan'', or_policy_version = 1, or_subject_type = ''rollout'', or_subject_id = ''7'',
     or_content_digest = sample_digest, or_requested_by = 3, or_idempotency_key = ''k''\<rparr>"

definition sample_open :: approvals_db where
  "sample_open = \<lparr>approval_policies = [\<lparr>ap_plane = None, ap_revision = sample_policy\<rparr>],
     approval_requests = [new_request None 1 10 sample_request], approval_decisions = [], approval_withdrawals = []\<rparr>"

lemma sample_open_run: "approval_run sample_open []"
proof -
  let ?start = "\<lparr>approval_policies = [], approval_requests = [], approval_decisions = [], approval_withdrawals = []\<rparr>"
  let ?published = "?start\<lparr>approval_policies := [\<lparr>ap_plane = None, ap_revision = sample_policy\<rparr>]\<rparr>"
  have ok: "revision_of sample_policy = Inr sample_policy" by code_simp
  have "publish_policy_version None sample_policy ?start = Inr ?published"
    by (simp add: publish_policy_version_def find_row_def)
  then have run: "approval_run ?published []" by (rule approval_run.publish [OF approval_run.empty ok])
  have "validate_digest (or_content_digest sample_request) = Inr sample_digest" by code_simp
  moreover have "plane_policy None (or_policy_code sample_request) (or_policy_version sample_request) ?published = Inr sample_policy"
    using ok by (simp add: plane_policy_def find_row_def policy_key_def sample_request_def sample_policy_def)
  ultimately obtain out where "request_approval None 1 10 sample_request ?published = Inr (out, sample_open)"
    by (auto simp: request_approval_def find_row_def state_event_def event_of_def make_ApprovalEvent_def
        new_request_def sample_open_def Let_def)
  then show ?thesis by (rule approval_run.requested [OF run, rotated]) simp
qed


subsection \<open>The read model\<close>

lemma write_decision_total: "\<exists>res. write_decision pl now c r p db = Inr res" if "aq_state r = PENDING"
  using that by (auto simp: write_decision_def Let_def state_event_def event_of_def make_ApprovalEvent_def)

lemma record_decision_accepts: "\<not> isl (record_decision pl now c db) \<longleftrightarrow> \<not> isl (check_decision pl c db)"
proof (cases "check_decision pl c db")
  case (Inr rp)
  then obtain r p where rp: "check_decision pl c db = Inr (r, p)" by (cases rp) auto
  then show ?thesis
    using write_decision_total [OF check_decision_Inr(2) [OF rp], of pl now c p db] by (auto simp: record_decision_def)
qed (simp add: record_decision_def)

text \<open>
  C29. A screen never offers an action the write path would refuse and never hides one
  it would accept: the actions a request's detail permits a viewer are exactly the
  approve, reject and cancel calls by that viewer, for the request's content, that
  succeed.
\<close>

theorem permitted_actions_exact:
  assumes "get_request pl i (Some v) db = Inr (Some d)"
  shows "(ACT_APPROVE \<in> set (dt_permitted d) \<longleftrightarrow> \<not> isl (record_decision pl now
      \<lparr>dc_id = k, dc_request = i, dc_actor = v, dc_action = APPROVE, dc_content_digest = aq_content_digest (dt_request d),
       dc_comment = comment, dc_delegated_from = del\<rparr> db))
    \<and> (ACT_REJECT \<in> set (dt_permitted d) \<longleftrightarrow> \<not> isl (record_decision pl now
      \<lparr>dc_id = k, dc_request = i, dc_actor = v, dc_action = REJECT, dc_content_digest = aq_content_digest (dt_request d),
       dc_comment = comment, dc_delegated_from = del\<rparr> db))
    \<and> (ACT_CANCEL \<in> set (dt_permitted d) \<longleftrightarrow> \<not> isl (cancel_request pl now i (actor_id v) reason db))"
proof -
  obtain r where row: "find_row request_key (pl, i) (approval_requests db) = Some r"
    using assms by (auto simp: get_request_def split: option.splits)
  obtain p acts refusals where
    p: "plane_policy pl (aq_policy_code r) (aq_policy_version r) db = Inr p" and
    acts: "permitted p r (recorded (plane_decisions pl i db)) v = Inr (acts, refusals)" and
    d: "dt_request d = r" "dt_permitted d = acts"
    using assms row by (auto simp: get_request_def Let_def bindr_eq_Inr make_RequestDetail_def split: if_splits)
  have req: "plane_request pl i db = Inr r" by (simp add: plane_request_def row)
  show ?thesis
  proof (cases "aq_state r = PENDING")
    case False
    then show ?thesis
      using acts req by (simp add: d permitted_def record_decision_accepts check_decision_def cancel_request_def)
  next
    case True
    then obtain l where l: "level_of p (aq_current_level r) = Inr l"
      using acts by (auto simp: permitted_def bindr_eq_Inr)
    have "authorise_rejection p (aq_current_level r) v ds =
        bindr (check_not_duplicate l v ds) (\<lambda>_. bindr (check_eligibility l v) (\<lambda>_. check_mfa l v))" for ds
      by (simp add: authorise_rejection_def l)
    with True acts req p l show ?thesis
      by (auto simp: d permitted_def record_decision_accepts check_decision_def cancel_request_def Let_def
          state_event_def event_of_def make_ApprovalEvent_def split: sum.splits if_splits prod.splits)
  qed
qed

theorem permitted_actions_exact_witness:
  "\<exists>d. get_request None 1 (Some (dc_actor (sample_call 21 4))) sample_open = Inr (Some d)
     \<and> ACT_APPROVE \<in> set (dt_permitted d) \<and> ACT_CANCEL \<notin> set (dt_permitted d)
     \<and> isl (cancel_request None 11 1 4 ''mine'' sample_open)"
proof -
  define x where "x = get_request None 1 (Some (dc_actor (sample_call 21 4))) sample_open"
  have "\<not> isl x" "\<not> Option.is_none (projr x)" unfolding x_def by code_simp+
  then obtain d where d: "x = Inr (Some d)" by (cases x) (auto dest: Some_the)
  have "isl (cancel_request None 11 1 4 ''mine'' sample_open)" by code_simp
  moreover have "actor_id (dc_actor (sample_call 21 4)) = 4" by (simp add: sample_call_def)
  moreover have "ACT_APPROVE \<in> set (dt_permitted (the (projr x)))" unfolding x_def by code_simp
  ultimately show ?thesis
    using permitted_actions_exact [OF d [unfolded x_def], where now = 11 and reason = "''mine''"] d by (auto simp: x_def)
qed

subsection \<open>Overlapping decisions\<close>

text \<open>
  Two decisions in transactions that overlap, at the isolation level \<^verbatim>\<open>READ COMMITTED\<close>:
  neither sees the other's rows.  \<^verbatim>\<open>record_*_decision\<close> does not lock the request, and the
  unit of work writes a row only where a column changed, so what is committed is
  both decision rows and, of the request rows, those a transaction changed.
  \<open>None\<close> when a call is refused or the unique constraint of one vote per actor and
  level rejects the second insert.
\<close>

definition one_vote_unique :: "approvals_db \<Rightarrow> bool" where
  "one_vote_unique db \<longleftrightarrow> distinct (map (\<lambda>d. (ad_plane d, ad_request d, ad_level d, ad_actor d)) (approval_decisions db))"

definition changed_rows :: "approval_request list \<Rightarrow> approval_request list \<Rightarrow> approval_request list \<Rightarrow> approval_request list" where
  "changed_rows old mine theirs = map (\<lambda>(o1, m, t). if m \<noteq> o1 then m else t) (zip old (zip mine theirs))"

definition overlapping_decisions ::
    "plane \<Rightarrow> datetime \<Rightarrow> decision_call \<Rightarrow> datetime \<Rightarrow> decision_call \<Rightarrow> approvals_db \<Rightarrow> approvals_db option" where
  "overlapping_decisions pl now1 c1 now2 c2 db =
     (case (record_decision pl now1 c1 db, record_decision pl now2 c2 db) of
        (Inr (_, db1), Inr (_, db2)) \<Rightarrow>
          let both = db1\<lparr>
              approval_decisions := approval_decisions db1 @ drop (length (approval_decisions db)) (approval_decisions db2),
              approval_requests := changed_rows (approval_requests db) (approval_requests db2) (approval_requests db1)\<rparr>
          in if one_vote_unique both then Some both else None
      | _ \<Rightarrow> None)"

lemma satisfied_level_refuses:
  assumes "plane_request pl i db = Inr r" and "plane_policy pl (aq_policy_code r) (aq_policy_version r) db = Inr p"
    and "level_of p (aq_current_level r) = Inr l" and "level_satisfied l (recorded (plane_decisions pl i db))"
    and "dc_request c = i" and "dc_action c = APPROVE"
  shows "isl (record_decision pl now c db)"
proof -
  have "isl (authorise_approval p (aq_current_level r) (dc_actor c) (aq_requested_by r) (recorded (plane_decisions pl i db)))"
    using assms(3,4) by (auto simp: authorise_approval_def check_not_duplicate_def ensure_def)
  then have "isl (check_decision pl c db)"
    using assms by (auto simp: check_decision_def Let_def isl_def)
  then show ?thesis using record_decision_accepts by blast
qed


end
