(* ===== verification/Fingerprints.thy ===== *)
theory Fingerprints
  imports Py_Text "HOL-Library.Multiset"
begin

text \<open>
  The request fingerprint of \<^verbatim>\<open>dotmac_kernel/fingerprints.py\<close>: the SHA-256 of the JSON text
  of a payload with sorted keys and compact separators.  A payload is a \<open>json\<close> value
  whose strings have code points below 256; the text is what \<^verbatim>\<open>json.dumps\<close> writes with
  its default \<^verbatim>\<open>ensure_ascii\<close>.
\<close>

definition json_escape :: "char \<Rightarrow> string" where
  "json_escape c =
     (if c = CHR 0x22 then [CHR 0x5C, CHR 0x22]
      else if c = CHR 0x5C then [CHR 0x5C, CHR 0x5C]
      else if c = CHR 0x0A then [CHR 0x5C, CHR ''n'']
      else if c = CHR 0x0D then [CHR 0x5C, CHR ''r'']
      else if c = CHR 0x09 then [CHR 0x5C, CHR ''t'']
      else if c = CHR 0x0C then [CHR 0x5C, CHR ''f'']
      else if c = CHR 0x08 then [CHR 0x5C, CHR ''b'']
      else if 32 \<le> (of_char c :: nat) \<and> (of_char c :: nat) \<le> 126 then [c]
      else [CHR 0x5C, CHR ''u''] @ hex_digits 4 (of_char c))"

definition json_string :: "string \<Rightarrow> string" where
  "json_string s = CHR 0x22 # concat (map json_escape s) @ [CHR 0x22]"

fun json_dumps :: "json \<Rightarrow> string" where
  "json_dumps JNull = ''null''"
| "json_dumps (JBool b) = (if b then ''true'' else ''false'')"
| "json_dumps (JInt i) = int_str i"
| "json_dumps (JStr s) = json_string s"
| "json_dumps (JList xs) = ''['' @ join '','' (map json_dumps xs) @ '']''"
| "json_dumps (JObj kvs) = ''{'' @ join '',''
     (map (\<lambda>(k, t). json_string k @ '':'' @ t) (sort_key fst (map (\<lambda>(k, v). (k, json_dumps v)) kvs))) @ ''}''"

definition fingerprint_of :: "json \<Rightarrow> string" where
  "fingerprint_of payload = sha256_hex (json_dumps payload)"

lemma fingerprint_length [simp]: "length (fingerprint_of p) = 64"
  by (simp add: fingerprint_of_def)

text \<open>
  What the text says of the payload.  \<open>json_canon\<close> sorts the keys of every object; two
  payloads are the same request when their canonical forms are equal.
\<close>

fun json_canon :: "json \<Rightarrow> json" where
  "json_canon (JList xs) = JList (map json_canon xs)"
| "json_canon (JObj kvs) = JObj (sort_key fst (map (\<lambda>(k, v). (k, json_canon v)) kvs))"
| "json_canon j = j"

text \<open>The text of a value without sorting, and how it delimits itself.\<close>

fun json_text :: "json \<Rightarrow> string" where
  "json_text JNull = ''null''"
| "json_text (JBool b) = (if b then ''true'' else ''false'')"
| "json_text (JInt i) = int_str i"
| "json_text (JStr s) = json_string s"
| "json_text (JList xs) = ''['' @ join '','' (map json_text xs) @ '']''"
| "json_text (JObj kvs) = ''{'' @ join '','' (map (\<lambda>(k, v). json_string k @ '':'' @ json_text v) kvs) @ ''}''"

lemma insort_key_map: "insort_key f (g x) (map g xs) = map g (insort_key (f \<circ> g) x xs)"
  by (induction xs) simp_all

lemma sort_key_map: "sort_key f (map g xs) = map g (sort_key (f \<circ> g) xs)"
  by (induction xs) (simp_all add: insort_key_map comp_def)

lemma fst_comp_pair: "fst \<circ> (\<lambda>(k, v). (k, f v)) = fst"
  by (simp add: fun_eq_iff split_beta)

lemma json_dumps_canon: "json_dumps j = json_text (json_canon j)"
proof (induction j rule: json_dumps.induct)
  case (5 xs)
  then show ?case by (simp add: comp_def cong: map_cong)
next
  case (6 kvs)
  then have "\<forall>x \<in> set (sort_key fst kvs). json_dumps (snd x) = json_text (json_canon (snd x))" by auto
  then show ?case by (simp add: sort_key_map fst_comp_pair comp_def split_beta cong: map_cong)
qed simp_all

subsection \<open>Escapes and strings\<close>

text \<open>An escape is one printable character, a letter after a backslash, or four digits after \<^verbatim>\<open>\\u\<close>.\<close>

definition short_escapes :: "(char \<times> char) list" where
  "short_escapes = [(CHR 0x22, CHR 0x22), (CHR 0x5C, CHR 0x5C), (CHR ''n'', CHR 0x0A), (CHR ''r'', CHR 0x0D),
     (CHR ''t'', CHR 0x09), (CHR ''f'', CHR 0x0C), (CHR ''b'', CHR 0x08)]"

fun unescape :: "string \<Rightarrow> char \<times> string" where
  "unescape (c # rest) =
     (if c \<noteq> CHR 0x5C then (c, rest)
      else case rest of
        [] \<Rightarrow> (c, [])
      | k # ks \<Rightarrow>
          if k = CHR ''u'' then (char_of (str_hex (take 4 ks)), drop 4 ks)
          else (the (map_of short_escapes k), ks))"
| "unescape [] = undefined"

lemma unescape_escape: "unescape (json_escape c @ r) = (c, r)"
proof -
  have "(of_char c :: nat) < 16 ^ 4" by (rule less_trans [OF nat_of_char_less_256]) simp
  note hex = str_hex_digits [OF this] hex_digits_props(1) [of 4 "of_char c"]
  show ?thesis
    by (simp add: json_escape_def short_escapes_def hex)
qed

lemma escape_cancel: "json_escape c @ r = json_escape d @ s \<Longrightarrow> c = d \<and> r = s"
  by (metis unescape_escape prod.inject)

lemma escape_head: "json_escape c \<noteq> [] \<and> hd (json_escape c) \<noteq> CHR 0x22"
  by (simp add: json_escape_def)

lemma escapes_cancel:
  "concat (map json_escape s) @ CHR 0x22 # r = concat (map json_escape t) @ CHR 0x22 # r' \<Longrightarrow> s = t \<and> r = r'"
proof (induction s arbitrary: t)
  case Nil
  then show ?case
  proof (cases t)
    case (Cons a t')
    with Nil escape_head [of a] show ?thesis by (cases "json_escape a") auto
  qed simp
next
  case (Cons c s)
  show ?case
  proof (cases t)
    case Nil
    with Cons.prems escape_head [of c] show ?thesis by (auto dest!: arg_cong [where f = hd])
  next
    case (Cons d t')
    with Cons.prems escape_cancel [of c "concat (map json_escape s) @ CHR 0x22 # r" d] Cons.IH show ?thesis by fastforce
  qed
qed

lemma json_string_cancel: "json_string s @ r = json_string t @ r' \<Longrightarrow> s = t \<and> r = r'"
  using escapes_cancel [of s r t r'] by (simp add: json_string_def)

subsection \<open>Values\<close>

text \<open>What may follow a value in a JSON text.\<close>

definition follows :: "string \<Rightarrow> bool" where
  "follows r \<longleftrightarrow> r = [] \<or> hd r \<in> {CHR '','', CHR '']'', CHR ''}''}"

lemma follows_simps [simp]:
  "follows []" "follows (CHR '','' # r)" "follows (CHR '']'' # r)" "follows (CHR ''}'' # r)"
  by (simp_all add: follows_def)

lemma int_str_cancel:
  assumes "follows r" and "follows s" and "int_str i @ r = int_str j @ s"
  shows "i = j \<and> r = s"
proof -
  define P where "P c \<longleftrightarrow> is_digit c \<or> c = CHR ''-''" for c
  have all: "\<forall>c \<in> set (int_str k). P c" for k
    using nat_str_digits by (auto simp: int_str_def P_def list_all_iff)
  have stop: "takeWhile P t = []" if "follows t" for t
    using that by (cases t) (auto simp: follows_def P_def is_digit_def)
  have "takeWhile P (int_str i @ r) = int_str i" "takeWhile P (int_str j @ s) = int_str j"
    using all stop assms(1,2) by (simp_all add: takeWhile_append2)
  with assms(3) show ?thesis by simp
qed

text \<open>A comma-separated list whose members delimit themselves, up to its closing bracket.\<close>

definition delimits :: "('a \<Rightarrow> string) \<Rightarrow> 'a \<Rightarrow> bool" where
  "delimits f a \<longleftrightarrow> (\<forall>b r s. follows r \<longrightarrow> follows s \<longrightarrow> f a @ r = f b @ s \<longrightarrow> a = b \<and> r = s)"

lemma delimitsD: "delimits f a \<Longrightarrow> f a @ r = f b @ s \<Longrightarrow> follows r \<Longrightarrow> follows s \<Longrightarrow> a = b \<and> r = s"
  by (auto simp: delimits_def)

lemma tail_cancel:
  assumes "\<And>a. a \<in> set xs \<Longrightarrow> delimits f a" and "c = CHR '']'' \<or> c = CHR ''}''"
    and "concat (map (\<lambda>a. CHR '','' # f a) xs) @ c # r = concat (map (\<lambda>a. CHR '','' # f a) ys) @ c # s"
  shows "xs = ys \<and> r = s"
  using assms
proof (induction xs arbitrary: ys)
  case Nil
  then show ?case by (cases ys) auto
next
  case (Cons a xs)
  have rest: "follows (concat (map (\<lambda>a. CHR '','' # f a) zs) @ c # t)" for zs t
    using Cons.prems(2) by (cases zs) auto
  show ?case
  proof (cases ys)
    case Nil
    with Cons.prems show ?thesis by auto
  next
    case (Cons b ys')
    with Cons.prems have "f a @ concat (map (\<lambda>a. CHR '','' # f a) xs) @ c # r =
        f b @ concat (map (\<lambda>a. CHR '','' # f a) ys') @ c # s" by simp
    from delimitsD [OF Cons.prems(1) this rest rest] Cons Cons.IH [of ys'] Cons.prems show ?thesis by auto
  qed
qed

lemma joined_cancel:
  assumes "\<And>a. a \<in> set xs \<Longrightarrow> delimits f a" and "c = CHR '']'' \<or> c = CHR ''}''"
    and head: "\<And>a. hd (f a) \<noteq> c" "\<And>a. f a \<noteq> []"
    and eq: "join '','' (map f xs) @ c # r = join '','' (map f ys) @ c # s"
  shows "xs = ys \<and> r = s"
proof (cases xs; cases ys)
  fix a xs' b ys' assume xs: "xs = a # xs'" and ys: "ys = b # ys'"
  then have "concat (map (\<lambda>a. CHR '','' # f a) xs) @ c # r = concat (map (\<lambda>a. CHR '','' # f a) ys) @ c # s"
    using eq by (simp add: join_Cons comp_def)
  with assms(1,2) show ?thesis by (rule tail_cancel)
next
  fix b ys' assume "xs = []" "ys = b # ys'"
  with eq head [of b] show ?thesis by (cases "f b") (auto simp: join_Cons)
next
  fix a xs' assume "xs = a # xs'" "ys = []"
  with eq head [of a] show ?thesis by (cases "f a") (auto simp: join_Cons)
qed (use eq in simp)

lemma int_str_hd [simp]:
  "hd (int_str i) \<noteq> CHR ''n''" "hd (int_str i) \<noteq> CHR ''t''" "hd (int_str i) \<noteq> CHR ''f''"
  "hd (int_str i) \<noteq> CHR ''[''" "hd (int_str i) \<noteq> CHR ''{''" "hd (int_str i) \<noteq> CHR 0x22"
  "hd (int_str i) \<noteq> CHR '']''" "hd (int_str i) \<noteq> CHR ''}''"
proof -
  have "is_digit (hd (nat_str n))" for n
    using nat_str_digits [of n] hd_in_set [OF nat_str_nonempty [of n]] by (auto simp: list_all_iff)
  then have d: "hd (int_str i) = CHR ''-'' \<or> is_digit (hd (int_str i))" by (simp add: int_str_def)
  show "hd (int_str i) \<noteq> CHR ''n''" "hd (int_str i) \<noteq> CHR ''t''" "hd (int_str i) \<noteq> CHR ''f''"
    "hd (int_str i) \<noteq> CHR ''[''" "hd (int_str i) \<noteq> CHR ''{''" "hd (int_str i) \<noteq> CHR 0x22"
    "hd (int_str i) \<noteq> CHR '']''" "hd (int_str i) \<noteq> CHR ''}''"
    using d by (auto simp: is_digit_def)
qed

lemmas int_str_hd_sym [simp] = int_str_hd [symmetric]

lemma int_str_nonempty [simp]: "int_str i \<noteq> []"
  by (simp add: int_str_def)

text \<open>The first character of a value's text tells its kind, and closes nothing.\<close>

fun json_kind :: "json \<Rightarrow> nat" where
  "json_kind JNull = 0" | "json_kind (JBool b) = (if b then 1 else 2)" | "json_kind (JInt i) = 3"
| "json_kind (JStr s) = 4" | "json_kind (JList xs) = 5" | "json_kind (JObj kvs) = 6"

lemma json_text_nonempty: "json_text j \<noteq> []"
  by (cases j) (simp_all add: json_string_def)

lemma json_text_opens: "hd (json_text j) \<noteq> CHR '']''" "hd (json_text j) \<noteq> CHR ''}''"
  by (cases j; simp add: json_string_def)+

lemma json_kind_hd: "hd (json_text a) = hd (json_text b) \<Longrightarrow> json_kind a = json_kind b"
  by (cases a; cases b) (simp_all add: json_string_def split: if_splits)

lemma same_kind: "json_text a @ r = json_text b @ s \<Longrightarrow> json_kind a = json_kind b"
  by (metis json_kind_hd json_text_nonempty hd_append)

lemma delimits_kindI:
  assumes "\<And>b r s. json_kind j = json_kind b \<Longrightarrow> json_text j @ r = json_text b @ s \<Longrightarrow> follows r \<Longrightarrow> follows s
    \<Longrightarrow> j = b \<and> r = s"
  shows "delimits json_text j"
  using assms same_kind by (metis delimits_def)

lemma json_text_delimits: "delimits json_text j"
proof (induction j rule: json_text.induct)
  case (5 xs)
  show ?case unfolding delimits_def
  proof (intro allI impI)
    fix b r s assume fl: "follows r" "follows s" and eq: "json_text (JList xs) @ r = json_text b @ s"
    obtain ys where b: "b = JList ys" using same_kind [OF eq] by (cases b) (auto split: if_splits)
    have "xs = ys \<and> r = s"
      by (rule joined_cancel [where f = json_text and c = "CHR '']''"])
        (use 5 eq b json_text_opens json_text_nonempty in simp_all)
    with b show "JList xs = b \<and> r = s" by simp
  qed
next
  case (6 kvs)
  let ?f = "\<lambda>(k, v). json_string k @ CHR '':'' # json_text v"
  have item: "delimits ?f kv" if "kv \<in> set kvs" for kv
    unfolding delimits_def
  proof (intro allI impI)
    fix kv' r s assume fl: "follows r" "follows s" and eq: "?f kv @ r = ?f kv' @ s"
    then have "fst kv = fst kv' \<and> json_text (snd kv) @ r = json_text (snd kv') @ s"
      using json_string_cancel [of "fst kv" "CHR '':'' # json_text (snd kv) @ r" "fst kv'"] by (auto simp: split_beta)
    moreover from this have "snd kv = snd kv' \<and> r = s"
      using delimitsD [OF 6 [OF that prod.collapse]] fl by blast
    ultimately show "kv = kv' \<and> r = s" by (simp add: prod_eq_iff)
  qed
  show ?case unfolding delimits_def
  proof (intro allI impI)
    fix b r s assume fl: "follows r" "follows s" and eq: "json_text (JObj kvs) @ r = json_text b @ s"
    obtain ys where b: "b = JObj ys" using same_kind [OF eq] by (cases b) (auto split: if_splits)
    have "kvs = ys \<and> r = s"
      by (rule joined_cancel [where f = ?f and c = "CHR ''}''"])
        (use item eq b in \<open>auto simp: json_string_def\<close>)
    with b show "JObj kvs = b \<and> r = s" by simp
  qed
next
  case (2 x)
  show ?case
  proof (rule delimits_kindI)
    fix b r s assume "json_kind (JBool x) = json_kind b" "json_text (JBool x) @ r = json_text b @ s"
    then show "JBool x = b \<and> r = s" by (cases b; cases x) (auto split: if_splits)
  qed
next
  case (3 x)
  show ?case
  proof (rule delimits_kindI)
    fix b r s assume "json_kind (JInt x) = json_kind b" "json_text (JInt x) @ r = json_text b @ s" "follows r" "follows s"
    then show "JInt x = b \<and> r = s" by (cases b) (auto dest: int_str_cancel split: if_splits)
  qed
next
  case (4 x)
  show ?case
  proof (rule delimits_kindI)
    fix b r s assume "json_kind (JStr x) = json_kind b" "json_text (JStr x) @ r = json_text b @ s"
    then show "JStr x = b \<and> r = s" by (cases b) (auto dest: json_string_cancel split: if_splits)
  qed
next
  case 1
  show ?case
  proof (rule delimits_kindI)
    fix b r s assume "json_kind JNull = json_kind b" "json_text JNull @ r = json_text b @ s"
    then show "JNull = b \<and> r = s" by (cases b) (auto split: if_splits)
  qed
qed



end
