(* ===== verification/Number_Series.thy ===== *)
theory Number_Series
  imports Fingerprints
begin

text \<open>
  Document series of \<^verbatim>\<open>dotmac-numbering\<close>: the configuration of a series with its
  checks, the period of a date and the formatter (\<^verbatim>\<open>service.py\<close>), and what a rendered
  number says of the value and the period it was made from.
\<close>

datatype numbering_error =
    NumberingError string
  | NumberCollision
  | UniqueViolation string
  | DataTooLong
  | NoResultFound
  | ValueError
  | KeyError string
  | LedgerError string

definition MAX_VALUE :: int where "MAX_VALUE = 10 ^ 15"
definition MAX_DIGITS :: int where "MAX_DIGITS = 18"
definition NO_PERIOD :: string where "NO_PERIOD = ''*''"
definition RESET_POLICIES :: "string list" where "RESET_POLICIES = [''never'', ''yearly'', ''monthly'']"

record SeriesConfiguration =
  series_code :: string
  prefix :: string
  suffix :: string
  separator :: string
  min_digits :: int
  include_year :: bool
  year_digits :: int
  include_month :: bool
  reset_policy :: string
  start_value :: int

text \<open>The checks of a format field: its width and no NUL character.\<close>

definition field_ok :: "string \<Rightarrow> nat \<Rightarrow> bool" where
  "field_ok v maximum \<longleftrightarrow> length v \<le> maximum \<and> CHR 0x00 \<notin> set v"

definition validate_configuration :: "SeriesConfiguration \<Rightarrow> numbering_error + unit" where
  "validate_configuration c =
     bindr (ensure (series_code c \<noteq> [] \<and> length (series_code c) \<le> 80) (NumberingError ''invalid_series_code'')) (\<lambda>_.
     bindr (ensure (field_ok (prefix c) 32 \<and> field_ok (suffix c) 32 \<and> field_ok (separator c) 8)
       (NumberingError ''invalid_format_field'')) (\<lambda>_.
     bindr (ensure (reset_policy c \<in> set RESET_POLICIES) (NumberingError ''unknown_reset_policy'')) (\<lambda>_.
     bindr (ensure (1 \<le> min_digits c \<and> min_digits c \<le> MAX_DIGITS) (NumberingError ''invalid_min_digits'')) (\<lambda>_.
     bindr (ensure (year_digits c \<in> {2, 4}) (NumberingError ''invalid_year_digits'')) (\<lambda>_.
     bindr (ensure (1 \<le> start_value c \<and> start_value c < MAX_VALUE) (NumberingError ''invalid_start_value'')) (\<lambda>_.
     bindr (ensure (\<not> (reset_policy c = ''yearly'' \<and> \<not> include_year c)) (NumberingError ''incoherent_reset'')) (\<lambda>_.
     bindr (ensure (\<not> (reset_policy c = ''monthly'' \<and> \<not> (include_year c \<and> include_month c)))
       (NumberingError ''incoherent_reset'')) (\<lambda>_.
     ensure (\<not> (include_month c \<and> \<not> include_year c)) (NumberingError ''incoherent_format'')))))))))"

text \<open>\<^verbatim>\<open>IDENTITY_SHAPING_FIELDS\<close>: the fields that decide what a number looks like.\<close>

definition shaping_changed :: "SeriesConfiguration \<Rightarrow> SeriesConfiguration \<Rightarrow> bool" where
  "shaping_changed a b \<longleftrightarrow> prefix a \<noteq> prefix b \<or> suffix a \<noteq> suffix b \<or> separator a \<noteq> separator b
     \<or> min_digits a \<noteq> min_digits b \<or> include_year a \<noteq> include_year b \<or> year_digits a \<noteq> year_digits b
     \<or> include_month a \<noteq> include_month b \<or> reset_policy a \<noteq> reset_policy b"

definition period_for :: "date \<Rightarrow> string \<Rightarrow> numbering_error + string" where
  "period_for d policy =
     (if policy = ''never'' then Inr NO_PERIOD
      else if policy = ''yearly'' then Inr (pad_str 4 (year d))
      else if policy = ''monthly'' then Inr (pad_str 4 (year d) @ ''-'' @ pad_str 2 (month d))
      else Inl (NumberingError ''unknown_reset_policy''))"

definition number_segments :: "SeriesConfiguration \<Rightarrow> int \<Rightarrow> date \<Rightarrow> string list" where
  "number_segments c v d =
     (if prefix c \<noteq> [] then [prefix c] else [])
     @ (if include_year c then [if year_digits c = 2 then pad_str 2 (year d mod 100) else pad_str 4 (year d)] else [])
     @ (if include_month c then [pad_str 2 (month d)] else [])
     @ [zfill (nat (min_digits c)) (nat v)]
     @ (if suffix c \<noteq> [] then [suffix c] else [])"

definition format_number :: "SeriesConfiguration \<Rightarrow> int \<Rightarrow> date \<Rightarrow> numbering_error + string" where
  "format_number c v d =
     (if v < 1 then Inl (NumberingError ''invalid_value'')
      else Inr (join (separator c) (number_segments c v d)))"

text \<open>
  \<^verbatim>\<open>str.isdigit\<close> on characters below 256: the ten digits and the superscripts one, two
  and three, which \<^verbatim>\<open>int\<close> then refuses.
\<close>

definition py_isdigit :: "char \<Rightarrow> bool" where
  "py_isdigit c \<longleftrightarrow> is_digit c \<or> c \<in> {CHR 0xB2, CHR 0xB3, CHR 0xB9}"

definition validate_period_key :: "string \<Rightarrow> string \<Rightarrow> numbering_error + unit" where
  "validate_period_key p policy =
     (if policy = ''never'' then ensure (p = NO_PERIOD) (NumberingError ''invalid_period_key'')
      else if policy = ''yearly''
      then ensure (length p = 4 \<and> list_all py_isdigit p) (NumberingError ''invalid_period_key'')
      else if length p = 7 \<and> p ! 4 = CHR ''-'' \<and> list_all py_isdigit (take 4 p) \<and> list_all py_isdigit (drop 5 p)
      then if \<not> list_all is_digit (drop 5 p) then Inl ValueError
           else ensure (1 \<le> str_nat (drop 5 p) \<and> str_nat (drop 5 p) \<le> 12) (NumberingError ''invalid_period_key'')
      else Inl (NumberingError ''invalid_period_key''))"

subsection \<open>What a number says\<close>

lemma validate_configuration_Inr:
  "validate_configuration c = Inr u \<longleftrightarrow>
     series_code c \<noteq> [] \<and> length (series_code c) \<le> 80
     \<and> field_ok (prefix c) 32 \<and> field_ok (suffix c) 32 \<and> field_ok (separator c) 8
     \<and> reset_policy c \<in> set RESET_POLICIES \<and> 1 \<le> min_digits c \<and> min_digits c \<le> MAX_DIGITS
     \<and> year_digits c \<in> {2, 4} \<and> 1 \<le> start_value c \<and> start_value c < MAX_VALUE
     \<and> (reset_policy c = ''yearly'' \<longrightarrow> include_year c)
     \<and> (reset_policy c = ''monthly'' \<longrightarrow> include_year c \<and> include_month c)
     \<and> (include_month c \<longrightarrow> include_year c)"
  by (auto simp: validate_configuration_def bindr_eq_Inr)

lemma shaping_unchanged:
  assumes "\<not> shaping_changed a b"
  shows "format_number a = format_number b" and "period_for d (reset_policy a) = period_for d (reset_policy b)"
  using assms by (auto simp: shaping_changed_def format_number_def number_segments_def fun_eq_iff)

lemma period_for_total: "reset_policy c \<in> set RESET_POLICIES \<Longrightarrow> \<exists>p. period_for d (reset_policy c) = Inr p"
  by (auto simp: period_for_def RESET_POLICIES_def)

text \<open>A number is a head of a fixed length, the digits of the value, and the suffix.\<close>

definition number_head :: "SeriesConfiguration \<Rightarrow> date \<Rightarrow> string" where
  "number_head c d = concat (map (\<lambda>s. s @ separator c)
     ((if prefix c \<noteq> [] then [prefix c] else [])
      @ (if include_year c then [if year_digits c = 2 then pad_str 2 (year d mod 100) else pad_str 4 (year d)] else [])
      @ (if include_month c then [pad_str 2 (month d)] else [])))"

definition number_tail :: "SeriesConfiguration \<Rightarrow> string" where
  "number_tail c = (if suffix c \<noteq> [] then separator c @ suffix c else [])"

lemma join_segments:
  "join (separator c) (number_segments c v d) = number_head c d @ zfill (nat (min_digits c)) (nat v) @ number_tail c"
  by (simp add: number_segments_def number_head_def number_tail_def join_Cons)

lemma number_head_length: "length (number_head c d) = length (number_head c d')"
  by (simp add: number_head_def)

definition rendered_year :: "SeriesConfiguration \<Rightarrow> date \<Rightarrow> nat" where
  "rendered_year c d = (if year_digits c = 2 then year d mod 100 else year d)"

lemma number_head_eq:
  assumes "valid_date d" and "valid_date d'" and "year_digits c \<in> {2, 4}"
  shows "number_head c d = number_head c d' \<longleftrightarrow>
    (include_year c \<longrightarrow> rendered_year c d = rendered_year c d') \<and> (include_month c \<longrightarrow> month d = month d')"
proof -
  have "year d < 10 ^ 4" "year d' < 10 ^ 4" "month d < 10 ^ 2" "month d' < 10 ^ 2"
    "year d mod 100 < 10 ^ 2" "year d' mod 100 < 10 ^ 2"
    using assms by (auto simp: valid_date_def)
  note inj = pad_str_inj [OF this(1,2)] pad_str_inj [OF this(3,4)] pad_str_inj [OF this(5,6)]
  show ?thesis using assms(3) by (auto simp: number_head_def rendered_year_def inj)
qed

lemma format_number_eq:
  assumes "valid_date d" and "valid_date d'" and "year_digits c \<in> {2, 4}" and "1 \<le> v" and "1 \<le> v'"
  shows "format_number c v d = format_number c v' d' \<longleftrightarrow> v = v' \<and>
    (include_year c \<longrightarrow> rendered_year c d = rendered_year c d') \<and> (include_month c \<longrightarrow> month d = month d')"
proof -
  have "join (separator c) (number_segments c v d) = join (separator c) (number_segments c v' d') \<longleftrightarrow>
      number_head c d = number_head c d' \<and> nat v = nat v'"
    using number_head_length [of c d d'] by (simp add: join_segments)
  then show ?thesis
    using assms number_head_eq [OF assms(1-3)] by (auto simp: format_number_def eq_nat_nat_iff)
qed

text \<open>With the year printed in full, the printed year and month decide the period.\<close>

lemma printed_period:
  assumes "validate_configuration c = Inr u"
    and "include_year c \<longrightarrow> year d = year d'" and "include_month c \<longrightarrow> month d = month d'"
  shows "period_for d (reset_policy c) = period_for d' (reset_policy c)"
  using assms by (auto simp: validate_configuration_Inr period_for_def RESET_POLICIES_def)

definition year_tells_period :: "SeriesConfiguration \<Rightarrow> bool" where
  "year_tells_period c \<longleftrightarrow> reset_policy c = ''never'' \<or> year_digits c = 4"

lemma same_number_same_slot:
  assumes "validate_configuration c = Inr u" and "year_tells_period c"
    and "valid_date d" and "valid_date d'" and "1 \<le> v" and "1 \<le> v'"
    and "format_number c v d = format_number c v' d'"
  shows "v = v' \<and> period_for d (reset_policy c) = period_for d' (reset_policy c)"
proof (cases "reset_policy c = ''never''")
  case True
  have "year_digits c \<in> {2, 4}" using assms(1) by (simp add: validate_configuration_Inr)
  from format_number_eq [OF assms(3,4) this assms(5,6)] assms(7) True show ?thesis by (simp add: period_for_def)
next
  case False
  then have "year_digits c = 4" using assms(2) by (simp add: year_tells_period_def)
  then have "v = v' \<and> (include_year c \<longrightarrow> year d = year d') \<and> (include_month c \<longrightarrow> month d = month d')"
    using format_number_eq [OF assms(3,4) _ assms(5,6), of c] assms(7) by (auto simp: rendered_year_def)
  with printed_period [OF assms(1), of d d'] show ?thesis by blast
qed

end
