(* ===== verification/Ledgered.thy ===== *)
theory Ledgered
  imports Idempotency
begin

text \<open>
  Modules under the kernel's ledger: an operation that acts on a module's own tables,
  run by \<^verbatim>\<open>execute_once\<close> or \<^verbatim>\<open>execute_once_platform\<close>, and what one such call can do to the
  tables and to the two ledgers.
\<close>

text \<open>
  The operation \<open>f\<close> of a module.  \<open>integrity\<close> tells the exceptions that are an
  \<^verbatim>\<open>IntegrityError\<close>, which the ledger treats as a possible lost race, from the others, which
  it lets through.
\<close>

definition module_operation ::
    "('e \<Rightarrow> bool) \<Rightarrow> ('s \<Rightarrow> 'e + json_object \<times> 's) \<Rightarrow> 's operation" where
  "module_operation integrity f d = (case f (app_data d) of
     Inr (res, s) \<Rightarrow> Returned (Some res) (d\<lparr>app_data := s\<rparr>)
   | Inl e \<Rightarrow> if integrity e then RaisedIntegrityError else RaisedOther [])"

definition ledgers_extend :: "'a db \<Rightarrow> 'a db \<Rightarrow> bool" where
  "ledgers_extend d d' \<longleftrightarrow> (\<exists>new. ledger d' = ledger d @ new) \<and> (\<exists>new. platform_ledger d' = platform_ledger d @ new)"

lemma ledgers_extend_refl [simp]: "ledgers_extend d d"
  by (simp add: ledgers_extend_def)

lemma ledgers_extend_trans: "ledgers_extend a b \<Longrightarrow> ledgers_extend b c \<Longrightarrow> ledgers_extend a c"
  by (auto simp: ledgers_extend_def)

lemma module_operation_Returned:
  "module_operation integrity f d = Returned res d1 \<longleftrightarrow> (\<exists>r s. f (app_data d) = Inr (r, s) \<and> res = Some r \<and> d1 = d\<lparr>app_data := s\<rparr>)"
  by (auto simp: module_operation_def split: sum.splits if_splits)

text \<open>What one call of the ledger can do, on either plane.\<close>

lemma execute_once_module:
  assumes "rq_operation rq = module_operation integrity f" and "execute_once rq d = (out, d')"
  shows "((app_data d' = app_data d \<and> (\<forall>o1. out = Inr o1 \<longrightarrow> out_replayed o1))
       \<or> (\<exists>res s o1. f (app_data d) = Inr (res, s) \<and> app_data d' = s \<and> out = Inr o1 \<and> \<not> out_replayed o1 \<and> out_result o1 = res))
     \<and> (\<exists>new. ledger d' = ledger d @ new) \<and> platform_ledger d' = platform_ledger d
     \<and> (\<forall>o1. out = Inr o1 \<longrightarrow> validate (rq_scope rq) (rq_key rq) = Inr () \<and>
         (\<exists>r. lookup d' (rq_tenant rq) (rq_scope rq) (rq_key rq) = Some r \<and> ir_result r = out_result o1
            \<and> (rq_fingerprint rq = None \<or> ir_fingerprint r = None \<or> ir_fingerprint r = rq_fingerprint rq)))"
  using assms(2)
proof (cases rule: execute_once_cases)
  case (invalid e)
  then show ?thesis by simp
next
  case (known r)
  moreover have "validate (rq_scope rq) (rq_key rq) = Inr ()" if "out = Inr o1" for o1
    using assms(2) that by (auto simp: execute_once_def split: sum.splits)
  ultimately show ?thesis by (auto simp: replay_or_conflict_def split: if_splits)
next
  case (fresh result)
  have v: "validate (rq_scope rq) (rq_key rq) = Inr ()"
    using assms(2) fresh(3) by (auto simp: execute_once_def split: sum.splits)
  from fresh(2) show ?thesis
  proof (rule savepoint_body_Inr)
    fix res d1 assume op: "rq_operation rq d = Returned res d1" and result: "result = dict_or_empty res"
      and new: "rq_unique rq \<notin> ir_unique ` set (ledger d1 @ rq_conc rq)"
      and d': "d' = d1\<lparr>ledger := ledger d1 @ rq_conc rq @ [new_record rq result]\<rparr>"
    obtain r s where f: "f (app_data d) = Inr (r, s)" "res = Some r" "d1 = d\<lparr>app_data := s\<rparr>"
      using op assms(1) by (auto simp: module_operation_Returned)
    have "lookup d' (rq_tenant rq) (rq_scope rq) (rq_key rq) = Some (new_record rq result)"
      using new find_row_appended [of "rq_unique rq" ir_unique "ledger d1" "rq_conc rq" "new_record rq result"]
      by (simp add: lookup_def d' rq_unique_def)
    then show ?thesis using f result fresh(3) v by (auto simp: d' new_record_def)
  qed
next
  case (failed e)
  then show ?thesis by simp
next
  case (lost w)
  moreover have "validate (rq_scope rq) (rq_key rq) = Inr ()" if "out = Inr o1" for o1
    using assms(2) that by (auto simp: execute_once_def split: sum.splits)
  ultimately show ?thesis by (auto simp: replay_or_conflict_def split: if_splits)
qed

lemma execute_once_platform_module:
  assumes "pq_operation rq = module_operation integrity f" and "execute_once_platform rq d = (out, d')"
  shows "((app_data d' = app_data d \<and> (\<forall>o1. out = Inr o1 \<longrightarrow> out_replayed o1))
       \<or> (\<exists>res s o1. f (app_data d) = Inr (res, s) \<and> app_data d' = s \<and> out = Inr o1 \<and> \<not> out_replayed o1 \<and> out_result o1 = res))
     \<and> (\<exists>new. platform_ledger d' = platform_ledger d @ new) \<and> ledger d' = ledger d
     \<and> (\<forall>o1. out = Inr o1 \<longrightarrow> validate (pq_scope rq) (pq_key rq) = Inr () \<and>
         (\<exists>r. lookup_platform d' (pq_scope rq) (pq_key rq) = Some r \<and> pr_result r = out_result o1
            \<and> (pq_fingerprint rq = None \<or> pr_fingerprint r = None \<or> pr_fingerprint r = pq_fingerprint rq)))"
  using assms(2)
proof (cases rule: execute_once_platform_cases)
  case (invalid e)
  then show ?thesis by simp
next
  case (known r)
  moreover have "validate (pq_scope rq) (pq_key rq) = Inr ()" if "out = Inr o1" for o1
    using assms(2) that by (auto simp: execute_once_platform_def split: sum.splits)
  ultimately show ?thesis by (auto simp: replay_or_conflict_def split: if_splits)
next
  case (fresh result)
  have v: "validate (pq_scope rq) (pq_key rq) = Inr ()"
    using assms(2) fresh(3) by (auto simp: execute_once_platform_def split: sum.splits)
  from fresh(2) show ?thesis
  proof (rule platform_savepoint_body_Inr)
    fix res d1 assume op: "pq_operation rq d = Returned res d1" and result: "result = dict_or_empty res"
      and new: "pq_unique rq \<notin> pr_unique ` set (platform_ledger d1 @ pq_conc rq)"
      and d': "d' = d1\<lparr>platform_ledger := platform_ledger d1 @ pq_conc rq @ [new_platform_record rq result]\<rparr>"
    obtain r s where f: "f (app_data d) = Inr (r, s)" "res = Some r" "d1 = d\<lparr>app_data := s\<rparr>"
      using op assms(1) by (auto simp: module_operation_Returned)
    have "lookup_platform d' (pq_scope rq) (pq_key rq) = Some (new_platform_record rq result)"
      using new find_row_appended [of "pq_unique rq" pr_unique "platform_ledger d1" "pq_conc rq" "new_platform_record rq result"]
      by (simp add: lookup_platform_def d' pq_unique_def)
    then show ?thesis using f result fresh(3) v by (auto simp: d' new_platform_record_def)
  qed
next
  case (failed e)
  then show ?thesis by simp
next
  case (lost w)
  moreover have "validate (pq_scope rq) (pq_key rq) = Inr ()" if "out = Inr o1" for o1
    using assms(2) that by (auto simp: execute_once_platform_def split: sum.splits)
  ultimately show ?thesis by (auto simp: replay_or_conflict_def split: if_splits)
qed

end
