(* ===== verification/Numbering.thy ===== *)
theory Numbering
  imports Number_Series Ledgered
begin

text \<open>
  The numbering module over its tables (\<^verbatim>\<open>dotmac-numbering\<close>: \<^verbatim>\<open>models.py\<close>, \<^verbatim>\<open>service.py\<close>,
  \<^verbatim>\<open>replacement.py\<close>): series are configured, created as immutable or enrolled in a
  collision domain; a number is allocated through the kernel's ledger; a counter is
  repaired forwards; an outside number is reserved as a claim.

  Both planes are one engine, chosen by the \<open>Scope\<close> value.  The row lock on the series,
  which every writing operation takes first and holds until its transaction ends,
  makes the operations on a series follow one another; the model runs them in that
  order.  A generated identifier is an argument.  An operation that raises leaves the
  database as it was: inside the ledger's or its own SAVEPOINT, or because the
  transaction is then lost.
\<close>

datatype Scope = PlatformScope | TenantScope uuid

record CollisionDomain =
  domain_code :: string
  partitioned :: bool

text \<open>A series row holds its configuration, its strict flag and its domain.\<close>

record number_series =
  ns_scope :: Scope
  ns_configuration :: SeriesConfiguration
  ns_strict :: bool
  ns_domain :: "string option"

record series_counter =
  sc_scope :: Scope
  sc_series :: string
  sc_period :: string
  sc_next_value :: int

record allocation_receipt =
  ar_scope :: Scope
  ar_series :: string
  ar_period :: string
  ar_value :: int
  ar_number :: string
  ar_date :: date
  ar_key :: string
  ar_allocated_by :: "string option"

record series_repair =
  sr_scope :: Scope
  sr_series :: string
  sr_period :: string
  sr_previous :: int
  sr_new :: int
  sr_proven :: int
  sr_reason :: string
  sr_repaired_by :: string

record number_domain =
  nd_scope :: Scope
  nd_domain :: CollisionDomain

record number_claim =
  cl_id :: uuid
  cl_scope :: Scope
  cl_domain :: string
  cl_partition :: string
  cl_number :: string
  cl_document :: string
  cl_series :: string
  cl_origin :: string
  cl_provenance :: string

record numbering_db =
  series_rows :: "number_series list"
  counter_rows :: "series_counter list"
  receipt_rows :: "allocation_receipt list"
  repair_rows :: "series_repair list"
  domain_rows :: "number_domain list"
  claim_rows :: "number_claim list"

text \<open>The unique keys of the tables.\<close>

definition series_key :: "number_series \<Rightarrow> Scope \<times> string" where
  "series_key s = (ns_scope s, series_code (ns_configuration s))"

definition counter_key :: "series_counter \<Rightarrow> Scope \<times> string \<times> string" where
  "counter_key c = (sc_scope c, sc_series c, sc_period c)"

definition receipt_value_key :: "allocation_receipt \<Rightarrow> Scope \<times> string \<times> string \<times> int" where
  "receipt_value_key r = (ar_scope r, ar_series r, ar_period r, ar_value r)"

definition receipt_number_key :: "allocation_receipt \<Rightarrow> Scope \<times> string \<times> string" where
  "receipt_number_key r = (ar_scope r, ar_series r, ar_number r)"

definition domain_key :: "number_domain \<Rightarrow> Scope \<times> string" where
  "domain_key d = (nd_scope d, domain_code (nd_domain d))"

definition claim_number_key :: "number_claim \<Rightarrow> Scope \<times> string \<times> string \<times> string" where
  "claim_number_key c = (cl_scope c, cl_domain c, cl_partition c, cl_number c)"

definition claim_document_key :: "number_claim \<Rightarrow> Scope \<times> string \<times> string \<times> string" where
  "claim_document_key c = (cl_scope c, cl_domain c, cl_partition c, cl_document c)"

subsection \<open>Reading series and counters\<close>

definition find_series :: "Scope \<Rightarrow> string \<Rightarrow> numbering_db \<Rightarrow> number_series option" where
  "find_series scope code db = find_row series_key (scope, code) (series_rows db)"

definition require_series :: "Scope \<Rightarrow> string \<Rightarrow> numbering_db \<Rightarrow> numbering_error + number_series" where
  "require_series scope code db = (case find_series scope code db of
     None \<Rightarrow> Inl (NumberingError ''series_not_configured'') | Some s \<Rightarrow> Inr s)"

definition find_counter :: "Scope \<Rightarrow> string \<Rightarrow> string \<Rightarrow> numbering_db \<Rightarrow> series_counter option" where
  "find_counter scope code period db = find_row counter_key (scope, code, period) (counter_rows db)"

definition series_has_history :: "Scope \<Rightarrow> string \<Rightarrow> numbering_db \<Rightarrow> bool" where
  "series_has_history scope code db \<longleftrightarrow>
     list_ex (\<lambda>c. sc_scope c = scope \<and> sc_series c = code) (counter_rows db)
     \<or> list_ex (\<lambda>r. ar_scope r = scope \<and> ar_series r = code) (receipt_rows db)"

text \<open>\<^verbatim>\<open>INSERT ... ON CONFLICT DO NOTHING\<close>, then the locked row.\<close>

definition locked_counter ::
    "Scope \<Rightarrow> number_series \<Rightarrow> string \<Rightarrow> numbering_db \<Rightarrow> series_counter \<times> numbering_db" where
  "locked_counter scope s period db =
     (let code = series_code (ns_configuration s) in
      case find_counter scope code period db of
        Some c \<Rightarrow> (c, db)
      | None \<Rightarrow>
          let c = \<lparr>sc_scope = scope, sc_series = code, sc_period = period,
                   sc_next_value = start_value (ns_configuration s)\<rparr>
          in (c, db\<lparr>counter_rows := counter_rows db @ [c]\<rparr>))"

definition set_next_value :: "series_counter \<Rightarrow> int \<Rightarrow> numbering_db \<Rightarrow> numbering_db" where
  "set_next_value c v db = db\<lparr>counter_rows :=
     update_rows (\<lambda>x. counter_key x = counter_key c) (\<lambda>x. x\<lparr>sc_next_value := v\<rparr>) (counter_rows db)\<rparr>"

subsection \<open>Domains\<close>

definition bounded :: "string \<Rightarrow> nat \<Rightarrow> string \<Rightarrow> numbering_error + unit" where
  "bounded v maximum name = ensure (v \<noteq> [] \<and> field_ok v maximum) (NumberingError (''invalid_'' @ name))"

definition bounded_option :: "string option \<Rightarrow> nat \<Rightarrow> string \<Rightarrow> numbering_error + string" where
  "bounded_option v maximum name = (case v of None \<Rightarrow> Inl (NumberingError (''invalid_'' @ name))
     | Some x \<Rightarrow> bindr (bounded x maximum name) (\<lambda>_. Inr x))"

definition validate_domain :: "CollisionDomain \<Rightarrow> numbering_error + unit" where
  "validate_domain d = bounded (domain_code d) 80 ''domain_code''"

definition domain_partition_key :: "CollisionDomain \<Rightarrow> string option \<Rightarrow> numbering_error + string" where
  "domain_partition_key d v =
     bindr (validate_domain d) (\<lambda>_.
     if partitioned d then bounded_option v 128 ''partition_key''
     else if v \<noteq> None \<and> v \<noteq> Some [] then Inl (NumberingError ''unexpected_partition'')
     else Inr [])"

definition domain_of_code :: "Scope \<Rightarrow> string option \<Rightarrow> numbering_db \<Rightarrow> numbering_error + CollisionDomain option" where
  "domain_of_code scope code db = (case code of
     None \<Rightarrow> Inr None
   | Some c \<Rightarrow> (case find_row domain_key (scope, c) (domain_rows db) of
       None \<Rightarrow> Inl NoResultFound | Some r \<Rightarrow> Inr (Some (nd_domain r))))"

definition ensure_domain :: "Scope \<Rightarrow> CollisionDomain \<Rightarrow> numbering_db \<Rightarrow> numbering_error + numbering_db" where
  "ensure_domain scope d db =
     bindr (validate_domain d) (\<lambda>_.
     case find_row domain_key (scope, domain_code d) (domain_rows db) of
       None \<Rightarrow> Inr (db\<lparr>domain_rows := domain_rows db @ [\<lparr>nd_scope = scope, nd_domain = d\<rparr>]\<rparr>)
     | Some r \<Rightarrow> if partitioned (nd_domain r) \<noteq> partitioned d then Inl (NumberingError ''domain_policy_conflict'')
                else Inr db)"

record SeriesDefinition =
  sd_configuration :: SeriesConfiguration
  sd_domain :: "CollisionDomain option"
  sd_strict :: bool

definition read_series :: "Scope \<Rightarrow> string \<Rightarrow> numbering_db \<Rightarrow> numbering_error + SeriesDefinition" where
  "read_series scope code db =
     bindr (require_series scope code db) (\<lambda>s.
     bindr (domain_of_code scope (ns_domain s) db) (\<lambda>d.
     Inr \<lparr>sd_configuration = ns_configuration s, sd_domain = d, sd_strict = ns_strict s\<rparr>))"

subsection \<open>Configuration\<close>

definition assert_safe_transition ::
    "Scope \<Rightarrow> number_series \<Rightarrow> SeriesConfiguration \<Rightarrow> numbering_db \<Rightarrow> numbering_error + unit" where
  "assert_safe_transition scope s c db =
     (if ns_strict s then ensure (ns_configuration s = c) (NumberingError ''immutable_series'')
      else ensure (\<not> (shaping_changed (ns_configuration s) c \<and> series_has_history scope (series_code c) db))
        (NumberingError ''unsafe_configuration_change''))"

definition configure_series :: "Scope \<Rightarrow> SeriesConfiguration \<Rightarrow> numbering_db \<Rightarrow> numbering_error + numbering_db" where
  "configure_series scope c db =
     bindr (validate_configuration c) (\<lambda>_.
     case find_series scope (series_code c) db of
       None \<Rightarrow> Inr (db\<lparr>series_rows := series_rows db
         @ [\<lparr>ns_scope = scope, ns_configuration = c, ns_strict = False, ns_domain = None\<rparr>]\<rparr>)
     | Some s \<Rightarrow>
         bindr (assert_safe_transition scope s c db) (\<lambda>_.
         Inr (db\<lparr>series_rows := update_rows (\<lambda>x. series_key x = series_key s)
           (\<lambda>x. x\<lparr>ns_configuration := c\<rparr>) (series_rows db)\<rparr>)))"

text \<open>\<^verbatim>\<open>create_series\<close>: inside \<^verbatim>\<open>conflict_savepoint\<close>, so a refusal changes nothing.\<close>

definition series_definition_is :: "SeriesDefinition \<Rightarrow> SeriesConfiguration \<Rightarrow> CollisionDomain \<Rightarrow> bool" where
  "series_definition_is stored c d \<longleftrightarrow> sd_strict stored \<and> sd_configuration stored = c \<and> sd_domain stored = Some d"

definition create_series ::
    "Scope \<Rightarrow> SeriesConfiguration \<Rightarrow> CollisionDomain \<Rightarrow> numbering_db \<Rightarrow> numbering_error + SeriesDefinition \<times> numbering_db" where
  "create_series scope c d db =
     bindr (validate_configuration c) (\<lambda>_.
     bindr (validate_domain d) (\<lambda>_.
     bindr (if find_series scope (series_code c) db \<noteq> None then Inr db
       else bindr (ensure_domain scope d db) (\<lambda>db1.
         Inr (db1\<lparr>series_rows := series_rows db1
           @ [\<lparr>ns_scope = scope, ns_configuration = c, ns_strict = True, ns_domain = Some (domain_code d)\<rparr>]\<rparr>)))
       (\<lambda>db2.
     bindr (read_series scope (series_code c) db2) (\<lambda>stored.
     if \<not> series_definition_is stored c d then Inl (NumberingError ''series_identity_conflict'')
     else Inr (stored, db2)))))"

definition enroll_series ::
    "Scope \<Rightarrow> SeriesConfiguration \<Rightarrow> CollisionDomain \<Rightarrow> numbering_db \<Rightarrow> numbering_error + SeriesDefinition \<times> numbering_db" where
  "enroll_series scope c d db =
     bindr (validate_configuration c) (\<lambda>_.
     bindr (validate_domain d) (\<lambda>_.
     bindr (require_series scope (series_code c) db) (\<lambda>s.
     bindr (read_series scope (series_code c) db) (\<lambda>stored.
     if sd_configuration stored \<noteq> c then Inl (NumberingError ''stale_series_configuration'')
     else bindr (if sd_strict stored
         then bindr (ensure (sd_domain stored = Some d) (NumberingError ''series_identity_conflict'')) (\<lambda>_. Inr db)
         else bindr (ensure_domain scope d db) (\<lambda>db1.
           Inr (db1\<lparr>series_rows := update_rows (\<lambda>x. series_key x = series_key s)
             (\<lambda>x. x\<lparr>ns_domain := Some (domain_code d), ns_strict := True\<rparr>) (series_rows db1)\<rparr>)))
       (\<lambda>db2. bindr (read_series scope (series_code c) db2) (\<lambda>r. Inr (r, db2)))))))"

subsection \<open>Claims\<close>

record claim_call =
  cc_id :: uuid
  cc_scope :: Scope
  cc_partition_key :: "string option"
  cc_number :: string
  cc_document :: "string option"
  cc_origin :: string
  cc_provenance :: string

definition claim_values :: "number_series \<Rightarrow> CollisionDomain \<Rightarrow> claim_call \<Rightarrow> numbering_error + number_claim" where
  "claim_values s d c =
     bindr (domain_partition_key d (cc_partition_key c)) (\<lambda>partition.
     bindr (bounded (cc_number c) 255 ''formatted_number'') (\<lambda>_.
     bindr (bounded_option (cc_document c) 255 ''document_reference'') (\<lambda>document.
     bindr (bounded (cc_provenance c) 4096 ''provenance'') (\<lambda>_.
     Inr \<lparr>cl_id = cc_id c, cl_scope = cc_scope c, cl_domain = domain_code d, cl_partition = partition,
          cl_number = cc_number c, cl_document = document, cl_series = series_code (ns_configuration s),
          cl_origin = cc_origin c, cl_provenance = cc_provenance c\<rparr>))))"

definition insert_claim :: "number_claim \<Rightarrow> numbering_db \<Rightarrow> numbering_error + numbering_db" where
  "insert_claim c db =
     (if claim_number_key c \<in> set (map claim_number_key (claim_rows db)) then Inl (UniqueViolation ''uq_number_claims_rendered'')
      else if claim_document_key c \<in> set (map claim_document_key (claim_rows db))
      then Inl (UniqueViolation ''uq_number_claims_document'')
      else Inr (db\<lparr>claim_rows := claim_rows db @ [c]\<rparr>))"

record allocate_call =
  al_scope :: Scope
  al_series_code :: string
  al_reference_date :: date
  al_idempotency_key :: string
  al_allocated_by :: "string option"
  al_partition_key :: "string option"
  al_document_reference :: "string option"
  al_claim_id :: uuid

definition allocation_claim :: "allocate_call \<Rightarrow> number_series \<Rightarrow> string \<Rightarrow> numbering_db \<Rightarrow> numbering_error + numbering_db" where
  "allocation_claim call s formatted db =
     bindr (domain_of_code (al_scope call) (ns_domain s) db) (\<lambda>domain. case domain of
       None \<Rightarrow> if al_partition_key call \<noteq> None \<or> al_document_reference call \<noteq> None
               then Inl (NumberingError ''series_not_enrolled'') else Inr db
     | Some d \<Rightarrow>
         bindr (claim_values s d \<lparr>cc_id = al_claim_id call, cc_scope = al_scope call,
             cc_partition_key = al_partition_key call, cc_number = formatted, cc_document = al_document_reference call,
             cc_origin = ''allocation'', cc_provenance = al_idempotency_key call\<rparr>) (\<lambda>c.
         insert_claim c db))"

subsection \<open>Allocation\<close>

definition insert_receipt :: "allocation_receipt \<Rightarrow> numbering_db \<Rightarrow> numbering_error + numbering_db" where
  "insert_receipt r db =
     (if \<not> fits 255 (ar_allocated_by r) \<or> length (ar_key r) > 255 \<or> length (ar_number r) > 255 then Inl DataTooLong
      else if receipt_value_key r \<in> set (map receipt_value_key (receipt_rows db))
      then Inl (UniqueViolation ''uq_allocation_receipts_value'')
      else if receipt_number_key r \<in> set (map receipt_number_key (receipt_rows db))
      then Inl (UniqueViolation ''uq_allocation_receipts_rendered'')
      else Inr (db\<lparr>receipt_rows := receipt_rows db @ [r]\<rparr>))"

definition receipt_result :: "allocation_receipt \<Rightarrow> json_object" where
  "receipt_result r = [(''formatted_number'', JStr (ar_number r)), (''value'', JInt (ar_value r)),
     (''period_key'', JStr (ar_period r)), (''reference_date'', JStr (date_isoformat (ar_date r)))]"

definition do_allocate :: "allocate_call \<Rightarrow> numbering_db \<Rightarrow> numbering_error + json_object \<times> numbering_db" where
  "do_allocate call db =
     bindr (require_series (al_scope call) (al_series_code call) db) (\<lambda>s.
     bindr (period_for (al_reference_date call) (reset_policy (ns_configuration s))) (\<lambda>period.
     let (counter, db1) = locked_counter (al_scope call) s period db;
         v = sc_next_value counter
     in if v \<ge> MAX_VALUE then Inl (NumberingError ''series_exhausted'')
     else bindr (format_number (ns_configuration s) v (al_reference_date call)) (\<lambda>formatted.
     bindr (allocation_claim call s formatted db1) (\<lambda>db2.
     let r = \<lparr>ar_scope = al_scope call, ar_series = al_series_code call, ar_period = period, ar_value = v,
              ar_number = formatted, ar_date = al_reference_date call, ar_key = al_idempotency_key call,
              ar_allocated_by = al_allocated_by call\<rparr>
     in bindr (insert_receipt r (set_next_value counter (v + 1) db2)) (\<lambda>db3.
     Inr (receipt_result r, db3))))))"

record Allocation =
  formatted_number :: string
  allocated_value :: int
  allocated_series :: string
  allocated_period :: string
  allocated_date :: date
  replayed :: bool

text \<open>Reading the ledger's result back, with its type checks.\<close>

definition allocation_of :: "string \<Rightarrow> idempotent_outcome \<Rightarrow> numbering_error + Allocation" where
  "allocation_of code out =
     (let res = map_of (out_result out) in
      case (res ''formatted_number'', res ''value'', res ''period_key'', res ''reference_date'') of
        (Some f, Some v, Some p, Some d) \<Rightarrow>
          (case (f, v, p, d) of
             (JStr f, JInt v, JStr p, JStr d) \<Rightarrow>
               (case date_fromisoformat d of
                  None \<Rightarrow> Inl ValueError
                | Some date \<Rightarrow> Inr \<lparr>formatted_number = f, allocated_value = v, allocated_series = code,
                    allocated_period = p, allocated_date = date, replayed = out_replayed out\<rparr>)
           | _ \<Rightarrow> Inl (NumberingError ''invalid_allocation_result''))
      | _ \<Rightarrow> Inl (KeyError ''allocation result''))"

text \<open>An operation under the ledger: it acts on the module's tables.\<close>

definition is_violation :: "numbering_error \<Rightarrow> bool" where
  "is_violation e = (case e of UniqueViolation _ \<Rightarrow> True | _ \<Rightarrow> False)"

definition as_operation ::
    "('s \<Rightarrow> numbering_error + json_object \<times> 's) \<Rightarrow> 's operation" where
  "as_operation f = module_operation is_violation f"

definition claim_constraints :: "string list" where
  "claim_constraints = [''uq_number_claims_rendered'', ''uq_number_claims_document'',
     ''uq_platform_number_claims_rendered'', ''uq_platform_number_claims_document'']"

text \<open>
  The call of the ledger of the scope's plane, and the exception that leaves it.  A
  constraint of the ledger itself never does (a lost race replays the winner), so an
  escaping \<^verbatim>\<open>IntegrityError\<close>, like every other exception of the operation, is the one the
  operation raised; a violated claim constraint becomes \<^verbatim>\<open>NumberCollision\<close>.  The ledger rows
  that concurrent transactions commit meanwhile are \<open>conc\<close> and \<open>pconc\<close>.
\<close>

record concurrent_rows =
  conc :: "idempotency_record list"
  pconc :: "platform_idempotency_record list"

definition escaping_error :: "(numbering_db \<Rightarrow> numbering_error + json_object \<times> numbering_db) \<Rightarrow> numbering_db
    \<Rightarrow> idempotency_error \<Rightarrow> numbering_error" where
  "escaping_error f db e = (case e of
     BadRequest m \<Rightarrow> LedgerError m
   | IdempotencyConflict m \<Rightarrow> LedgerError m
   | DataError \<Rightarrow> DataTooLong
   | _ \<Rightarrow> (case f db of
       Inl (UniqueViolation c) \<Rightarrow> if c \<in> set claim_constraints then NumberCollision else UniqueViolation c
     | Inl err \<Rightarrow> err
     | Inr _ \<Rightarrow> LedgerError ''IntegrityError''))"

definition run_once ::
    "Scope \<Rightarrow> string \<Rightarrow> string \<Rightarrow> string option \<Rightarrow> string \<Rightarrow> concurrent_rows
     \<Rightarrow> (numbering_db \<Rightarrow> numbering_error + json_object \<times> numbering_db) \<Rightarrow> numbering_db db
     \<Rightarrow> (numbering_error + idempotent_outcome) \<times> numbering_db db" where
  "run_once scope kscope key name fp rows f d =
     (let (out, d') = (case scope of
        TenantScope t \<Rightarrow> execute_once
          \<lparr>rq_tenant = t, rq_scope = kscope, rq_key = key, rq_operation = as_operation f, rq_operation_name = name,
           rq_fingerprint = Some fp, rq_correlation_id = None, rq_expires_at = None, rq_conc = conc rows\<rparr> d
      | PlatformScope \<Rightarrow> execute_once_platform
          \<lparr>pq_scope = kscope, pq_key = key, pq_operation = as_operation f, pq_operation_name = name,
           pq_fingerprint = Some fp, pq_correlation_id = None, pq_expires_at = None, pq_conc = pconc rows\<rparr> d)
      in (case out of Inl e \<Rightarrow> Inl (escaping_error f (app_data d) e) | Inr o1 \<Rightarrow> Inr o1, d'))"

definition ALLOCATE_SCOPE :: string where "ALLOCATE_SCOPE = ''numbering.allocate''"

definition json_option :: "string option \<Rightarrow> json" where
  "json_option x = (case x of None \<Rightarrow> JNull | Some s \<Rightarrow> JStr s)"

definition allocate_fingerprint :: "allocate_call \<Rightarrow> numbering_db \<Rightarrow> numbering_error + string" where
  "allocate_fingerprint call db =
     (let inputs = [(''series_code'', JStr (al_series_code call)),
                    (''reference_date'', JStr (date_isoformat (al_reference_date call)))] in
      if al_partition_key call = None \<and> al_document_reference call = None
      then Inr (fingerprint_of (JObj inputs))
      else bindr (read_series (al_scope call) (al_series_code call) db) (\<lambda>definition.
        case sd_domain definition of
          None \<Rightarrow> Inl (NumberingError ''series_not_enrolled'')
        | Some domain \<Rightarrow>
            bindr (domain_partition_key domain (al_partition_key call)) (\<lambda>partition.
            Inr (fingerprint_of (JObj (inputs @
              [(''domain_code'', JStr (domain_code domain)), (''partition_key'', JStr partition),
               (''document_reference'', json_option (al_document_reference call))]))))))"

definition allocate ::
    "allocate_call \<Rightarrow> concurrent_rows \<Rightarrow> numbering_db db \<Rightarrow> (numbering_error + Allocation) \<times> numbering_db db" where
  "allocate call rows d =
     (if al_series_code call = [] then (Inl (NumberingError ''missing_series_code''), d)
      else if al_idempotency_key call = [] then (Inl (NumberingError ''missing_idempotency_key''), d)
      else case allocate_fingerprint call (app_data d) of
        Inl e \<Rightarrow> (Inl e, d)
      | Inr fp \<Rightarrow>
          let (out, d') = run_once (al_scope call) ALLOCATE_SCOPE (al_idempotency_key call)
                (Some (ALLOCATE_SCOPE @ '':'' @ al_series_code call)) fp rows (do_allocate call) d
          in (bindr out (allocation_of (al_series_code call)), d'))"

subsection \<open>Repair and reading\<close>

record repair_call =
  rp_scope :: Scope
  rp_series_code :: string
  rp_period_key :: string
  rp_proven_minimum :: int
  rp_reason :: string
  rp_repaired_by :: string

record Repair =
  previous_next_value :: int
  new_next_value :: int
  changed :: bool

definition advance_to_at_least :: "repair_call \<Rightarrow> numbering_db \<Rightarrow> numbering_error + Repair \<times> numbering_db" where
  "advance_to_at_least call db =
     bindr (ensure (1 \<le> rp_proven_minimum call \<and> rp_proven_minimum call < MAX_VALUE)
       (NumberingError ''invalid_proven_minimum'')) (\<lambda>_.
     bindr (ensure (rp_reason call \<noteq> []) (NumberingError ''missing_reason'')) (\<lambda>_.
     bindr (ensure (rp_repaired_by call \<noteq> []) (NumberingError ''missing_actor'')) (\<lambda>_.
     bindr (require_series (rp_scope call) (rp_series_code call) db) (\<lambda>s.
     bindr (validate_period_key (rp_period_key call) (reset_policy (ns_configuration s))) (\<lambda>_.
     let (counter, db1) = locked_counter (rp_scope call) s (rp_period_key call) db;
         previous = sc_next_value counter;
         target = rp_proven_minimum call + 1;
         new = (if target > previous then target else previous);
         db2 = (if target > previous then set_next_value counter target db1 else db1)
     in if length (rp_repaired_by call) > 255 then Inl DataTooLong
     else Inr (\<lparr>previous_next_value = previous, new_next_value = new, changed = (target > previous)\<rparr>,
       db2\<lparr>repair_rows := repair_rows db2 @ [\<lparr>sr_scope = rp_scope call, sr_series = rp_series_code call,
         sr_period = rp_period_key call, sr_previous = previous, sr_new = new, sr_proven = rp_proven_minimum call,
         sr_reason = rp_reason call, sr_repaired_by = rp_repaired_by call\<rparr>]\<rparr>))))))"

definition preview :: "Scope \<Rightarrow> string \<Rightarrow> date \<Rightarrow> numbering_db \<Rightarrow> numbering_error + string" where
  "preview scope code d db =
     bindr (require_series scope code db) (\<lambda>s.
     bindr (period_for d (reset_policy (ns_configuration s))) (\<lambda>period.
     let v = (case find_counter scope code period db of
                Some c \<Rightarrow> sc_next_value c | None \<Rightarrow> start_value (ns_configuration s))
     in format_number (ns_configuration s) v d))"

record PeriodState =
  ps_series_code :: string
  ps_period_key :: string
  ps_next_value :: int
  ps_counter_exists :: bool
  ps_last_allocation :: "Allocation option"

text \<open>\<^verbatim>\<open>ORDER BY allocated_value DESC LIMIT 1\<close>.\<close>

definition last_receipt :: "Scope \<Rightarrow> string \<Rightarrow> string \<Rightarrow> numbering_db \<Rightarrow> allocation_receipt option" where
  "last_receipt scope code period db =
     (case sort_key (\<lambda>r. - ar_value r)
        (filter (\<lambda>r. ar_scope r = scope \<and> ar_series r = code \<and> ar_period r = period) (receipt_rows db)) of
        [] \<Rightarrow> None | r # _ \<Rightarrow> Some r)"

definition read_period_state :: "Scope \<Rightarrow> string \<Rightarrow> date \<Rightarrow> numbering_db \<Rightarrow> numbering_error + PeriodState" where
  "read_period_state scope code d db =
     bindr (read_series scope code db) (\<lambda>definition.
     bindr (period_for d (reset_policy (sd_configuration definition))) (\<lambda>period.
     let counter = find_counter scope code period db
     in Inr \<lparr>ps_series_code = code, ps_period_key = period,
          ps_next_value = (case counter of None \<Rightarrow> start_value (sd_configuration definition) | Some c \<Rightarrow> sc_next_value c),
          ps_counter_exists = (counter \<noteq> None),
          ps_last_allocation = map_option (\<lambda>r. \<lparr>formatted_number = ar_number r, allocated_value = ar_value r,
            allocated_series = code, allocated_period = period, allocated_date = ar_date r, replayed = False\<rparr>)
            (last_receipt scope code period db)\<rparr>))"

subsection \<open>Reservation\<close>

record reserve_call =
  rv_series_code :: string
  rv_claim :: claim_call
  rv_idempotency_key :: string

record NumberReservation =
  nr_claim_id :: uuid
  nr_claim :: number_claim
  nr_replayed :: bool

definition RESERVE_SCOPE :: string where "RESERVE_SCOPE = ''numbering.reserve''"

definition claim_fields :: "number_claim \<Rightarrow> (string \<times> json) list" where
  "claim_fields c = [(''domain_code'', JStr (cl_domain c)), (''partition_key'', JStr (cl_partition c)),
     (''formatted_number'', JStr (cl_number c)), (''document_reference'', JStr (cl_document c)),
     (''series_code'', JStr (cl_series c)), (''origin'', JStr (cl_origin c)), (''provenance'', JStr (cl_provenance c))]"

definition do_reserve :: "Scope \<Rightarrow> string \<Rightarrow> number_claim \<Rightarrow> numbering_db \<Rightarrow> numbering_error + json_object \<times> numbering_db" where
  "do_reserve scope code c db =
     bindr (require_series scope code db) (\<lambda>_.
     case find_row claim_number_key (claim_number_key c) (claim_rows db) of
       Some row \<Rightarrow>
         if claim_fields row = claim_fields c then Inr ([(''claim_id'', JStr (uuid_str (cl_id row)))], db)
         else bindr (insert_claim c db) (\<lambda>db'. Inr ([(''claim_id'', JStr (uuid_str (cl_id c)))], db'))
     | None \<Rightarrow> bindr (insert_claim c db) (\<lambda>db'. Inr ([(''claim_id'', JStr (uuid_str (cl_id c)))], db')))"

definition reserve_number ::
    "reserve_call \<Rightarrow> concurrent_rows \<Rightarrow> numbering_db db \<Rightarrow> (numbering_error + NumberReservation) \<times> numbering_db db" where
  "reserve_number call rows d =
     (let claim = rv_claim call; scope = cc_scope claim; db = app_data d; code = rv_series_code call in
      case bindr (ensure (cc_origin claim \<in> {''historical'', ''external''}) (NumberingError ''invalid_claim_origin'')) (\<lambda>_.
           bindr (bounded (rv_idempotency_key call) 255 ''idempotency_key'') (\<lambda>_.
           bindr (require_series scope code db) (\<lambda>s.
           bindr (read_series scope code db) (\<lambda>definition. case sd_domain definition of
               None \<Rightarrow> Inl (NumberingError ''series_not_enrolled'')
             | Some domain \<Rightarrow> claim_values s domain claim)))) of
        Inl e \<Rightarrow> (Inl e, d)
      | Inr c \<Rightarrow>
          let (out, d') = run_once scope RESERVE_SCOPE (rv_idempotency_key call) None
                (fingerprint_of (JObj (claim_fields c))) rows (do_reserve scope code c) d
          in (bindr out (\<lambda>o1. case map_of (out_result o1) ''claim_id'' of
                None \<Rightarrow> Inl (KeyError ''claim_id'')
              | Some i \<Rightarrow> (case uuid_of_str (case i of JStr t \<Rightarrow> t | JInt n \<Rightarrow> int_str n | _ \<Rightarrow> []) of
                    None \<Rightarrow> Inl ValueError
                  | Some u \<Rightarrow> Inr \<lparr>nr_claim_id = u, nr_claim = c, nr_replayed = out_replayed o1\<rparr>)), d'))"

end
