(* ===== verification/Numbering_Safety.thy ===== *)
theory Numbering_Safety
  imports Numbering
begin

text \<open>
  What the numbering module guarantees over every sequence of its operations: the
  invariant of its tables, numbers that are never issued twice, counters without
  gaps, and allocation that answers a retry with the number it gave.
\<close>

subsection \<open>Runs\<close>

text \<open>
  The states the module's operations reach from empty tables.  Allocation and
  reservation go through the kernel's ledger, whose rows other users of it may also
  write; an operation that raises changes nothing of the module.
\<close>

definition empty_db :: numbering_db where
  "empty_db = \<lparr>series_rows = [], counter_rows = [], receipt_rows = [], repair_rows = [], domain_rows = [], claim_rows = []\<rparr>"

inductive numbering_step :: "numbering_db db \<Rightarrow> numbering_db db \<Rightarrow> bool" where
  configured: "configure_series scope c (app_data d) = Inr s \<Longrightarrow> numbering_step d (d\<lparr>app_data := s\<rparr>)"
| created: "create_series scope c cd (app_data d) = Inr (r, s) \<Longrightarrow> numbering_step d (d\<lparr>app_data := s\<rparr>)"
| enrolled: "enroll_series scope c cd (app_data d) = Inr (r, s) \<Longrightarrow> numbering_step d (d\<lparr>app_data := s\<rparr>)"
| repaired: "advance_to_at_least call (app_data d) = Inr (r, s) \<Longrightarrow> numbering_step d (d\<lparr>app_data := s\<rparr>)"
| allocated: "allocate call rows d = (out, d') \<Longrightarrow> valid_date (al_reference_date call) \<Longrightarrow> numbering_step d d'"
| reserved: "reserve_number rcall rows d = (rout, d') \<Longrightarrow> numbering_step d d'"

inductive numbering_run :: "numbering_db db \<Rightarrow> bool" where
  start: "app_data d = empty_db \<Longrightarrow> numbering_run d"
| step: "numbering_run d \<Longrightarrow> numbering_step d d' \<Longrightarrow> numbering_run d'"

subsection \<open>The invariant\<close>

definition receipt_slot :: "allocation_receipt \<Rightarrow> Scope \<times> string \<times> string" where
  "receipt_slot r = (ar_scope r, ar_series r, ar_period r)"

definition repair_slot :: "series_repair \<Rightarrow> Scope \<times> string \<times> string" where
  "repair_slot p = (sr_scope p, sr_series p, sr_period p)"

text \<open>The values a period has issued and those a repair has skipped.\<close>

definition issued :: "Scope \<times> string \<times> string \<Rightarrow> numbering_db \<Rightarrow> int set" where
  "issued k db = ar_value ` {r \<in> set (receipt_rows db). receipt_slot r = k}"

definition skipped :: "Scope \<times> string \<times> string \<Rightarrow> numbering_db \<Rightarrow> int set" where
  "skipped k db = (\<Union>p \<in> {p \<in> set (repair_rows db). repair_slot p = k}. {sr_previous p ..< sr_new p})"

definition slot_ok :: "numbering_db \<Rightarrow> Scope \<times> string \<times> string \<Rightarrow> bool" where
  "slot_ok db k \<longleftrightarrow> issued k db \<inter> skipped k db = {} \<and>
     (case find_row counter_key k (counter_rows db) of
        None \<Rightarrow> issued k db \<union> skipped k db = {}
      | Some c \<Rightarrow> \<exists>v0. 1 \<le> v0 \<and> v0 \<le> sc_next_value c \<and> issued k db \<union> skipped k db = {v0 ..< sc_next_value c})"

definition receipt_ok :: "numbering_db \<Rightarrow> allocation_receipt \<Rightarrow> bool" where
  "receipt_ok db r \<longleftrightarrow> (\<exists>s. find_series (ar_scope r) (ar_series r) db = Some s \<and> valid_date (ar_date r) \<and> 1 \<le> ar_value r
     \<and> period_for (ar_date r) (reset_policy (ns_configuration s)) = Inr (ar_period r)
     \<and> format_number (ns_configuration s) (ar_value r) (ar_date r) = Inr (ar_number r))"

definition series_ok :: "number_series \<Rightarrow> bool" where
  "series_ok s \<longleftrightarrow> validate_configuration (ns_configuration s) = Inr () \<and> (ns_domain s \<noteq> None \<longrightarrow> ns_strict s)"

definition numbering_inv :: "numbering_db \<Rightarrow> bool" where
  "numbering_inv db \<longleftrightarrow> (\<forall>s \<in> set (series_rows db). series_ok s) \<and> (\<forall>r \<in> set (receipt_rows db). receipt_ok db r)
     \<and> (\<forall>k. slot_ok db k) \<and> distinct (map receipt_value_key (receipt_rows db))
     \<and> distinct (map receipt_number_key (receipt_rows db))"

lemma numbering_inv_empty: "numbering_inv empty_db"
  by (simp add: numbering_inv_def empty_db_def slot_ok_def issued_def skipped_def find_row_def)

lemma slot_ok_cong:
  "\<lbrakk>issued k a = issued k b; skipped k a = skipped k b;
    find_row counter_key k (counter_rows a) = find_row counter_key k (counter_rows b)\<rbrakk> \<Longrightarrow> slot_ok a k = slot_ok b k"
  by (simp only: slot_ok_def)

text \<open>An operation that touches neither counters nor receipts nor repairs keeps the slots.\<close>

definition same_numbers :: "numbering_db \<Rightarrow> numbering_db \<Rightarrow> bool" where
  "same_numbers a b \<longleftrightarrow> counter_rows b = counter_rows a \<and> receipt_rows b = receipt_rows a \<and> repair_rows b = repair_rows a"

lemma numbering_inv_series:
  assumes "numbering_inv a" and "same_numbers a b" and "\<forall>s \<in> set (series_rows b). series_ok s"
    and keep: "\<And>r s. r \<in> set (receipt_rows a) \<Longrightarrow> find_series (ar_scope r) (ar_series r) a = Some s \<Longrightarrow>
      \<exists>s'. find_series (ar_scope r) (ar_series r) b = Some s'
        \<and> \<not> shaping_changed (ns_configuration s) (ns_configuration s')"
  shows "numbering_inv b"
proof -
  have receipts: "receipt_ok b r" if r: "r \<in> set (receipt_rows a)" for r
  proof -
    have "receipt_ok a r" using assms(1) r by (simp add: numbering_inv_def)
    then obtain s where s: "find_series (ar_scope r) (ar_series r) a = Some s" and ok: "valid_date (ar_date r)" "1 \<le> ar_value r"
      "period_for (ar_date r) (reset_policy (ns_configuration s)) = Inr (ar_period r)"
      "format_number (ns_configuration s) (ar_value r) (ar_date r) = Inr (ar_number r)"
      by (auto simp: receipt_ok_def)
    from keep [OF r s] obtain s' where s': "find_series (ar_scope r) (ar_series r) b = Some s'"
      "\<not> shaping_changed (ns_configuration s) (ns_configuration s')" by blast
    from ok s'(1) show ?thesis
      unfolding receipt_ok_def by (simp add: shaping_unchanged [OF s'(2)])
  qed
  have sets: "issued k b = issued k a" "skipped k b = skipped k a" for k
    using assms(2) by (simp_all add: issued_def skipped_def same_numbers_def)
  have "slot_ok b k = slot_ok a k" for k
    by (rule slot_ok_cong) (use assms(2) sets in \<open>simp_all add: same_numbers_def\<close>)
  with receipts show ?thesis
    using assms(1-3) by (simp add: numbering_inv_def same_numbers_def)
qed

lemma find_series_SomeD:
  "find_series scope code db = Some s \<Longrightarrow> s \<in> set (series_rows db) \<and> ns_scope s = scope \<and> series_code (ns_configuration s) = code"
  by (auto simp: find_series_def series_key_def dest: find_row_Some)

lemma shaping_unchanged_refl [simp]: "\<not> shaping_changed c c"
  by (simp add: shaping_changed_def)

lemma find_series_append:
  "find_series scope code (db\<lparr>series_rows := series_rows db @ [x]\<rparr>) =
     (case find_series scope code db of Some s \<Rightarrow> Some s
      | None \<Rightarrow> if series_key x = (scope, code) then Some x else None)"
  by (simp add: find_series_def find_row_append) (simp add: find_row_def split: option.splits)

text \<open>Updating the row of one series, its key kept.\<close>

lemma find_series_update:
  assumes "\<And>x. series_key x = k \<Longrightarrow> series_key (f x) = k"
  shows "find_series scope code (db\<lparr>series_rows := update_rows (\<lambda>x. series_key x = k) f (series_rows db)\<rparr>) =
     map_option (\<lambda>x. if series_key x = k then f x else x) (find_series scope code db)"
proof -
  have "find_row series_key k' (update_rows (\<lambda>x. series_key x = k) f rows) =
      map_option (\<lambda>x. if series_key x = k then f x else x) (find_row series_key k' rows)" for k' rows
    using assms by (induction rows) (auto simp: find_row_def)
  then show ?thesis by (simp add: find_series_def)
qed

lemma configure_series_inv:
  assumes inv: "numbering_inv db" and run: "configure_series scope c db = Inr db'"
  shows "numbering_inv db'"
proof -
  have valid: "validate_configuration c = Inr ()" using run by (auto simp: configure_series_def bindr_eq_Inr)
  show ?thesis
  proof (cases "find_series scope (series_code c) db")
    case None
    define x where "x = \<lparr>ns_scope = scope, ns_configuration = c, ns_strict = False, ns_domain = None\<rparr>"
    have db': "db' = db\<lparr>series_rows := series_rows db @ [x]\<rparr>"
      using run valid None by (simp add: configure_series_def x_def)
    show ?thesis
      by (rule numbering_inv_series [OF inv])
        (use inv valid in \<open>auto simp: db' same_numbers_def find_series_append numbering_inv_def series_ok_def x_def\<close>)
  next
    case (Some s)
    have db': "db' = db\<lparr>series_rows := update_rows (\<lambda>x. series_key x = series_key s) (\<lambda>x. x\<lparr>ns_configuration := c\<rparr>) (series_rows db)\<rparr>"
      and safe: "assert_safe_transition scope s c db = Inr ()"
      using run valid Some by (auto simp: configure_series_def bindr_eq_Inr)
    have key: "series_key s = (scope, series_code c)" using find_series_SomeD [OF Some] by (simp add: series_key_def)
    have rest: "same_numbers db db'" by (simp add: db' same_numbers_def)
    have rows: "\<forall>x \<in> set (series_rows db'). series_ok x"
    proof
      fix x assume "x \<in> set (series_rows db')"
      then obtain y where "y \<in> set (series_rows db)" "x = y \<or> x = y\<lparr>ns_configuration := c\<rparr>"
        by (auto simp: db' update_rows_set split: if_splits)
      with inv valid show "series_ok x" by (auto simp: numbering_inv_def series_ok_def)
    qed
    have upd: "find_series sc cd db' = map_option (\<lambda>x. if series_key x = series_key s then x\<lparr>ns_configuration := c\<rparr> else x)
        (find_series sc cd db)" for sc cd
      unfolding db' using key by (intro find_series_update) (simp add: series_key_def)
    show ?thesis
    proof (rule numbering_inv_series [OF inv rest rows])
      fix r s0 assume r: "r \<in> set (receipt_rows db)" and s0: "find_series (ar_scope r) (ar_series r) db = Some s0"
      show "\<exists>s'. find_series (ar_scope r) (ar_series r) db' = Some s' \<and> \<not> shaping_changed (ns_configuration s0) (ns_configuration s')"
      proof (cases "series_key s0 = series_key s")
        case True
        have "series_key s0 = (ar_scope r, ar_series r)"
          using find_series_SomeD [OF s0] by (simp add: series_key_def)
        then have at: "ar_scope r = scope" "ar_series r = series_code c" using key True by simp_all
        then have "s0 = s" using Some s0 by simp
        from at have "series_has_history scope (series_code c) db"
          using r by (auto simp: series_has_history_def list_ex_iff)
        then have "\<not> shaping_changed (ns_configuration s) c"
          using safe by (auto simp: assert_safe_transition_def split: if_splits)
        with True s0 \<open>s0 = s\<close> show ?thesis by (simp add: upd)
      qed (simp add: upd s0)
    qed
  qed
qed

lemma ensure_domain_Inr:
  assumes "ensure_domain scope d db = Inr db'"
  shows "same_numbers db db' \<and> series_rows db' = series_rows db \<and> claim_rows db' = claim_rows db
    \<and> (\<forall>k r. find_row domain_key k (domain_rows db) = Some r \<longrightarrow> find_row domain_key k (domain_rows db') = Some r)"
  using assms
  by (auto simp: ensure_domain_def bindr_eq_Inr same_numbers_def find_row_append split: option.splits if_splits)

lemma find_series_cong: "series_rows a = series_rows b \<Longrightarrow> find_series sc cd a = find_series sc cd b"
  by (simp add: find_series_def)

lemma create_series_inv:
  assumes inv: "numbering_inv db" and run: "create_series scope c d db = Inr (r, db')"
  shows "numbering_inv db'"
proof -
  have valid: "validate_configuration c = Inr ()" using run by (auto simp: create_series_def bindr_eq_Inr)
  show ?thesis
  proof (cases "find_series scope (series_code c) db")
    case (Some s)
    then have "db' = db" using run by (auto simp: create_series_def bindr_eq_Inr split: if_splits)
    with inv show ?thesis by simp
  next
    case None
    define x where "x = \<lparr>ns_scope = scope, ns_configuration = c, ns_strict = True, ns_domain = Some (domain_code d)\<rparr>"
    obtain db1 where db1: "ensure_domain scope d db = Inr db1" and db': "db' = db1\<lparr>series_rows := series_rows db1 @ [x]\<rparr>"
      using run None by (auto simp: create_series_def bindr_eq_Inr x_def split: if_splits)
    note dom = ensure_domain_Inr [OF db1]
    have rest: "same_numbers db db'" using dom by (simp add: db' same_numbers_def)
    have rows: "\<forall>x \<in> set (series_rows db'). series_ok x"
      using inv dom valid by (simp add: db' numbering_inv_def series_ok_def x_def)
    show ?thesis
    proof (rule numbering_inv_series [OF inv rest rows])
      fix r s assume "find_series (ar_scope r) (ar_series r) db = Some s"
      then have "find_series (ar_scope r) (ar_series r) db' = Some s"
        unfolding db' find_series_append using dom find_series_cong [of db1 db] by simp
      then show "\<exists>s'. find_series (ar_scope r) (ar_series r) db' = Some s' \<and> \<not> shaping_changed (ns_configuration s) (ns_configuration s')"
        by simp
    qed
  qed
qed

lemma enroll_series_inv:
  assumes inv: "numbering_inv db" and run: "enroll_series scope c d db = Inr (r, db')"
  shows "numbering_inv db'"
proof -
  obtain s st where s: "require_series scope (series_code c) db = Inr s" and st: "read_series scope (series_code c) db = Inr st"
    and cfg: "sd_configuration st = c"
    using run by (auto simp: enroll_series_def bindr_eq_Inr split: if_splits)
  show ?thesis
  proof (cases "sd_strict st")
    case True
    then have "db' = db" using run s st by (auto simp: enroll_series_def bindr_eq_Inr split: if_splits)
    with inv show ?thesis by simp
  next
    case False
    define f where "f = (\<lambda>x :: number_series. x\<lparr>ns_domain := Some (domain_code d), ns_strict := True\<rparr>)"
    obtain db1 where db1: "ensure_domain scope d db = Inr db1"
      and db': "db' = db1\<lparr>series_rows := update_rows (\<lambda>x. series_key x = series_key s) f (series_rows db1)\<rparr>"
      using run False s st by (auto simp: enroll_series_def bindr_eq_Inr f_def split: if_splits)
    note dom = ensure_domain_Inr [OF db1]
    have rest: "same_numbers db db'" using dom by (simp add: db' same_numbers_def)
    have rows: "\<forall>x \<in> set (series_rows db'). series_ok x"
    proof
      fix x assume "x \<in> set (series_rows db')"
      then obtain y where "y \<in> set (series_rows db)" "x = y \<or> x = f y"
        using dom by (auto simp: db' update_rows_set split: if_splits)
      with inv show "series_ok x" by (auto simp: numbering_inv_def series_ok_def f_def)
    qed
    have upd: "find_series sc cd db' = map_option (\<lambda>x. if series_key x = series_key s then f x else x) (find_series sc cd db)" for sc cd
      unfolding db' using find_series_cong [of db1 db sc cd] dom
      by (subst find_series_update) (simp_all add: series_key_def f_def)
    show ?thesis
      by (rule numbering_inv_series [OF inv rest rows]) (simp add: upd f_def)
  qed
qed

subsection \<open>Counters\<close>

definition slot_value :: "number_series \<Rightarrow> string \<Rightarrow> numbering_db \<Rightarrow> int" where
  "slot_value s period db = (case find_counter (ns_scope s) (series_code (ns_configuration s)) period db of
     Some c \<Rightarrow> sc_next_value c | None \<Rightarrow> start_value (ns_configuration s))"

lemma locked_counter_props:
  assumes "locked_counter scope s period db = (c, db1)" and "ns_scope s = scope"
  shows "counter_key c = (scope, series_code (ns_configuration s), period)"
    and "sc_next_value c = slot_value s period db"
    and "find_row counter_key k (counter_rows db1) = (if k = counter_key c then Some c else find_row counter_key k (counter_rows db))"
    and "series_rows db1 = series_rows db" "receipt_rows db1 = receipt_rows db" "repair_rows db1 = repair_rows db"
      "domain_rows db1 = domain_rows db" "claim_rows db1 = claim_rows db"
proof (atomize (full), goal_cases)
  case 1
  let ?k = "(scope, series_code (ns_configuration s), period)"
  show ?case
  proof (cases "find_row counter_key ?k (counter_rows db)")
    case None
    with assms show ?thesis
      by (auto simp: locked_counter_def slot_value_def find_counter_def counter_key_def find_row_append Let_def
          find_row_def [of _ _ "[_]"] split: option.splits)
  next
    case (Some x)
    with assms have "c = x" "db1 = db" by (simp_all add: locked_counter_def find_counter_def)
    with Some assms(2) find_row_Some [OF Some] show ?thesis by (auto simp: slot_value_def find_counter_def)
  qed
qed

lemma set_next_value_find:
  assumes "find_row counter_key (counter_key c) (counter_rows db) = Some c"
  shows "find_row counter_key k (counter_rows (set_next_value c v db)) =
     (if k = counter_key c then Some (c\<lparr>sc_next_value := v\<rparr>) else find_row counter_key k (counter_rows db))"
proof -
  have "find_row counter_key k (counter_rows (set_next_value c v db)) =
      map_option (\<lambda>x. if counter_key x = counter_key c then x\<lparr>sc_next_value := v\<rparr> else x) (find_row counter_key k (counter_rows db))"
    unfolding set_next_value_def by (simp add: find_row_update_rows counter_key_def)
  then show ?thesis
    using assms by (cases "find_row counter_key k (counter_rows db)") (auto dest: find_row_Some)
qed

lemma set_next_value_simps [simp]:
  "series_rows (set_next_value c v db) = series_rows db" "receipt_rows (set_next_value c v db) = receipt_rows db"
  "repair_rows (set_next_value c v db) = repair_rows db" "domain_rows (set_next_value c v db) = domain_rows db"
  "claim_rows (set_next_value c v db) = claim_rows db"
  by (simp_all add: set_next_value_def)

text \<open>A slot whose counter moves from \<open>v\<close> to \<open>w\<close> while the values between are issued or skipped.\<close>

lemma slot_ok_advance:
  assumes "slot_ok db k" and "case find_row counter_key k (counter_rows db) of None \<Rightarrow> 1 \<le> v | Some c \<Rightarrow> v = sc_next_value c"
    and "find_row counter_key k (counter_rows db') = Some c'" and "sc_next_value c' = w" and "v \<le> w"
    and "(issued k db' = issued k db \<union> {v..<w} \<and> skipped k db' = skipped k db)
       \<or> (issued k db' = issued k db \<and> skipped k db' = skipped k db \<union> {v..<w})"
  shows "slot_ok db' k"
proof -
  have old: "issued k db \<inter> skipped k db = {}"
    and "issued k db \<union> skipped k db = {} \<and> 1 \<le> v \<or> (\<exists>v0. 1 \<le> v0 \<and> v0 \<le> v \<and> issued k db \<union> skipped k db = {v0..<v})"
    using assms(1,2) by (auto simp: slot_ok_def split: option.splits)
  then obtain v0 where v0: "1 \<le> v0" "v0 \<le> v" "issued k db \<union> skipped k db = {v0..<v}"
    by (metis atLeastLessThan_empty order_refl)
  then have un: "issued k db' \<union> skipped k db' = {v0..<w}"
    using assms(5,6) ivl_disj_un_two(3) [of v0 v w] by auto
  have "x \<notin> {v..<w}" if "x \<in> issued k db \<union> skipped k db" for x using that v0(3) by auto
  then have "issued k db' \<inter> skipped k db' = {}" using assms(6) old by auto
  with un v0 assms(3-5) show ?thesis by (auto simp: slot_ok_def)
qed

subsection \<open>Allocation and repair keep the invariant\<close>

lemma require_series_Inr: "require_series sc cd db = Inr s \<longleftrightarrow> find_series sc cd db = Some s"
  by (simp add: require_series_def split: option.splits)

lemma insert_claim_Inr:
  "insert_claim c db = Inr db' \<Longrightarrow> db' = db\<lparr>claim_rows := claim_rows db @ [c]\<rparr>"
  by (simp add: insert_claim_def split: if_splits)

lemma allocation_claim_Inr:
  assumes "allocation_claim call s formatted db = Inr db'"
  shows "\<exists>cs. db' = db\<lparr>claim_rows := claim_rows db @ cs\<rparr>"
proof -
  have "db = db\<lparr>claim_rows := claim_rows db @ []\<rparr>" by simp
  with assms show ?thesis
    by (auto simp: allocation_claim_def bindr_eq_Inr split: option.splits if_splits dest!: insert_claim_Inr intro: exI [of _ "[]"])
qed

lemma insert_receipt_Inr:
  "insert_receipt r db = Inr db' \<longleftrightarrow> db' = db\<lparr>receipt_rows := receipt_rows db @ [r]\<rparr>
     \<and> fits 255 (ar_allocated_by r) \<and> length (ar_key r) \<le> 255 \<and> length (ar_number r) \<le> 255
     \<and> receipt_value_key r \<notin> receipt_value_key ` set (receipt_rows db)
     \<and> receipt_number_key r \<notin> receipt_number_key ` set (receipt_rows db)"
  by (auto simp: insert_receipt_def)

lemma do_allocate_Inr:
  assumes "do_allocate call db = Inr (res, db')"
  obtains s period v number r c where
    "find_series (al_scope call) (al_series_code call) db = Some s"
    "period_for (al_reference_date call) (reset_policy (ns_configuration s)) = Inr period"
    "v = slot_value s period db" "v < MAX_VALUE"
    "format_number (ns_configuration s) v (al_reference_date call) = Inr number"
    "r = \<lparr>ar_scope = al_scope call, ar_series = al_series_code call, ar_period = period, ar_value = v, ar_number = number,
       ar_date = al_reference_date call, ar_key = al_idempotency_key call, ar_allocated_by = al_allocated_by call\<rparr>"
    "res = receipt_result r"
    "series_rows db' = series_rows db" "domain_rows db' = domain_rows db" "repair_rows db' = repair_rows db"
    "receipt_rows db' = receipt_rows db @ [r]"
    "receipt_value_key r \<notin> receipt_value_key ` set (receipt_rows db)"
    "receipt_number_key r \<notin> receipt_number_key ` set (receipt_rows db)"
    "sc_next_value c = v + 1"
    "\<And>k. find_row counter_key k (counter_rows db') = (if k = receipt_slot r then Some c else find_row counter_key k (counter_rows db))"
proof -
  obtain s period where s: "find_series (al_scope call) (al_series_code call) db = Some s"
    and p: "period_for (al_reference_date call) (reset_policy (ns_configuration s)) = Inr period"
    using assms by (auto simp: do_allocate_def bindr_eq_Inr require_series_Inr)
  have at: "ns_scope s = al_scope call" "series_code (ns_configuration s) = al_series_code call"
    using find_series_SomeD [OF s] by simp_all
  obtain c db1 where lc: "locked_counter (al_scope call) s period db = (c, db1)" by fastforce
  note lp = locked_counter_props [OF lc at(1)]
  obtain number db2 where v: "sc_next_value c < MAX_VALUE"
    and f: "format_number (ns_configuration s) (sc_next_value c) (al_reference_date call) = Inr number"
    and cl: "allocation_claim call s number db1 = Inr db2"
    and ins: "insert_receipt \<lparr>ar_scope = al_scope call, ar_series = al_series_code call, ar_period = period,
        ar_value = sc_next_value c, ar_number = number, ar_date = al_reference_date call, ar_key = al_idempotency_key call,
        ar_allocated_by = al_allocated_by call\<rparr> (set_next_value c (sc_next_value c + 1) db2) = Inr db'"
    and res: "res = receipt_result \<lparr>ar_scope = al_scope call, ar_series = al_series_code call, ar_period = period,
        ar_value = sc_next_value c, ar_number = number, ar_date = al_reference_date call, ar_key = al_idempotency_key call,
        ar_allocated_by = al_allocated_by call\<rparr>"
    using assms s p lc by (auto simp: do_allocate_def bindr_eq_Inr require_series_Inr Let_def split: if_splits)
  obtain cs where db2: "db2 = db1\<lparr>claim_rows := claim_rows db1 @ cs\<rparr>" using allocation_claim_Inr [OF cl] by blast
  define r where "r = \<lparr>ar_scope = al_scope call, ar_series = al_series_code call, ar_period = period,
        ar_value = sc_next_value c, ar_number = number, ar_date = al_reference_date call, ar_key = al_idempotency_key call,
        ar_allocated_by = al_allocated_by call\<rparr>"
  note ins' = ins [folded r_def, unfolded insert_receipt_Inr]
  have key: "receipt_slot r = counter_key c" using lp(1) at by (simp add: receipt_slot_def r_def)
  have "find_row counter_key k (counter_rows db') =
      (if k = receipt_slot r then Some (c\<lparr>sc_next_value := sc_next_value c + 1\<rparr>) else find_row counter_key k (counter_rows db))" for k
    using set_next_value_find [of c db2 k "sc_next_value c + 1"] lp(3) ins' by (simp add: db2 key)
  then show thesis
    using s p lp(2,4-8) v f res ins' by (intro that [of s period "sc_next_value c" number r]) (simp_all add: r_def db2)
qed

lemma issued_snoc:
  assumes "receipt_rows db' = receipt_rows db @ [r]"
  shows "issued k db' = (if receipt_slot r = k then insert (ar_value r) (issued k db) else issued k db)"
  using assms by (auto simp: issued_def)

lemma skipped_snoc:
  assumes "repair_rows db' = repair_rows db @ [p]"
  shows "skipped k db' = (if repair_slot p = k then skipped k db \<union> {sr_previous p..<sr_new p} else skipped k db)"
  using assms by (auto simp: skipped_def)

lemma slot_start:
  assumes "numbering_inv db" and "find_series sc cd db = Some s"
  shows "case find_row counter_key (sc, cd, period) (counter_rows db) of None \<Rightarrow> 1 \<le> slot_value s period db
     | Some c \<Rightarrow> slot_value s period db = sc_next_value c"
    and "1 \<le> slot_value s period db"
proof -
  have "series_ok s" using assms find_series_SomeD [OF assms(2)] by (simp add: numbering_inv_def)
  then have start: "1 \<le> start_value (ns_configuration s)" by (simp add: series_ok_def validate_configuration_Inr)
  have ok: "slot_ok db (sc, cd, period)" using assms(1) by (simp add: numbering_inv_def)
  show "case find_row counter_key (sc, cd, period) (counter_rows db) of None \<Rightarrow> 1 \<le> slot_value s period db
     | Some c \<Rightarrow> slot_value s period db = sc_next_value c"
    using start find_series_SomeD [OF assms(2)] by (simp add: slot_value_def find_counter_def split: option.splits)
  show "1 \<le> slot_value s period db"
    using start ok find_series_SomeD [OF assms(2)] by (auto simp: slot_value_def find_counter_def slot_ok_def split: option.splits)
qed

lemma do_allocate_inv:
  assumes inv: "numbering_inv db" and run: "do_allocate call db = Inr (res, db')" and date: "valid_date (al_reference_date call)"
  shows "numbering_inv db'"
  using run
proof (rule do_allocate_Inr)
  fix s period v number r c
  assume s: "find_series (al_scope call) (al_series_code call) db = Some s"
    and p: "period_for (al_reference_date call) (reset_policy (ns_configuration s)) = Inr period"
    and v: "v = slot_value s period db" and f: "format_number (ns_configuration s) v (al_reference_date call) = Inr number"
    and r: "r = \<lparr>ar_scope = al_scope call, ar_series = al_series_code call, ar_period = period, ar_value = v, ar_number = number,
       ar_date = al_reference_date call, ar_key = al_idempotency_key call, ar_allocated_by = al_allocated_by call\<rparr>"
    and rows: "series_rows db' = series_rows db" "repair_rows db' = repair_rows db" "receipt_rows db' = receipt_rows db @ [r]"
    and new: "receipt_value_key r \<notin> receipt_value_key ` set (receipt_rows db)"
      "receipt_number_key r \<notin> receipt_number_key ` set (receipt_rows db)"
    and c: "sc_next_value c = v + 1"
    and ct: "\<And>k. find_row counter_key k (counter_rows db') = (if k = receipt_slot r then Some c else find_row counter_key k (counter_rows db))"
  have slot: "receipt_slot r = (al_scope call, al_series_code call, period)" by (simp add: r receipt_slot_def)
  have sk: "skipped k db' = skipped k db" for k by (simp add: skipped_def rows(2))
  have iss: "issued k db' = (if receipt_slot r = k then insert v (issued k db) else issued k db)" for k
    using issued_snoc [OF rows(3)] by (simp add: r)
  have "slot_ok db' k" for k
  proof (cases "k = receipt_slot r")
    case True
    have ok: "slot_ok db k" using inv unfolding numbering_inv_def by blast
    have pre: "case find_row counter_key k (counter_rows db) of None \<Rightarrow> 1 \<le> v | Some c \<Rightarrow> v = sc_next_value c"
      using slot_start(1) [OF inv s, of period] by (simp add: True slot v split: option.splits)
    have "issued k db' = issued k db \<union> {v..<v + 1}" using True by (auto simp: iss)
    with True show ?thesis by (intro slot_ok_advance [OF ok pre _ c]) (simp_all add: ct sk)
  next
    case False
    then have "slot_ok db' k = slot_ok db k" by (intro slot_ok_cong) (simp_all add: iss sk ct)
    then show ?thesis using inv unfolding numbering_inv_def by blast
  qed
  moreover have "receipt_ok db' x" if "x \<in> set (receipt_rows db')" for x
  proof (cases "x = r")
    case True
    then show ?thesis
      using s p f date slot_start(2) [OF inv s, of period] find_series_cong [OF rows(1)] by (simp add: receipt_ok_def r v)
  next
    case False
    then have "receipt_ok db x" using that inv by (auto simp: numbering_inv_def rows(3))
    then show ?thesis using find_series_cong [OF rows(1)] by (simp add: receipt_ok_def)
  qed
  ultimately show ?thesis using inv new by (simp add: numbering_inv_def rows)
qed

lemma advance_to_at_least_inv:
  assumes inv: "numbering_inv db" and run: "advance_to_at_least call db = Inr (r, db')"
  shows "numbering_inv db'"
proof -
  obtain s where s: "find_series (rp_scope call) (rp_series_code call) db = Some s"
    using run by (auto simp: advance_to_at_least_def bindr_eq_Inr require_series_Inr)
  have at: "ns_scope s = rp_scope call" "series_code (ns_configuration s) = rp_series_code call"
    using find_series_SomeD [OF s] by simp_all
  obtain c db1 where lc: "locked_counter (rp_scope call) s (rp_period_key call) db = (c, db1)" by fastforce
  note lp = locked_counter_props [OF lc at(1)]
  define v where "v = sc_next_value c"
  define w where "w = (if rp_proven_minimum call + 1 > v then rp_proven_minimum call + 1 else v)"
  define p where "p = \<lparr>sr_scope = rp_scope call, sr_series = rp_series_code call,
         sr_period = rp_period_key call, sr_previous = v, sr_new = w, sr_proven = rp_proven_minimum call,
         sr_reason = rp_reason call, sr_repaired_by = rp_repaired_by call\<rparr>"
  define db2 where "db2 = (if rp_proven_minimum call + 1 > v then set_next_value c (rp_proven_minimum call + 1) db1 else db1)"
  have db': "db' = db2\<lparr>repair_rows := repair_rows db2 @ [p]\<rparr>"
    using run s lc by (auto simp: advance_to_at_least_def bindr_eq_Inr require_series_Inr Let_def v_def w_def p_def db2_def split: if_splits)
  have slot: "repair_slot p = (rp_scope call, rp_series_code call, rp_period_key call)" "repair_slot p = counter_key c"
    using lp(1) at by (simp_all add: repair_slot_def p_def)
  obtain c' where c': "sc_next_value c' = w"
    and ct: "\<And>k. find_row counter_key k (counter_rows db') = (if k = repair_slot p then Some c' else find_row counter_key k (counter_rows db))"
  proof (cases "rp_proven_minimum call + 1 > v")
    case True
    then show thesis
      using that [of "c\<lparr>sc_next_value := w\<rparr>"] set_next_value_find [of c db1] lp(3) by (simp add: db' db2_def w_def slot(2))
  next
    case False
    then show thesis using that [of c] lp(3) by (simp add: db' db2_def w_def v_def slot(2))
  qed
  have rows: "series_rows db' = series_rows db" "receipt_rows db' = receipt_rows db" "repair_rows db' = repair_rows db @ [p]"
    using lp by (simp_all add: db' db2_def)
  have iss: "issued k db' = issued k db" for k by (simp add: issued_def rows)
  have "slot_ok db' k" for k
  proof (cases "k = repair_slot p")
    case True
    have ok: "slot_ok db k" using inv unfolding numbering_inv_def by blast
    have pre: "case find_row counter_key k (counter_rows db) of None \<Rightarrow> 1 \<le> v | Some c \<Rightarrow> v = sc_next_value c"
      using slot_start(1) [OF inv s, of "rp_period_key call"] by (simp add: True slot(1) v_def lp(2) split: option.splits)
    have "skipped k db' = skipped k db \<union> {v..<w}" using skipped_snoc [OF rows(3), of k] True by (simp add: p_def)
    with True show ?thesis by (intro slot_ok_advance [OF ok pre _ c']) (simp_all add: ct iss w_def)
  next
    case False
    then have "slot_ok db' k = slot_ok db k" using skipped_snoc [OF rows(3), of k] by (intro slot_ok_cong) (simp_all add: iss ct)
    then show ?thesis using inv unfolding numbering_inv_def by blast
  qed
  moreover have "receipt_ok db' x = receipt_ok db x" for x
    using find_series_cong [OF rows(1)] by (simp add: receipt_ok_def)
  ultimately show ?thesis using inv by (simp add: numbering_inv_def rows)
qed

subsection \<open>Through the ledger\<close>

text \<open>The recorded fingerprint and result of a key, in the ledger of the scope's plane.\<close>

definition once_row :: "Scope \<Rightarrow> string \<Rightarrow> string \<Rightarrow> 'a db \<Rightarrow> (string option \<times> json_object) option" where
  "once_row scope kscope key d = (case scope of
     TenantScope t \<Rightarrow> map_option (\<lambda>r. (ir_fingerprint r, ir_result r)) (lookup d t kscope key)
   | PlatformScope \<Rightarrow> map_option (\<lambda>r. (pr_fingerprint r, pr_result r)) (lookup_platform d kscope key))"

lemma once_row_stays: "ledgers_extend d d' \<Longrightarrow> once_row scope ks k d = Some x \<Longrightarrow> once_row scope ks k d' = Some x"
  by (cases scope)
    (auto simp: ledgers_extend_def once_row_def lookup_def lookup_platform_def find_row_append split: option.splits)

lemma run_once_effect:
  assumes "run_once scope ks key name fp rows f d = (out, d')"
  shows "(app_data d' = app_data d \<and> (\<forall>o1. out = Inr o1 \<longrightarrow> out_replayed o1))
       \<or> (\<exists>res s o1. f (app_data d) = Inr (res, s) \<and> app_data d' = s \<and> out = Inr o1 \<and> \<not> out_replayed o1 \<and> out_result o1 = res)"
    and "ledgers_extend d d'"
    and "out = Inr o1 \<Longrightarrow> validate ks key = Inr () \<and>
      (\<exists>fp0. once_row scope ks key d' = Some (fp0, out_result o1) \<and> (fp0 = None \<or> fp0 = Some fp))"
proof (atomize (full), cases scope)
  case PlatformScope
  obtain o2 d2 where e: "execute_once_platform \<lparr>pq_scope = ks, pq_key = key, pq_operation = as_operation f,
      pq_operation_name = name, pq_fingerprint = Some fp, pq_correlation_id = None, pq_expires_at = None,
      pq_conc = pconc rows\<rparr> d = (o2, d2)" by fastforce
  show "((app_data d' = app_data d \<and> (\<forall>o1. out = Inr o1 \<longrightarrow> out_replayed o1))
       \<or> (\<exists>res s o1. f (app_data d) = Inr (res, s) \<and> app_data d' = s \<and> out = Inr o1 \<and> \<not> out_replayed o1 \<and> out_result o1 = res))
      \<and> ledgers_extend d d' \<and> (out = Inr o1 \<longrightarrow> validate ks key = Inr () \<and>
      (\<exists>fp0. once_row scope ks key d' = Some (fp0, out_result o1) \<and> (fp0 = None \<or> fp0 = Some fp)))"
    using execute_once_platform_module [OF _ e, of is_violation f] assms e PlatformScope
    by (cases o2) (auto simp: run_once_def ledgers_extend_def once_row_def as_operation_def)
next
  case (TenantScope t)
  obtain o2 d2 where e: "execute_once \<lparr>rq_tenant = t, rq_scope = ks, rq_key = key, rq_operation = as_operation f,
      rq_operation_name = name, rq_fingerprint = Some fp, rq_correlation_id = None, rq_expires_at = None,
      rq_conc = conc rows\<rparr> d = (o2, d2)" by fastforce
  show "((app_data d' = app_data d \<and> (\<forall>o1. out = Inr o1 \<longrightarrow> out_replayed o1))
       \<or> (\<exists>res s o1. f (app_data d) = Inr (res, s) \<and> app_data d' = s \<and> out = Inr o1 \<and> \<not> out_replayed o1 \<and> out_result o1 = res))
      \<and> ledgers_extend d d' \<and> (out = Inr o1 \<longrightarrow> validate ks key = Inr () \<and>
      (\<exists>fp0. once_row scope ks key d' = Some (fp0, out_result o1) \<and> (fp0 = None \<or> fp0 = Some fp)))"
    using execute_once_module [OF _ e, of is_violation f] assms e TenantScope
    by (cases o2) (auto simp: run_once_def ledgers_extend_def once_row_def as_operation_def)
qed

lemma run_once_replays:
  assumes "once_row scope ks key d = Some (fp0, res)" and "fp0 = None \<or> fp0 = Some fp" and "validate ks key = Inr ()"
  shows "run_once scope ks key name fp rows f d = (Inr \<lparr>out_scope = ks, out_key = key, out_result = res, out_replayed = True\<rparr>, d)"
  using assms
  by (cases scope) (auto simp: run_once_def once_row_def execute_once_def execute_once_platform_def replay_or_conflict_def)

text \<open>A constraint violation that escapes is one the operation met, and not one of a claim.\<close>

lemma run_once_violation:
  assumes "fst (run_once scope ks key name fp rows f d) = Inl (UniqueViolation c)"
  shows "f (app_data d) = Inl (UniqueViolation c) \<and> c \<notin> set claim_constraints"
  using assms
  by (auto simp: run_once_def Let_def escaping_error_def split_beta split: sum.splits idempotency_error.splits
      numbering_error.splits if_splits)

subsection \<open>Every run keeps the invariant\<close>

lemma do_reserve_Inr:
  assumes "do_reserve scope code c db = Inr (res, db')"
  shows "\<exists>cs. db' = db\<lparr>claim_rows := claim_rows db @ cs\<rparr>"
proof -
  have "db = db\<lparr>claim_rows := claim_rows db @ []\<rparr>" by simp
  with assms show ?thesis
    by (auto simp: do_reserve_def bindr_eq_Inr split: option.splits if_splits dest!: insert_claim_Inr intro: exI [of _ "[]"])
qed

lemma numbering_inv_claims: "numbering_inv (db\<lparr>claim_rows := cs\<rparr>) = numbering_inv db"
proof -
  have eq: "find_series sc cd (db\<lparr>claim_rows := cs\<rparr>) = find_series sc cd db" for sc cd by (simp add: find_series_def)
  have "slot_ok (db\<lparr>claim_rows := cs\<rparr>) k = slot_ok db k" for k
    by (rule slot_ok_cong) (simp_all add: issued_def skipped_def)
  then show ?thesis by (simp add: numbering_inv_def receipt_ok_def eq)
qed

text \<open>What a call of \<open>allocate\<close> or \<open>reserve_number\<close> does to the module's tables and to the ledgers.\<close>

lemma allocate_effect:
  assumes "allocate call rows d = (out, d')"
  shows "(app_data d' = app_data d \<and> (\<forall>a. out = Inr a \<longrightarrow> replayed a))
       \<or> (\<exists>res s o1. do_allocate call (app_data d) = Inr (res, s) \<and> app_data d' = s
            \<and> out = allocation_of (al_series_code call) o1 \<and> \<not> out_replayed o1 \<and> out_result o1 = res)"
    and "ledgers_extend d d'"
proof (atomize (full), cases "al_series_code call = [] \<or> al_idempotency_key call = []")
  case True
  with assms show "((app_data d' = app_data d \<and> (\<forall>a. out = Inr a \<longrightarrow> replayed a))
       \<or> (\<exists>res s o1. do_allocate call (app_data d) = Inr (res, s) \<and> app_data d' = s
            \<and> out = allocation_of (al_series_code call) o1 \<and> \<not> out_replayed o1 \<and> out_result o1 = res))
       \<and> ledgers_extend d d'"
    by (auto simp: allocate_def split: if_splits)
next
  case False
  show "((app_data d' = app_data d \<and> (\<forall>a. out = Inr a \<longrightarrow> replayed a))
       \<or> (\<exists>res s o1. do_allocate call (app_data d) = Inr (res, s) \<and> app_data d' = s
            \<and> out = allocation_of (al_series_code call) o1 \<and> \<not> out_replayed o1 \<and> out_result o1 = res))
       \<and> ledgers_extend d d'"
  proof (cases "allocate_fingerprint call (app_data d)")
    case (Inl e)
    with assms False show ?thesis by (auto simp: allocate_def)
  next
    case (Inr fp)
    obtain o2 d2 where r: "run_once (al_scope call) ALLOCATE_SCOPE (al_idempotency_key call)
        (Some (ALLOCATE_SCOPE @ '':'' @ al_series_code call)) fp rows (do_allocate call) d = (o2, d2)" by fastforce
    have out: "out = bindr o2 (allocation_of (al_series_code call))" "d' = d2"
      using assms False Inr r by (auto simp: allocate_def)
    have rep: "replayed a = out_replayed o1" if "allocation_of c o1 = Inr a" for c o1 a
      using that by (auto simp: allocation_of_def Let_def split: option.splits json.splits)
    show ?thesis
      using run_once_effect(1,2) [OF r] rep by (cases o2) (auto simp: out)
  qed
qed

lemma reserve_number_effect:
  assumes "reserve_number call rows d = (out, d')"
  shows "(\<exists>cs. app_data d' = (app_data d)\<lparr>claim_rows := claim_rows (app_data d) @ cs\<rparr>)" and "ledgers_extend d d'"
proof (atomize (full))
  have same: "\<exists>cs. db = db\<lparr>claim_rows := claim_rows db @ cs\<rparr>" for db :: numbering_db
    by (rule exI [of _ "[]"]) simp
  let ?checked = "bindr (ensure (cc_origin (rv_claim call) \<in> {''historical'', ''external''}) (NumberingError ''invalid_claim_origin'')) (\<lambda>_.
           bindr (bounded (rv_idempotency_key call) 255 ''idempotency_key'') (\<lambda>_.
           bindr (require_series (cc_scope (rv_claim call)) (rv_series_code call) (app_data d)) (\<lambda>s.
           bindr (read_series (cc_scope (rv_claim call)) (rv_series_code call) (app_data d)) (\<lambda>definition. case sd_domain definition of
               None \<Rightarrow> Inl (NumberingError ''series_not_enrolled'')
             | Some domain \<Rightarrow> claim_values s domain (rv_claim call)))))"
  show "(\<exists>cs. app_data d' = (app_data d)\<lparr>claim_rows := claim_rows (app_data d) @ cs\<rparr>) \<and> ledgers_extend d d'"
  proof (cases ?checked)
    case (Inl e)
    then have "d' = d" using assms unfolding reserve_number_def Let_def by simp
    then show ?thesis using same by simp
  next
    case (Inr c)
    obtain o2 d2 where r: "run_once (cc_scope (rv_claim call)) RESERVE_SCOPE (rv_idempotency_key call) None
        (fingerprint_of (JObj (claim_fields c))) rows (do_reserve (cc_scope (rv_claim call)) (rv_series_code call) c) d = (o2, d2)"
      by fastforce
    have "d' = d2" using assms Inr r unfolding reserve_number_def Let_def by simp
    from run_once_effect(1) [OF r]
    have "\<exists>cs. app_data d2 = (app_data d)\<lparr>claim_rows := claim_rows (app_data d) @ cs\<rparr>"
    proof
      assume "app_data d2 = app_data d \<and> (\<forall>o1. o2 = Inr o1 \<longrightarrow> out_replayed o1)"
      then show ?thesis using same [of "app_data d"] by simp
    next
      assume "\<exists>res s o1. do_reserve (cc_scope (rv_claim call)) (rv_series_code call) c (app_data d) = Inr (res, s)
        \<and> app_data d2 = s \<and> o2 = Inr o1 \<and> \<not> out_replayed o1 \<and> out_result o1 = res"
      then show ?thesis using do_reserve_Inr by blast
    qed
    with \<open>d' = d2\<close> run_once_effect(2) [OF r] show ?thesis by simp
  qed
qed

lemma numbering_step_extends: "numbering_step d d' \<Longrightarrow> ledgers_extend d d'"
  by (induction rule: numbering_step.induct)
    (auto simp: ledgers_extend_def dest: allocate_effect(2) reserve_number_effect(2) [unfolded ledgers_extend_def]
      allocate_effect(2) [unfolded ledgers_extend_def])

lemma numbering_step_inv: "numbering_step d d' \<Longrightarrow> numbering_inv (app_data d) \<Longrightarrow> numbering_inv (app_data d')"
proof (induction rule: numbering_step.induct)
  case (configured scope c d s)
  then show ?case by (simp add: configure_series_inv)
next
  case (created scope c cd d r s)
  then show ?case by (simp add: create_series_inv)
next
  case (enrolled scope c cd d r s)
  then show ?case by (simp add: enroll_series_inv)
next
  case (repaired call d r s)
  then show ?case by (simp add: advance_to_at_least_inv)
next
  case (allocated call rows d out d')
  then show ?case using allocate_effect(1) [OF allocated.hyps(1)] do_allocate_inv by metis
next
  case (reserved rcall rows d rout d')
  then show ?case using reserve_number_effect(1) [OF reserved.hyps] numbering_inv_claims by metis
qed

lemma numbering_run_inv: "numbering_run d \<Longrightarrow> numbering_inv (app_data d)"
  by (induction rule: numbering_run.induct) (simp_all add: numbering_inv_empty numbering_step_inv)

subsection \<open>Strict identities are kept\<close>

definition sealed :: "Scope \<Rightarrow> string \<Rightarrow> CollisionDomain \<Rightarrow> numbering_db \<Rightarrow> bool" where
  "sealed scope code cd db \<longleftrightarrow> (\<exists>s r. find_series scope code db = Some s \<and> ns_strict s \<and> ns_domain s = Some (domain_code cd)
     \<and> find_row domain_key (scope, domain_code cd) (domain_rows db) = Some r \<and> nd_domain r = cd)"

lemma sealed_same:
  "series_rows db' = series_rows db \<Longrightarrow> domain_rows db' = domain_rows db \<Longrightarrow> sealed scope code cd db' = sealed scope code cd db"
  by (simp add: sealed_def find_series_def)

lemma sealed_read: "sealed scope code cd db \<Longrightarrow> \<exists>def. read_series scope code db = Inr def \<and> sd_domain def = Some cd"
  by (auto simp: sealed_def read_series_def require_series_def domain_of_code_def)

lemma read_sealed:
  assumes "numbering_inv db" and "read_series scope code db = Inr def" and "sd_domain def = Some cd"
  shows "sealed scope code cd db"
proof -
  obtain s where s: "find_series scope code db = Some s" and d: "domain_of_code scope (ns_domain s) db = Inr (Some cd)"
    using assms(2,3) by (auto simp: read_series_def bindr_eq_Inr require_series_Inr)
  have "ns_domain s \<noteq> None \<longrightarrow> ns_strict s"
    using assms(1) find_series_SomeD [OF s] by (auto simp: numbering_inv_def series_ok_def)
  moreover obtain dc r where r: "ns_domain s = Some dc" "find_row domain_key (scope, dc) (domain_rows db) = Some r" "nd_domain r = cd"
    using d by (auto simp: domain_of_code_def split: option.splits)
  moreover have "dc = domain_code cd" using find_row_Some [OF r(2)] r(3) by (simp add: domain_key_def)
  ultimately show ?thesis using s by (simp add: sealed_def)
qed

lemma sealed_update:
  assumes key: "\<And>x. series_key x = k \<Longrightarrow> series_key (f x) = k"
    and keep: "\<And>x. find_series scope code db = Some x \<Longrightarrow> series_key x = k \<Longrightarrow> ns_strict x \<Longrightarrow>
      ns_strict (f x) \<and> ns_domain (f x) = ns_domain x"
    and sealed: "sealed scope code cd db"
  shows "sealed scope code cd (db\<lparr>series_rows := update_rows (\<lambda>x. series_key x = k) f (series_rows db)\<rparr>)"
proof -
  obtain s r where s: "find_series scope code db = Some s" "ns_strict s" "ns_domain s = Some (domain_code cd)"
    and r: "find_row domain_key (scope, domain_code cd) (domain_rows db) = Some r" "nd_domain r = cd"
    using sealed by (auto simp: sealed_def)
  have "find_series scope code (db\<lparr>series_rows := update_rows (\<lambda>x. series_key x = k) f (series_rows db)\<rparr>) =
      Some (if series_key s = k then f s else s)"
    using find_series_update [of k f scope code db, OF key] s(1) by simp
  then show ?thesis using s r keep [OF s(1)] unfolding sealed_def by auto
qed

lemma sealed_configure:
  assumes "configure_series scope0 c db = Inr db'" and "sealed scope code cd db"
  shows "sealed scope code cd db'"
proof (cases "find_series scope0 (series_code c) db")
  case None
  then show ?thesis
    using assms by (auto simp: configure_series_def bindr_eq_Inr sealed_def find_series_append)
next
  case (Some s)
  then have db': "db' = db\<lparr>series_rows := update_rows (\<lambda>x. series_key x = series_key s) (\<lambda>x. x\<lparr>ns_configuration := c\<rparr>) (series_rows db)\<rparr>"
    using assms(1) by (auto simp: configure_series_def bindr_eq_Inr)
  have "series_key s = (scope0, series_code c)" using find_series_SomeD [OF Some] by (simp add: series_key_def)
  then show ?thesis
    unfolding db' by (intro sealed_update [OF _ _ assms(2)]) (simp_all add: series_key_def)
qed

lemma sealed_ensure_domain:
  assumes "ensure_domain scope0 d db = Inr db1" and "sealed scope code cd db"
  shows "sealed scope code cd db1"
proof -
  note dom = ensure_domain_Inr [OF assms(1)]
  obtain s r where "find_series scope code db = Some s" "ns_strict s" "ns_domain s = Some (domain_code cd)"
    "find_row domain_key (scope, domain_code cd) (domain_rows db) = Some r" "nd_domain r = cd"
    using assms(2) by (auto simp: sealed_def)
  then show ?thesis
    using dom find_series_cong [of db1 db scope code] unfolding sealed_def by metis
qed

lemma sealed_create:
  assumes "create_series scope0 c d db = Inr (r, db')" and "sealed scope code cd db"
  shows "sealed scope code cd db'"
proof (cases "find_series scope0 (series_code c) db")
  case (Some s)
  then show ?thesis using assms by (auto simp: create_series_def bindr_eq_Inr split: if_splits)
next
  case None
  define x where "x = \<lparr>ns_scope = scope0, ns_configuration = c, ns_strict = True, ns_domain = Some (domain_code d)\<rparr>"
  obtain db1 where db1: "ensure_domain scope0 d db = Inr db1" and db': "db' = db1\<lparr>series_rows := series_rows db1 @ [x]\<rparr>"
    using assms(1) None by (auto simp: create_series_def bindr_eq_Inr x_def split: if_splits)
  from sealed_ensure_domain [OF db1 assms(2)] show ?thesis
    unfolding sealed_def db' find_series_append by auto
qed

lemma sealed_enroll:
  assumes "enroll_series scope0 c d db = Inr (r, db')" and "sealed scope code cd db"
  shows "sealed scope code cd db'"
proof -
  obtain s st where s: "find_series scope0 (series_code c) db = Some s" and st: "read_series scope0 (series_code c) db = Inr st"
    using assms(1) by (auto simp: enroll_series_def bindr_eq_Inr require_series_Inr split: if_splits)
  show ?thesis
  proof (cases "sd_strict st")
    case True
    then have "db' = db" using assms(1) s st by (auto simp: enroll_series_def bindr_eq_Inr split: if_splits)
    with assms(2) show ?thesis by simp
  next
    case False
    define f where "f = (\<lambda>x :: number_series. x\<lparr>ns_domain := Some (domain_code d), ns_strict := True\<rparr>)"
    obtain db1 where db1: "ensure_domain scope0 d db = Inr db1"
      and db': "db' = db1\<lparr>series_rows := update_rows (\<lambda>x. series_key x = series_key s) f (series_rows db1)\<rparr>"
      using assms(1) False s st by (auto simp: enroll_series_def bindr_eq_Inr f_def require_series_Inr split: if_splits)
    show ?thesis
      unfolding db'
    proof (rule sealed_update [OF _ _ sealed_ensure_domain [OF db1 assms(2)]])
      fix x assume "find_series scope code db1 = Some x" and key: "series_key x = series_key s" and strict: "ns_strict x"
      then have x0: "find_series scope code db = Some x"
        using ensure_domain_Inr [OF db1] find_series_cong [of db1 db scope code] by simp
      have "scope = scope0 \<and> code = series_code c"
        using find_series_SomeD [OF x0] find_series_SomeD [OF s] key by (auto simp: series_key_def)
      then have "x = s" using x0 s by simp
      moreover have "\<not> ns_strict s" using False st s by (auto simp: read_series_def bindr_eq_Inr require_series_Inr)
      ultimately show "ns_strict (f x) \<and> ns_domain (f x) = ns_domain x" using strict by simp
    qed (simp add: series_key_def f_def)
  qed
qed

lemma do_allocate_identity:
  "do_allocate call db = Inr (res, db') \<Longrightarrow> series_rows db' = series_rows db \<and> domain_rows db' = domain_rows db"
  by (erule do_allocate_Inr) simp

lemma advance_identity:
  "advance_to_at_least call db = Inr (r, db') \<Longrightarrow> series_rows db' = series_rows db \<and> domain_rows db' = domain_rows db"
  by (auto simp: advance_to_at_least_def bindr_eq_Inr locked_counter_def Let_def split: option.splits if_splits)

lemma sealed_step: "numbering_step d d' \<Longrightarrow> sealed scope code cd (app_data d) \<Longrightarrow> sealed scope code cd (app_data d')"
proof (induction rule: numbering_step.induct)
  case (configured scope0 c d s)
  then show ?case using sealed_configure by simp
next
  case (created scope0 c cd0 d r s)
  then show ?case using sealed_create by simp
next
  case (enrolled scope0 c cd0 d r s)
  then show ?case using sealed_enroll by simp
next
  case (repaired call d r s)
  then show ?case using sealed_same [of s "app_data d"] advance_identity by simp
next
  case (allocated call rows d out d')
  then show ?case using allocate_effect(1) [OF allocated.hyps(1)] sealed_same do_allocate_identity by metis
next
  case (reserved rcall rows d rout d')
  then obtain cs where "app_data d' = (app_data d)\<lparr>claim_rows := claim_rows (app_data d) @ cs\<rparr>"
    using reserve_number_effect(1) by blast
  then show ?case using sealed_same [of "app_data d'" "app_data d"] reserved by simp
qed

subsection \<open>A series at work\<close>

text \<open>
  A platform series that restarts every year, with a two- or four-digit year, and the
  first allocations from it.  The fingerprint of a request stays symbolic: a fresh key
  only needs its length.
\<close>

definition no_rows :: concurrent_rows where "no_rows = \<lparr>conc = [], pconc = []\<rparr>"

definition sample_series :: "int \<Rightarrow> SeriesConfiguration" where
  "sample_series digits = \<lparr>series_code = ''inv'', prefix = ''INV'', suffix = [], separator = ''-'', min_digits = 4,
     include_year = True, year_digits = digits, include_month = False, reset_policy = ''yearly'', start_value = 1\<rparr>"

definition sample_allocate :: "nat \<Rightarrow> string \<Rightarrow> allocate_call" where
  "sample_allocate y key = \<lparr>al_scope = PlatformScope, al_series_code = ''inv'', al_reference_date = \<lparr>year = y, month = 3, day = 14\<rparr>,
     al_idempotency_key = key, al_allocated_by = None, al_partition_key = None, al_document_reference = None, al_claim_id = 0\<rparr>"

definition sample_configured :: "int \<Rightarrow> numbering_db db" where
  "sample_configured digits = \<lparr>ledger = [], platform_ledger = [],
     app_data = projr (configure_series PlatformScope (sample_series digits) empty_db)\<rparr>"

text \<open>A platform allocation under a fresh key, with no concurrent rows.\<close>

lemma allocate_platform_fresh:
  assumes "al_scope call = PlatformScope" and "al_series_code call \<noteq> []" and "al_idempotency_key call \<noteq> []"
    and "al_partition_key call = None" and "al_document_reference call = None"
    and "validate ALLOCATE_SCOPE (al_idempotency_key call) = Inr ()" and "length (al_series_code call) \<le> 80"
    and "lookup_platform d ALLOCATE_SCOPE (al_idempotency_key call) = None"
  shows "do_allocate call (app_data d) = Inr (res, s) \<Longrightarrow> \<exists>row. allocate call no_rows d =
      (allocation_of (al_series_code call)
         \<lparr>out_scope = ALLOCATE_SCOPE, out_key = al_idempotency_key call, out_result = res, out_replayed = False\<rparr>,
       d\<lparr>app_data := s, platform_ledger := platform_ledger d @ [row]\<rparr>)
      \<and> pr_unique row = (ALLOCATE_SCOPE, al_idempotency_key call)"
    and "do_allocate call (app_data d) = Inl (UniqueViolation x) \<Longrightarrow> x \<notin> set claim_constraints \<Longrightarrow>
      fst (allocate call no_rows d) = Inl (UniqueViolation x)"
proof -
  have key: "(ALLOCATE_SCOPE, al_idempotency_key call) \<notin> pr_unique ` set (platform_ledger d)"
    using assms(8) by (simp add: lookup_platform_def find_row_None)
  have len: "length ALLOCATE_SCOPE = 18" by (simp add: ALLOCATE_SCOPE_def)
  have klen: "length (al_idempotency_key call) \<le> 200"
    using assms(6) by (simp add: validate_def MAX_KEY_LENGTH_def split: if_splits)
  obtain fp where fp: "allocate_fingerprint call (app_data d) = Inr fp" "length fp = 64"
    using assms(4,5) by (simp add: allocate_fingerprint_def)
  note evals = allocate_def run_once_def execute_once_platform_def platform_savepoint_body_def as_operation_def module_operation_def is_violation_def no_rows_def
    commit_concurrent_platform_def new_platform_record_def pr_unique_def columns_fit_def fits_def name_or_scope_def
  show "do_allocate call (app_data d) = Inr (res, s) \<Longrightarrow> \<exists>row. allocate call no_rows d =
      (allocation_of (al_series_code call)
         \<lparr>out_scope = ALLOCATE_SCOPE, out_key = al_idempotency_key call, out_result = res, out_replayed = False\<rparr>,
       d\<lparr>app_data := s, platform_ledger := platform_ledger d @ [row]\<rparr>)
      \<and> pr_unique row = (ALLOCATE_SCOPE, al_idempotency_key call)"
    using assms fp key len klen by (auto simp: evals Let_def)
  show "do_allocate call (app_data d) = Inl (UniqueViolation x) \<Longrightarrow> x \<notin> set claim_constraints \<Longrightarrow>
      fst (allocate call no_rows d) = Inl (UniqueViolation x)"
    using assms fp key len klen by (simp add: evals Let_def escaping_error_def)
qed

lemma sample_configured_run:
  assumes "digits = 2 \<or> digits = 4"
  shows "numbering_run (sample_configured digits)"
proof -
  have "\<not> isl (configure_series PlatformScope (sample_series digits) empty_db)"
    using assms by (elim disjE; hypsubst; code_simp)
  then have "numbering_step \<lparr>ledger = [], platform_ledger = [], app_data = empty_db\<rparr> (sample_configured digits)"
    using numbering_step.configured [of PlatformScope "sample_series digits" "\<lparr>ledger = [], platform_ledger = [], app_data = empty_db\<rparr>"]
    by (cases "configure_series PlatformScope (sample_series digits) empty_db") (auto simp: sample_configured_def)
  then show ?thesis by (rule numbering_run.step [rotated]) (simp add: numbering_run.start)
qed

definition sample_first :: "int \<Rightarrow> numbering_db db" where
  "sample_first digits = snd (allocate (sample_allocate 26 ''k1'') no_rows (sample_configured digits))"

lemma sample_first:
  assumes "digits = 2 \<or> digits = 4"
  shows "numbering_run (sample_first digits)"
    and "\<exists>a. allocate (sample_allocate 26 ''k1'') no_rows (sample_configured digits) = (Inr a, sample_first digits) \<and> \<not> replayed a"
    and "app_data (sample_first digits) = snd (projr (do_allocate (sample_allocate 26 ''k1'') (app_data (sample_configured digits))))"
    and "map pr_unique (platform_ledger (sample_first digits)) = [(ALLOCATE_SCOPE, ''k1'')]"
proof -
  let ?call = "sample_allocate 26 ''k1''" and ?d = "sample_configured digits"
  obtain res s where run: "do_allocate ?call (app_data ?d) = Inr (res, s)"
    and res: "\<not> isl (allocation_of ''inv'' \<lparr>out_scope = ALLOCATE_SCOPE, out_key = ''k1'', out_result = res, out_replayed = False\<rparr>)"
  proof -
    have "\<not> isl (do_allocate ?call (app_data ?d))"
      and "\<not> isl (allocation_of ''inv'' \<lparr>out_scope = ALLOCATE_SCOPE, out_key = ''k1'',
        out_result = fst (projr (do_allocate ?call (app_data ?d))), out_replayed = False\<rparr>)"
      using assms by (elim disjE; hypsubst; code_simp)+
    then show thesis using that by (cases "do_allocate ?call (app_data ?d)") auto
  qed
  have call: "al_scope ?call = PlatformScope" "al_series_code ?call = ''inv''" "al_idempotency_key ?call = ''k1''"
    "al_partition_key ?call = None" "al_document_reference ?call = None"
    by (simp_all add: sample_allocate_def)
  have valid: "validate ALLOCATE_SCOPE ''k1'' = Inr ()" by code_simp
  obtain row where step: "allocate ?call no_rows ?d = (allocation_of ''inv''
        \<lparr>out_scope = ALLOCATE_SCOPE, out_key = ''k1'', out_result = res, out_replayed = False\<rparr>,
        ?d\<lparr>app_data := s, platform_ledger := platform_ledger ?d @ [row]\<rparr>)" and row: "pr_unique row = (ALLOCATE_SCOPE, ''k1'')"
    using allocate_platform_fresh(1) [of ?call ?d, OF _ _ _ _ _ _ _ _ run] call valid
    by (auto simp: lookup_platform_def sample_configured_def find_row_def)
  show run': "\<exists>a. allocate ?call no_rows ?d = (Inr a, sample_first digits) \<and> \<not> replayed a"
    using step res
    by (cases "allocation_of ''inv'' \<lparr>out_scope = ALLOCATE_SCOPE, out_key = ''k1'', out_result = res, out_replayed = False\<rparr>")
      (auto simp: sample_first_def allocation_of_def Let_def split: option.splits json.splits)
  show "app_data (sample_first digits) = snd (projr (do_allocate ?call (app_data ?d)))"
    "map pr_unique (platform_ledger (sample_first digits)) = [(ALLOCATE_SCOPE, ''k1'')]"
    using step run row by (simp_all add: sample_first_def sample_configured_def)
  have "valid_date (al_reference_date ?call)" by (simp add: sample_allocate_def valid_date_def)
  then show "numbering_run (sample_first digits)"
    using run' numbering_run.step [OF sample_configured_run [OF assms]] numbering_step.allocated by blast
qed

subsection \<open>Properties\<close>

lemma slot_value_unissued:
  assumes "numbering_inv db" and "find_series sc cd db = Some s"
  shows "slot_value s period db \<notin> issued (sc, cd, period) db"
proof -
  have "slot_ok db (sc, cd, period)" using assms(1) unfolding numbering_inv_def by blast
  moreover have "slot_value s period db = (case find_row counter_key (sc, cd, period) (counter_rows db) of
      Some c \<Rightarrow> sc_next_value c | None \<Rightarrow> start_value (ns_configuration s))"
    using find_series_SomeD [OF assms(2)] by (simp add: slot_value_def find_counter_def)
  ultimately show ?thesis by (auto simp: slot_ok_def split: option.splits)
qed

lemma insert_claim_violation: "insert_claim c db = Inl (UniqueViolation x) \<Longrightarrow> x \<in> set claim_constraints"
  by (auto simp: insert_claim_def claim_constraints_def split: if_splits)

lemma claim_values_no_violation: "claim_values s d c \<noteq> Inl (UniqueViolation x)"
  by (auto simp: claim_values_def domain_partition_key_def validate_domain_def bounded_option_def bounded_def bindr_eq_Inl
      split: option.splits if_splits)

lemma do_allocate_violation:
  assumes inv: "numbering_inv db" and s: "find_series (al_scope call) (al_series_code call) db = Some s"
    and full: "year_tells_period (ns_configuration s)" and date: "valid_date (al_reference_date call)"
    and run: "do_allocate call db = Inl (UniqueViolation x)"
  shows "x \<in> set claim_constraints"
proof (rule ccontr)
  assume no: "x \<notin> set claim_constraints"
  have at: "ns_scope s = al_scope call" "series_code (ns_configuration s) = al_series_code call" "series_ok s"
    using find_series_SomeD [OF s] inv by (simp_all add: numbering_inv_def)
  have cfg: "validate_configuration (ns_configuration s) = Inr ()" using at(3) by (simp add: series_ok_def)
  then obtain period where p: "period_for (al_reference_date call) (reset_policy (ns_configuration s)) = Inr period"
    using period_for_total by (auto simp: validate_configuration_Inr)
  obtain c db1 where lc: "locked_counter (al_scope call) s period db = (c, db1)" by fastforce
  note lp = locked_counter_props [OF lc at(1)]
  define v where "v = slot_value s period db"
  have v1: "1 \<le> v" using slot_start(2) [OF inv s] by (simp add: v_def)
  obtain number where f: "format_number (ns_configuration s) v (al_reference_date call) = Inr number"
    using v1 by (simp add: format_number_def)
  define r where "r = \<lparr>ar_scope = al_scope call, ar_series = al_series_code call, ar_period = period,
        ar_value = v, ar_number = number, ar_date = al_reference_date call, ar_key = al_idempotency_key call,
        ar_allocated_by = al_allocated_by call\<rparr>"
  have claim: "allocation_claim call s number db1 \<noteq> Inl (UniqueViolation x)"
    using no insert_claim_violation claim_values_no_violation
    by (auto simp: allocation_claim_def domain_of_code_def bindr_eq_Inl split: option.splits if_splits)
  obtain db2 where cl: "allocation_claim call s number db1 = Inr db2"
    and ins: "insert_receipt r (set_next_value c (v + 1) db2) = Inl (UniqueViolation x)"
    using run s p lc lp(2) f claim
    by (auto simp: do_allocate_def require_series_Inr bindr_eq_Inl bindr_eq_Inr Let_def r_def v_def require_series_def
        split: if_splits)
  obtain cs where "db2 = db1\<lparr>claim_rows := claim_rows db1 @ cs\<rparr>" using allocation_claim_Inr [OF cl] by blast
  then have rows: "receipt_rows (set_next_value c (v + 1) db2) = receipt_rows db" using lp by simp
  have fresh: False if "r0 \<in> set (receipt_rows db)" "receipt_slot r0 = receipt_slot r" "ar_value r0 = v" for r0
  proof -
    have "v \<in> issued (al_scope call, al_series_code call, period) db"
      using that by (force simp: issued_def r_def receipt_slot_def)
    then show False using slot_value_unissued [OF inv s] by (simp add: v_def)
  qed
  have "receipt_value_key r \<notin> set (map receipt_value_key (receipt_rows db))"
  proof
    assume "receipt_value_key r \<in> set (map receipt_value_key (receipt_rows db))"
    then obtain r0 where r0: "r0 \<in> set (receipt_rows db)" "receipt_value_key r0 = receipt_value_key r" by auto
    then show False using fresh [OF r0(1)] by (simp add: receipt_value_key_def receipt_slot_def r_def)
  qed
  moreover have "receipt_number_key r \<notin> set (map receipt_number_key (receipt_rows db))"
  proof
    assume "receipt_number_key r \<in> set (map receipt_number_key (receipt_rows db))"
    then obtain r0 where r0: "r0 \<in> set (receipt_rows db)" "ar_scope r0 = al_scope call" "ar_series r0 = al_series_code call"
      "ar_number r0 = number" by (auto simp: receipt_number_key_def r_def)
    have "receipt_ok db r0" using inv r0(1) by (simp add: numbering_inv_def)
    then have ok: "valid_date (ar_date r0)" "1 \<le> ar_value r0"
      "period_for (ar_date r0) (reset_policy (ns_configuration s)) = Inr (ar_period r0)"
      "format_number (ns_configuration s) (ar_value r0) (ar_date r0) = Inr number"
      using r0 s by (auto simp: receipt_ok_def)
    have "ar_value r0 = v \<and> Inr (ar_period r0) = (Inr period :: numbering_error + string)"
      using same_number_same_slot [OF cfg full ok(1) date ok(2) v1] ok(3,4) f p by simp
    then show False using fresh [OF r0(1)] r0 by (simp add: receipt_slot_def r_def)
  qed
  ultimately have "insert_receipt r (set_next_value c (v + 1) db2) \<noteq> Inl (UniqueViolation x)"
    unfolding insert_receipt_def rows by simp
  with ins show False by simp
qed



text \<open>
  With two-digit years a yearly series does reissue a number a century later, and only
  the unique constraint of the receipts stops it, although the configuration was
  accepted as coherent.
\<close>

lemma two_digit_years_collide:
  "numbering_run (sample_first 2)
   \<and> fst (allocate (sample_allocate 126 ''k2'') no_rows (sample_first 2)) = Inl (UniqueViolation ''uq_allocation_receipts_rendered'')"
proof -
  note first = sample_first [of 2]
  have run: "do_allocate (sample_allocate 126 ''k2'') (app_data (sample_first 2)) = Inl (UniqueViolation ''uq_allocation_receipts_rendered'')"
    unfolding first(3) [OF disjI1 [OF refl]] by code_simp
  have "validate ALLOCATE_SCOPE ''k2'' = Inr ()" "''uq_allocation_receipts_rendered'' \<notin> set claim_constraints" by code_simp+
  moreover have "lookup_platform (sample_first 2) ALLOCATE_SCOPE ''k2'' = None"
    using first(4) by (auto simp: lookup_platform_def find_row_None dest: arg_cong [where f = set])
  ultimately show ?thesis
    using first(1) allocate_platform_fresh(2) [OF _ _ _ _ _ _ _ _ run] by (simp add: sample_allocate_def)
qed

text \<open>
  C12. Counters have no gaps.  In every reachable state the values of a period that
  were issued and those a recorded repair skipped are disjoint, and together they are
  exactly the values from the one the counter started at up to its next value.
\<close>

theorem numbers_gapless:
  assumes "numbering_run d" and "find_counter scope code period (app_data d) = Some c"
  shows "issued (scope, code, period) (app_data d) \<inter> skipped (scope, code, period) (app_data d) = {}
    \<and> (\<exists>v0. 1 \<le> v0 \<and> v0 \<le> sc_next_value c
         \<and> issued (scope, code, period) (app_data d) \<union> skipped (scope, code, period) (app_data d) = {v0 ..< sc_next_value c})
    \<and> distinct (map receipt_value_key (receipt_rows (app_data d)))"
proof -
  have "slot_ok (app_data d) (scope, code, period)" "distinct (map receipt_value_key (receipt_rows (app_data d)))"
    using numbering_run_inv [OF assms(1)] unfolding numbering_inv_def by blast+
  then show ?thesis using assms(2) by (simp add: slot_ok_def find_counter_def)
qed

theorem numbers_gapless_witness:
  "\<exists>d. numbering_run d \<and> issued (PlatformScope, ''inv'', ''0026'') (app_data d) = {1..<2}"
proof -
  note first = sample_first [of 4]
  define db where "db = snd (projr (do_allocate (sample_allocate 26 ''k1'') (app_data (sample_configured 4))))"
  have db: "app_data (sample_first 4) = db" using first(3) by (simp add: db_def)
  define c where "c = the (find_counter PlatformScope ''inv'' ''0026'' db)"
  have c: "find_counter PlatformScope ''inv'' ''0026'' (app_data (sample_first 4)) = Some c"
    unfolding db c_def db_def by (rule Some_the) code_simp
  have vals: "sc_next_value c = 2" "map receipt_slot (receipt_rows db) = [(PlatformScope, ''inv'', ''0026'')]"
    "map ar_value (receipt_rows db) = [1]" "repair_rows db = []"
    unfolding c_def db_def by code_simp+
  have "issued (PlatformScope, ''inv'', ''0026'') (app_data (sample_first 4)) \<noteq> {}"
    "skipped (PlatformScope, ''inv'', ''0026'') (app_data (sample_first 4)) = {}"
    using vals(2,4) by (auto simp: db issued_def skipped_def map_eq_Cons_conv)
  with numbers_gapless [OF _ c] first(1) vals(1) show ?thesis
    by (intro exI [of _ "sample_first 4"]) (fastforce simp: atLeastLessThan_empty_iff)
qed

lemma steps_extend: "numbering_step\<^sup>*\<^sup>* d d' \<Longrightarrow> ledgers_extend d d'"
  by (induction rule: rtranclp_induct) (auto intro: ledgers_extend_trans numbering_step_extends)

lemma sealed_steps: "numbering_step\<^sup>*\<^sup>* d d' \<Longrightarrow> sealed scope code cd (app_data d) \<Longrightarrow> sealed scope code cd (app_data d')"
  by (induction rule: rtranclp_induct) (auto intro: sealed_step)

lemma allocate_fingerprint_kept:
  assumes "numbering_inv (app_data d)" and "numbering_step\<^sup>*\<^sup>* d d'" and fp: "allocate_fingerprint call (app_data d) = Inr fp"
  shows "allocate_fingerprint call (app_data d') = Inr fp"
proof (cases "al_partition_key call = None \<and> al_document_reference call = None")
  case True
  with fp show ?thesis by (simp add: allocate_fingerprint_def)
next
  case False
  then obtain def cd where read: "read_series (al_scope call) (al_series_code call) (app_data d) = Inr def" "sd_domain def = Some cd"
    using fp by (auto simp: allocate_fingerprint_def Let_def bindr_eq_Inr split: option.splits)
  obtain def' where "read_series (al_scope call) (al_series_code call) (app_data d') = Inr def'" "sd_domain def' = Some cd"
    using sealed_read [OF sealed_steps [OF assms(2) read_sealed [OF assms(1) read]]] by blast
  with False read fp show ?thesis
    by (cases "al_partition_key call"; cases "al_document_reference call") (simp_all add: allocate_fingerprint_def Let_def)
qed

text \<open>
  C33. A retry gets the number it was given.  Once a call of \<open>allocate\<close> has answered,
  the same call made again, after any further operations of the module and whatever
  else was written to the ledgers, answers with the same allocation, marked as
  replayed, and changes nothing.
\<close>

theorem allocate_retry_replays:
  assumes "numbering_run d" and "valid_date (al_reference_date call)"
    and "allocate call rows d = (Inr a, d1)" and "numbering_step\<^sup>*\<^sup>* d1 d2"
  shows "allocate call rows' d2 = (Inr (a\<lparr>replayed := True\<rparr>), d2)"
proof -
  have ne: "al_series_code call \<noteq> []" "al_idempotency_key call \<noteq> []" using assms(3) by (auto simp: allocate_def split: if_splits)
  obtain fp where fp: "allocate_fingerprint call (app_data d) = Inr fp"
    using assms(3) ne by (cases "allocate_fingerprint call (app_data d)") (simp_all add: allocate_def)
  let ?run = "\<lambda>rows d. run_once (al_scope call) ALLOCATE_SCOPE (al_idempotency_key call)
        (Some (ALLOCATE_SCOPE @ '':'' @ al_series_code call)) fp rows (do_allocate call) d"
  obtain o1 where o1: "?run rows d = (Inr o1, d1)" "allocation_of (al_series_code call) o1 = Inr a"
    using assms(3) ne fp by (cases "?run rows d") (auto simp: allocate_def bindr_eq_Inr)
  obtain fp0 where valid: "validate ALLOCATE_SCOPE (al_idempotency_key call) = Inr ()"
    and row: "once_row (al_scope call) ALLOCATE_SCOPE (al_idempotency_key call) d1 = Some (fp0, out_result o1)"
    and fp0: "fp0 = None \<or> fp0 = Some fp"
    using run_once_effect(3) [OF o1(1), of o1] by blast
  have d: "numbering_step\<^sup>*\<^sup>* d d2"
    using numbering_step.allocated [OF assms(3,2)] assms(4) by (rule converse_rtranclp_into_rtranclp)
  have fp2: "allocate_fingerprint call (app_data d2) = Inr fp"
    by (rule allocate_fingerprint_kept [OF numbering_run_inv [OF assms(1)] d fp])
  have "?run rows' d2 = (Inr \<lparr>out_scope = ALLOCATE_SCOPE, out_key = al_idempotency_key call, out_result = out_result o1,
      out_replayed = True\<rparr>, d2)"
    by (rule run_once_replays [OF once_row_stays [OF steps_extend [OF assms(4)] row] fp0 valid])
  moreover have "allocation_of code \<lparr>out_scope = x, out_key = y, out_result = out_result o1, out_replayed = True\<rparr> = Inr (b\<lparr>replayed := True\<rparr>)"
    if "allocation_of code o1 = Inr b" for code x y b
    using that by (auto simp: allocation_of_def Let_def split: option.splits json.splits)
  ultimately show ?thesis using ne fp2 o1(2) by (simp add: allocate_def)
qed

theorem allocate_retry_replays_witness:
  "\<exists>d a d1 d2. numbering_run d \<and> allocate (sample_allocate 26 ''k1'') no_rows d = (Inr a, d1) \<and> \<not> replayed a
     \<and> numbering_step d1 d2 \<and> allocate (sample_allocate 26 ''k1'') no_rows d2 = (Inr (a\<lparr>replayed := True\<rparr>), d2)"
proof -
  let ?d1 = "sample_first 4"
  obtain a where a: "allocate (sample_allocate 26 ''k1'') no_rows (sample_configured 4) = (Inr a, ?d1)" "\<not> replayed a"
    using sample_first(2) [of 4] by blast
  have date: "valid_date (al_reference_date (sample_allocate y k))" if "1 \<le> y" "y \<le> 9999" for y k
    using that by (simp add: sample_allocate_def valid_date_def)
  obtain out d2 where d2: "allocate (sample_allocate 27 ''k2'') no_rows ?d1 = (out, d2)" by fastforce
  have "numbering_step ?d1 d2" using numbering_step.allocated [OF d2] date by simp
  moreover from this have "allocate (sample_allocate 26 ''k1'') no_rows d2 = (Inr (a\<lparr>replayed := True\<rparr>), d2)"
    by (intro allocate_retry_replays [OF sample_configured_run date a(1) r_into_rtranclp]) simp_all
  ultimately show ?thesis using a sample_configured_run [of 4] by blast
qed

end
