(* ===== verification/Accounting_Contracts.thy ===== *)
theory Accounting_Contracts
  imports Fingerprints Py_Decimal Idempotency
begin

text \<open>
  The vocabulary of \<^verbatim>\<open>dotmac-accounting\<close> (\<^verbatim>\<open>contracts.py\<close>): refusals, statuses, commands, how a
  command is normalised and which JSON payload its fingerprint covers.  Amounts and
  rates are finite decimals.
\<close>

datatype accounting_error =
    AccountingError string
  | NotFound string
  | Conflict string
  | InvalidAccount string
  | InvalidPeriod string
  | InvalidDimension string
  | InvalidJournal string
  | InvalidTransition string
  | ValueError string
  | InvalidOperation
  | IntegrityViolation string
  | NumericOverflow
  | LedgerRefusal string
  | KeyError string

datatype AccountClass = ASSET | LIABILITY | EQUITY | REVENUE | EXPENSE | OTHER_COMPREHENSIVE_INCOME

datatype AccountKind = CONTROL | POSTING | STATISTICAL

datatype NormalBalance = DEBIT | CREDIT

datatype PeriodStatus = FUTURE | OPEN | SOFT_CLOSED | REOPENED | LOCKED

datatype JournalKind = STANDARD | ADJUSTMENT | CLOSING | OPENING | REVERSAL

datatype JournalStatus = DRAFT | POSTED | REVERSED | VOID

definition journal_kind_value :: "JournalKind \<Rightarrow> string" where
  "journal_kind_value k = (case k of STANDARD \<Rightarrow> ''STANDARD'' | ADJUSTMENT \<Rightarrow> ''ADJUSTMENT''
     | CLOSING \<Rightarrow> ''CLOSING'' | OPENING \<Rightarrow> ''OPENING'' | REVERSAL \<Rightarrow> ''REVERSAL'')"

definition period_status_value :: "PeriodStatus \<Rightarrow> string" where
  "period_status_value s = (case s of FUTURE \<Rightarrow> ''FUTURE'' | OPEN \<Rightarrow> ''OPEN'' | SOFT_CLOSED \<Rightarrow> ''SOFT_CLOSED''
     | REOPENED \<Rightarrow> ''REOPENED'' | LOCKED \<Rightarrow> ''LOCKED'')"

lemma period_status_value_inj [simp]: "period_status_value s = period_status_value t \<longleftrightarrow> s = t"
  by (cases s; cases t) (simp_all add: period_status_value_def)

subsection \<open>Normalised text\<close>

definition to_lower :: "char \<Rightarrow> char" where
  "to_lower c = (if is_upper c then char_of ((of_char c :: nat) + 32) else c)"

text \<open>\<open>refusal\<close> is the class of the exception: the contracts and the service have a copy each.\<close>

definition required_text ::
    "(string \<Rightarrow> accounting_error) \<Rightarrow> string \<Rightarrow> string \<Rightarrow> nat \<Rightarrow> accounting_error + string" where
  "required_text refusal v label maximum =
     (let normalized = strip v in
      if normalized = [] then Inl (refusal (label @ '' is required''))
      else if length normalized > maximum
      then Inl (refusal (label @ '' must be at most '' @ nat_str maximum @ '' characters''))
      else Inr normalized)"

definition required :: "string \<Rightarrow> string \<Rightarrow> nat \<Rightarrow> accounting_error + string" where
  "required v label maximum = required_text AccountingError v label maximum"

definition code :: "string \<Rightarrow> string \<Rightarrow> nat \<Rightarrow> accounting_error + string" where
  "code v label maximum = bindr (required v label maximum) (\<lambda>s. Inr (map to_upper s))"

definition currency :: "string \<Rightarrow> accounting_error + string" where
  "currency v = bindr (code v ''currency code'' 3) (\<lambda>c.
     if length c \<noteq> 3 then Inl (AccountingError ''currency code must be exactly three characters'') else Inr c)"

definition fingerprint :: "string \<Rightarrow> accounting_error + string" where
  "fingerprint v = (let f = map to_lower (strip v) in
     if length f \<noteq> 64 \<or> \<not> list_all hex_lower f
     then Inl (AccountingError ''source fingerprint must be a 64-character SHA-256'') else Inr f)"

lemma required_text_Inr:
  "required_text refusal v label maximum = Inr s \<Longrightarrow> s = strip v \<and> s \<noteq> [] \<and> length s \<le> maximum"
  by (auto simp: required_text_def Let_def split: if_splits)

lemma code_Inr: "code v label maximum = Inr s \<Longrightarrow> s \<noteq> [] \<and> length s \<le> maximum"
  by (auto simp: code_def required_def bindr_eq_Inr dest!: required_text_Inr)

lemma currency_Inr: "currency v = Inr c \<Longrightarrow> length c = 3"
  by (auto simp: currency_def bindr_eq_Inr split: if_splits)

text \<open>\<^verbatim>\<open>str(d)\<close> of a finite decimal: scientific when the exponent is positive or the number small.\<close>

definition dec_str :: "dec \<Rightarrow> string" where
  "dec_str d = (let digits = nat_str (nat \<bar>coef d\<bar>); n = int (length digits); leftdigits = dexp d + n;
     dotplace = (if dexp d \<le> 0 \<and> leftdigits > - 6 then leftdigits else 1);
     intpart = (if dotplace \<le> 0 then ''0'' else if dotplace \<ge> n then digits @ replicate (nat (dotplace - n)) CHR ''0''
                else take (nat dotplace) digits);
     fracpart = (if dotplace \<le> 0 then CHR ''.'' # replicate (nat (- dotplace)) CHR ''0'' @ digits
                 else if dotplace \<ge> n then [] else CHR ''.'' # drop (nat dotplace) digits);
     expo = (if leftdigits = dotplace then []
             else CHR ''E'' # (if leftdigits > dotplace then ''+'' else []) @ int_str (leftdigits - dotplace))
   in (if coef d < 0 then ''-'' else []) @ intpart @ fracpart @ expo)"

definition dec_zero :: dec where "dec_zero = Dec 0 0"

definition json_option :: "string option \<Rightarrow> json" where
  "json_option x = (case x of None \<Rightarrow> JNull | Some s \<Rightarrow> JStr s)"

subsection \<open>Sources\<close>

record SourceIdentity =
  src_owner :: string
  src_document_kind :: string
  src_document_id :: string
  src_version :: string
  src_fingerprint :: string

definition normalized_source :: "SourceIdentity \<Rightarrow> accounting_error + SourceIdentity" where
  "normalized_source s =
     bindr (required (src_owner s) ''source owner'' 120) (\<lambda>owner.
     bindr (required (src_document_kind s) ''source document kind'' 80) (\<lambda>kind.
     bindr (required (src_document_id s) ''source document id'' 255) (\<lambda>document.
     bindr (required (src_version s) ''source version'' 120) (\<lambda>version.
     bindr (fingerprint (src_fingerprint s)) (\<lambda>f.
     Inr \<lparr>src_owner = owner, src_document_kind = kind, src_document_id = document, src_version = version,
          src_fingerprint = f\<rparr>)))))"

definition source_payload :: "SourceIdentity \<Rightarrow> json" where
  "source_payload v = JObj [(''owner'', JStr (src_owner v)), (''document_kind'', JStr (src_document_kind v)),
     (''document_id'', JStr (src_document_id v)), (''version'', JStr (src_version v)),
     (''fingerprint'', JStr (src_fingerprint v))]"

subsection \<open>Commands\<close>

record CreateAccountCategory =
  cac_code :: string
  cac_name :: string
  cac_account_class :: AccountClass
  cac_description :: "string option"
  cac_parent_id :: "uuid option"

record CreateAccount =
  ca_code :: string
  ca_name :: string
  ca_category_id :: uuid
  ca_kind :: AccountKind
  ca_normal_balance :: NormalBalance
  ca_description :: "string option"
  ca_parent_id :: "uuid option"
  ca_currency_code :: "string option"
  ca_posting_allowed :: bool

record CreateFiscalYear =
  cfy_code :: string
  cfy_name :: string
  cfy_start_date :: date
  cfy_end_date :: date

record CreateFiscalPeriod =
  cfp_fiscal_year_id :: uuid
  cfp_period_number :: int
  cfp_name :: string
  cfp_start_date :: date
  cfp_end_date :: date
  cfp_is_adjustment :: bool

record CreateDimension =
  cd_code :: string
  cd_name :: string
  cd_description :: "string option"

record CreateDimensionValue =
  cdv_dimension_id :: uuid
  cdv_code :: string
  cdv_name :: string
  cdv_parent_id :: "uuid option"

record JournalLineInput =
  li_account_id :: uuid
  li_debit :: dec
  li_credit :: dec
  li_description :: "string option"
  li_dimension_value_ids :: "uuid list"

definition validate_line :: "JournalLineInput \<Rightarrow> accounting_error + unit" where
  "validate_line l =
     (if dec_less (li_debit l) dec_zero \<or> dec_less (li_credit l) dec_zero
      then Inl (InvalidJournal ''journal amounts cannot be negative'')
      else if dec_less dec_zero (li_debit l) = dec_less dec_zero (li_credit l)
      then Inl (InvalidJournal ''each journal line must carry an amount on one side'')
      else if \<not> distinct (li_dimension_value_ids l)
      then Inl (InvalidDimension ''a journal line cannot repeat a dimension value'')
      else Inr ())"

definition line_payload :: "JournalLineInput \<Rightarrow> json" where
  "line_payload l = JObj [(''account_id'', JStr (uuid_str (li_account_id l))), (''debit'', JStr (dec_str (li_debit l))),
     (''credit'', JStr (dec_str (li_credit l))), (''description'', json_option (li_description l)),
     (''dimension_value_ids'', JList (map JStr (sort (map uuid_str (li_dimension_value_ids l)))))]"

record CreateJournal =
  cj_number :: string
  cj_kind :: JournalKind
  cj_entry_date :: date
  cj_posting_date :: date
  cj_currency_code :: string
  cj_exchange_rate :: dec
  cj_description :: string
  cj_source :: SourceIdentity
  cj_lines :: "JournalLineInput list"
  cj_reference :: "string option"

text \<open>The entries of the payload that the service reads back, and the payload itself.\<close>

record journal_payload =
  jp_number :: string
  jp_currency_code :: string
  jp_description :: string
  jp_reference :: "string option"
  jp_source :: SourceIdentity
  jp_json :: json

definition journal_fingerprint_payload :: "CreateJournal \<Rightarrow> accounting_error + journal_payload" where
  "journal_fingerprint_payload c =
     bindr (case cj_reference c of None \<Rightarrow> Inr None
            | Some r \<Rightarrow> bindr (required r ''journal reference'' 255) (\<lambda>x. Inr (Some x))) (\<lambda>reference.
     bindr (code (cj_number c) ''journal number'' 50) (\<lambda>number.
     bindr (currency (cj_currency_code c)) (\<lambda>cur.
     bindr (required (cj_description c) ''description'' 2000) (\<lambda>description.
     bindr (normalized_source (cj_source c)) (\<lambda>source.
     Inr \<lparr>jp_number = number, jp_currency_code = cur, jp_description = description, jp_reference = reference,
       jp_source = source,
       jp_json = JObj [(''number'', JStr number), (''kind'', JStr (journal_kind_value (cj_kind c))),
         (''entry_date'', JStr (date_isoformat (cj_entry_date c))),
         (''posting_date'', JStr (date_isoformat (cj_posting_date c))),
         (''currency_code'', JStr cur), (''exchange_rate'', JStr (dec_str (cj_exchange_rate c))),
         (''description'', JStr description), (''reference'', json_option reference),
         (''source'', source_payload source), (''lines'', JList (map line_payload (cj_lines c)))]\<rparr>)))))"

record ReverseJournal =
  rj_journal_id :: uuid
  rj_number :: string
  rj_posting_date :: date
  rj_reason :: string
  rj_approval_reference :: string
  rj_reversed_by :: string
  rj_reopen_token :: "uuid option"

record reversal_payload =
  rp_number :: string
  rp_reason :: string
  rp_approval_reference :: string
  rp_reversed_by :: string
  rp_json :: json

definition reversal_fingerprint_payload :: "ReverseJournal \<Rightarrow> accounting_error + reversal_payload" where
  "reversal_fingerprint_payload c =
     bindr (code (rj_number c) ''reversal number'' 50) (\<lambda>number.
     bindr (required (rj_reason c) ''reversal reason'' 2000) (\<lambda>reason.
     bindr (required (rj_approval_reference c) ''approval reference'' 255) (\<lambda>approval.
     bindr (required (rj_reversed_by c) ''reversed by'' 255) (\<lambda>actor.
     Inr \<lparr>rp_number = number, rp_reason = reason, rp_approval_reference = approval, rp_reversed_by = actor,
       rp_json = JObj [(''journal_id'', JStr (uuid_str (rj_journal_id c))), (''number'', JStr number),
         (''posting_date'', JStr (date_isoformat (rj_posting_date c))), (''reason'', JStr reason),
         (''approval_reference'', JStr approval), (''reversed_by'', JStr actor),
         (''reopen_token'', json_option (map_option uuid_str (rj_reopen_token c)))]\<rparr>))))"

subsection \<open>Close evidence\<close>

record CloseCheck =
  cc_code :: string
  cc_passed :: bool
  cc_evidence_reference :: string
  cc_fingerprint :: string

definition close_check_payload :: "CloseCheck \<Rightarrow> accounting_error + CloseCheck" where
  "close_check_payload c =
     bindr (code (cc_code c) ''close check code'' 80) (\<lambda>k.
     bindr (required (cc_evidence_reference c) ''close check evidence'' 255) (\<lambda>r.
     bindr (fingerprint (cc_fingerprint c)) (\<lambda>f.
     Inr \<lparr>cc_code = k, cc_passed = cc_passed c, cc_evidence_reference = r, cc_fingerprint = f\<rparr>)))"

definition close_check_json :: "CloseCheck \<Rightarrow> json" where
  "close_check_json c = JObj [(''code'', JStr (cc_code c)), (''passed'', JBool (cc_passed c)),
     (''evidence_reference'', JStr (cc_evidence_reference c)), (''fingerprint'', JStr (cc_fingerprint c))]"

definition close_evidence_payload :: "CloseCheck list \<Rightarrow> accounting_error + json" where
  "close_evidence_payload checks =
     (if checks = [] then Inl (InvalidPeriod ''period close requires at least one close check'')
      else bindr (map_result close_check_payload checks) (\<lambda>payload.
        let failed = map cc_code (filter (\<lambda>c. \<not> cc_passed c) payload) in
        if failed \<noteq> [] then Inl (InvalidPeriod (''period close checks failed: '' @ join '', '' failed))
        else if \<not> distinct (map cc_code payload) then Inl (InvalidPeriod ''period close check codes must be unique'')
        else Inr (JObj [(''checks'', JList (map close_check_json payload))])))"

end
