(* ===== verification/Accounting.thy ===== *)
theory Accounting
  imports Accounting_Contracts Ledgered
begin

text \<open>
  The accounting module over its tables (\<^verbatim>\<open>dotmac-accounting\<close>: \<^verbatim>\<open>models.py\<close>, \<^verbatim>\<open>service.py\<close> and the
  triggers of its migrations): the chart of accounts, fiscal years and periods with
  their state machine, dimensions, and journals that are drafted, posted to an
  append-only ledger and reversed.

  A \<^verbatim>\<open>Numeric(20, 6)\<close> column holds an integer number of millionths, a \<^verbatim>\<open>Numeric(20, 10)\<close>
  column one of ten-billionths.  The rows an operation locks stay locked until its
  transaction ends, so the operations on a tenant's periods and journals follow one
  another; the model runs them in that order.  Generated identifiers are arguments,
  and so are the instants; the timestamps that the database's clock fills in are left
  out.  An operation that raises leaves the database as it was: it runs inside the
  ledger's or its own SAVEPOINT, or the transaction is then lost.
\<close>

subsection \<open>Tables\<close>

record account_category =
  ac_id :: uuid
  ac_tenant :: uuid
  ac_code :: string
  ac_name :: string
  ac_class :: AccountClass
  ac_description :: "string option"
  ac_parent :: "uuid option"
  ac_active :: bool

record account =
  at_id :: uuid
  at_tenant :: uuid
  at_category :: uuid
  at_parent :: "uuid option"
  at_code :: string
  at_name :: string
  at_description :: "string option"
  at_kind :: AccountKind
  at_normal_balance :: NormalBalance
  at_currency :: "string option"
  at_active :: bool
  at_posting_allowed :: bool

record fiscal_year =
  fy_id :: uuid
  fy_tenant :: uuid
  fy_code :: string
  fy_name :: string
  fy_start :: date
  fy_end :: date

record fiscal_period =
  fp_id :: uuid
  fp_tenant :: uuid
  fp_year :: uuid
  fp_number :: int
  fp_name :: string
  fp_start :: date
  fp_end :: date
  fp_adjustment :: bool
  fp_status :: PeriodStatus
  fp_token :: "uuid option"

record accounting_dimension =
  dm_id :: uuid
  dm_tenant :: uuid
  dm_code :: string
  dm_name :: string
  dm_description :: "string option"
  dm_active :: bool

record dimension_value =
  dv_id :: uuid
  dv_tenant :: uuid
  dv_dimension :: uuid
  dv_parent :: "uuid option"
  dv_code :: string
  dv_name :: string
  dv_active :: bool

record journal_entry =
  je_id :: uuid
  je_tenant :: uuid
  je_period :: uuid
  je_number :: string
  je_kind :: JournalKind
  je_status :: JournalStatus
  je_entry_date :: date
  je_posting_date :: date
  je_description :: string
  je_reference :: "string option"
  je_currency :: string
  je_rate :: int
  je_total_debit :: int
  je_total_credit :: int
  je_total_debit_functional :: int
  je_total_credit_functional :: int
  je_source :: SourceIdentity
  je_request_fingerprint :: string
  je_approval :: "string option"
  je_posted_by :: "string option"
  je_posted_at :: "datetime option"
  je_reverses :: "uuid option"
  je_reversal :: "uuid option"
  je_created_at :: datetime
  je_updated_at :: datetime

record journal_line =
  jl_id :: uuid
  jl_tenant :: uuid
  jl_journal :: uuid
  jl_number :: nat
  jl_account :: uuid
  jl_description :: "string option"
  jl_debit :: int
  jl_credit :: int
  jl_debit_functional :: int
  jl_credit_functional :: int
  jl_created_at :: datetime

record line_dimension =
  ld_tenant :: uuid
  ld_line :: uuid
  ld_dimension :: uuid
  ld_value :: uuid
  ld_created_at :: datetime

record ledger_line =
  pl_id :: uuid
  pl_tenant :: uuid
  pl_journal :: uuid
  pl_line :: uuid
  pl_period :: uuid
  pl_account :: uuid
  pl_account_code :: string
  pl_journal_number :: string
  pl_entry_date :: date
  pl_posting_date :: date
  pl_description :: "string option"
  pl_currency :: string
  pl_debit :: int
  pl_credit :: int
  pl_original_debit :: int
  pl_original_credit :: int
  pl_rate :: int
  pl_source :: SourceIdentity
  pl_posted_by :: string
  pl_posted_at :: datetime

record ledger_dimension =
  pd_tenant :: uuid
  pd_ledger_line :: uuid
  pd_dimension :: uuid
  pd_dimension_code :: string
  pd_value :: uuid
  pd_value_code :: string
  pd_recorded_at :: datetime

record period_event =
  pe_tenant :: uuid
  pe_period :: uuid
  pe_kind :: string
  pe_from :: string
  pe_to :: string
  pe_actor :: string
  pe_approval :: "string option"
  pe_evidence :: json
  pe_occurred_at :: datetime

record accounting_db =
  tenants :: "uuid list"
  categories :: "account_category list"
  accounts :: "account list"
  years :: "fiscal_year list"
  periods :: "fiscal_period list"
  dimensions :: "accounting_dimension list"
  dimension_values :: "dimension_value list"
  journals :: "journal_entry list"
  journal_lines :: "journal_line list"
  line_dimensions :: "line_dimension list"
  ledger_lines :: "ledger_line list"
  ledger_dimensions :: "ledger_dimension list"
  period_events :: "period_event list"

subsection \<open>Amounts\<close>

definition money :: "dec \<Rightarrow> accounting_error + dec" where
  "money v = (case quantize ROUND_HALF_UP (- 6) v of None \<Rightarrow> Inl InvalidOperation | Some m \<Rightarrow> Inr m)"

text \<open>A numeric column of 20 digits rounds to its scale and refuses what does not fit; reading it back.\<close>

definition store_numeric :: "int \<Rightarrow> dec \<Rightarrow> accounting_error + int" where
  "store_numeric scale v = (let c = rescale ROUND_HALF_UP scale v in
     if \<bar>c\<bar> < 10 ^ 20 then Inr c else Inl NumericOverflow)"

definition money_of :: "int \<Rightarrow> dec" where "money_of c = Dec c (- 6)"

definition sum_dec :: "dec list \<Rightarrow> dec" where
  "sum_dec xs = foldl dec_add dec_zero xs"

subsection \<open>Dates\<close>

definition date_le :: "date \<Rightarrow> date \<Rightarrow> bool" where
  "date_le a b \<longleftrightarrow> year a < year b \<or> (year a = year b \<and>
     (month a < month b \<or> (month a = month b \<and> day a \<le> day b)))"

lemma date_le_trans: "date_le a b \<Longrightarrow> date_le b c \<Longrightarrow> date_le a c"
  by (auto simp: date_le_def)

lemma date_le_refl [simp]: "date_le a a"
  by (simp add: date_le_def)

definition overlaps :: "date \<Rightarrow> date \<Rightarrow> date \<Rightarrow> date \<Rightarrow> bool" where
  "overlaps s1 e1 s2 e2 \<longleftrightarrow> date_le s1 e2 \<and> date_le s2 e1"

subsection \<open>Reading\<close>

text \<open>\<^verbatim>\<open>WHERE tenant_id = ... AND id = ...\<close>.\<close>

definition find_category :: "uuid \<Rightarrow> uuid \<Rightarrow> accounting_db \<Rightarrow> accounting_error + account_category" where
  "find_category tenant i db = (case find_row (\<lambda>r. (ac_tenant r, ac_id r)) (tenant, i) (categories db) of
     None \<Rightarrow> Inl (NotFound ''account category was not found'') | Some r \<Rightarrow> Inr r)"

definition find_account :: "uuid \<Rightarrow> uuid \<Rightarrow> accounting_db \<Rightarrow> accounting_error + account" where
  "find_account tenant i db = (case find_row (\<lambda>r. (at_tenant r, at_id r)) (tenant, i) (accounts db) of
     None \<Rightarrow> Inl (NotFound ''account was not found'') | Some r \<Rightarrow> Inr r)"

definition find_year :: "uuid \<Rightarrow> uuid \<Rightarrow> accounting_db \<Rightarrow> accounting_error + fiscal_year" where
  "find_year tenant i db = (case find_row (\<lambda>r. (fy_tenant r, fy_id r)) (tenant, i) (years db) of
     None \<Rightarrow> Inl (NotFound ''fiscal year was not found'') | Some r \<Rightarrow> Inr r)"

definition find_period :: "uuid \<Rightarrow> uuid \<Rightarrow> accounting_db \<Rightarrow> accounting_error + fiscal_period" where
  "find_period tenant i db = (case find_row (\<lambda>r. (fp_tenant r, fp_id r)) (tenant, i) (periods db) of
     None \<Rightarrow> Inl (NotFound ''fiscal period was not found'') | Some r \<Rightarrow> Inr r)"

definition contains_date :: "uuid \<Rightarrow> date \<Rightarrow> fiscal_period \<Rightarrow> bool" where
  "contains_date tenant d p \<longleftrightarrow> fp_tenant p = tenant \<and> date_le (fp_start p) d \<and> date_le d (fp_end p)"

definition period_for_date :: "uuid \<Rightarrow> date \<Rightarrow> accounting_db \<Rightarrow> accounting_error + fiscal_period" where
  "period_for_date tenant d db = (case filter (contains_date tenant d) (periods db) of
     [] \<Rightarrow> Inl (InvalidPeriod ''no fiscal period contains the posting date'')
   | [p] \<Rightarrow> Inr p
   | _ \<Rightarrow> Inl (InvalidPeriod ''more than one fiscal period contains the posting date''))"

definition find_journal :: "uuid \<Rightarrow> uuid \<Rightarrow> accounting_db \<Rightarrow> accounting_error + journal_entry" where
  "find_journal tenant i db = (case find_row (\<lambda>r. (je_tenant r, je_id r)) (tenant, i) (journals db) of
     None \<Rightarrow> Inl (NotFound ''journal was not found'') | Some r \<Rightarrow> Inr r)"

definition find_dimension :: "uuid \<Rightarrow> uuid \<Rightarrow> accounting_db \<Rightarrow> accounting_dimension option" where
  "find_dimension tenant i db = find_row (\<lambda>r. (dm_tenant r, dm_id r)) (tenant, i) (dimensions db)"

definition find_value :: "uuid \<Rightarrow> uuid \<Rightarrow> accounting_db \<Rightarrow> dimension_value option" where
  "find_value tenant i db = find_row (\<lambda>r. (dv_tenant r, dv_id r)) (tenant, i) (dimension_values db)"

definition lines_of :: "uuid \<Rightarrow> uuid \<Rightarrow> accounting_db \<Rightarrow> journal_line list" where
  "lines_of tenant j db = sort_key jl_number (filter (\<lambda>l. jl_tenant l = tenant \<and> jl_journal l = j) (journal_lines db))"

definition dimensions_of :: "uuid \<Rightarrow> uuid \<Rightarrow> accounting_db \<Rightarrow> line_dimension list" where
  "dimensions_of tenant l db = filter (\<lambda>x. ld_tenant x = tenant \<and> ld_line x = l) (line_dimensions db)"

subsection \<open>Text arguments of the service\<close>

definition service_required :: "string \<Rightarrow> string \<Rightarrow> nat \<Rightarrow> accounting_error + string" where
  "service_required v label maximum = required_text ValueError v label maximum"

definition service_code :: "string \<Rightarrow> string \<Rightarrow> nat \<Rightarrow> accounting_error + string" where
  "service_code v label maximum = bindr (service_required v label maximum) (\<lambda>s. Inr (map to_upper s))"

definition service_currency :: "string option \<Rightarrow> accounting_error + string option" where
  "service_currency v = (case v of None \<Rightarrow> Inr None
   | Some x \<Rightarrow> bindr (service_code x ''currency code'' 3) (\<lambda>c.
       if length c \<noteq> 3 then Inl (InvalidAccount ''currency code must contain exactly three characters'')
       else Inr (Some c)))"

text \<open>\<^verbatim>\<open>_flush_unique\<close>: every \<^verbatim>\<open>IntegrityError\<close> of the flush, whatever constraint raised it, is a conflict.\<close>

definition flush_unique :: "bool \<Rightarrow> string \<Rightarrow> accounting_error + unit" where
  "flush_unique satisfied label = ensure satisfied (Conflict (label @ '' already exists''))"

subsection \<open>Chart of accounts\<close>

definition category_accepted :: "accounting_db \<Rightarrow> account_category \<Rightarrow> bool" where
  "category_accepted db r \<longleftrightarrow> ac_tenant r \<in> set (tenants db) \<and> ac_id r \<notin> set (map ac_id (categories db))
     \<and> (ac_tenant r, ac_code r) \<notin> set (map (\<lambda>x. (ac_tenant x, ac_code x)) (categories db))"

definition create_account_category ::
    "uuid \<Rightarrow> uuid \<Rightarrow> CreateAccountCategory \<Rightarrow> accounting_db \<Rightarrow> accounting_error + account_category \<times> accounting_db" where
  "create_account_category tenant new_id c db =
     bindr (service_code (cac_code c) ''category code'' 30) (\<lambda>code.
     bindr (service_required (cac_name c) ''category name'' 160) (\<lambda>name.
     bindr (case cac_parent_id c of None \<Rightarrow> Inr ()
            | Some p \<Rightarrow> bindr (find_category tenant p db) (\<lambda>parent.
                ensure (ac_class parent = cac_account_class c)
                  (InvalidAccount ''a child category must share its parent's account class''))) (\<lambda>_.
     let row = \<lparr>ac_id = new_id, ac_tenant = tenant, ac_code = code, ac_name = name, ac_class = cac_account_class c,
                ac_description = cac_description c, ac_parent = cac_parent_id c, ac_active = True\<rparr>
     in bindr (flush_unique (category_accepted db row) ''account category code'') (\<lambda>_.
        Inr (row, db\<lparr>categories := categories db @ [row]\<rparr>)))))"

definition account_accepted :: "accounting_db \<Rightarrow> account \<Rightarrow> bool" where
  "account_accepted db r \<longleftrightarrow> at_tenant r \<in> set (tenants db) \<and> at_id r \<notin> set (map at_id (accounts db))
     \<and> (at_tenant r, at_code r) \<notin> set (map (\<lambda>x. (at_tenant x, at_code x)) (accounts db))"

definition create_account ::
    "uuid \<Rightarrow> uuid \<Rightarrow> CreateAccount \<Rightarrow> accounting_db \<Rightarrow> accounting_error + account \<times> accounting_db" where
  "create_account tenant new_id c db =
     bindr (find_category tenant (ca_category_id c) db) (\<lambda>category.
     if \<not> ac_active category then Inl (InvalidAccount ''account category is inactive'')
     else bindr (case ca_parent_id c of None \<Rightarrow> Inr ()
            | Some p \<Rightarrow> bindr (find_account tenant p db) (\<lambda>parent.
                ensure (at_kind parent \<noteq> POSTING) (InvalidAccount ''a posting account cannot be a parent account''))) (\<lambda>_.
     if ca_kind c \<noteq> POSTING \<and> ca_posting_allowed c
     then Inl (InvalidAccount ''only a posting account can allow journal posting'')
     else bindr (service_code (ca_code c) ''account code'' 40) (\<lambda>code.
     bindr (service_required (ca_name c) ''account name'' 200) (\<lambda>name.
     bindr (service_currency (ca_currency_code c)) (\<lambda>cur.
     let row = \<lparr>at_id = new_id, at_tenant = tenant, at_category = ac_id category, at_parent = ca_parent_id c,
                at_code = code, at_name = name, at_description = ca_description c, at_kind = ca_kind c,
                at_normal_balance = ca_normal_balance c, at_currency = cur, at_active = True,
                at_posting_allowed = ca_posting_allowed c\<rparr>
     in bindr (flush_unique (account_accepted db row) ''account code'') (\<lambda>_.
        Inr (row, db\<lparr>accounts := accounts db @ [row]\<rparr>)))))))"

subsection \<open>Fiscal years and periods\<close>

definition tenant_lock :: "uuid \<Rightarrow> accounting_db \<Rightarrow> accounting_error + unit" where
  "tenant_lock tenant db = ensure (tenant \<in> set (tenants db)) (NotFound ''tenant was not found'')"

text \<open>The constraints of \<^verbatim>\<open>fiscal_years\<close> and the trigger that refuses overlapping years.\<close>

definition year_overlap_guard :: "accounting_db \<Rightarrow> fiscal_year \<Rightarrow> bool" where
  "year_overlap_guard db r \<longleftrightarrow> \<not> list_ex (\<lambda>x. fy_tenant x = fy_tenant r \<and> fy_id x \<noteq> fy_id r
     \<and> overlaps (fy_start x) (fy_end x) (fy_start r) (fy_end r)) (years db)"

definition year_accepted :: "accounting_db \<Rightarrow> fiscal_year \<Rightarrow> bool" where
  "year_accepted db r \<longleftrightarrow> fy_tenant r \<in> set (tenants db) \<and> fy_id r \<notin> set (map fy_id (years db))
     \<and> (fy_tenant r, fy_code r) \<notin> set (map (\<lambda>x. (fy_tenant x, fy_code x)) (years db))
     \<and> date_le (fy_start r) (fy_end r) \<and> year_overlap_guard db r"

definition create_fiscal_year ::
    "uuid \<Rightarrow> uuid \<Rightarrow> CreateFiscalYear \<Rightarrow> accounting_db \<Rightarrow> accounting_error + fiscal_year \<times> accounting_db" where
  "create_fiscal_year tenant new_id c db =
     (if \<not> date_le (cfy_start_date c) (cfy_end_date c)
      then Inl (InvalidPeriod ''fiscal year start date must not follow its end date'')
      else bindr (tenant_lock tenant db) (\<lambda>_.
      if list_ex (\<lambda>y. fy_tenant y = tenant \<and> overlaps (fy_start y) (fy_end y) (cfy_start_date c) (cfy_end_date c)) (years db)
      then Inl (InvalidPeriod ''fiscal years cannot overlap'')
      else bindr (service_code (cfy_code c) ''fiscal year code'' 20) (\<lambda>code.
      bindr (service_required (cfy_name c) ''fiscal year name'' 80) (\<lambda>name.
      let row = \<lparr>fy_id = new_id, fy_tenant = tenant, fy_code = code, fy_name = name,
                 fy_start = cfy_start_date c, fy_end = cfy_end_date c\<rparr>
      in bindr (flush_unique (year_accepted db row) ''fiscal year'') (\<lambda>_.
         Inr (row, db\<lparr>years := years db @ [row]\<rparr>))))))"

text \<open>The constraints of \<^verbatim>\<open>fiscal_periods\<close> and its two triggers on an insert.\<close>

definition period_overlap_guard :: "accounting_db \<Rightarrow> fiscal_period \<Rightarrow> bool" where
  "period_overlap_guard db r \<longleftrightarrow> \<not> list_ex (\<lambda>x. fp_tenant x = fp_tenant r \<and> fp_year x = fp_year r \<and> fp_id x \<noteq> fp_id r
     \<and> overlaps (fp_start x) (fp_end x) (fp_start r) (fp_end r)) (periods db)"

definition period_accepted :: "accounting_db \<Rightarrow> fiscal_period \<Rightarrow> bool" where
  "period_accepted db r \<longleftrightarrow> fp_tenant r \<in> set (tenants db) \<and> fp_id r \<notin> set (map fp_id (periods db))
     \<and> (fp_tenant r, fp_year r, fp_number r) \<notin> set (map (\<lambda>x. (fp_tenant x, fp_year x, fp_number x)) (periods db))
     \<and> date_le (fp_start r) (fp_end r) \<and> 0 < fp_number r \<and> period_overlap_guard db r
     \<and> fp_status r = FUTURE \<and> fp_token r = None"

definition create_fiscal_period ::
    "uuid \<Rightarrow> uuid \<Rightarrow> CreateFiscalPeriod \<Rightarrow> accounting_db \<Rightarrow> accounting_error + fiscal_period \<times> accounting_db" where
  "create_fiscal_period tenant new_id c db =
     (if cfp_period_number c \<le> 0 then Inl (InvalidPeriod ''period number must be positive'')
      else if \<not> date_le (cfp_start_date c) (cfp_end_date c)
      then Inl (InvalidPeriod ''period start date must not follow its end date'')
      else bindr (find_year tenant (cfp_fiscal_year_id c) db) (\<lambda>y.
      if \<not> date_le (fy_start y) (cfp_start_date c) \<or> \<not> date_le (cfp_end_date c) (fy_end y)
      then Inl (InvalidPeriod ''a fiscal period must be contained by its fiscal year'')
      else if list_ex (\<lambda>p. fp_tenant p = tenant \<and> fp_year p = fy_id y
             \<and> overlaps (fp_start p) (fp_end p) (cfp_start_date c) (cfp_end_date c)) (periods db)
      then Inl (InvalidPeriod ''fiscal periods cannot overlap'')
      else bindr (service_required (cfp_name c) ''period name'' 80) (\<lambda>name.
      let row = \<lparr>fp_id = new_id, fp_tenant = tenant, fp_year = fy_id y, fp_number = cfp_period_number c, fp_name = name,
                 fp_start = cfp_start_date c, fp_end = cfp_end_date c, fp_adjustment = cfp_is_adjustment c,
                 fp_status = FUTURE, fp_token = None\<rparr>
      in bindr (flush_unique (period_accepted db row) ''fiscal period'') (\<lambda>_.
         Inr (row, db\<lparr>periods := periods db @ [row]\<rparr>)))))"

text \<open>The trigger on updates of a period.\<close>

definition period_transition_guard :: "fiscal_period \<Rightarrow> fiscal_period \<Rightarrow> bool" where
  "period_transition_guard old new \<longleftrightarrow>
     fp_status old \<noteq> LOCKED
     \<and> \<not> (fp_status old = FUTURE \<and> fp_status new \<notin> {FUTURE, OPEN})
     \<and> \<not> (fp_status old \<in> {OPEN, REOPENED} \<and> fp_status new \<notin> {fp_status old, SOFT_CLOSED})
     \<and> \<not> (fp_status old = SOFT_CLOSED \<and> fp_status new \<notin> {SOFT_CLOSED, REOPENED, LOCKED})
     \<and> \<not> (fp_status old \<noteq> FUTURE
          \<and> new\<lparr>fp_status := FUTURE, fp_token := None\<rparr> \<noteq> old\<lparr>fp_status := FUTURE, fp_token := None\<rparr>)
     \<and> \<not> (fp_status new = REOPENED \<and> fp_token new = None)
     \<and> \<not> (fp_status new \<noteq> REOPENED \<and> fp_token new \<noteq> None)"

definition update_period :: "fiscal_period \<Rightarrow> fiscal_period \<Rightarrow> accounting_db \<Rightarrow> accounting_error + accounting_db" where
  "update_period old new db =
     (if period_transition_guard old new
      then Inr (db\<lparr>periods := update_rows (\<lambda>x. fp_id x = fp_id old) (\<lambda>_. new) (periods db)\<rparr>)
      else Inl (IntegrityViolation ''fiscal_periods_valid_transition''))"

text \<open>A transition: the period row and its event are flushed together, once the event is built.\<close>

record period_change =
  pc_tenant :: uuid
  pc_period :: uuid
  pc_actor :: string
  pc_occurred_at :: datetime

definition period_event ::
    "period_change \<Rightarrow> string \<Rightarrow> fiscal_period \<Rightarrow> fiscal_period \<Rightarrow> string option \<Rightarrow> json \<Rightarrow> accounting_db
     \<Rightarrow> accounting_error + fiscal_period \<times> accounting_db" where
  "period_event c kind before after approval evidence db =
     bindr (service_required (pc_actor c) ''actor reference'' 255) (\<lambda>actor.
     bindr (update_period before after db) (\<lambda>db1.
     Inr (after, db1\<lparr>period_events := period_events db1 @ [\<lparr>pe_tenant = pc_tenant c, pe_period = fp_id after,
       pe_kind = kind, pe_from = period_status_value (fp_status before), pe_to = period_status_value (fp_status after),
       pe_actor = actor, pe_approval = approval, pe_evidence = evidence, pe_occurred_at = pc_occurred_at c\<rparr>]\<rparr>)))"

definition open_period :: "period_change \<Rightarrow> accounting_db \<Rightarrow> accounting_error + fiscal_period \<times> accounting_db" where
  "open_period c db =
     bindr (find_period (pc_tenant c) (pc_period c) db) (\<lambda>p.
     if fp_status p \<noteq> FUTURE then Inl (InvalidPeriod ''only a future period can be opened'')
     else period_event c ''open'' p (p\<lparr>fp_status := OPEN\<rparr>) None (JObj []) db)"

definition soft_close_period ::
    "period_change \<Rightarrow> CloseCheck list \<Rightarrow> string \<Rightarrow> accounting_db \<Rightarrow> accounting_error + fiscal_period \<times> accounting_db" where
  "soft_close_period c checks approval_reference db =
     bindr (find_period (pc_tenant c) (pc_period c) db) (\<lambda>p.
     if fp_status p \<notin> {OPEN, REOPENED} then Inl (InvalidPeriod ''only an open or reopened period can be soft-closed'')
     else bindr (service_required approval_reference ''approval reference'' 255) (\<lambda>approval.
     bindr (close_evidence_payload checks) (\<lambda>payload.
     period_event c ''soft_close'' p (p\<lparr>fp_status := SOFT_CLOSED, fp_token := None\<rparr>) (Some approval) payload db)))"

text \<open>\<open>token\<close> is the fresh \<^verbatim>\<open>uuid4()\<close>.\<close>

definition reopen_period ::
    "period_change \<Rightarrow> string \<Rightarrow> string \<Rightarrow> uuid \<Rightarrow> accounting_db \<Rightarrow> accounting_error + fiscal_period \<times> accounting_db" where
  "reopen_period c approval_reference reason token db =
     bindr (find_period (pc_tenant c) (pc_period c) db) (\<lambda>p.
     if fp_status p = LOCKED then Inl (InvalidPeriod ''a locked period can never be reopened'')
     else if fp_status p \<noteq> SOFT_CLOSED then Inl (InvalidPeriod ''only a soft-closed period can be reopened'')
     else bindr (service_required approval_reference ''approval reference'' 255) (\<lambda>approval.
     bindr (service_required reason ''reopen reason'' 2000) (\<lambda>reason_value.
     period_event c ''reopen'' p (p\<lparr>fp_status := REOPENED, fp_token := Some token\<rparr>) (Some approval)
       (JObj [(''reason'', JStr reason_value), (''reopen_token'', JStr (uuid_str token))]) db)))"

definition lock_period ::
    "period_change \<Rightarrow> string \<Rightarrow> accounting_db \<Rightarrow> accounting_error + fiscal_period \<times> accounting_db" where
  "lock_period c approval_reference db =
     bindr (find_period (pc_tenant c) (pc_period c) db) (\<lambda>p.
     if fp_status p \<noteq> SOFT_CLOSED then Inl (InvalidPeriod ''only a soft-closed period can be locked'')
     else bindr (service_required approval_reference ''approval reference'' 255) (\<lambda>approval.
     period_event c ''lock'' p (p\<lparr>fp_status := LOCKED\<rparr>) (Some approval) (JObj []) db))"

subsection \<open>Dimensions\<close>

definition dimension_accepted :: "accounting_db \<Rightarrow> accounting_dimension \<Rightarrow> bool" where
  "dimension_accepted db r \<longleftrightarrow> dm_tenant r \<in> set (tenants db) \<and> dm_id r \<notin> set (map dm_id (dimensions db))
     \<and> (dm_tenant r, dm_code r) \<notin> set (map (\<lambda>x. (dm_tenant x, dm_code x)) (dimensions db))"

definition create_dimension ::
    "uuid \<Rightarrow> uuid \<Rightarrow> CreateDimension \<Rightarrow> accounting_db \<Rightarrow> accounting_error + accounting_dimension \<times> accounting_db" where
  "create_dimension tenant new_id c db =
     bindr (service_code (cd_code c) ''dimension code'' 40) (\<lambda>code.
     bindr (service_required (cd_name c) ''dimension name'' 160) (\<lambda>name.
     let row = \<lparr>dm_id = new_id, dm_tenant = tenant, dm_code = code, dm_name = name,
                dm_description = cd_description c, dm_active = True\<rparr>
     in bindr (flush_unique (dimension_accepted db row) ''accounting dimension code'') (\<lambda>_.
        Inr (row, db\<lparr>dimensions := dimensions db @ [row]\<rparr>))))"

definition value_accepted :: "accounting_db \<Rightarrow> dimension_value \<Rightarrow> bool" where
  "value_accepted db r \<longleftrightarrow> dv_tenant r \<in> set (tenants db) \<and> dv_id r \<notin> set (map dv_id (dimension_values db))
     \<and> (dv_tenant r, dv_dimension r, dv_code r)
         \<notin> set (map (\<lambda>x. (dv_tenant x, dv_dimension x, dv_code x)) (dimension_values db))"

definition create_dimension_value ::
    "uuid \<Rightarrow> uuid \<Rightarrow> CreateDimensionValue \<Rightarrow> accounting_db \<Rightarrow> accounting_error + dimension_value \<times> accounting_db" where
  "create_dimension_value tenant new_id c db =
     (case find_dimension tenant (cdv_dimension_id c) db of
        None \<Rightarrow> Inl (NotFound ''accounting dimension was not found'')
      | Some dimension \<Rightarrow>
          if \<not> dm_active dimension then Inl (InvalidDimension ''accounting dimension is inactive'')
          else bindr (case cdv_parent_id c of None \<Rightarrow> Inr ()
            | Some p \<Rightarrow> ensure (case find_value tenant p db of None \<Rightarrow> False | Some v \<Rightarrow> dv_dimension v = dm_id dimension)
                (InvalidDimension ''dimension value parent belongs to another dimension'')) (\<lambda>_.
          bindr (service_code (cdv_code c) ''dimension value code'' 80) (\<lambda>code.
          bindr (service_required (cdv_name c) ''dimension value name'' 200) (\<lambda>name.
          let row = \<lparr>dv_id = new_id, dv_tenant = tenant, dv_dimension = dm_id dimension, dv_parent = cdv_parent_id c,
                     dv_code = code, dv_name = name, dv_active = True\<rparr>
          in bindr (flush_unique (value_accepted db row) ''dimension value code'') (\<lambda>_.
             Inr (row, db\<lparr>dimension_values := dimension_values db @ [row]\<rparr>))))))"

subsection \<open>Lines of a command\<close>

definition account_open :: "account \<Rightarrow> string \<Rightarrow> accounting_error + unit" where
  "account_open a cur =
     (if \<not> at_active a \<or> \<not> at_posting_allowed a \<or> at_kind a \<noteq> POSTING
      then Inl (InvalidAccount (''account '' @ at_code a @ '' is not open for posting''))
      else case at_currency a of
        None \<Rightarrow> Inr ()
      | Some c \<Rightarrow> ensure (c = cur)
          (InvalidAccount (''account '' @ at_code a @ '' accepts only '' @ c @ '' journals'')))"

text \<open>The values of a line, one per dimension; \<open>seen\<close> holds the dimensions already chosen.\<close>

fun resolve_values :: "uuid \<Rightarrow> accounting_db \<Rightarrow> uuid list \<Rightarrow> uuid list \<Rightarrow> accounting_error + dimension_value list" where
  "resolve_values tenant db seen [] = Inr []"
| "resolve_values tenant db seen (i # is) =
     (case find_value tenant i db of
        None \<Rightarrow> Inl (InvalidDimension ''dimension value was not found or is inactive'')
      | Some v \<Rightarrow>
          if \<not> dv_active v then Inl (InvalidDimension ''dimension value was not found or is inactive'')
          else if (case find_dimension tenant (dv_dimension v) db of None \<Rightarrow> True | Some d \<Rightarrow> \<not> dm_active d)
          then Inl (InvalidDimension ''accounting dimension is inactive'')
          else if dv_dimension v \<in> set seen
          then Inl (InvalidDimension ''a journal line may select one value per dimension'')
          else bindr (resolve_values tenant db (dv_dimension v # seen) is) (\<lambda>vs. Inr (v # vs)))"

record resolved_line =
  rl_input :: JournalLineInput
  rl_values :: "dimension_value list"
  rl_debit :: dec
  rl_credit :: dec
  rl_debit_functional :: dec
  rl_credit_functional :: dec

definition resolve_line ::
    "uuid \<Rightarrow> accounting_db \<Rightarrow> string \<Rightarrow> dec \<Rightarrow> JournalLineInput \<Rightarrow> accounting_error + resolved_line" where
  "resolve_line tenant db cur rate l =
     bindr (validate_line l) (\<lambda>_.
     bindr (find_account tenant (li_account_id l) db) (\<lambda>a.
     bindr (account_open a cur) (\<lambda>_.
     bindr (resolve_values tenant db [] (li_dimension_value_ids l)) (\<lambda>vs.
     bindr (money (li_debit l)) (\<lambda>debit.
     bindr (money (li_credit l)) (\<lambda>credit.
     bindr (money (dec_mul debit rate)) (\<lambda>debit_functional.
     bindr (money (dec_mul credit rate)) (\<lambda>credit_functional.
     Inr \<lparr>rl_input = l, rl_values = vs, rl_debit = debit, rl_credit = credit,
          rl_debit_functional = debit_functional, rl_credit_functional = credit_functional\<rparr>))))))))"

record journal_totals =
  jt_debit :: dec
  jt_credit :: dec
  jt_debit_functional :: dec
  jt_credit_functional :: dec

definition validated_lines ::
    "uuid \<Rightarrow> CreateJournal \<Rightarrow> string \<Rightarrow> accounting_db \<Rightarrow> accounting_error + resolved_line list \<times> journal_totals" where
  "validated_lines tenant c cur db =
     (if length (cj_lines c) < 2 then Inl (InvalidJournal ''a journal must contain at least two lines'')
      else if dec_le (cj_exchange_rate c) dec_zero then Inl (InvalidJournal ''exchange rate must be greater than zero'')
      else bindr (map_result (resolve_line tenant db cur (cj_exchange_rate c)) (cj_lines c)) (\<lambda>resolved.
      let debit = sum_dec (map rl_debit resolved); credit = sum_dec (map rl_credit resolved);
          fdebit = sum_dec (map rl_debit_functional resolved); fcredit = sum_dec (map rl_credit_functional resolved)
      in if dec_le debit dec_zero \<or> \<not> dec_eq debit credit
         then Inl (InvalidJournal ''journal debit and credit totals must balance and be positive'')
         else if \<not> dec_eq fdebit fcredit
         then Inl (InvalidJournal ''journal functional debit and credit totals must balance'')
         else bindr (money debit) (\<lambda>td. bindr (money credit) (\<lambda>tc.
              bindr (money fdebit) (\<lambda>tfd. bindr (money fcredit) (\<lambda>tfc.
              Inr (resolved, \<lparr>jt_debit = td, jt_credit = tc, jt_debit_functional = tfd, jt_credit_functional = tfc\<rparr>)))))))"

subsection \<open>Constraints and triggers of the journal tables\<close>

definition source_key :: "journal_entry \<Rightarrow> uuid \<times> string \<times> string \<times> string \<times> string" where
  "source_key j = (je_tenant j, src_owner (je_source j), src_document_kind (je_source j),
     src_document_id (je_source j), src_version (je_source j))"

definition insert_journal :: "journal_entry \<Rightarrow> accounting_db \<Rightarrow> accounting_error + accounting_db" where
  "insert_journal j db =
     (if je_status j \<noteq> DRAFT then Inl (IntegrityViolation ''a journal must be assembled as draft'')
      else if je_id j \<in> set (map je_id (journals db)) then Inl (IntegrityViolation ''journal_entries_pkey'')
      else if (je_tenant j, je_number j) \<in> set (map (\<lambda>x. (je_tenant x, je_number x)) (journals db))
      then Inl (IntegrityViolation ''uq_journal_entries_tenant_number'')
      else if source_key j \<in> set (map source_key (journals db))
      then Inl (IntegrityViolation ''uq_journal_entries_source_identity'')
      else if je_reverses j \<noteq> None
           \<and> (je_tenant j, je_reverses j) \<in> set (map (\<lambda>x. (je_tenant x, je_reverses x)) (journals db))
      then Inl (IntegrityViolation ''uq_journal_entries_single_reversal'')
      else if length (je_currency j) \<noteq> 3 then Inl (IntegrityViolation ''ck_journal_entries_currency'')
      else if je_rate j \<le> 0 then Inl (IntegrityViolation ''ck_journal_entries_rate_positive'')
      else if je_total_debit j < 0 \<or> je_total_credit j < 0
      then Inl (IntegrityViolation ''ck_journal_entries_totals_nonnegative'')
      else if je_total_debit_functional j < 0 \<or> je_total_credit_functional j < 0
      then Inl (IntegrityViolation ''ck_journal_entries_functional_nonnegative'')
      else Inr (db\<lparr>journals := journals db @ [j]\<rparr>))"

text \<open>The trigger on the content of a journal (revision \<^verbatim>\<open>ac_0002_posted_content\<close>).\<close>

definition content_guard :: "uuid \<Rightarrow> uuid \<Rightarrow> accounting_db \<Rightarrow> accounting_error + unit" where
  "content_guard tenant j db = (case find_journal tenant j db of
     Inl _ \<Rightarrow> Inl (IntegrityViolation ''journal content parent is missing or inaccessible'')
   | Inr x \<Rightarrow> ensure (je_status x = DRAFT) (IntegrityViolation ''posted journal lines are immutable''))"

definition one_side :: "int \<Rightarrow> int \<Rightarrow> bool" where
  "one_side d c \<longleftrightarrow> (0 < d \<and> c = 0) \<or> (0 < c \<and> d = 0)"

definition insert_line :: "journal_line \<Rightarrow> accounting_db \<Rightarrow> accounting_error + accounting_db" where
  "insert_line l db =
     bindr (content_guard (jl_tenant l) (jl_journal l) db) (\<lambda>_.
     if jl_id l \<in> set (map jl_id (journal_lines db)) then Inl (IntegrityViolation ''journal_lines_pkey'')
     else if (jl_tenant l, jl_journal l, jl_number l)
          \<in> set (map (\<lambda>x. (jl_tenant x, jl_journal x, jl_number x)) (journal_lines db))
     then Inl (IntegrityViolation ''uq_journal_lines_journal_number'')
     else if \<not> one_side (jl_debit l) (jl_credit l) then Inl (IntegrityViolation ''ck_journal_lines_one_side'')
     else if \<not> one_side (jl_debit_functional l) (jl_credit_functional l)
     then Inl (IntegrityViolation ''ck_journal_lines_functional_one_side'')
     else Inr (db\<lparr>journal_lines := journal_lines db @ [l]\<rparr>))"

definition insert_line_dimension :: "line_dimension \<Rightarrow> accounting_db \<Rightarrow> accounting_error + accounting_db" where
  "insert_line_dimension x db =
     (case find_row (\<lambda>l. (jl_tenant l, jl_id l)) (ld_tenant x, ld_line x) (journal_lines db) of
        None \<Rightarrow> Inl (IntegrityViolation ''journal content parent is missing or inaccessible'')
      | Some l \<Rightarrow>
          bindr (content_guard (ld_tenant x) (jl_journal l) db) (\<lambda>_.
          if (ld_tenant x, ld_line x, ld_dimension x)
             \<in> set (map (\<lambda>y. (ld_tenant y, ld_line y, ld_dimension y)) (line_dimensions db))
          then Inl (IntegrityViolation ''uq_journal_line_dimensions_one_value'')
          else Inr (db\<lparr>line_dimensions := line_dimensions db @ [x]\<rparr>)))"

fun insert_line_dimensions :: "line_dimension list \<Rightarrow> accounting_db \<Rightarrow> accounting_error + accounting_db" where
  "insert_line_dimensions [] db = Inr db"
| "insert_line_dimensions (x # xs) db = bindr (insert_line_dimension x db) (insert_line_dimensions xs)"

definition insert_ledger_line :: "ledger_line \<Rightarrow> accounting_db \<Rightarrow> accounting_error + accounting_db" where
  "insert_ledger_line p db =
     (if pl_id p \<in> set (map pl_id (ledger_lines db)) then Inl (IntegrityViolation ''posted_ledger_lines_pkey'')
      else if (pl_tenant p, pl_line p) \<in> set (map (\<lambda>x. (pl_tenant x, pl_line x)) (ledger_lines db))
      then Inl (IntegrityViolation ''uq_posted_ledger_lines_journal_line'')
      else if \<not> one_side (pl_debit p) (pl_credit p) then Inl (IntegrityViolation ''ck_posted_ledger_lines_one_side'')
      else Inr (db\<lparr>ledger_lines := ledger_lines db @ [p]\<rparr>))"

definition insert_ledger_dimension :: "ledger_dimension \<Rightarrow> accounting_db \<Rightarrow> accounting_error + accounting_db" where
  "insert_ledger_dimension x db =
     (if (pd_tenant x, pd_ledger_line x, pd_dimension_code x)
         \<in> set (map (\<lambda>y. (pd_tenant y, pd_ledger_line y, pd_dimension_code y)) (ledger_dimensions db))
      then Inl (IntegrityViolation ''uq_posted_ledger_dimensions_code'')
      else Inr (db\<lparr>ledger_dimensions := ledger_dimensions db @ [x]\<rparr>))"

text \<open>The trigger on updates of a journal: what the ledger must hold when it becomes posted.\<close>

definition ledger_of :: "uuid \<Rightarrow> uuid \<Rightarrow> accounting_db \<Rightarrow> ledger_line list" where
  "ledger_of tenant j db = filter (\<lambda>p. pl_tenant p = tenant \<and> pl_journal p = j) (ledger_lines db)"

definition evidence_complete :: "journal_entry \<Rightarrow> accounting_db \<Rightarrow> bool" where
  "evidence_complete j db \<longleftrightarrow>
     (let lines = filter (\<lambda>l. jl_tenant l = je_tenant j \<and> jl_journal l = je_id j) (journal_lines db);
          posted = ledger_of (je_tenant j) (je_id j) db;
          debit = sum_list (map pl_debit posted); credit = sum_list (map pl_credit posted);
          original_debit = sum_list (map pl_original_debit posted);
          original_credit = sum_list (map pl_original_credit posted)
      in \<not> (length lines < 2 \<or> length posted \<noteq> length lines
            \<or> debit \<le> 0 \<or> debit \<noteq> credit
            \<or> debit \<noteq> je_total_debit_functional j \<or> credit \<noteq> je_total_credit_functional j
            \<or> original_debit \<le> 0 \<or> original_debit \<noteq> original_credit
            \<or> original_debit \<noteq> je_total_debit j \<or> original_credit \<noteq> je_total_credit j
            \<or> je_approval j = None \<or> je_posted_by j = None \<or> je_posted_at j = None))"

definition reversal_recorded :: "journal_entry \<Rightarrow> journal_entry \<Rightarrow> accounting_db \<Rightarrow> bool" where
  "reversal_recorded old new db \<longleftrightarrow>
     je_status old = POSTED \<and> je_status new = REVERSED \<and> je_reversal old = None
     \<and> (case je_reversal new of None \<Rightarrow> False
        | Some r \<Rightarrow> list_ex (\<lambda>x. je_tenant x = je_tenant old \<and> je_id x = r \<and> je_reverses x = Some (je_id old)
                     \<and> je_status x = POSTED) (journals db))
     \<and> new\<lparr>je_status := DRAFT, je_reversal := None, je_updated_at := 0\<rparr>
         = old\<lparr>je_status := DRAFT, je_reversal := None, je_updated_at := 0\<rparr>"

definition update_journal :: "journal_entry \<Rightarrow> journal_entry \<Rightarrow> accounting_db \<Rightarrow> accounting_error + accounting_db" where
  "update_journal old new db =
     bindr (if je_status old = DRAFT \<and> je_status new = POSTED
            then ensure (evidence_complete new db) (IntegrityViolation ''posted journal requires complete balanced ledger evidence'')
            else if je_status old = DRAFT
            then ensure (je_status new \<in> {DRAFT, VOID}) (IntegrityViolation ''invalid draft journal transition'')
            else ensure (reversal_recorded old new db) (IntegrityViolation ''posted journal content is immutable'')) (\<lambda>_.
     Inr (db\<lparr>journals := update_rows (\<lambda>x. je_id x = je_id old) (\<lambda>_. new) (journals db)\<rparr>))"

subsection \<open>Drafting\<close>

record create_call =
  cr_tenant :: uuid
  cr_command :: CreateJournal
  cr_key :: string
  cr_expires_at :: "datetime option"
  cr_recorded_at :: datetime
  cr_journal_id :: uuid
  cr_line_id :: "nat \<Rightarrow> uuid"

definition journal_result :: "uuid \<Rightarrow> json_object" where
  "journal_result i = [(''journal_id'', JStr (uuid_str i))]"

definition new_journal ::
    "create_call \<Rightarrow> journal_payload \<Rightarrow> string \<Rightarrow> fiscal_period \<Rightarrow> journal_totals \<Rightarrow> accounting_error + journal_entry" where
  "new_journal call payload request_fingerprint period totals = (let c = cr_command call in
     bindr (store_numeric (- 10) (cj_exchange_rate c)) (\<lambda>rate.
     bindr (store_numeric (- 6) (jt_debit totals)) (\<lambda>td.
     bindr (store_numeric (- 6) (jt_credit totals)) (\<lambda>tc.
     bindr (store_numeric (- 6) (jt_debit_functional totals)) (\<lambda>tfd.
     bindr (store_numeric (- 6) (jt_credit_functional totals)) (\<lambda>tfc.
     Inr \<lparr>je_id = cr_journal_id call, je_tenant = cr_tenant call, je_period = fp_id period,
       je_number = jp_number payload, je_kind = cj_kind c, je_status = DRAFT, je_entry_date = cj_entry_date c,
       je_posting_date = cj_posting_date c, je_description = jp_description payload,
       je_reference = jp_reference payload, je_currency = jp_currency_code payload, je_rate = rate,
       je_total_debit = td, je_total_credit = tc, je_total_debit_functional = tfd,
       je_total_credit_functional = tfc, je_source = jp_source payload,
       je_request_fingerprint = request_fingerprint, je_approval = None, je_posted_by = None,
       je_posted_at = None, je_reverses = None, je_reversal = None,
       je_created_at = cr_recorded_at call, je_updated_at = cr_recorded_at call\<rparr>))))))"

text \<open>A line as it is persisted: the amounts are computed again from the command's.\<close>

definition new_line :: "create_call \<Rightarrow> nat \<Rightarrow> JournalLineInput \<Rightarrow> accounting_error + journal_line" where
  "new_line call number l = (let rate = cj_exchange_rate (cr_command call) in
     bindr (money (li_debit l)) (\<lambda>debit.
     bindr (money (li_credit l)) (\<lambda>credit.
     bindr (money (dec_mul (li_debit l) rate)) (\<lambda>debit_functional.
     bindr (money (dec_mul (li_credit l) rate)) (\<lambda>credit_functional.
     bindr (store_numeric (- 6) debit) (\<lambda>d.
     bindr (store_numeric (- 6) credit) (\<lambda>c.
     bindr (store_numeric (- 6) debit_functional) (\<lambda>fd.
     bindr (store_numeric (- 6) credit_functional) (\<lambda>fc.
     Inr \<lparr>jl_id = cr_line_id call number, jl_tenant = cr_tenant call, jl_journal = cr_journal_id call,
       jl_number = number, jl_account = li_account_id l, jl_description = li_description l,
       jl_debit = d, jl_credit = c, jl_debit_functional = fd, jl_credit_functional = fc,
       jl_created_at = cr_recorded_at call\<rparr>)))))))))"

fun add_lines :: "create_call \<Rightarrow> nat \<Rightarrow> resolved_line list \<Rightarrow> accounting_db \<Rightarrow> accounting_error + accounting_db" where
  "add_lines call number [] db = Inr db"
| "add_lines call number (r # rs) db =
     bindr (new_line call number (rl_input r)) (\<lambda>row.
     bindr (insert_line row db) (\<lambda>db1.
     bindr (insert_line_dimensions (map (\<lambda>v. \<lparr>ld_tenant = cr_tenant call, ld_line = jl_id row,
         ld_dimension = dv_dimension v, ld_value = dv_id v, ld_created_at = cr_recorded_at call\<rparr>) (rl_values r)) db1)
       (\<lambda>db2. add_lines call (Suc number) rs db2)))"

definition request_source_key :: "uuid \<Rightarrow> SourceIdentity \<Rightarrow> uuid \<times> string \<times> string \<times> string \<times> string" where
  "request_source_key tenant s = (tenant, src_owner s, src_document_kind s, src_document_id s, src_version s)"

definition do_create ::
    "create_call \<Rightarrow> journal_payload \<Rightarrow> string \<Rightarrow> accounting_db \<Rightarrow> accounting_error + json_object \<times> accounting_db" where
  "do_create call payload request_fingerprint db = (let tenant = cr_tenant call; c = cr_command call in
     case find_row source_key (request_source_key tenant (jp_source payload)) (journals db) of
       Some existing \<Rightarrow>
         if je_request_fingerprint existing \<noteq> request_fingerprint
         then Inl (Conflict ''source identity already names a different journal request'')
         else Inr (journal_result (je_id existing), db)
     | None \<Rightarrow>
         bindr (period_for_date tenant (cj_posting_date c) db) (\<lambda>period.
         bindr (validated_lines tenant c (jp_currency_code payload) db) (\<lambda>(resolved, totals).
         bindr (new_journal call payload request_fingerprint period totals) (\<lambda>journal.
         bindr (insert_journal journal db) (\<lambda>db1.
         bindr (add_lines call 1 resolved db1) (\<lambda>db2.
         Inr (journal_result (je_id journal), db2)))))))"

text \<open>
  A call of the ledger and the exception that leaves it: the one the operation raised, or
  one of the ledger's own.  \<open>rows\<close> are the ledger rows that concurrent transactions commit
  meanwhile.
\<close>

definition is_integrity_error :: "accounting_error \<Rightarrow> bool" where
  "is_integrity_error e = (case e of IntegrityViolation _ \<Rightarrow> True | _ \<Rightarrow> False)"

definition accounting_once ::
    "uuid \<Rightarrow> string \<Rightarrow> string \<Rightarrow> string \<Rightarrow> datetime option \<Rightarrow> idempotency_record list
     \<Rightarrow> (accounting_db \<Rightarrow> accounting_error + json_object \<times> accounting_db) \<Rightarrow> accounting_db db
     \<Rightarrow> (accounting_error + idempotent_outcome) \<times> accounting_db db" where
  "accounting_once tenant scope key fp expires rows f d =
     (let (out, d') = execute_once \<lparr>rq_tenant = tenant, rq_scope = scope, rq_key = key,
            rq_operation = module_operation is_integrity_error f, rq_operation_name = None, rq_fingerprint = Some fp,
            rq_correlation_id = None, rq_expires_at = expires, rq_conc = rows\<rparr> d
      in (case out of
            Inr o1 \<Rightarrow> Inr o1
          | Inl (BadRequest m) \<Rightarrow> Inl (LedgerRefusal m)
          | Inl (IdempotencyConflict m) \<Rightarrow> Inl (LedgerRefusal m)
          | Inl DataError \<Rightarrow> Inl (LedgerRefusal ''DataError'')
          | Inl _ \<Rightarrow> (case f (app_data d) of Inl e \<Rightarrow> Inl e | Inr _ \<Rightarrow> Inl (LedgerRefusal ''IntegrityError'')), d'))"

definition outcome_journal :: "uuid \<Rightarrow> accounting_db \<Rightarrow> idempotent_outcome \<Rightarrow> accounting_error + journal_entry" where
  "outcome_journal tenant db out = (case map_of (out_result out) ''journal_id'' of
     None \<Rightarrow> Inl (KeyError ''journal_id'')
   | Some i \<Rightarrow> (case uuid_of_str (case i of JStr t \<Rightarrow> t | JInt n \<Rightarrow> int_str n | _ \<Rightarrow> []) of
       None \<Rightarrow> Inl (ValueError ''badly formed hexadecimal UUID string'')
     | Some u \<Rightarrow> find_journal tenant u db))"

definition CREATE_SCOPE :: string where "CREATE_SCOPE = ''accounting.create_journal''"
definition POST_SCOPE :: string where "POST_SCOPE = ''accounting.post_journal''"
definition REVERSE_SCOPE :: string where "REVERSE_SCOPE = ''accounting.reverse_journal''"

definition create_journal ::
    "create_call \<Rightarrow> idempotency_record list \<Rightarrow> accounting_db db \<Rightarrow> (accounting_error + journal_entry) \<times> accounting_db db" where
  "create_journal call rows d =
     (case journal_fingerprint_payload (cr_command call) of
        Inl e \<Rightarrow> (Inl e, d)
      | Inr payload \<Rightarrow>
          let fp = fingerprint_of (jp_json payload);
              (out, d') = accounting_once (cr_tenant call) CREATE_SCOPE (cr_key call) fp (cr_expires_at call) rows
                (do_create call payload fp) d
          in (bindr out (outcome_journal (cr_tenant call) (app_data d')), d'))"

subsection \<open>Posting\<close>

definition require_postable_period :: "fiscal_period \<Rightarrow> JournalKind \<Rightarrow> uuid option \<Rightarrow> accounting_error + unit" where
  "require_postable_period p kind token =
     bindr (if fp_status p = REOPENED
            then ensure (\<not> (token = None \<or> token \<noteq> fp_token p))
              (InvalidPeriod ''posting to a reopened period requires its current reopen token'')
            else ensure (fp_status p = OPEN)
              (InvalidPeriod (''period is '' @ map to_lower (period_status_value (fp_status p)) @ '' and rejects posting''))) (\<lambda>_.
     ensure (\<not> (fp_adjustment p \<and> kind \<notin> {ADJUSTMENT, CLOSING}))
       (InvalidPeriod ''an adjustment period accepts adjustment or closing journals only''))"

fun check_assignments :: "uuid \<Rightarrow> accounting_db \<Rightarrow> line_dimension list \<Rightarrow> accounting_error + unit" where
  "check_assignments tenant db [] = Inr ()"
| "check_assignments tenant db (x # xs) =
     (case (find_dimension tenant (ld_dimension x) db, find_value tenant (ld_value x) db) of
        (Some dm, Some v) \<Rightarrow>
          if \<not> dm_active dm \<or> \<not> dv_active v
          then Inl (InvalidDimension ''journal dimension assignment is inactive or incomplete'')
          else check_assignments tenant db xs
      | _ \<Rightarrow> Inl (InvalidDimension ''journal dimension assignment is inactive or incomplete''))"

fun require_active_references ::
    "uuid \<Rightarrow> journal_entry \<Rightarrow> accounting_db \<Rightarrow> journal_line list \<Rightarrow> accounting_error + unit" where
  "require_active_references tenant j db [] = Inr ()"
| "require_active_references tenant j db (l # ls) =
     bindr (find_account tenant (jl_account l) db) (\<lambda>a.
     bindr (account_open a (je_currency j)) (\<lambda>_.
     bindr (check_assignments tenant db (dimensions_of tenant (jl_id l) db)) (\<lambda>_.
     require_active_references tenant j db ls)))"

record posting =
  po_posted_by :: string
  po_posted_at :: datetime
  po_ledger_id :: "uuid \<Rightarrow> uuid"

definition ledger_row :: "posting \<Rightarrow> uuid \<Rightarrow> journal_entry \<Rightarrow> account \<Rightarrow> journal_line \<Rightarrow> ledger_line" where
  "ledger_row po tenant j a l =
     \<lparr>pl_id = po_ledger_id po (jl_id l), pl_tenant = tenant, pl_journal = je_id j, pl_line = jl_id l,
      pl_period = je_period j, pl_account = at_id a, pl_account_code = at_code a, pl_journal_number = je_number j,
      pl_entry_date = je_entry_date j, pl_posting_date = je_posting_date j, pl_description = jl_description l,
      pl_currency = je_currency j, pl_debit = jl_debit_functional l, pl_credit = jl_credit_functional l,
      pl_original_debit = jl_debit l, pl_original_credit = jl_credit l, pl_rate = je_rate j,
      pl_source = je_source j, pl_posted_by = po_posted_by po, pl_posted_at = po_posted_at po\<rparr>"

fun append_dimensions ::
    "posting \<Rightarrow> uuid \<Rightarrow> uuid \<Rightarrow> line_dimension list \<Rightarrow> accounting_db \<Rightarrow> accounting_error + accounting_db" where
  "append_dimensions po tenant ledger_id [] db = Inr db"
| "append_dimensions po tenant ledger_id (x # xs) db =
     (case (find_dimension tenant (ld_dimension x) db, find_value tenant (ld_value x) db) of
        (Some dm, Some v) \<Rightarrow>
          bindr (insert_ledger_dimension \<lparr>pd_tenant = tenant, pd_ledger_line = ledger_id, pd_dimension = dm_id dm,
            pd_dimension_code = dm_code dm, pd_value = dv_id v, pd_value_code = dv_code v,
            pd_recorded_at = po_posted_at po\<rparr> db) (append_dimensions po tenant ledger_id xs)
      | _ \<Rightarrow> Inl (InvalidDimension ''journal dimension assignment is incomplete''))"

fun append_lines ::
    "posting \<Rightarrow> uuid \<Rightarrow> journal_entry \<Rightarrow> journal_line list \<Rightarrow> accounting_db \<Rightarrow> accounting_error + accounting_db" where
  "append_lines po tenant j [] db = Inr db"
| "append_lines po tenant j (l # ls) db =
     bindr (find_account tenant (jl_account l) db) (\<lambda>a.
     bindr (insert_ledger_line (ledger_row po tenant j a l) db) (\<lambda>db1.
     bindr (append_dimensions po tenant (po_ledger_id po (jl_id l)) (dimensions_of tenant (jl_id l) db1) db1) (\<lambda>db2.
     append_lines po tenant j ls db2)))"

definition append_ledger :: "posting \<Rightarrow> uuid \<Rightarrow> journal_entry \<Rightarrow> accounting_db \<Rightarrow> accounting_error + accounting_db" where
  "append_ledger po tenant j db = append_lines po tenant j (lines_of tenant (je_id j) db) db"

text \<open>\<open>pt_posted_at_text\<close> is \<^verbatim>\<open>posted_at.isoformat()\<close>, which also shows the caller's UTC offset.\<close>

record post_call =
  pt_tenant :: uuid
  pt_journal_id :: uuid
  pt_approval_reference :: string
  pt_posted_by :: string
  pt_key :: string
  pt_expires_at :: "datetime option"
  pt_posted_at :: datetime
  pt_posted_at_text :: string
  pt_reopen_token :: "uuid option"
  pt_ledger_id :: "uuid \<Rightarrow> uuid"

definition persisted_balanced :: "journal_entry \<Rightarrow> journal_line list \<Rightarrow> accounting_error + bool" where
  "persisted_balanced j lines =
     bindr (money (sum_dec (map (money_of \<circ> jl_debit) lines))) (\<lambda>original_debit.
     bindr (money (sum_dec (map (money_of \<circ> jl_credit) lines))) (\<lambda>original_credit.
     bindr (money (sum_dec (map (money_of \<circ> jl_debit_functional) lines))) (\<lambda>debit.
     bindr (money (sum_dec (map (money_of \<circ> jl_credit_functional) lines))) (\<lambda>credit.
     Inr (\<not> (dec_le original_debit dec_zero \<or> \<not> dec_eq original_debit original_credit
       \<or> \<not> dec_eq original_debit (money_of (je_total_debit j)) \<or> \<not> dec_eq original_credit (money_of (je_total_credit j))
       \<or> dec_le debit dec_zero \<or> \<not> dec_eq debit credit
       \<or> \<not> dec_eq debit (money_of (je_total_debit_functional j))
       \<or> \<not> dec_eq credit (money_of (je_total_credit_functional j))))))))"

definition do_post :: "post_call \<Rightarrow> string \<Rightarrow> string \<Rightarrow> accounting_db \<Rightarrow> accounting_error + json_object \<times> accounting_db" where
  "do_post call approval actor db = (let tenant = pt_tenant call in
     bindr (find_journal tenant (pt_journal_id call) db) (\<lambda>journal.
     if je_status journal \<noteq> DRAFT then Inl (InvalidTransition ''only a draft journal can be posted'')
     else bindr (find_period tenant (je_period journal) db) (\<lambda>period.
     bindr (require_postable_period period (je_kind journal) (pt_reopen_token call)) (\<lambda>_.
     if \<not> (date_le (fp_start period) (je_posting_date journal) \<and> date_le (je_posting_date journal) (fp_end period))
     then Inl (InvalidPeriod ''journal posting date is outside its fiscal period'')
     else let lines = lines_of tenant (je_id journal) db in
     bindr (require_active_references tenant journal db lines) (\<lambda>_.
     bindr (persisted_balanced journal lines) (\<lambda>balanced.
     if \<not> balanced then Inl (InvalidJournal ''persisted journal lines are not balanced'')
     else bindr (append_ledger \<lparr>po_posted_by = actor, po_posted_at = pt_posted_at call, po_ledger_id = pt_ledger_id call\<rparr>
           tenant journal db) (\<lambda>db1.
     bindr (update_journal journal (journal\<lparr>je_status := POSTED, je_approval := Some approval, je_posted_by := Some actor,
         je_posted_at := Some (pt_posted_at call), je_updated_at := pt_posted_at call\<rparr>) db1) (\<lambda>db2.
     Inr (journal_result (je_id journal), db2)))))))))"

definition post_payload :: "post_call \<Rightarrow> string \<Rightarrow> string \<Rightarrow> json" where
  "post_payload call approval actor = JObj [(''journal_id'', JStr (uuid_str (pt_journal_id call))),
     (''approval_reference'', JStr approval), (''posted_by'', JStr actor), (''posted_at'', JStr (pt_posted_at_text call)),
     (''reopen_token'', json_option (map_option uuid_str (pt_reopen_token call)))]"

definition post_journal ::
    "post_call \<Rightarrow> idempotency_record list \<Rightarrow> accounting_db db \<Rightarrow> (accounting_error + journal_entry) \<times> accounting_db db" where
  "post_journal call rows d =
     (case service_required (pt_approval_reference call) ''approval reference'' 255 of
        Inl e \<Rightarrow> (Inl e, d)
      | Inr approval \<Rightarrow>
     (case service_required (pt_posted_by call) ''posted by'' 255 of
        Inl e \<Rightarrow> (Inl e, d)
      | Inr actor \<Rightarrow>
          let (out, d') = accounting_once (pt_tenant call) POST_SCOPE (pt_key call)
                (fingerprint_of (post_payload call approval actor)) (pt_expires_at call) rows (do_post call approval actor) d
          in (bindr out (outcome_journal (pt_tenant call) (app_data d')), d')))"

subsection \<open>Reversing\<close>

record reverse_call =
  rv_tenant :: uuid
  rv_command :: ReverseJournal
  rv_key :: string
  rv_expires_at :: "datetime option"
  rv_reversed_at :: datetime
  rv_journal_id :: uuid
  rv_line_id :: "nat \<Rightarrow> uuid"
  rv_ledger_id :: "uuid \<Rightarrow> uuid"

definition reversal_entry ::
    "reverse_call \<Rightarrow> reversal_payload \<Rightarrow> string \<Rightarrow> journal_entry \<Rightarrow> fiscal_period \<Rightarrow> journal_entry" where
  "reversal_entry call payload request_fingerprint original period = (let c = rv_command call in
     \<lparr>je_id = rv_journal_id call, je_tenant = rv_tenant call, je_period = fp_id period,
      je_number = rp_number payload, je_kind = REVERSAL, je_status = DRAFT, je_entry_date = rj_posting_date c,
      je_posting_date = rj_posting_date c,
      je_description = ''Reversal of '' @ je_number original @ '': '' @ rp_reason payload,
      je_reference = Some (je_number original), je_currency = je_currency original, je_rate = je_rate original,
      je_total_debit = je_total_credit original, je_total_credit = je_total_debit original,
      je_total_debit_functional = je_total_credit_functional original,
      je_total_credit_functional = je_total_debit_functional original,
      je_source = \<lparr>src_owner = ''accounting.reversal'', src_document_kind = ''journal'',
        src_document_id = uuid_str (je_id original), src_version = ''1'', src_fingerprint = request_fingerprint\<rparr>,
      je_request_fingerprint = request_fingerprint, je_approval = Some (rp_approval_reference payload),
      je_posted_by = Some (rp_reversed_by payload), je_posted_at = Some (rv_reversed_at call),
      je_reverses = Some (je_id original), je_reversal = None,
      je_created_at = rv_reversed_at call, je_updated_at = rv_reversed_at call\<rparr>)"

definition reversal_line :: "reverse_call \<Rightarrow> journal_entry \<Rightarrow> journal_line \<Rightarrow> journal_line" where
  "reversal_line call original l =
     \<lparr>jl_id = rv_line_id call (jl_number l), jl_tenant = rv_tenant call, jl_journal = rv_journal_id call,
      jl_number = jl_number l, jl_account = jl_account l,
      jl_description = Some (''Reversal: '' @
        (case jl_description l of None \<Rightarrow> je_description original
         | Some s \<Rightarrow> if s = [] then je_description original else s)),
      jl_debit = jl_credit l, jl_credit = jl_debit l, jl_debit_functional = jl_credit_functional l,
      jl_credit_functional = jl_debit_functional l, jl_created_at = rv_reversed_at call\<rparr>"

fun add_reversal_lines ::
    "reverse_call \<Rightarrow> journal_entry \<Rightarrow> journal_line list \<Rightarrow> accounting_db \<Rightarrow> accounting_error + accounting_db" where
  "add_reversal_lines call original [] db = Inr db"
| "add_reversal_lines call original (l # ls) db =
     (let row = reversal_line call original l in
      bindr (insert_line row db) (\<lambda>db1.
      bindr (insert_line_dimensions (map (\<lambda>x. \<lparr>ld_tenant = rv_tenant call, ld_line = jl_id row,
          ld_dimension = ld_dimension x, ld_value = ld_value x, ld_created_at = rv_reversed_at call\<rparr>)
          (dimensions_of (rv_tenant call) (jl_id l) db1)) db1) (\<lambda>db2.
      add_reversal_lines call original ls db2)))"

definition do_reverse ::
    "reverse_call \<Rightarrow> reversal_payload \<Rightarrow> string \<Rightarrow> accounting_db \<Rightarrow> accounting_error + json_object \<times> accounting_db" where
  "do_reverse call payload request_fingerprint db = (let tenant = rv_tenant call; c = rv_command call in
     bindr (find_journal tenant (rj_journal_id c) db) (\<lambda>original.
     if je_status original \<noteq> POSTED \<or> je_reversal original \<noteq> None
     then Inl (InvalidTransition ''only an unreversed posted journal can be reversed'')
     else bindr (period_for_date tenant (rj_posting_date c) db) (\<lambda>period.
     bindr (require_postable_period period REVERSAL (rj_reopen_token c)) (\<lambda>_.
     let reversal = reversal_entry call payload request_fingerprint original period in
     bindr (insert_journal reversal db) (\<lambda>db1.
     bindr (add_reversal_lines call original (lines_of tenant (je_id original) db1) db1) (\<lambda>db2.
     bindr (append_ledger \<lparr>po_posted_by = rp_reversed_by payload, po_posted_at = rv_reversed_at call,
         po_ledger_id = rv_ledger_id call\<rparr> tenant reversal db2) (\<lambda>db3.
     bindr (update_journal reversal (reversal\<lparr>je_status := POSTED\<rparr>) db3) (\<lambda>db4.
     bindr (update_journal original (original\<lparr>je_status := REVERSED, je_reversal := Some (je_id reversal),
         je_updated_at := rv_reversed_at call\<rparr>) db4) (\<lambda>db5.
     Inr (journal_result (je_id reversal), db5))))))))))"

definition reverse_journal ::
    "reverse_call \<Rightarrow> idempotency_record list \<Rightarrow> accounting_db db \<Rightarrow> (accounting_error + journal_entry) \<times> accounting_db db" where
  "reverse_journal call rows d =
     (case reversal_fingerprint_payload (rv_command call) of
        Inl e \<Rightarrow> (Inl e, d)
      | Inr payload \<Rightarrow>
          let fp = fingerprint_of (rp_json payload);
              (out, d') = accounting_once (rv_tenant call) REVERSE_SCOPE (rv_key call) fp (rv_expires_at call) rows
                (do_reverse call payload fp) d
          in (bindr out (outcome_journal (rv_tenant call) (app_data d')), d'))"

end
