(* ===== verification/Accounting_Safety.thy ===== *)
theory Accounting_Safety
  imports Accounting
begin

text \<open>
  What the accounting module guarantees over every sequence of its operations: the
  state machine of the periods and its evidence, the balance of the ledger, what a
  reversal undoes, and what a closed period no longer takes.
\<close>

subsection \<open>Runs\<close>

text \<open>
  The states the module's operations reach from empty tables.  The three journal
  operations go through the kernel's ledger, whose rows other users of it also write; an
  operation that raises changes nothing of the module.  \<open>maintained\<close> is the host editing
  the rows it may edit: categories, accounts, dimensions and their values.
\<close>

definition empty_books :: "uuid list \<Rightarrow> accounting_db" where
  "empty_books ts = \<lparr>tenants = ts, categories = [], accounts = [], years = [], periods = [], dimensions = [],
     dimension_values = [], journals = [], journal_lines = [], line_dimensions = [], ledger_lines = [],
     ledger_dimensions = [], period_events = []\<rparr>"

definition same_books :: "accounting_db \<Rightarrow> accounting_db \<Rightarrow> bool" where
  "same_books a b \<longleftrightarrow> b\<lparr>categories := categories a, accounts := accounts a, dimensions := dimensions a,
     dimension_values := dimension_values a\<rparr> = a"

inductive books_step :: "accounting_db \<Rightarrow> accounting_db \<Rightarrow> bool" where
  master_data: "same_books db s \<Longrightarrow> books_step db s"
| year_created: "create_fiscal_year t i yc db = Inr (y, s) \<Longrightarrow> books_step db s"
| period_created: "create_fiscal_period t i c db = Inr (p, s) \<Longrightarrow> books_step db s"
| opened: "open_period c db = Inr (p, s) \<Longrightarrow> books_step db s"
| soft_closed: "soft_close_period c checks approval db = Inr (p, s) \<Longrightarrow> books_step db s"
| reopened: "reopen_period c approval reason token db = Inr (p, s) \<Longrightarrow> books_step db s"
| locked: "lock_period c approval db = Inr (p, s) \<Longrightarrow> books_step db s"
| drafted: "journal_fingerprint_payload (cr_command ccall) = Inr cp \<Longrightarrow> do_create ccall cp fp db = Inr (res, s) \<Longrightarrow> books_step db s"
| journal_posted: "do_post pcall approval actor db = Inr (res, s) \<Longrightarrow> books_step db s"
| journal_reversed: "reversal_fingerprint_payload (rv_command rcall) = Inr rp \<Longrightarrow> do_reverse rcall rp fp db = Inr (res, s) \<Longrightarrow> books_step db s"

inductive accounting_step :: "accounting_db db \<Rightarrow> accounting_db db \<Rightarrow> bool" where
  category: "create_account_category t i cc (app_data d) = Inr (r, s) \<Longrightarrow> accounting_step d (d\<lparr>app_data := s\<rparr>)"
| account: "create_account t i ca (app_data d) = Inr (a, s) \<Longrightarrow> accounting_step d (d\<lparr>app_data := s\<rparr>)"
| fiscal_year: "create_fiscal_year t i yc (app_data d) = Inr (y, s) \<Longrightarrow> accounting_step d (d\<lparr>app_data := s\<rparr>)"
| fiscal_period: "create_fiscal_period t i fc (app_data d) = Inr (p, s) \<Longrightarrow> accounting_step d (d\<lparr>app_data := s\<rparr>)"
| dimension: "create_dimension t i dc (app_data d) = Inr (m, s) \<Longrightarrow> accounting_step d (d\<lparr>app_data := s\<rparr>)"
| dimension_value: "create_dimension_value t i vc (app_data d) = Inr (v, s) \<Longrightarrow> accounting_step d (d\<lparr>app_data := s\<rparr>)"
| period_opening: "open_period pc (app_data d) = Inr (p, s) \<Longrightarrow> accounting_step d (d\<lparr>app_data := s\<rparr>)"
| soft_closing: "soft_close_period pc checks approval (app_data d) = Inr (p, s) \<Longrightarrow> accounting_step d (d\<lparr>app_data := s\<rparr>)"
| reopening: "reopen_period pc approval reason token (app_data d) = Inr (p, s) \<Longrightarrow> accounting_step d (d\<lparr>app_data := s\<rparr>)"
| locking: "lock_period pc approval (app_data d) = Inr (p, s) \<Longrightarrow> accounting_step d (d\<lparr>app_data := s\<rparr>)"
| drafting: "create_journal ccall rows d = (out, d') \<Longrightarrow> accounting_step d d'"
| posting: "post_journal pcall rows d = (out, d') \<Longrightarrow> accounting_step d d'"
| reversing: "reverse_journal rcall rows d = (out, d') \<Longrightarrow> accounting_step d d'"
| maintained: "same_books (app_data d) s \<Longrightarrow> accounting_step d (d\<lparr>app_data := s\<rparr>)"

inductive accounting_run :: "accounting_db db \<Rightarrow> bool" where
  start: "app_data d = empty_books ts \<Longrightarrow> accounting_run d"
| step: "accounting_run d \<Longrightarrow> accounting_step d d' \<Longrightarrow> accounting_run d'"

subsection \<open>Every step is a step of the tables\<close>

lemma accounting_once_effect:
  assumes "accounting_once tenant scope key fp expires rows f d = (out, d')"
  shows "app_data d' = app_data d \<or> (\<exists>res. f (app_data d) = Inr (res, app_data d'))"
    and "ledgers_extend d d'"
proof (atomize (full))
  obtain o2 d2 where e: "execute_once \<lparr>rq_tenant = tenant, rq_scope = scope, rq_key = key,
            rq_operation = module_operation is_integrity_error f, rq_operation_name = None, rq_fingerprint = Some fp,
            rq_correlation_id = None, rq_expires_at = expires, rq_conc = rows\<rparr> d = (o2, d2)" by fastforce
  have "d' = d2" using assms e by (simp add: accounting_once_def)
  then show "(app_data d' = app_data d \<or> (\<exists>res. f (app_data d) = Inr (res, app_data d'))) \<and> ledgers_extend d d'"
    using execute_once_module [OF _ e, of is_integrity_error f] by (auto simp: ledgers_extend_def)
qed

lemma create_journal_effect:
  assumes "create_journal call rows d = (out, d')"
  shows "app_data d' = app_data d \<or> (\<exists>cp res. journal_fingerprint_payload (cr_command call) = Inr cp
    \<and> do_create call cp (fingerprint_of (jp_json cp)) (app_data d) = Inr (res, app_data d'))"
proof (cases "journal_fingerprint_payload (cr_command call)")
  case (Inr cp)
  obtain o2 d2 where e: "accounting_once (cr_tenant call) CREATE_SCOPE (cr_key call)
      (fingerprint_of (jp_json cp)) (cr_expires_at call) rows (do_create call cp (fingerprint_of (jp_json cp))) d = (o2, d2)" by fastforce
  then have "d' = d2" using assms Inr by (simp add: create_journal_def)
  with accounting_once_effect(1) [OF e] Inr show ?thesis by auto
qed (use assms in \<open>simp add: create_journal_def\<close>)

lemma post_journal_effect:
  assumes "post_journal call rows d = (out, d')"
  shows "app_data d' = app_data d \<or> (\<exists>approval actor res. do_post call approval actor (app_data d) = Inr (res, app_data d'))"
proof (cases "service_required (pt_approval_reference call) ''approval reference'' 255")
  case (Inr approval)
  show ?thesis
  proof (cases "service_required (pt_posted_by call) ''posted by'' 255")
    case (Inr actor)
    obtain o2 d2 where e: "accounting_once (pt_tenant call) POST_SCOPE (pt_key call)
        (fingerprint_of (post_payload call approval actor)) (pt_expires_at call) rows (do_post call approval actor) d = (o2, d2)"
      by fastforce
    then have "d' = d2" using assms Inr \<open>service_required (pt_approval_reference call) _ _ = _\<close>
      by (simp add: post_journal_def)
    with accounting_once_effect(1) [OF e] show ?thesis by auto
  qed (use assms Inr in \<open>simp add: post_journal_def\<close>)
qed (use assms in \<open>simp add: post_journal_def\<close>)

lemma reverse_journal_effect:
  assumes "reverse_journal call rows d = (out, d')"
  shows "app_data d' = app_data d \<or> (\<exists>rp res. reversal_fingerprint_payload (rv_command call) = Inr rp
    \<and> do_reverse call rp (fingerprint_of (rp_json rp)) (app_data d) = Inr (res, app_data d'))"
proof (cases "reversal_fingerprint_payload (rv_command call)")
  case (Inr rp)
  obtain o2 d2 where e: "accounting_once (rv_tenant call) REVERSE_SCOPE (rv_key call)
      (fingerprint_of (rp_json rp)) (rv_expires_at call) rows (do_reverse call rp (fingerprint_of (rp_json rp))) d = (o2, d2)" by fastforce
  then have "d' = d2" using assms Inr by (simp add: reverse_journal_def)
  with accounting_once_effect(1) [OF e] Inr show ?thesis by auto
qed (use assms in \<open>simp add: reverse_journal_def\<close>)

lemma same_books_refl [simp]: "same_books db db"
  by (simp add: same_books_def)

lemma same_books_creates:
  "create_account_category t i cc db = Inr (r, s) \<Longrightarrow> same_books db s"
  "create_account t i ca db = Inr (a, s) \<Longrightarrow> same_books db s"
  "create_dimension t i dc db = Inr (m, s) \<Longrightarrow> same_books db s"
  "create_dimension_value t i vc db = Inr (v, s) \<Longrightarrow> same_books db s"
  by (auto simp: same_books_def create_account_category_def create_account_def create_dimension_def
      create_dimension_value_def bindr_eq_Inr Let_def split: if_splits option.splits)

lemma accounting_step_books:
  "accounting_step d d' \<Longrightarrow> books_step (app_data d) (app_data d')"
proof (induction rule: accounting_step.induct)
  case (drafting ccall rows d out d')
  then show ?case using create_journal_effect [OF drafting] books_step.drafted books_step.master_data same_books_refl by metis
next
  case (posting pcall rows d out d')
  then show ?case using post_journal_effect [OF posting] books_step.journal_posted books_step.master_data same_books_refl by metis
next
  case (reversing rcall rows d out d')
  then show ?case using reverse_journal_effect [OF reversing] books_step.journal_reversed books_step.master_data same_books_refl by metis
qed (auto intro: books_step.intros same_books_creates)

lemma accounting_steps_books:
  "accounting_step\<^sup>*\<^sup>* d d' \<Longrightarrow> books_step\<^sup>*\<^sup>* (app_data d) (app_data d')"
  by (induction rule: rtranclp_induct) (auto dest: accounting_step_books intro: rtranclp.rtrancl_into_rtrancl)

subsection \<open>What the operations do to the tables\<close>

text \<open>The five transitions of a period, and a change of a period with its event.\<close>

definition legal_transition :: "PeriodStatus \<Rightarrow> PeriodStatus \<Rightarrow> bool" where
  "legal_transition a b \<longleftrightarrow> (a, b) \<in> {(FUTURE, OPEN), (OPEN, SOFT_CLOSED), (REOPENED, SOFT_CLOSED),
     (SOFT_CLOSED, REOPENED), (SOFT_CLOSED, LOCKED)}"

definition period_moves :: "accounting_db \<Rightarrow> fiscal_period \<Rightarrow> fiscal_period \<Rightarrow> period_event \<Rightarrow> accounting_db \<Rightarrow> bool" where
  "period_moves db p q e s \<longleftrightarrow> p \<in> set (periods db) \<and> legal_transition (fp_status p) (fp_status q)
     \<and> q\<lparr>fp_status := FUTURE, fp_token := None\<rparr> = p\<lparr>fp_status := FUTURE, fp_token := None\<rparr>
     \<and> (fp_token q \<noteq> None \<longleftrightarrow> fp_status q = REOPENED)
     \<and> pe_tenant e = fp_tenant p \<and> pe_period e = fp_id p
     \<and> pe_from e = period_status_value (fp_status p) \<and> pe_to e = period_status_value (fp_status q)
     \<and> s = db\<lparr>periods := update_rows (\<lambda>x. fp_id x = fp_id p) (\<lambda>_. q) (periods db),
              period_events := period_events db @ [e]\<rparr>"

lemma find_period_Inr:
  "find_period t i db = Inr p \<Longrightarrow> p \<in> set (periods db) \<and> fp_tenant p = t \<and> fp_id p = i"
  by (auto simp: find_period_def split: option.splits dest: find_row_Some)

lemma find_journal_Inr:
  "find_journal t i db = Inr j \<Longrightarrow> j \<in> set (journals db) \<and> je_tenant j = t \<and> je_id j = i"
  by (auto simp: find_journal_def split: option.splits dest: find_row_Some)

lemma find_year_Inr:
  "find_year t i db = Inr y \<Longrightarrow> y \<in> set (years db) \<and> fy_tenant y = t \<and> fy_id y = i"
  by (auto simp: find_year_def split: option.splits dest: find_row_Some)

lemma find_account_Inr:
  "find_account t i db = Inr a \<Longrightarrow> a \<in> set (accounts db) \<and> at_tenant a = t \<and> at_id a = i"
  by (auto simp: find_account_def split: option.splits dest: find_row_Some)

lemma period_event_moves:
  assumes "period_event c kind p q approval evidence db = Inr (r, s)" and "find_period (pc_tenant c) (pc_period c) db = Inr p"
    and "legal_transition (fp_status p) (fp_status q)"
    and same: "q\<lparr>fp_status := FUTURE, fp_token := None\<rparr> = p\<lparr>fp_status := FUTURE, fp_token := None\<rparr>"
  shows "\<exists>e. period_moves db p q e s"
proof -
  from assms(1) obtain actor db1 where up: "update_period p q db = Inr db1"
    and s: "s = db1\<lparr>period_events := period_events db1 @ [\<lparr>pe_tenant = pc_tenant c, pe_period = fp_id q,
       pe_kind = kind, pe_from = period_status_value (fp_status p), pe_to = period_status_value (fp_status q),
       pe_actor = actor, pe_approval = approval, pe_evidence = evidence, pe_occurred_at = pc_occurred_at c\<rparr>]\<rparr>"
    by (auto simp: period_event_def bindr_eq_Inr)
  from up have guard: "period_transition_guard p q"
    and db1: "db1 = db\<lparr>periods := update_rows (\<lambda>x. fp_id x = fp_id p) (\<lambda>_. q) (periods db)\<rparr>"
    by (simp_all add: update_period_def split: if_splits)
  have token: "fp_token q \<noteq> None \<longleftrightarrow> fp_status q = REOPENED"
    using guard unfolding period_transition_guard_def by metis
  have "fp_id q = fp_id p" using arg_cong [OF same, of fp_id] by simp
  then have "period_moves db p q \<lparr>pe_tenant = pc_tenant c, pe_period = fp_id q,
       pe_kind = kind, pe_from = period_status_value (fp_status p), pe_to = period_status_value (fp_status q),
       pe_actor = actor, pe_approval = approval, pe_evidence = evidence, pe_occurred_at = pc_occurred_at c\<rparr> s"
    unfolding period_moves_def s db1 using find_period_Inr [OF assms(2)] token assms(3) same
    by (intro conjI) (assumption | simp)+
  then show ?thesis by blast
qed

lemma period_change_moves:
  "open_period c db = Inr (r, s) \<Longrightarrow> \<exists>p q e. period_moves db p q e s"
  "soft_close_period c checks approval db = Inr (r, s) \<Longrightarrow> \<exists>p q e. period_moves db p q e s"
  "reopen_period c approval reason token db = Inr (r, s) \<Longrightarrow> \<exists>p q e. period_moves db p q e s"
  "lock_period c approval db = Inr (r, s) \<Longrightarrow> \<exists>p q e. period_moves db p q e s"
proof -
  show "open_period c db = Inr (r, s) \<Longrightarrow> \<exists>p q e. period_moves db p q e s"
    by (auto simp: open_period_def bindr_eq_Inr legal_transition_def split: if_splits dest!: period_event_moves)
  show "soft_close_period c checks approval db = Inr (r, s) \<Longrightarrow> \<exists>p q e. period_moves db p q e s"
    by (auto simp: soft_close_period_def bindr_eq_Inr legal_transition_def split: if_splits dest!: period_event_moves)
  show "reopen_period c approval reason token db = Inr (r, s) \<Longrightarrow> \<exists>p q e. period_moves db p q e s"
    by (auto simp: reopen_period_def bindr_eq_Inr legal_transition_def split: if_splits dest!: period_event_moves)
  show "lock_period c approval db = Inr (r, s) \<Longrightarrow> \<exists>p q e. period_moves db p q e s"
    by (auto simp: lock_period_def bindr_eq_Inr legal_transition_def split: if_splits dest!: period_event_moves)
qed

text \<open>The inserts.\<close>

lemma insert_journal_Inr:
  "insert_journal j db = Inr s \<Longrightarrow> s = db\<lparr>journals := journals db @ [j]\<rparr> \<and> je_status j = DRAFT
     \<and> je_id j \<notin> je_id ` set (journals db) \<and> source_key j \<notin> source_key ` set (journals db)"
  by (auto simp: insert_journal_def split: if_splits)

lemma insert_line_Inr:
  "insert_line l db = Inr s \<Longrightarrow> s = db\<lparr>journal_lines := journal_lines db @ [l]\<rparr>
     \<and> jl_id l \<notin> jl_id ` set (journal_lines db) \<and> one_side (jl_debit l) (jl_credit l)
     \<and> one_side (jl_debit_functional l) (jl_credit_functional l)
     \<and> (\<exists>j. find_journal (jl_tenant l) (jl_journal l) db = Inr j \<and> je_status j = DRAFT)"
  by (auto simp: insert_line_def content_guard_def bindr_eq_Inr split: if_splits sum.splits)

lemma insert_line_dimension_Inr:
  "insert_line_dimension x db = Inr s \<Longrightarrow> s = db\<lparr>line_dimensions := line_dimensions db @ [x]\<rparr>"
  by (auto simp: insert_line_dimension_def bindr_eq_Inr split: if_splits option.splits)

lemma insert_line_dimensions_Inr:
  "insert_line_dimensions xs db = Inr s \<Longrightarrow> s = db\<lparr>line_dimensions := line_dimensions db @ xs\<rparr>"
proof (induction xs arbitrary: db)
  case (Cons x xs)
  then obtain db1 where "insert_line_dimension x db = Inr db1" "insert_line_dimensions xs db1 = Inr s"
    by (auto simp: bindr_eq_Inr)
  with Cons.IH [of db1] insert_line_dimension_Inr [of x db db1] show ?case by simp
qed simp

lemma find_journal_frame [simp]:
  "find_journal t i (db\<lparr>journal_lines := ls\<rparr>) = find_journal t i db"
  "find_journal t i (db\<lparr>line_dimensions := xs\<rparr>) = find_journal t i db"
  "find_account t i (db\<lparr>journal_lines := ls\<rparr>) = find_account t i db"
  "find_account t i (db\<lparr>line_dimensions := xs\<rparr>) = find_account t i db"
  "find_account t i (db\<lparr>ledger_lines := ps\<rparr>) = find_account t i db"
  "find_account t i (db\<lparr>ledger_dimensions := ds\<rparr>) = find_account t i db"
  "find_account t i (db\<lparr>journals := js\<rparr>) = find_account t i db"
  by (simp_all add: find_journal_def find_account_def)

lemma add_lines_Inr:
  "add_lines call n rs db = Inr s \<Longrightarrow>
     \<exists>ls xs. s = db\<lparr>journal_lines := journal_lines db @ ls, line_dimensions := line_dimensions db @ xs\<rparr>
       \<and> list_all2 (\<lambda>(k, r) l. new_line call k (rl_input r) = Inr l) (zip [n ..< n + length rs] rs) ls
       \<and> (\<forall>l \<in> set ls. one_side (jl_debit l) (jl_credit l) \<and> one_side (jl_debit_functional l) (jl_credit_functional l))
       \<and> distinct (map jl_id ls) \<and> jl_id ` set ls \<inter> jl_id ` set (journal_lines db) = {}"
proof (induction rs arbitrary: n db)
  case Nil
  then show ?case by (intro exI [of _ "[]"]) simp
next
  case (Cons r rs)
  from Cons.prems obtain row db1 db2 where row: "new_line call n (rl_input r) = Inr row" and one: "insert_line row db = Inr db1"
    and dims: "insert_line_dimensions (map (\<lambda>v. \<lparr>ld_tenant = cr_tenant call, ld_line = jl_id row,
         ld_dimension = dv_dimension v, ld_value = dv_id v, ld_created_at = cr_recorded_at call\<rparr>) (rl_values r)) db1 = Inr db2"
    and rest: "add_lines call (Suc n) rs db2 = Inr s"
    by (auto simp: bindr_eq_Inr)
  note eqs = insert_line_Inr [OF one] insert_line_dimensions_Inr [OF dims]
  from Cons.IH [OF rest] obtain ls xs where
    ih: "s = db2\<lparr>journal_lines := journal_lines db2 @ ls, line_dimensions := line_dimensions db2 @ xs\<rparr>"
      "list_all2 (\<lambda>(k, r) l. new_line call k (rl_input r) = Inr l) (zip [Suc n ..< Suc n + length rs] rs) ls"
      "\<forall>l \<in> set ls. one_side (jl_debit l) (jl_credit l) \<and> one_side (jl_debit_functional l) (jl_credit_functional l)"
      "distinct (map jl_id ls)" "jl_id ` set ls \<inter> jl_id ` set (journal_lines db2) = {}"
    by blast
  have zip: "zip [n ..< Suc (n + length rs)] (r # rs) = (n, r) # zip [Suc n ..< Suc (n + length rs)] rs"
    by (simp add: upt_conv_Cons del: upt_Suc)
  let ?xs = "map (\<lambda>v. \<lparr>ld_tenant = cr_tenant call, ld_line = jl_id row,
         ld_dimension = dv_dimension v, ld_value = dv_id v, ld_created_at = cr_recorded_at call\<rparr>) (rl_values r) @ xs"
  show ?case
    using ih eqs row by (intro exI [of _ "row # ls"] exI [of _ ?xs]) (auto simp: zip simp del: upt_Suc)
qed

lemma new_line_Inr:
  "new_line call n l = Inr r \<Longrightarrow> jl_id r = cr_line_id call n \<and> jl_tenant r = cr_tenant call \<and> jl_journal r = cr_journal_id call
     \<and> jl_number r = n \<and> jl_account r = li_account_id l"
  by (auto simp: new_line_def bindr_eq_Inr Let_def)

lemma append_dimensions_Inr:
  "append_dimensions po t i xs db = Inr s \<Longrightarrow> \<exists>ds. s = db\<lparr>ledger_dimensions := ledger_dimensions db @ ds\<rparr>"
proof (induction xs arbitrary: db)
  case Nil
  then show ?case by (intro exI [of _ "[]"]) simp
next
  case (Cons x xs)
  from Cons.prems obtain d db1 where "insert_ledger_dimension d db = Inr db1" and rest: "append_dimensions po t i xs db1 = Inr s"
    by (auto simp: bindr_eq_Inr split: option.splits)
  then have "db1 = db\<lparr>ledger_dimensions := ledger_dimensions db @ [d]\<rparr>"
    by (auto simp: insert_ledger_dimension_def split: if_splits)
  with Cons.IH [OF rest] show ?case by auto
qed

lemma append_lines_Inr:
  "append_lines po t j ls db = Inr s \<Longrightarrow>
     \<exists>ps ds. s = db\<lparr>ledger_lines := ledger_lines db @ ps, ledger_dimensions := ledger_dimensions db @ ds\<rparr>
       \<and> list_all2 (\<lambda>l p. \<exists>a. at_id a = jl_account l \<and> p = ledger_row po t j a l) ls ps"
proof (induction ls arbitrary: db)
  case Nil
  then show ?case by (intro exI [of _ "[]"]) simp
next
  case (Cons l ls)
  from Cons.prems obtain a db1 db2 where a: "find_account t (jl_account l) db = Inr a"
    and one: "insert_ledger_line (ledger_row po t j a l) db = Inr db1"
    and dims: "append_dimensions po t (po_ledger_id po (jl_id l)) (dimensions_of t (jl_id l) db1) db1 = Inr db2"
    and rest: "append_lines po t j ls db2 = Inr s"
    by (auto simp: bindr_eq_Inr)
  have db1: "db1 = db\<lparr>ledger_lines := ledger_lines db @ [ledger_row po t j a l]\<rparr>"
    using one by (auto simp: insert_ledger_line_def split: if_splits)
  from append_dimensions_Inr [OF dims] obtain ds1 where db2: "db2 = db1\<lparr>ledger_dimensions := ledger_dimensions db1 @ ds1\<rparr>" by blast
  from Cons.IH [OF rest] obtain ps ds where
    ih: "s = db2\<lparr>ledger_lines := ledger_lines db2 @ ps, ledger_dimensions := ledger_dimensions db2 @ ds\<rparr>"
      "list_all2 (\<lambda>l p. \<exists>a. at_id a = jl_account l \<and> p = ledger_row po t j a l) ls ps" by blast
  show ?case
    using ih find_account_Inr [OF a]
    by (intro exI [of _ "ledger_row po t j a l # ps"] exI [of _ "ds1 @ ds"]) (auto simp: db1 db2)
qed

text \<open>A row with a unique key, replaced.\<close>

lemma set_replace_row:
  "x \<in> set (update_rows (\<lambda>x. key x = k) (\<lambda>_. q) rows) \<Longrightarrow> x = q \<or> (x \<in> set rows \<and> key x \<noteq> k)"
  by (auto simp: update_rows_def split: if_splits)

lemma replace_row_mem: "r \<in> set rows \<Longrightarrow> key r = k \<Longrightarrow> q \<in> set (update_rows (\<lambda>x. key x = k) (\<lambda>_. q) rows)"
  by (force simp: update_rows_def)

lemma replace_row_other: "r \<in> set rows \<Longrightarrow> key r \<noteq> k \<Longrightarrow> r \<in> set (update_rows (\<lambda>x. key x = k) (\<lambda>_. q) rows)"
  by (force simp: update_rows_def)

lemma replace_row_keys:
  "f q = f r \<Longrightarrow> \<forall>x \<in> set rows. key x = k \<longrightarrow> x = r \<Longrightarrow> map f (update_rows (\<lambda>x. key x = k) (\<lambda>_. q) rows) = map f rows"
  by (auto simp: update_rows_def)

lemma distinct_key_eq: "distinct (map key rows) \<Longrightarrow> a \<in> set rows \<Longrightarrow> b \<in> set rows \<Longrightarrow> key a = key b \<Longrightarrow> a = b"
  by (metis distinct_map inj_onD)

text \<open>Drafting, posting and reversing, as changes of the tables.\<close>

definition line_ok :: "journal_line \<Rightarrow> bool" where
  "line_ok l \<longleftrightarrow> one_side (jl_debit l) (jl_credit l) \<and> one_side (jl_debit_functional l) (jl_credit_functional l)
     \<and> \<bar>jl_debit l\<bar> < 10 ^ 20 \<and> \<bar>jl_credit l\<bar> < 10 ^ 20
     \<and> \<bar>jl_debit_functional l\<bar> < 10 ^ 20 \<and> \<bar>jl_credit_functional l\<bar> < 10 ^ 20"

definition new_content :: "accounting_db \<Rightarrow> journal_entry \<Rightarrow> journal_line list \<Rightarrow> bool" where
  "new_content db j ls \<longleftrightarrow> je_id j \<notin> je_id ` set (journals db) \<and> 2 \<le> length ls
     \<and> (\<forall>l \<in> set ls. jl_tenant l = je_tenant j \<and> jl_journal l = je_id j \<and> line_ok l)
     \<and> sorted (map jl_number ls) \<and> distinct (map jl_id ls) \<and> jl_id ` set ls \<inter> jl_id ` set (journal_lines db) = {}"

lemma store_numeric_bound: "store_numeric e v = Inr c \<Longrightarrow> \<bar>c\<bar> < 10 ^ 20"
  by (auto simp: store_numeric_def Let_def split: if_splits)

lemma new_line_bounds:
  "new_line call n l = Inr r \<Longrightarrow> \<bar>jl_debit r\<bar> < 10 ^ 20 \<and> \<bar>jl_credit r\<bar> < 10 ^ 20
     \<and> \<bar>jl_debit_functional r\<bar> < 10 ^ 20 \<and> \<bar>jl_credit_functional r\<bar> < 10 ^ 20"
  unfolding new_line_def Let_def by (auto simp: bindr_eq_Inr dest: store_numeric_bound)

lemma new_journal_Inr:
  "new_journal call payload fp period totals = Inr j \<Longrightarrow> je_id j = cr_journal_id call \<and> je_tenant j = cr_tenant call
     \<and> je_period j = fp_id period \<and> je_posting_date j = cj_posting_date (cr_command call) \<and> je_reverses j = None \<and> je_reversal j = None
     \<and> je_source j = jp_source payload \<and> je_request_fingerprint j = fp"
  by (auto simp: new_journal_def bindr_eq_Inr Let_def)

lemma period_for_date_Inr:
  assumes "period_for_date t d db = Inr p"
  shows "p \<in> set (periods db) \<and> contains_date t d p"
proof -
  have "filter (contains_date t d) (periods db) = [p]"
    using assms by (auto simp: period_for_date_def split: list.splits)
  then have "p \<in> set (filter (contains_date t d) (periods db))" by simp
  then show ?thesis by simp
qed

lemma validated_lines_length:
  assumes "validated_lines t c cur db = Inr (rs, tot)"
  shows "2 \<le> length rs"
proof -
  have "map_result (resolve_line t db cur (cj_exchange_rate c)) (cj_lines c) = Inr rs" "2 \<le> length (cj_lines c)"
    using assms by (auto simp: validated_lines_def bindr_eq_Inr Let_def split: if_splits)
  then show ?thesis by (auto simp: map_result_Inr_iff dest: list_all2_lengthD)
qed

lemma do_create_Inr:
  assumes "do_create call cp fp db = Inr (res, s)"
  shows "s = db \<or> (\<exists>j ls xs. s = db\<lparr>journals := journals db @ [j], journal_lines := journal_lines db @ ls,
      line_dimensions := line_dimensions db @ xs\<rparr> \<and> new_content db j ls \<and> je_status j = DRAFT \<and> je_reversal j = None
      \<and> (\<exists>p \<in> set (periods db). fp_tenant p = je_tenant j \<and> fp_id p = je_period j))"
proof (cases "find_row source_key (request_source_key (cr_tenant call) (jp_source cp)) (journals db)")
  case (Some e)
  with assms show ?thesis by (auto simp: do_create_def Let_def split: if_splits)
next
  case None
  with assms obtain p rs tot j db1 where p: "period_for_date (cr_tenant call) (cj_posting_date (cr_command call)) db = Inr p"
    and v: "validated_lines (cr_tenant call) (cr_command call) (jp_currency_code cp) db = Inr (rs, tot)"
    and j: "new_journal call cp fp p tot = Inr j" and ins: "insert_journal j db = Inr db1" and add: "add_lines call 1 rs db1 = Inr s"
    by (auto simp: do_create_def bindr_eq_Inr Let_def)
  note jp = new_journal_Inr [OF j] and db1 = insert_journal_Inr [OF ins]
  from add_lines_Inr [OF add] obtain ls xs where
    s: "s = db1\<lparr>journal_lines := journal_lines db1 @ ls, line_dimensions := line_dimensions db1 @ xs\<rparr>"
    and all: "list_all2 (\<lambda>(k, r) l. new_line call k (rl_input r) = Inr l) (zip [1 ..< 1 + length rs] rs) ls"
    and sides: "\<forall>l \<in> set ls. one_side (jl_debit l) (jl_credit l) \<and> one_side (jl_debit_functional l) (jl_credit_functional l)"
    and ids: "distinct (map jl_id ls)" "jl_id ` set ls \<inter> jl_id ` set (journal_lines db1) = {}"
    by blast
  have len: "length ls = length rs" using list_all2_lengthD [OF all] by (simp del: upt_Suc)
  have nth: "new_line call (1 + i) (rl_input (rs ! i)) = Inr (ls ! i)" if "i < length ls" for i
    using list_all2_nthD2 [OF all that] that len by (simp del: upt_Suc add: nth_append)
  have each: "jl_tenant l = je_tenant j \<and> jl_journal l = je_id j \<and> line_ok l" if "l \<in> set ls" for l
  proof -
    from that obtain i where i: "i < length ls" "l = ls ! i" by (auto simp: in_set_conv_nth)
    show ?thesis
      using new_line_Inr [OF nth [OF i(1)]] new_line_bounds [OF nth [OF i(1)]] sides that jp i(2) by (simp add: line_ok_def)
  qed
  have "map jl_number ls = [1 ..< 1 + length ls]"
    using nth new_line_Inr by (intro nth_equalityI) (fastforce simp del: upt_Suc)+
  then have "sorted (map jl_number ls)" by (simp del: upt_Suc)
  then have "new_content db j ls"
    using each ids db1 len validated_lines_length [OF v] by (auto simp: new_content_def)
  moreover have "\<exists>p \<in> set (periods db). fp_tenant p = je_tenant j \<and> fp_id p = je_period j"
    using period_for_date_Inr [OF p] jp by (intro bexI [of _ p]) (auto simp: contains_date_def)
  ultimately show ?thesis
    using s db1 jp by (intro disjI2 exI [of _ j] exI [of _ ls] exI [of _ xs]) simp
qed

text \<open>Taking a successful run apart.\<close>

lemma bindr_InrE: "bindr r f = Inr y \<Longrightarrow> (\<And>x. r = Inr x \<Longrightarrow> f x = Inr y \<Longrightarrow> P) \<Longrightarrow> P"
  by (cases r) simp_all

lemma guard_InrE: "(if b then Inl e else r) = Inr y \<Longrightarrow> (\<not> b \<Longrightarrow> r = Inr y \<Longrightarrow> P) \<Longrightarrow> P"
  by (cases b) simp_all

definition postable :: "fiscal_period \<Rightarrow> uuid option \<Rightarrow> bool" where
  "postable p token \<longleftrightarrow> fp_status p = OPEN \<or> (fp_status p = REOPENED \<and> (\<exists>x. token = Some x \<and> fp_token p = Some x))"

lemma require_postable_period_Inr: "require_postable_period p kind token = Inr u \<Longrightarrow> postable p token"
  by (auto simp: require_postable_period_def postable_def bindr_eq_Inr split: if_splits) metis+

lemma update_journal_Inr:
  "update_journal j q db = Inr s \<Longrightarrow> s = db\<lparr>journals := update_rows (\<lambda>x. je_id x = je_id j) (\<lambda>_. q) (journals db)\<rparr>
     \<and> (je_status j = DRAFT \<longrightarrow> je_status q = POSTED \<longrightarrow> evidence_complete q db)
     \<and> (je_status j \<notin> {DRAFT} \<longrightarrow> reversal_recorded j q db)"
  by (auto simp: update_journal_def bindr_eq_Inr split: if_splits)

definition posted_from :: "posting \<Rightarrow> journal_entry \<Rightarrow> journal_line list \<Rightarrow> ledger_line list \<Rightarrow> bool" where
  "posted_from po j ls ps \<longleftrightarrow> list_all2 (\<lambda>l p. \<exists>a. at_id a = jl_account l \<and> p = ledger_row po (je_tenant j) j a l) ls ps"

lemma append_ledger_Inr:
  assumes "append_ledger po t j db = Inr s" and "je_tenant j = t"
  obtains ps ds where "s = db\<lparr>ledger_lines := ledger_lines db @ ps, ledger_dimensions := ledger_dimensions db @ ds\<rparr>"
    and "posted_from po j (lines_of t (je_id j) db) ps"
  using append_lines_Inr [OF assms(1) [unfolded append_ledger_def]] assms(2) unfolding posted_from_def by blast

lemma evidence_complete_cong:
  "journal_lines a = journal_lines b \<Longrightarrow> ledger_lines a = ledger_lines b \<Longrightarrow> evidence_complete j a = evidence_complete j b"
  by (simp add: evidence_complete_def ledger_of_def)

definition mark_posted :: "journal_entry \<Rightarrow> string \<Rightarrow> string \<Rightarrow> datetime \<Rightarrow> journal_entry" where
  "mark_posted j approval actor t = j\<lparr>je_status := POSTED, je_approval := Some approval, je_posted_by := Some actor,
     je_posted_at := Some t, je_updated_at := t\<rparr>"

lemma mark_posted_simps [simp]:
  "je_id (mark_posted j a b t) = je_id j" "je_tenant (mark_posted j a b t) = je_tenant j" "je_period (mark_posted j a b t) = je_period j"
  "je_status (mark_posted j a b t) = POSTED" "je_reversal (mark_posted j a b t) = je_reversal j" "je_reverses (mark_posted j a b t) = je_reverses j"
  by (simp_all add: mark_posted_def)

lemma do_post_Inr:
  assumes "do_post call approval actor db = Inr (res, s)"
  obtains j p po ps ds where "j \<in> set (journals db)" "je_status j = DRAFT" "je_tenant j = pt_tenant call" "je_id j = pt_journal_id call"
    "p \<in> set (periods db)" "fp_tenant p = je_tenant j" "fp_id p = je_period j" "postable p (pt_reopen_token call)"
    "posted_from po j (lines_of (je_tenant j) (je_id j) db) ps"
    "persisted_balanced j (lines_of (je_tenant j) (je_id j) db) = Inr True"
    "s = db\<lparr>journals := update_rows (\<lambda>x. je_id x = je_id j) (\<lambda>_. mark_posted j approval actor (pt_posted_at call)) (journals db),
             ledger_lines := ledger_lines db @ ps, ledger_dimensions := ledger_dimensions db @ ds\<rparr>"
    "evidence_complete (mark_posted j approval actor (pt_posted_at call)) s"
proof -
  define po where "po = \<lparr>po_posted_by = actor, po_posted_at = pt_posted_at call, po_ledger_id = pt_ledger_id call\<rparr>"
  from assms obtain j where j: "find_journal (pt_tenant call) (pt_journal_id call) db = Inr j" "je_status j = DRAFT" and
    1: "bindr (find_period (pt_tenant call) (je_period j) db) (\<lambda>period.
     bindr (require_postable_period period (je_kind j) (pt_reopen_token call)) (\<lambda>_.
     if \<not> (date_le (fp_start period) (je_posting_date j) \<and> date_le (je_posting_date j) (fp_end period))
     then Inl (InvalidPeriod ''journal posting date is outside its fiscal period'')
     else let lines = lines_of (pt_tenant call) (je_id j) db in
     bindr (require_active_references (pt_tenant call) j db lines) (\<lambda>_.
     bindr (persisted_balanced j lines) (\<lambda>balanced.
     if \<not> balanced then Inl (InvalidJournal ''persisted journal lines are not balanced'')
     else bindr (append_ledger po (pt_tenant call) j db) (\<lambda>db1.
     bindr (update_journal j (mark_posted j approval actor (pt_posted_at call)) db1) (\<lambda>db2.
     Inr (journal_result (je_id j), db2))))))) = Inr (res, s)"
    unfolding do_post_def Let_def po_def mark_posted_def by (elim bindr_InrE guard_InrE) simp
  from 1 obtain p where p: "find_period (pt_tenant call) (je_period j) db = Inr p"
    and pp: "require_postable_period p (je_kind j) (pt_reopen_token call) = Inr ()" and
    2: "bindr (persisted_balanced j (lines_of (pt_tenant call) (je_id j) db)) (\<lambda>balanced.
     if \<not> balanced then Inl (InvalidJournal ''persisted journal lines are not balanced'')
     else bindr (append_ledger po (pt_tenant call) j db) (\<lambda>db1.
     bindr (update_journal j (mark_posted j approval actor (pt_posted_at call)) db1) (\<lambda>db2.
     Inr (journal_result (je_id j), db2)))) = Inr (res, s)"
    unfolding Let_def by (elim bindr_InrE guard_InrE) simp
  from 2 obtain db1 where bal: "persisted_balanced j (lines_of (pt_tenant call) (je_id j) db) = Inr True"
    and app: "append_ledger po (pt_tenant call) j db = Inr db1"
    and up: "update_journal j (mark_posted j approval actor (pt_posted_at call)) db1 = Inr s"
    by (elim bindr_InrE guard_InrE) simp
  note jj = find_journal_Inr [OF j(1)]
  then have t: "je_tenant j = pt_tenant call" by simp
  obtain ps ds where
    db1: "db1 = db\<lparr>ledger_lines := ledger_lines db @ ps, ledger_dimensions := ledger_dimensions db @ ds\<rparr>"
    and all: "posted_from po j (lines_of (je_tenant j) (je_id j) db) ps"
    unfolding t by (rule append_ledger_Inr [OF app t])
  from update_journal_Inr [OF up] j(2) have s: "s = db1\<lparr>journals := update_rows (\<lambda>x. je_id x = je_id j)
      (\<lambda>_. mark_posted j approval actor (pt_posted_at call)) (journals db1)\<rparr>"
    and ev: "evidence_complete (mark_posted j approval actor (pt_posted_at call)) db1" by simp_all
  from ev have "evidence_complete (mark_posted j approval actor (pt_posted_at call)) s"
    by (rule iffD1 [OF evidence_complete_cong, rotated 2]) (simp_all add: s)
  moreover have "s = db\<lparr>journals := update_rows (\<lambda>x. je_id x = je_id j) (\<lambda>_. mark_posted j approval actor (pt_posted_at call)) (journals db),
             ledger_lines := ledger_lines db @ ps, ledger_dimensions := ledger_dimensions db @ ds\<rparr>" by (simp add: s db1)
  ultimately show thesis
    using that [of j p po ps ds] jj j(2) require_postable_period_Inr [OF pp] find_period_Inr [OF p] all bal by simp
qed

text \<open>A reversal: the lines of the original with their sides swapped.\<close>

definition swap_sides :: "journal_line \<Rightarrow> uuid \<times> int \<times> int \<times> int \<times> int" where
  "swap_sides l = (jl_account l, jl_credit_functional l, jl_debit_functional l, jl_credit l, jl_debit l)"

definition sides :: "journal_line \<Rightarrow> uuid \<times> int \<times> int \<times> int \<times> int" where
  "sides l = (jl_account l, jl_debit_functional l, jl_credit_functional l, jl_debit l, jl_credit l)"

lemma sides_reversal_line [simp]: "sides (reversal_line call o1 l) = swap_sides l"
  by (simp add: sides_def swap_sides_def reversal_line_def)

lemma reversal_line_simps [simp]:
  "jl_tenant (reversal_line call o1 l) = rv_tenant call" "jl_journal (reversal_line call o1 l) = rv_journal_id call"
  "jl_number (reversal_line call o1 l) = jl_number l" "jl_id (reversal_line call o1 l) = rv_line_id call (jl_number l)"
  by (simp_all add: reversal_line_def)

lemma line_ok_reversal_line [simp]: "line_ok (reversal_line call o1 l) = line_ok l"
  by (auto simp: line_ok_def reversal_line_def one_side_def)

lemma add_reversal_lines_Inr:
  "add_reversal_lines call o1 ls db = Inr s \<Longrightarrow>
     \<exists>xs. s = db\<lparr>journal_lines := journal_lines db @ map (reversal_line call o1) ls,
               line_dimensions := line_dimensions db @ xs\<rparr>
       \<and> distinct (map jl_id (map (reversal_line call o1) ls))
       \<and> jl_id ` set (map (reversal_line call o1) ls) \<inter> jl_id ` set (journal_lines db) = {}"
proof (induction ls arbitrary: db)
  case Nil
  then show ?case by (intro exI [of _ "[]"]) simp
next
  case (Cons l ls)
  define row where "row = reversal_line call o1 l"
  from Cons.prems obtain db1 db2 xs1 where one: "insert_line row db = Inr db1"
    and dims: "insert_line_dimensions xs1 db1 = Inr db2" and rest: "add_reversal_lines call o1 ls db2 = Inr s"
    unfolding row_def by (auto simp: bindr_eq_Inr Let_def)
  note eqs = insert_line_Inr [OF one] insert_line_dimensions_Inr [OF dims]
  define M where "M = map (reversal_line call o1) ls"
  from Cons.IH [OF rest, folded M_def] obtain xs where
    "s = db2\<lparr>journal_lines := journal_lines db2 @ M, line_dimensions := line_dimensions db2 @ xs\<rparr>"
    "distinct (map jl_id M)" "jl_id ` set M \<inter> jl_id ` set (journal_lines db2) = {}"
    by blast
  moreover have "map (reversal_line call o1) (l # ls) = row # M" by (simp add: row_def M_def)
  ultimately show ?case
    using eqs by (intro exI [of _ "xs1 @ xs"]) auto
qed

lemma sorted_lines_of: "sorted (map jl_number (lines_of t i db))"
  by (simp add: lines_of_def)

lemma set_lines_of: "set (lines_of t i db) = {l \<in> set (journal_lines db). jl_tenant l = t \<and> jl_journal l = i}"
  by (auto simp: lines_of_def)

lemma lines_of_append:
  assumes "\<forall>l \<in> set ls. jl_tenant l = t \<longrightarrow> jl_journal l \<noteq> i"
  shows "lines_of t i (db\<lparr>journal_lines := journal_lines db @ ls, line_dimensions := xs\<rparr>) = lines_of t i db"
  using assms by (auto simp: lines_of_def filter_empty_conv)

lemma lines_of_cong: "journal_lines a = journal_lines b \<Longrightarrow> lines_of t i a = lines_of t i b"
  by (simp add: lines_of_def)

definition mark_reversed :: "journal_entry \<Rightarrow> uuid \<Rightarrow> datetime \<Rightarrow> journal_entry" where
  "mark_reversed j i t = j\<lparr>je_status := REVERSED, je_reversal := Some i, je_updated_at := t\<rparr>"

lemma mark_reversed_simps [simp]:
  "je_id (mark_reversed j i t) = je_id j" "je_tenant (mark_reversed j i t) = je_tenant j" "je_period (mark_reversed j i t) = je_period j"
  "je_status (mark_reversed j i t) = REVERSED" "je_reversal (mark_reversed j i t) = Some i" "je_reverses (mark_reversed j i t) = je_reverses j"
  by (simp_all add: mark_reversed_def)

lemma reversal_entry_simps [simp]:
  "je_id (reversal_entry call rp fp o1 p) = rv_journal_id call" "je_tenant (reversal_entry call rp fp o1 p) = rv_tenant call"
  "je_period (reversal_entry call rp fp o1 p) = fp_id p" "je_status (reversal_entry call rp fp o1 p) = DRAFT"
  "je_reversal (reversal_entry call rp fp o1 p) = None" "je_reverses (reversal_entry call rp fp o1 p) = Some (je_id o1)"
  by (simp_all add: reversal_entry_def Let_def)

lemma do_reverse_Inr:
  assumes "do_reverse call rp fp db = Inr (res, s)" and owned: "\<forall>l \<in> set (journal_lines db). jl_journal l \<in> je_id ` set (journals db)"
  obtains o1 p r po xs ps ds where "o1 \<in> set (journals db)" "je_tenant o1 = rv_tenant call" "je_id o1 = rj_journal_id (rv_command call)"
    "je_status o1 = POSTED" "je_reversal o1 = None"
    "p \<in> set (periods db)" "fp_tenant p = je_tenant o1" "postable p (rj_reopen_token (rv_command call))"
    "r = reversal_entry call rp fp o1 p" "je_id r \<notin> je_id ` set (journals db)"
    "distinct (map jl_id (map (reversal_line call o1) (lines_of (je_tenant o1) (je_id o1) db)))"
    "jl_id ` set (map (reversal_line call o1) (lines_of (je_tenant o1) (je_id o1) db)) \<inter> jl_id ` set (journal_lines db) = {}"
    "posted_from po r (map (reversal_line call o1) (lines_of (je_tenant o1) (je_id o1) db)) ps"
    "s = db\<lparr>journals := update_rows (\<lambda>x. je_id x = je_id o1) (\<lambda>_. mark_reversed o1 (je_id r) (rv_reversed_at call)) (journals db)
              @ [r\<lparr>je_status := POSTED\<rparr>],
            journal_lines := journal_lines db @ map (reversal_line call o1) (lines_of (je_tenant o1) (je_id o1) db),
            line_dimensions := line_dimensions db @ xs,
            ledger_lines := ledger_lines db @ ps, ledger_dimensions := ledger_dimensions db @ ds\<rparr>"
    "evidence_complete (r\<lparr>je_status := POSTED\<rparr>) s"
proof -
  let ?t = "rv_tenant call"
  from assms(1) obtain o1 where o1: "find_journal ?t (rj_journal_id (rv_command call)) db = Inr o1"
      "\<not> (je_status o1 \<noteq> POSTED \<or> je_reversal o1 \<noteq> None)" and
    1: "bindr (period_for_date ?t (rj_posting_date (rv_command call)) db) (\<lambda>period.
     bindr (require_postable_period period REVERSAL (rj_reopen_token (rv_command call))) (\<lambda>_.
     let reversal = reversal_entry call rp fp o1 period in
     bindr (insert_journal reversal db) (\<lambda>db1.
     bindr (add_reversal_lines call o1 (lines_of ?t (je_id o1) db1) db1) (\<lambda>db2.
     bindr (append_ledger \<lparr>po_posted_by = rp_reversed_by rp, po_posted_at = rv_reversed_at call,
         po_ledger_id = rv_ledger_id call\<rparr> ?t reversal db2) (\<lambda>db3.
     bindr (update_journal reversal (reversal\<lparr>je_status := POSTED\<rparr>) db3) (\<lambda>db4.
     bindr (update_journal o1 (mark_reversed o1 (je_id reversal) (rv_reversed_at call)) db4) (\<lambda>db5.
     Inr (journal_result (je_id reversal), db5)))))))) = Inr (res, s)"
    unfolding do_reverse_def Let_def mark_reversed_def by (elim bindr_InrE guard_InrE) simp
  define po where "po = \<lparr>po_posted_by = rp_reversed_by rp, po_posted_at = rv_reversed_at call, po_ledger_id = rv_ledger_id call\<rparr>"
  from 1 obtain p where p: "period_for_date ?t (rj_posting_date (rv_command call)) db = Inr p"
      "require_postable_period p REVERSAL (rj_reopen_token (rv_command call)) = Inr ()" and
    2: "bindr (insert_journal (reversal_entry call rp fp o1 p) db) (\<lambda>db1.
     bindr (add_reversal_lines call o1 (lines_of ?t (je_id o1) db1) db1) (\<lambda>db2.
     bindr (append_ledger po ?t (reversal_entry call rp fp o1 p) db2) (\<lambda>db3.
     bindr (update_journal (reversal_entry call rp fp o1 p) (reversal_entry call rp fp o1 p\<lparr>je_status := POSTED\<rparr>) db3) (\<lambda>db4.
     bindr (update_journal o1 (mark_reversed o1 (je_id (reversal_entry call rp fp o1 p)) (rv_reversed_at call)) db4) (\<lambda>db5.
     Inr (journal_result (je_id (reversal_entry call rp fp o1 p)), db5)))))) = Inr (res, s)"
    unfolding Let_def po_def by (elim bindr_InrE guard_InrE) simp
  define r where "r = reversal_entry call rp fp o1 p"
  from 2 obtain db1 db2 db3 db4 where ins: "insert_journal r db = Inr db1"
    and add: "add_reversal_lines call o1 (lines_of ?t (je_id o1) db1) db1 = Inr db2"
    and app: "append_ledger po ?t r db2 = Inr db3" and up: "update_journal r (r\<lparr>je_status := POSTED\<rparr>) db3 = Inr db4"
    and up2: "update_journal o1 (mark_reversed o1 (je_id r) (rv_reversed_at call)) db4 = Inr s"
    unfolding r_def [symmetric] by (elim bindr_InrE) simp
  note oo = find_journal_Inr [OF o1(1)] and rr = insert_journal_Inr [OF ins]
  have t: "je_tenant r = ?t" "je_tenant o1 = ?t" and rid: "je_id r = rv_journal_id call" using oo by (simp_all add: r_def)
  define L where "L = map (reversal_line call o1) (lines_of ?t (je_id o1) db)"
  have L1: "map (reversal_line call o1) (lines_of ?t (je_id o1) db1) = L" using rr by (simp add: L_def lines_of_def)
  from add_reversal_lines_Inr [OF add] obtain xs where
    db2: "db2 = db1\<lparr>journal_lines := journal_lines db1 @ L, line_dimensions := line_dimensions db1 @ xs\<rparr>"
    and ids: "distinct (map jl_id L)" "jl_id ` set L \<inter> jl_id ` set (journal_lines db1) = {}"
    unfolding L1 by blast
  have own: "lines_of ?t (je_id r) db2 = L"
  proof -
    have "filter (\<lambda>l. jl_tenant l = ?t \<and> jl_journal l = je_id r) (journal_lines db1) = []"
    proof -
      have "jl_journal x \<noteq> je_id r" if "x \<in> set (journal_lines db)" for x using owned rr that by metis
      then show ?thesis using rr by (simp add: filter_empty_conv)
    qed
    moreover have "filter (\<lambda>l. jl_tenant l = ?t \<and> jl_journal l = je_id r) L = L"
      by (auto simp: L_def rid filter_id_conv)
    moreover have "sorted (map jl_number L)" using sorted_lines_of by (simp add: L_def comp_def)
    ultimately show ?thesis by (simp add: lines_of_def db2 sort_key_id_if_sorted)
  qed
  obtain ps ds where
    db3: "db3 = db2\<lparr>ledger_lines := ledger_lines db2 @ ps, ledger_dimensions := ledger_dimensions db2 @ ds\<rparr>"
    and all: "posted_from po r L ps"
    using append_ledger_Inr [OF app t(1)] own by metis
  have db4: "db4 = db3\<lparr>journals := update_rows (\<lambda>x. je_id x = je_id r) (\<lambda>_. r\<lparr>je_status := POSTED\<rparr>) (journals db3)\<rparr>"
    and ev: "evidence_complete (r\<lparr>je_status := POSTED\<rparr>) db3" using update_journal_Inr [OF up] rr by simp_all
  have s: "s = db4\<lparr>journals := update_rows (\<lambda>x. je_id x = je_id o1) (\<lambda>_. mark_reversed o1 (je_id r) (rv_reversed_at call)) (journals db4)\<rparr>"
    using update_journal_Inr [OF up2] by simp
  have ne: "je_id r \<noteq> je_id o1" using rr oo imageI [of o1 "set (journals db)" je_id] by metis
  have rows: "update_rows (\<lambda>x. je_id x = je_id o1) (\<lambda>_. mark_reversed o1 (je_id r) (rv_reversed_at call))
      (update_rows (\<lambda>x. je_id x = je_id r) (\<lambda>_. r\<lparr>je_status := POSTED\<rparr>) (journals db @ [r]))
    = update_rows (\<lambda>x. je_id x = je_id o1) (\<lambda>_. mark_reversed o1 (je_id r) (rv_reversed_at call)) (journals db) @ [r\<lparr>je_status := POSTED\<rparr>]"
  proof -
    have "je_id x \<noteq> je_id r" if "x \<in> set (journals db)" for x using rr that by (metis imageI)
    then have "update_rows (\<lambda>x. je_id x = je_id r) (\<lambda>_. r\<lparr>je_status := POSTED\<rparr>) (journals db) = journals db"
      by (simp add: update_rows_def map_idI)
    then show ?thesis using ne by (simp add: update_rows_def)
  qed
  have "evidence_complete (r\<lparr>je_status := POSTED\<rparr>) s"
    using ev by (rule iffD1 [OF evidence_complete_cong, rotated 2]) (simp_all add: s db4)
  moreover have "s = db\<lparr>journals := update_rows (\<lambda>x. je_id x = je_id o1) (\<lambda>_. mark_reversed o1 (je_id r) (rv_reversed_at call)) (journals db)
              @ [r\<lparr>je_status := POSTED\<rparr>],
            journal_lines := journal_lines db @ L, line_dimensions := line_dimensions db @ xs,
            ledger_lines := ledger_lines db @ ps, ledger_dimensions := ledger_dimensions db @ ds\<rparr>"
    using rr rows by (simp add: s db4 db3 db2)
  ultimately show thesis
    using that [of o1 p r po ps ds xs] oo o1(2) period_for_date_Inr [OF p(1)] require_postable_period_Inr [OF p(2)] rr ids all
    by (auto simp: r_def L_def contains_date_def)
qed

subsection \<open>The invariant of the periods\<close>

definition period_history :: "fiscal_period \<Rightarrow> accounting_db \<Rightarrow> period_event list" where
  "period_history p db = filter (\<lambda>e. pe_tenant e = fp_tenant p \<and> pe_period e = fp_id p) (period_events db)"

text \<open>The events tell a path of legal transitions from one status to another.\<close>

fun status_path :: "PeriodStatus \<Rightarrow> period_event list \<Rightarrow> PeriodStatus \<Rightarrow> bool" where
  "status_path a [] b \<longleftrightarrow> a = b"
| "status_path a (e # es) b \<longleftrightarrow> pe_from e = period_status_value a
     \<and> (\<exists>c. pe_to e = period_status_value c \<and> legal_transition a c \<and> status_path c es b)"

lemma status_path_snoc:
  "status_path a es b \<Longrightarrow> legal_transition b c \<Longrightarrow> pe_from e = period_status_value b \<Longrightarrow> pe_to e = period_status_value c
    \<Longrightarrow> status_path a (es @ [e]) c"
  by (induction es arbitrary: a) auto

definition period_ok :: "accounting_db \<Rightarrow> fiscal_period \<Rightarrow> bool" where
  "period_ok db p \<longleftrightarrow> (fp_token p \<noteq> None \<longleftrightarrow> fp_status p = REOPENED) \<and> status_path FUTURE (period_history p db) (fp_status p)
     \<and> (\<exists>y \<in> set (years db). fy_tenant y = fp_tenant p \<and> fy_id y = fp_year p
          \<and> date_le (fy_start y) (fp_start p) \<and> date_le (fp_end p) (fy_end y))"

definition periods_inv :: "accounting_db \<Rightarrow> bool" where
  "periods_inv db \<longleftrightarrow> distinct (map fy_id (years db)) \<and> distinct (map fp_id (periods db))
     \<and> (\<forall>p \<in> set (periods db). period_ok db p)
     \<and> (\<forall>x \<in> set (years db). \<forall>y \<in> set (years db). fy_tenant x = fy_tenant y
          \<longrightarrow> overlaps (fy_start x) (fy_end x) (fy_start y) (fy_end y) \<longrightarrow> fy_id x = fy_id y)
     \<and> (\<forall>p \<in> set (periods db). \<forall>q \<in> set (periods db). fp_tenant p = fp_tenant q \<longrightarrow> fp_year p = fp_year q
          \<longrightarrow> overlaps (fp_start p) (fp_end p) (fp_start q) (fp_end q) \<longrightarrow> fp_id p = fp_id q)
     \<and> (\<forall>e \<in> set (period_events db). pe_period e \<in> fp_id ` set (periods db))"

lemma overlaps_sym: "overlaps a b c d \<Longrightarrow> overlaps c d a b"
  by (simp add: overlaps_def)

lemma periods_inv_cong:
  assumes "years a = years b" and "periods a = periods b" and "period_events a = period_events b"
  shows "periods_inv a = periods_inv b"
  using assms by (simp add: periods_inv_def period_ok_def period_history_def)

lemma create_fiscal_year_Inr:
  assumes "create_fiscal_year t i c db = Inr (y, s)"
  shows "s = db\<lparr>years := years db @ [y]\<rparr> \<and> fy_tenant y = t \<and> fy_id y \<notin> fy_id ` set (years db)
    \<and> (\<forall>x \<in> set (years db). fy_tenant x = t \<longrightarrow> \<not> overlaps (fy_start x) (fy_end x) (fy_start y) (fy_end y))"
  using assms by (auto simp: create_fiscal_year_def bindr_eq_Inr Let_def flush_unique_def year_accepted_def list_ex_iff split: if_splits)

lemma create_fiscal_period_Inr:
  assumes "create_fiscal_period t i c db = Inr (p, s)"
  shows "s = db\<lparr>periods := periods db @ [p]\<rparr> \<and> fp_tenant p = t \<and> fp_id p \<notin> fp_id ` set (periods db)
    \<and> fp_status p = FUTURE \<and> fp_token p = None
    \<and> (\<exists>y \<in> set (years db). fy_tenant y = fp_tenant p \<and> fy_id y = fp_year p
          \<and> date_le (fy_start y) (fp_start p) \<and> date_le (fp_end p) (fy_end y))
    \<and> (\<forall>x \<in> set (periods db). fp_tenant x = t \<longrightarrow> fp_year x = fp_year p \<longrightarrow> \<not> overlaps (fp_start x) (fp_end x) (fp_start p) (fp_end p))"
proof -
  from assms obtain y where y: "find_year t (cfp_fiscal_year_id c) db = Inr y" and
    1: "date_le (fy_start y) (cfp_start_date c)" "date_le (cfp_end_date c) (fy_end y)"
      "\<not> list_ex (\<lambda>p. fp_tenant p = t \<and> fp_year p = fy_id y
             \<and> overlaps (fp_start p) (fp_end p) (cfp_start_date c) (cfp_end_date c)) (periods db)" and
    2: "\<exists>name. p = \<lparr>fp_id = i, fp_tenant = t, fp_year = fy_id y, fp_number = cfp_period_number c, fp_name = name,
                 fp_start = cfp_start_date c, fp_end = cfp_end_date c, fp_adjustment = cfp_is_adjustment c,
                 fp_status = FUTURE, fp_token = None\<rparr>" "period_accepted db p" "s = db\<lparr>periods := periods db @ [p]\<rparr>"
    by (auto simp: create_fiscal_period_def bindr_eq_Inr Let_def flush_unique_def split: if_splits)
  from 2 obtain name where p: "p = \<lparr>fp_id = i, fp_tenant = t, fp_year = fy_id y, fp_number = cfp_period_number c, fp_name = name,
                 fp_start = cfp_start_date c, fp_end = cfp_end_date c, fp_adjustment = cfp_is_adjustment c,
                 fp_status = FUTURE, fp_token = None\<rparr>" by blast
  have "fp_id p \<notin> fp_id ` set (periods db)" using 2(2) by (simp add: period_accepted_def)
  then show ?thesis
    using 1 2(3) find_year_Inr [OF y] by (auto simp: p list_ex_iff)
qed

lemma all_pairs_snoc:
  "(\<forall>x \<in> set (xs @ [y]). \<forall>z \<in> set (xs @ [y]). R x z) \<longleftrightarrow>
     (\<forall>x \<in> set xs. \<forall>z \<in> set xs. R x z) \<and> (\<forall>x \<in> set xs. R x y \<and> R y x) \<and> R y y"
  by auto

lemma periods_inv_year:
  assumes "periods_inv db" and "create_fiscal_year t i c db = Inr (y, s)"
  shows "periods_inv s"
proof -
  note y = create_fiscal_year_Inr [OF assms(2)]
  have "period_ok s p" if "period_ok db p" for p
    using that y by (auto simp: period_ok_def period_history_def)
  moreover have "\<forall>x \<in> set (years db). fy_tenant x = fy_tenant y \<longrightarrow> \<not> overlaps (fy_start x) (fy_end x) (fy_start y) (fy_end y)
      \<and> \<not> overlaps (fy_start y) (fy_end y) (fy_start x) (fy_end x)"
    using y overlaps_sym by metis
  ultimately show ?thesis
    using assms(1) y unfolding periods_inv_def by (simp add: all_pairs_snoc del: set_append)
qed

lemma periods_inv_period:
  assumes "periods_inv db" and "create_fiscal_period t i c db = Inr (p, s)"
  shows "periods_inv s"
proof -
  note p = create_fiscal_period_Inr [OF assms(2)]
  have old: "period_ok s q" if "period_ok db q" for q
    using that p by (auto simp: period_ok_def period_history_def)
  have "pe_period e \<noteq> fp_id p" if "e \<in> set (period_events db)" for e
    using assms(1) p that unfolding periods_inv_def by metis
  then have "period_history p db = []"
    by (simp add: period_history_def filter_empty_conv)
  then have new: "period_ok s p"
    using p by (auto simp: period_ok_def period_history_def)
  have "\<forall>x \<in> set (periods db). fp_tenant x = fp_tenant p \<longrightarrow> fp_year x = fp_year p
      \<longrightarrow> \<not> overlaps (fp_start x) (fp_end x) (fp_start p) (fp_end p) \<and> \<not> overlaps (fp_start p) (fp_end p) (fp_start x) (fp_end x)"
    using p overlaps_sym by metis
  with old new show ?thesis
    using assms(1) p unfolding periods_inv_def by (simp add: all_pairs_snoc del: set_append) auto
qed

lemma same_definition:
  assumes "q\<lparr>fp_status := FUTURE, fp_token := None\<rparr> = p\<lparr>fp_status := FUTURE, fp_token := None\<rparr>"
  shows "fp_id q = fp_id p" "fp_tenant q = fp_tenant p" "fp_year q = fp_year p" "fp_start q = fp_start p" "fp_end q = fp_end p"
  using arg_cong [OF assms, of fp_id] arg_cong [OF assms, of fp_tenant] arg_cong [OF assms, of fp_year]
    arg_cong [OF assms, of fp_start] arg_cong [OF assms, of fp_end] by simp_all

lemma periods_inv_moves:
  assumes inv: "periods_inv db" and moves: "period_moves db p q e s"
  shows "periods_inv s"
proof -
  have p: "p \<in> set (periods db)" and legal: "legal_transition (fp_status p) (fp_status q)"
    and token: "fp_token q \<noteq> None \<longleftrightarrow> fp_status q = REOPENED"
    and ev: "pe_tenant e = fp_tenant p" "pe_period e = fp_id p" "pe_from e = period_status_value (fp_status p)"
      "pe_to e = period_status_value (fp_status q)"
    and s: "s = db\<lparr>periods := update_rows (\<lambda>x. fp_id x = fp_id p) (\<lambda>_. q) (periods db), period_events := period_events db @ [e]\<rparr>"
    and same: "q\<lparr>fp_status := FUTURE, fp_token := None\<rparr> = p\<lparr>fp_status := FUTURE, fp_token := None\<rparr>"
    using moves unfolding period_moves_def by blast+
  note sd = same_definition [OF same]
  have ids: "distinct (map fp_id (periods db))" using inv by (simp add: periods_inv_def)
  have uniq: "\<forall>x \<in> set (periods db). fp_id x = fp_id p \<longrightarrow> x = p"
    using distinct_key_eq [OF ids _ p] by blast
  have fields: "map fp_id (periods s) = map fp_id (periods db)"
    unfolding s using replace_row_keys [of fp_id q p "periods db" fp_id "fp_id p"] sd uniq by simp
  have rows: "x = q \<or> (x \<in> set (periods db) \<and> fp_id x \<noteq> fp_id p)" if "x \<in> set (periods s)" for x
    using that unfolding s by (auto dest: set_replace_row)
  have origin: "\<exists>y \<in> set (periods db). fp_id y = fp_id x \<and> fp_tenant y = fp_tenant x \<and> fp_year y = fp_year x
      \<and> fp_start y = fp_start x \<and> fp_end y = fp_end x" if "x \<in> set (periods s)" for x
    using rows [OF that] p sd by metis
  have ok: "period_ok s x" if x: "x \<in> set (periods s)" for x
    using rows [OF x]
  proof
    assume x: "x = q"
    have "period_ok db p" using inv p by (simp add: periods_inv_def)
    moreover have "period_history q s = period_history p db @ [e]" by (simp add: period_history_def s sd ev)
    ultimately show ?thesis
      using token status_path_snoc [OF _ legal ev(3,4)] sd x by (auto simp: period_ok_def s)
  next
    assume x: "x \<in> set (periods db) \<and> fp_id x \<noteq> fp_id p"
    then have "period_history x s = period_history x db" by (simp add: period_history_def s ev)
    then show ?thesis using x inv by (auto simp: period_ok_def periods_inv_def s)
  qed
  have events: "\<forall>e \<in> set (period_events s). pe_period e \<in> fp_id ` set (periods s)"
  proof -
    have "fp_id ` set (periods s) = fp_id ` set (periods db)" using arg_cong [OF fields, of set] by simp
    then show ?thesis using inv p ev by (auto simp: s periods_inv_def)
  qed
  have pairs: "fp_id x = fp_id y" if "x \<in> set (periods s)" "y \<in> set (periods s)" "fp_tenant x = fp_tenant y" "fp_year x = fp_year y"
    "overlaps (fp_start x) (fp_end x) (fp_start y) (fp_end y)" for x y
    using origin [OF that(1)] origin [OF that(2)] that(3-5) inv unfolding periods_inv_def by metis
  have kept: "years s = years db" by (simp add: s)
  have "distinct (map fp_id (periods s))" using ids fields by simp
  then show ?thesis
    using inv ok events pairs unfolding periods_inv_def kept by blast
qed

text \<open>Two periods of a tenant that share a day are one.\<close>

lemma period_unique:
  assumes "periods_inv db" and "p \<in> set (periods db)" and "q \<in> set (periods db)"
    and "contains_date t d p" and "contains_date t d q"
  shows "p = q"
proof -
  have year: "\<exists>y \<in> set (years db). fy_tenant y = t \<and> fy_id y = fp_year x
      \<and> date_le (fy_start y) (fp_start x) \<and> date_le (fp_end x) (fy_end y)" if "x \<in> set (periods db)" "contains_date t d x" for x
    using assms(1) that by (auto simp: periods_inv_def period_ok_def contains_date_def)
  obtain y where y: "y \<in> set (years db)" "fy_tenant y = t" "fy_id y = fp_year p"
      "date_le (fy_start y) (fp_start p)" "date_le (fp_end p) (fy_end y)"
    using year [OF assms(2,4)] by blast
  obtain z where z: "z \<in> set (years db)" "fy_tenant z = t" "fy_id z = fp_year q"
      "date_le (fy_start z) (fp_start q)" "date_le (fp_end q) (fy_end z)"
    using year [OF assms(3,5)] by blast
  have "overlaps (fy_start y) (fy_end y) (fy_start z) (fy_end z)"
    using assms(4,5) y z date_le_trans unfolding overlaps_def contains_date_def by metis
  then have "fp_year p = fp_year q" using assms(1) y z unfolding periods_inv_def by metis
  moreover have "overlaps (fp_start p) (fp_end p) (fp_start q) (fp_end q)"
    using assms(4,5) date_le_trans unfolding overlaps_def contains_date_def by metis
  ultimately have "fp_id p = fp_id q" using assms unfolding periods_inv_def contains_date_def by metis
  then show ?thesis using assms(1-3) distinct_key_eq [of fp_id "periods db"] by (simp add: periods_inv_def)
qed

subsection \<open>The invariant of the books\<close>

text \<open>What a ledger row and the line it posts have in common.\<close>

definition posted_view :: "ledger_line \<Rightarrow> uuid \<times> uuid \<times> int \<times> int \<times> int \<times> int" where
  "posted_view p = (pl_line p, pl_account p, pl_debit p, pl_credit p, pl_original_debit p, pl_original_credit p)"

definition line_view :: "journal_line \<Rightarrow> uuid \<times> uuid \<times> int \<times> int \<times> int \<times> int" where
  "line_view l = (jl_id l, jl_account l, jl_debit_functional l, jl_credit_functional l, jl_debit l, jl_credit l)"

definition in_ledger :: "accounting_db \<Rightarrow> journal_entry \<Rightarrow> bool" where
  "in_ledger db j \<longleftrightarrow> map posted_view (ledger_of (je_tenant j) (je_id j) db) = map line_view (lines_of (je_tenant j) (je_id j) db)
     \<and> evidence_complete j db"

definition reversed_by :: "accounting_db \<Rightarrow> journal_entry \<Rightarrow> journal_entry \<Rightarrow> bool" where
  "reversed_by db j r \<longleftrightarrow> je_tenant r = je_tenant j \<and> je_reversal j = Some (je_id r) \<and> je_reverses r = Some (je_id j)
     \<and> je_id r \<noteq> je_id j \<and> je_status r \<in> {POSTED, REVERSED}
     \<and> map sides (lines_of (je_tenant r) (je_id r) db) = map swap_sides (lines_of (je_tenant j) (je_id j) db)"

definition journal_ok :: "accounting_db \<Rightarrow> journal_entry \<Rightarrow> bool" where
  "journal_ok db j \<longleftrightarrow> 2 \<le> length (lines_of (je_tenant j) (je_id j) db) \<and> (case je_status j of
     DRAFT \<Rightarrow> ledger_of (je_tenant j) (je_id j) db = [] \<and> je_reversal j = None
   | POSTED \<Rightarrow> in_ledger db j \<and> je_reversal j = None
   | REVERSED \<Rightarrow> in_ledger db j \<and> (\<exists>r \<in> set (journals db). reversed_by db j r)
   | VOID \<Rightarrow> False)"

definition books_inv :: "accounting_db \<Rightarrow> bool" where
  "books_inv db \<longleftrightarrow> distinct (map je_id (journals db)) \<and> distinct (map jl_id (journal_lines db))
     \<and> (\<forall>l \<in> set (journal_lines db). line_ok l \<and> (\<exists>j \<in> set (journals db). je_tenant j = jl_tenant l \<and> je_id j = jl_journal l))
     \<and> (\<forall>p \<in> set (ledger_lines db). \<exists>j \<in> set (journals db). je_tenant j = pl_tenant p \<and> je_id j = pl_journal p \<and> je_period j = pl_period p)
     \<and> (\<forall>j \<in> set (journals db). journal_ok db j)"

text \<open>A journal keeps its property when its own rows and those of its reversal stay.\<close>

lemma journal_ok_frame:
  assumes ok: "journal_ok db j" and j: "j \<in> set (journals db)"
    and lines: "\<And>x. x \<in> set (journals db) \<Longrightarrow> lines_of (je_tenant x) (je_id x) s = lines_of (je_tenant x) (je_id x) db"
    and evidence: "evidence_complete j s = evidence_complete j db"
    and posted: "ledger_of (je_tenant j) (je_id j) s = ledger_of (je_tenant j) (je_id j) db"
    and kept: "\<And>r. r \<in> set (journals db) \<Longrightarrow> je_status r \<in> {POSTED, REVERSED} \<Longrightarrow> \<exists>r' \<in> set (journals s). je_tenant r' = je_tenant r \<and> je_id r' = je_id r
        \<and> je_reverses r' = je_reverses r \<and> je_status r' \<in> {POSTED, REVERSED}"
  shows "journal_ok s j"
proof -
  have rev: "\<exists>r \<in> set (journals s). reversed_by s j r" if "\<exists>r \<in> set (journals db). reversed_by db j r"
  proof -
    from that obtain r where r: "r \<in> set (journals db)" "reversed_by db j r" by blast
    then have "je_status r \<in> {POSTED, REVERSED}" by (simp add: reversed_by_def)
    from kept [OF r(1) this] obtain r' where r': "r' \<in> set (journals s)" "je_tenant r' = je_tenant r" "je_id r' = je_id r"
      "je_reverses r' = je_reverses r" "je_status r' \<in> {POSTED, REVERSED}" by blast
    have "reversed_by s j r'"
      using r(2) r'(2-5) lines [OF r(1)] lines [OF j] unfolding reversed_by_def by clarsimp
    with r'(1) show ?thesis by blast
  qed
  have "in_ledger s j = in_ledger db j"
    unfolding in_ledger_def lines [OF j] posted evidence ..
  then show ?thesis
    using ok rev unfolding journal_ok_def lines [OF j] posted by (cases "je_status j") simp_all
qed

lemma evidence_frame:
  assumes "filter (\<lambda>l. jl_tenant l = je_tenant j \<and> jl_journal l = je_id j) (journal_lines s)
      = filter (\<lambda>l. jl_tenant l = je_tenant j \<and> jl_journal l = je_id j) (journal_lines db)"
    and "ledger_of (je_tenant j) (je_id j) s = ledger_of (je_tenant j) (je_id j) db"
  shows "evidence_complete j s = evidence_complete j db"
  unfolding evidence_complete_def assms ..

lemma journal_ok_cong:
  assumes "journals a = journals b" "journal_lines a = journal_lines b" "ledger_lines a = ledger_lines b"
  shows "journal_ok a j = journal_ok b j"
  unfolding journal_ok_def in_ledger_def reversed_by_def ledger_of_def lines_of_def evidence_complete_def assms ..

lemma books_inv_cong:
  assumes "journals a = journals b" "journal_lines a = journal_lines b" "ledger_lines a = ledger_lines b"
  shows "books_inv a = books_inv b"
  unfolding books_inv_def journal_ok_cong [OF assms] unfolding assms ..

text \<open>New rows that belong to a new journal.\<close>

lemma lines_of_other:
  assumes "journal_lines s = journal_lines db @ ls" and "\<forall>l \<in> set ls. jl_journal l \<noteq> i"
  shows "lines_of t i s = lines_of t i db"
    and "filter (\<lambda>l. jl_tenant l = t \<and> jl_journal l = i) (journal_lines s) = filter (\<lambda>l. jl_tenant l = t \<and> jl_journal l = i) (journal_lines db)"
proof -
  have "filter (\<lambda>l. jl_tenant l = t \<and> jl_journal l = i) ls = []" using assms(2) by (auto simp: filter_empty_conv)
  then show "lines_of t i s = lines_of t i db"
    and "filter (\<lambda>l. jl_tenant l = t \<and> jl_journal l = i) (journal_lines s) = filter (\<lambda>l. jl_tenant l = t \<and> jl_journal l = i) (journal_lines db)"
    by (simp_all add: lines_of_def assms(1))
qed

lemma ledger_of_other:
  assumes "ledger_lines s = ledger_lines db @ ps" and "\<forall>p \<in> set ps. pl_journal p \<noteq> i"
  shows "ledger_of t i s = ledger_of t i db"
proof -
  have "filter (\<lambda>p. pl_tenant p = t \<and> pl_journal p = i) ps = []" using assms(2) by (auto simp: filter_empty_conv)
  then show ?thesis by (simp add: ledger_of_def assms(1))
qed

lemma lines_of_new:
  assumes inv: "books_inv db" and s: "journal_lines s = journal_lines db @ ls" and new: "new_content db j ls"
  shows "lines_of (je_tenant j) (je_id j) s = ls"
proof -
  have "jl_journal l \<noteq> je_id j" if "l \<in> set (journal_lines db)" for l
    using inv new that unfolding books_inv_def new_content_def by (metis imageI)
  then have "filter (\<lambda>l. jl_tenant l = je_tenant j \<and> jl_journal l = je_id j) (journal_lines db) = []"
    by (simp add: filter_empty_conv)
  moreover have "filter (\<lambda>l. jl_tenant l = je_tenant j \<and> jl_journal l = je_id j) ls = ls"
    using new by (simp add: new_content_def filter_id_conv)
  ultimately show ?thesis
    using new by (simp add: lines_of_def s new_content_def sort_key_id_if_sorted)
qed

lemma ledger_of_new:
  assumes inv: "books_inv db" and "je_id j \<notin> je_id ` set (journals db)"
  shows "ledger_of t (je_id j) db = []"
proof -
  have "pl_journal p \<noteq> je_id j" if "p \<in> set (ledger_lines db)" for p
    using inv assms(2) that unfolding books_inv_def by (metis imageI)
  then show ?thesis by (simp add: ledger_of_def filter_empty_conv)
qed

lemma posted_from_rows:
  assumes "posted_from po j ls ps"
  shows "\<forall>p \<in> set ps. pl_tenant p = je_tenant j \<and> pl_journal p = je_id j \<and> pl_period p = je_period j"
    and "map posted_view ps = map line_view ls"
proof -
  show "\<forall>p \<in> set ps. pl_tenant p = je_tenant j \<and> pl_journal p = je_id j \<and> pl_period p = je_period j"
    using assms unfolding posted_from_def by (induction rule: list_all2_induct) (auto simp: ledger_row_def)
  show "map posted_view ps = map line_view ls"
    using assms unfolding posted_from_def
    by (induction rule: list_all2_induct) (auto simp: ledger_row_def posted_view_def line_view_def)
qed

lemma ledger_of_posted:
  assumes "posted_from po j ls ps" and "ledger_lines s = ledger_lines db @ ps" and "ledger_of (je_tenant j) (je_id j) db = []"
  shows "ledger_of (je_tenant j) (je_id j) s = ps"
proof -
  have "filter (\<lambda>p. pl_tenant p = je_tenant j \<and> pl_journal p = je_id j) ps = ps"
    using posted_from_rows(1) [OF assms(1)] by (simp add: filter_id_conv)
  then show ?thesis using assms(2,3) by (simp add: ledger_of_def)
qed

lemma books_inv_drafted:
  assumes inv: "books_inv db" and new: "new_content db j ls" and draft: "je_status j = DRAFT" "je_reversal j = None"
    and s: "s = db\<lparr>journals := journals db @ [j], journal_lines := journal_lines db @ ls, line_dimensions := xs\<rparr>"
  shows "books_inv s"
proof -
  have rows: "journals s = journals db @ [j]" "journal_lines s = journal_lines db @ ls" "ledger_lines s = ledger_lines db @ []"
    by (simp_all add: s)
  have fresh: "je_id j \<notin> je_id ` set (journals db)" and len: "2 \<le> length ls"
    and own: "\<forall>l \<in> set ls. jl_tenant l = je_tenant j \<and> jl_journal l = je_id j \<and> line_ok l"
    using new by (simp_all add: new_content_def)
  have other: "\<forall>l \<in> set ls. jl_journal l \<noteq> je_id x" if "x \<in> set (journals db)" for x
    using own fresh that by (metis imageI)
  have ok: "journal_ok s x" if x: "x \<in> set (journals db)" for x
  proof (rule journal_ok_frame [of db x])
    show "journal_ok db x" using inv x by (simp add: books_inv_def)
    show "evidence_complete x s = evidence_complete x db"
      by (rule evidence_frame, rule lines_of_other(2) [OF rows(2) other [OF x]]) (simp add: ledger_of_def rows)
    show "\<exists>r' \<in> set (journals s). je_tenant r' = je_tenant r \<and> je_id r' = je_id r
        \<and> je_reverses r' = je_reverses r \<and> je_status r' \<in> {POSTED, REVERSED}"
      if "r \<in> set (journals db)" "je_status r \<in> {POSTED, REVERSED}" for r using that by (intro bexI [of _ r]) (auto simp: rows)
  qed (use x lines_of_other(1) [OF rows(2) other] in \<open>simp_all add: ledger_of_def rows\<close>)
  have "journal_ok s j"
    using lines_of_new [OF inv rows(2) new] ledger_of_new [OF inv fresh] len draft by (simp add: journal_ok_def ledger_of_def rows)
  with ok have "\<forall>x \<in> set (journals s). journal_ok s x" by (simp add: rows)
  moreover have "\<forall>l \<in> set (journal_lines s). line_ok l \<and> (\<exists>x \<in> set (journals s). je_tenant x = jl_tenant l \<and> je_id x = jl_journal l)"
    using inv own by (auto simp: rows books_inv_def)
  moreover have "distinct (map je_id (journals s))" "distinct (map jl_id (journal_lines s))"
    using inv new by (auto simp: rows books_inv_def new_content_def)
  moreover have "\<forall>p \<in> set (ledger_lines s). \<exists>x \<in> set (journals s). je_tenant x = pl_tenant p \<and> je_id x = pl_journal p \<and> je_period x = pl_period p"
    using inv by (auto simp: rows books_inv_def)
  ultimately show ?thesis by (simp only: books_inv_def)
qed

text \<open>Replacing the row of a journal by one with the same identity.\<close>

lemma replaced_journal:
  assumes "distinct (map je_id (journals db))" and "j \<in> set (journals db)" and "je_id q = je_id j" and "je_tenant q = je_tenant j" and "je_period q = je_period j"
  defines "rows \<equiv> update_rows (\<lambda>x. je_id x = je_id j) (\<lambda>_. q) (journals db)"
  shows "map je_id rows = map je_id (journals db)"
    and "\<And>x. x \<in> set rows \<Longrightarrow> x = q \<or> (x \<in> set (journals db) \<and> je_id x \<noteq> je_id j)"
    and "\<And>t i. (\<exists>x \<in> set (journals db). je_tenant x = t \<and> je_id x = i) \<Longrightarrow> \<exists>x \<in> set rows. je_tenant x = t \<and> je_id x = i"
    and "\<And>t i p. (\<exists>x \<in> set (journals db). je_tenant x = t \<and> je_id x = i \<and> je_period x = p) \<Longrightarrow>
      \<exists>x \<in> set rows. je_tenant x = t \<and> je_id x = i \<and> je_period x = p"
    and "q \<in> set rows" and "\<And>x. x \<in> set (journals db) \<Longrightarrow> je_id x \<noteq> je_id j \<Longrightarrow> x \<in> set rows"
proof -
  have uniq: "\<forall>x \<in> set (journals db). je_id x = je_id j \<longrightarrow> x = j"
    using distinct_key_eq [OF assms(1) _ assms(2)] by blast
  show "map je_id rows = map je_id (journals db)"
    unfolding rows_def using replace_row_keys [of je_id q j "journals db" je_id "je_id j"] uniq assms(3) by simp
  show "x = q \<or> (x \<in> set (journals db) \<and> je_id x \<noteq> je_id j)" if "x \<in> set rows" for x
    using that unfolding rows_def by (auto dest: set_replace_row)
  show q: "q \<in> set rows" unfolding rows_def using replace_row_mem [of j "journals db" je_id "je_id j" q] assms(2) by simp
  show keep: "x \<in> set rows" if "x \<in> set (journals db)" "je_id x \<noteq> je_id j" for x
    unfolding rows_def using replace_row_other [of x "journals db" je_id "je_id j" q] that by simp
  show "\<exists>x \<in> set rows. je_tenant x = t \<and> je_id x = i" if "\<exists>x \<in> set (journals db). je_tenant x = t \<and> je_id x = i" for t i
    using that uniq q keep assms(3,4) by metis
  show "\<exists>x \<in> set rows. je_tenant x = t \<and> je_id x = i \<and> je_period x = p"
    if "\<exists>x \<in> set (journals db). je_tenant x = t \<and> je_id x = i \<and> je_period x = p" for t i p
    using that uniq q keep assms(3,4,5) by metis
qed

lemma books_inv_posted:
  assumes inv: "books_inv db" and j: "j \<in> set (journals db)" "je_status j = DRAFT"
    and booked: "posted_from po j (lines_of (je_tenant j) (je_id j) db) ps"
    and s: "s = db\<lparr>journals := update_rows (\<lambda>x. je_id x = je_id j) (\<lambda>_. mark_posted j approval actor t) (journals db),
             ledger_lines := ledger_lines db @ ps, ledger_dimensions := ds\<rparr>"
    and evidence: "evidence_complete (mark_posted j approval actor t) s"
  shows "books_inv s"
proof -
  let ?q = "mark_posted j approval actor t"
  have ids: "distinct (map je_id (journals db))" using inv by (simp add: books_inv_def)
  have rows: "journal_lines s = journal_lines db @ []" "ledger_lines s = ledger_lines db @ ps"
    "journals s = update_rows (\<lambda>x. je_id x = je_id j) (\<lambda>_. ?q) (journals db)" by (simp_all add: s)
  note rep = replaced_journal [OF ids j(1), of ?q, simplified, folded rows(3)]
  have jok: "journal_ok db j" using inv j by (simp add: books_inv_def)
  then have none: "ledger_of (je_tenant j) (je_id j) db = []" "je_reversal j = None" "2 \<le> length (lines_of (je_tenant j) (je_id j) db)"
    using j by (simp_all add: journal_ok_def)
  have lines: "lines_of t i s = lines_of t i db" for t i by (simp add: lines_of_def rows)
  have ok: "journal_ok s x" if x: "x \<in> set (journals db)" "je_id x \<noteq> je_id j" for x
  proof (rule journal_ok_frame [of db x])
    show "journal_ok db x" using inv x by (simp add: books_inv_def)
    show posted: "ledger_of (je_tenant x) (je_id x) s = ledger_of (je_tenant x) (je_id x) db"
      by (rule ledger_of_other [OF rows(2)]) (use posted_from_rows(1) [OF booked] x(2) in auto)
    show "evidence_complete x s = evidence_complete x db"
      by (rule evidence_frame) (simp_all add: rows posted)
    show "\<exists>r' \<in> set (journals s). je_tenant r' = je_tenant r \<and> je_id r' = je_id r
        \<and> je_reverses r' = je_reverses r \<and> je_status r' \<in> {POSTED, REVERSED}"
      if r: "r \<in> set (journals db)" "je_status r \<in> {POSTED, REVERSED}" for r
    proof (cases "je_id r = je_id j")
      case True
      then have "r = j" using distinct_key_eq [OF ids r(1) j(1)] by simp
      with r(2) j(2) show ?thesis by simp
    next
      case False
      with rep(6) [OF r(1)] r(2) show ?thesis by blast
    qed
  qed (use x lines in simp_all)
  have "in_ledger s ?q"
    using evidence ledger_of_posted [OF booked rows(2) none(1)] posted_from_rows(2) [OF booked] by (simp add: in_ledger_def lines)
  then have "journal_ok s ?q" using none by (simp add: journal_ok_def lines)
  with ok have "\<forall>x \<in> set (journals s). journal_ok s x" using rep(2) by blast
  moreover have "\<forall>l \<in> set (journal_lines s). line_ok l \<and> (\<exists>x \<in> set (journals s). je_tenant x = jl_tenant l \<and> je_id x = jl_journal l)"
    using inv rep(3) by (simp add: rows(1) books_inv_def)
  moreover have "distinct (map je_id (journals s))" "distinct (map jl_id (journal_lines s))"
    using inv rep(1) by (simp_all add: rows(1) books_inv_def)
  moreover have "\<forall>p \<in> set (ledger_lines s). \<exists>x \<in> set (journals s). je_tenant x = pl_tenant p \<and> je_id x = pl_journal p \<and> je_period x = pl_period p"
  proof
    fix p assume "p \<in> set (ledger_lines s)"
    then consider "p \<in> set (ledger_lines db)" | "p \<in> set ps" by (auto simp: rows)
    then show "\<exists>x \<in> set (journals s). je_tenant x = pl_tenant p \<and> je_id x = pl_journal p \<and> je_period x = pl_period p"
    proof cases
      case 1
      then show ?thesis using inv by (intro rep(4)) (simp add: books_inv_def)
    next
      case 2
      then show ?thesis using posted_from_rows(1) [OF booked] rep(5) by (intro bexI [of _ ?q]) simp_all
    qed
  qed
  ultimately show ?thesis by (simp only: books_inv_def)
qed

lemma swap_sides_swap: "map sides ls = map swap_sides ks \<Longrightarrow> map sides ks = map swap_sides ls"
proof (induction ls arbitrary: ks)
  case (Cons l ls)
  then obtain k ks' where "ks = k # ks'" by (cases ks) auto
  with Cons show ?case by (auto simp: sides_def swap_sides_def)
qed simp

lemma books_inv_reversed:
  assumes inv: "books_inv db" and o1: "o1 \<in> set (journals db)" "je_status o1 = POSTED"
    and r: "je_id r \<notin> je_id ` set (journals db)" "je_tenant r = je_tenant o1" "je_status r = POSTED" "je_reversal r = None"
      "je_reverses r = Some (je_id o1)"
    and ls: "ls = map (reversal_line call o1) (lines_of (je_tenant o1) (je_id o1) db)" "distinct (map jl_id ls)"
      "jl_id ` set ls \<inter> jl_id ` set (journal_lines db) = {}"
    and call: "rv_tenant call = je_tenant o1" "rv_journal_id call = je_id r"
    and booked: "posted_from po r ls ps"
    and s: "s = db\<lparr>journals := update_rows (\<lambda>x. je_id x = je_id o1) (\<lambda>_. mark_reversed o1 (je_id r) t) (journals db) @ [r],
            journal_lines := journal_lines db @ ls, line_dimensions := xs,
            ledger_lines := ledger_lines db @ ps, ledger_dimensions := ds\<rparr>"
    and evidence: "evidence_complete r s"
  shows "books_inv s"
proof -
  let ?q = "mark_reversed o1 (je_id r) t"
  define mid where "mid = update_rows (\<lambda>x. je_id x = je_id o1) (\<lambda>_. ?q) (journals db)"
  have ids: "distinct (map je_id (journals db))" using inv by (simp add: books_inv_def)
  have rows: "journal_lines s = journal_lines db @ ls" "ledger_lines s = ledger_lines db @ ps" "journals s = mid @ [r]"
    by (simp_all add: s mid_def)
  note rep = replaced_journal [OF ids o1(1), of ?q, simplified, folded mid_def]
  have old: "2 \<le> length (lines_of (je_tenant o1) (je_id o1) db)" "in_ledger db o1"
    using inv o1 by (auto simp: books_inv_def journal_ok_def)
  have line_oks: "\<forall>l \<in> set (lines_of (je_tenant o1) (je_id o1) db). line_ok l"
    using inv unfolding set_lines_of by (simp add: books_inv_def)
  have new: "new_content db r ls"
    using r ls old line_oks sorted_lines_of [of "je_tenant o1" "je_id o1" db] call by (auto simp: new_content_def comp_def)
  have own: "lines_of (je_tenant r) (je_id r) s = ls" by (rule lines_of_new [OF inv rows(1) new])
  have other: "\<forall>l \<in> set ls. jl_journal l \<noteq> je_id x" if "x \<in> set (journals db)" for x
    using new r(1) that unfolding new_content_def by (metis imageI)
  have lines: "lines_of (je_tenant x) (je_id x) s = lines_of (je_tenant x) (je_id x) db" if "x \<in> set (journals db)" for x
    by (rule lines_of_other(1) [OF rows(1) other [OF that]])
  have posted: "ledger_of (je_tenant x) (je_id x) s = ledger_of (je_tenant x) (je_id x) db" if x: "x \<in> set (journals db)" for x
  proof (rule ledger_of_other [OF rows(2)])
    show "\<forall>p \<in> set ps. pl_journal p \<noteq> je_id x"
      using posted_from_rows(1) [OF booked] r(1) x by (metis imageI)
  qed
  have ev: "evidence_complete x s = evidence_complete x db" if x: "x \<in> set (journals db)" for x
    by (rule evidence_frame, rule lines_of_other(2) [OF rows(1) other [OF x]], rule posted [OF x])
  have rs: "r \<in> set (journals s)" by (simp add: rows)
  have ok: "journal_ok s x" if x: "x \<in> set (journals db)" "je_id x \<noteq> je_id o1" for x
  proof (rule journal_ok_frame [OF _ x(1) lines ev [OF x(1)] posted [OF x(1)]])
    show "journal_ok db x" using inv x by (simp add: books_inv_def)
    show "\<exists>r' \<in> set (journals s). je_tenant r' = je_tenant y \<and> je_id r' = je_id y
        \<and> je_reverses r' = je_reverses y \<and> je_status r' \<in> {POSTED, REVERSED}"
      if y: "y \<in> set (journals db)" "je_status y \<in> {POSTED, REVERSED}" for y
    proof (cases "je_id y = je_id o1")
      case True
      then have "y = o1" using distinct_key_eq [OF ids y(1) o1(1)] by simp
      with rep(5) show ?thesis by (intro bexI [of _ ?q]) (simp_all add: rows)
    next
      case False
      with rep(6) [OF y(1)] y(2) show ?thesis by (intro bexI [of _ y]) (simp_all add: rows)
    qed
  qed
  have "ledger_of (je_tenant r) (je_id r) s = ps"
    by (rule ledger_of_posted [OF booked rows(2)]) (rule ledger_of_new [OF inv r(1)])
  then have "in_ledger s r"
    using evidence posted_from_rows(2) [OF booked] own by (simp add: in_ledger_def)
  then have okr: "journal_ok s r" using own old ls r by (simp add: journal_ok_def)
  have "map sides ls = map swap_sides (lines_of (je_tenant o1) (je_id o1) db)" by (simp add: ls(1) comp_def)
  then have "reversed_by s ?q r"
    using r o1 own lines [OF o1(1)] unfolding reversed_by_def by auto
  moreover have "in_ledger s ?q"
  proof -
    have "evidence_complete ?q s = evidence_complete o1 s" by (simp add: evidence_complete_def mark_reversed_def Let_def)
    then show ?thesis using old(2) lines [OF o1(1)] posted [OF o1(1)] ev [OF o1(1)] by (simp add: in_ledger_def)
  qed
  ultimately have okq: "journal_ok s ?q" using old(1) lines [OF o1(1)] rs by (auto simp: journal_ok_def)
  have "\<forall>x \<in> set (journals s). journal_ok s x"
    using okr okq ok rep(2) unfolding rows by (metis Un_iff empty_iff empty_set list.set_intros(1) set_ConsD set_append)
  moreover have "\<forall>l \<in> set (journal_lines s). line_ok l \<and> (\<exists>x \<in> set (journals s). je_tenant x = jl_tenant l \<and> je_id x = jl_journal l)"
  proof
    fix l assume "l \<in> set (journal_lines s)"
    then consider "l \<in> set (journal_lines db)" | "l \<in> set ls" by (auto simp: rows)
    then show "line_ok l \<and> (\<exists>x \<in> set (journals s). je_tenant x = jl_tenant l \<and> je_id x = jl_journal l)"
    proof cases
      case 1
      then have "line_ok l" "\<exists>x \<in> set (journals db). je_tenant x = jl_tenant l \<and> je_id x = jl_journal l"
        using inv by (simp_all add: books_inv_def)
      then show ?thesis using rep(3) by (auto simp: rows)
    next
      case 2
      then show ?thesis using new rs by (auto simp: new_content_def)
    qed
  qed
  moreover have "distinct (map je_id (journals s))" "distinct (map jl_id (journal_lines s))"
  proof -
    have "je_id r \<notin> set (map je_id mid)" unfolding rep(1) using r(1) by simp
    then show "distinct (map je_id (journals s))" using ids rep(1) by (simp add: rows)
    show "distinct (map jl_id (journal_lines s))" using inv ls(2,3) by (simp add: rows books_inv_def inf_commute)
  qed
  moreover have "\<forall>p \<in> set (ledger_lines s). \<exists>x \<in> set (journals s). je_tenant x = pl_tenant p \<and> je_id x = pl_journal p \<and> je_period x = pl_period p"
  proof
    fix p assume "p \<in> set (ledger_lines s)"
    then consider "p \<in> set (ledger_lines db)" | "p \<in> set ps" by (auto simp: rows)
    then show "\<exists>x \<in> set (journals s). je_tenant x = pl_tenant p \<and> je_id x = pl_journal p \<and> je_period x = pl_period p"
    proof cases
      case 1
      then have "\<exists>x \<in> set (journals db). je_tenant x = pl_tenant p \<and> je_id x = pl_journal p \<and> je_period x = pl_period p"
        using inv by (simp add: books_inv_def)
      then show ?thesis using rep(4) by (auto simp: rows)
    next
      case 2
      then show ?thesis using posted_from_rows(1) [OF booked] rs by auto
    qed
  qed
  ultimately show ?thesis by (simp only: books_inv_def)
qed

subsection \<open>Every run keeps the invariants\<close>

definition accounting_inv :: "accounting_db \<Rightarrow> bool" where
  "accounting_inv db \<longleftrightarrow> periods_inv db \<and> books_inv db"

lemma accounting_inv_empty: "accounting_inv (empty_books ts)"
  by (simp add: accounting_inv_def periods_inv_def books_inv_def empty_books_def)

lemma same_books_fields:
  assumes "same_books a b"
  shows "years b = years a" "periods b = periods a" "period_events b = period_events a" "journals b = journals a"
    "journal_lines b = journal_lines a" "ledger_lines b = ledger_lines a" "tenants b = tenants a"
    "line_dimensions b = line_dimensions a" "ledger_dimensions b = ledger_dimensions a"
  using assms by (auto simp: same_books_def dest: arg_cong [of _ _ years] arg_cong [of _ _ periods] arg_cong [of _ _ period_events]
      arg_cong [of _ _ journals] arg_cong [of _ _ journal_lines] arg_cong [of _ _ ledger_lines] arg_cong [of _ _ tenants]
      arg_cong [of _ _ line_dimensions] arg_cong [of _ _ ledger_dimensions])

lemma accounting_inv_same: "accounting_inv a \<Longrightarrow> same_books a b \<Longrightarrow> accounting_inv b"
  using same_books_fields [of a b] periods_inv_cong [of a b] books_inv_cong [of a b] by (simp add: accounting_inv_def)

lemma accounting_inv_moves: "accounting_inv db \<Longrightarrow> period_moves db p q e s \<Longrightarrow> accounting_inv s"
  using periods_inv_moves [of db p q e s] books_inv_cong [of db s] by (simp add: accounting_inv_def period_moves_def)

lemma do_reverse_inv:
  assumes "accounting_inv db" and "do_reverse call rp fp db = Inr (res, s)"
  shows "accounting_inv s"
proof -
  have owned: "\<forall>l \<in> set (journal_lines db). jl_journal l \<in> je_id ` set (journals db)"
    using assms(1) unfolding accounting_inv_def books_inv_def by (metis imageI)
  show ?thesis
  proof (rule do_reverse_Inr [OF assms(2) owned])
    fix o1 p r po xs ps ds
    assume o1: "o1 \<in> set (journals db)" "je_tenant o1 = rv_tenant call" "je_id o1 = rj_journal_id (rv_command call)"
        "je_status o1 = POSTED" "je_reversal o1 = None"
      and p: "p \<in> set (periods db)" "fp_tenant p = je_tenant o1" "postable p (rj_reopen_token (rv_command call))"
      and r: "r = reversal_entry call rp fp o1 p" "je_id r \<notin> je_id ` set (journals db)"
      and ids: "distinct (map jl_id (map (reversal_line call o1) (lines_of (je_tenant o1) (je_id o1) db)))"
        "jl_id ` set (map (reversal_line call o1) (lines_of (je_tenant o1) (je_id o1) db)) \<inter> jl_id ` set (journal_lines db) = {}"
      and booked: "posted_from po r (map (reversal_line call o1) (lines_of (je_tenant o1) (je_id o1) db)) ps"
      and s: "s = db\<lparr>journals := update_rows (\<lambda>x. je_id x = je_id o1) (\<lambda>_. mark_reversed o1 (je_id r) (rv_reversed_at call)) (journals db)
              @ [r\<lparr>je_status := POSTED\<rparr>],
            journal_lines := journal_lines db @ map (reversal_line call o1) (lines_of (je_tenant o1) (je_id o1) db),
            line_dimensions := line_dimensions db @ xs,
            ledger_lines := ledger_lines db @ ps, ledger_dimensions := ledger_dimensions db @ ds\<rparr>"
      and ev: "evidence_complete (r\<lparr>je_status := POSTED\<rparr>) s"
    define r' where "r' = r\<lparr>je_status := POSTED\<rparr>"
    have r': "je_id r' = je_id r" "je_tenant r' = je_tenant o1" "je_status r' = POSTED" "je_reversal r' = None"
      "je_reverses r' = Some (je_id o1)" "rv_journal_id call = je_id r'" using o1 by (simp_all add: r'_def r(1))
    have booked': "posted_from po r' (map (reversal_line call o1) (lines_of (je_tenant o1) (je_id o1) db)) ps"
      using booked by (simp add: posted_from_def r'_def ledger_row_def)
    have "books_inv s"
    proof (rule books_inv_reversed [OF _ o1(1,4) _ r'(2-5) refl ids _ r'(6) booked'])
      show "books_inv db" using assms(1) by (simp add: accounting_inv_def)
      show "je_id r' \<notin> je_id ` set (journals db)" using r(2) r'(1) by simp
      show "rv_tenant call = je_tenant o1" using o1(2) by simp
      show "s = db\<lparr>journals := update_rows (\<lambda>x. je_id x = je_id o1) (\<lambda>_. mark_reversed o1 (je_id r') (rv_reversed_at call)) (journals db)
              @ [r'],
            journal_lines := journal_lines db @ map (reversal_line call o1) (lines_of (je_tenant o1) (je_id o1) db),
            line_dimensions := line_dimensions db @ xs,
            ledger_lines := ledger_lines db @ ps, ledger_dimensions := ledger_dimensions db @ ds\<rparr>"
        unfolding r'(1) unfolding r'_def by (rule s)
      show "evidence_complete r' s" unfolding r'_def by (rule ev)
    qed
    moreover have "periods_inv s"
      using assms(1) periods_inv_cong [of db s] by (simp add: accounting_inv_def s)
    ultimately show ?thesis by (simp add: accounting_inv_def)
  qed
qed

lemma do_create_inv:
  assumes "accounting_inv db" and "do_create call cp fp db = Inr (res, s)"
  shows "accounting_inv s"
  using do_create_Inr [OF assms(2)]
proof
  assume "\<exists>j ls xs. s = db\<lparr>journals := journals db @ [j], journal_lines := journal_lines db @ ls,
      line_dimensions := line_dimensions db @ xs\<rparr> \<and> new_content db j ls \<and> je_status j = DRAFT \<and> je_reversal j = None
      \<and> (\<exists>p \<in> set (periods db). fp_tenant p = je_tenant j \<and> fp_id p = je_period j)"
  then obtain j ls xs where s: "s = db\<lparr>journals := journals db @ [j], journal_lines := journal_lines db @ ls,
      line_dimensions := line_dimensions db @ xs\<rparr>" and j: "new_content db j ls" "je_status j = DRAFT" "je_reversal j = None" by blast
  have "books_inv s" by (rule books_inv_drafted [OF _ j s]) (use assms(1) in \<open>simp add: accounting_inv_def\<close>)
  moreover have "periods_inv s" using assms(1) periods_inv_cong [of db s] by (simp add: accounting_inv_def s)
  ultimately show ?thesis by (simp add: accounting_inv_def)
qed (use assms(1) in simp)

lemma do_post_inv:
  assumes "accounting_inv db" and "do_post call approval actor db = Inr (res, s)"
  shows "accounting_inv s"
proof -
  obtain j p po ps ds where j: "j \<in> set (journals db)" "je_status j = DRAFT"
    and booked: "posted_from po j (lines_of (je_tenant j) (je_id j) db) ps"
    and s: "s = db\<lparr>journals := update_rows (\<lambda>x. je_id x = je_id j) (\<lambda>_. mark_posted j approval actor (pt_posted_at call)) (journals db),
             ledger_lines := ledger_lines db @ ps, ledger_dimensions := ledger_dimensions db @ ds\<rparr>"
    and ev: "evidence_complete (mark_posted j approval actor (pt_posted_at call)) s"
    by (rule do_post_Inr [OF assms(2)])
  have "books_inv s" by (rule books_inv_posted [OF _ j booked s ev]) (use assms(1) in \<open>simp add: accounting_inv_def\<close>)
  moreover have "periods_inv s" using assms(1) periods_inv_cong [of db s] by (simp add: accounting_inv_def s)
  ultimately show ?thesis by (simp add: accounting_inv_def)
qed

lemma books_step_inv: "books_step db s \<Longrightarrow> accounting_inv db \<Longrightarrow> accounting_inv s"
proof (induction rule: books_step.induct)
  case (year_created t i yc db y s)
  then show ?case
    using periods_inv_year [of db t i yc y s] create_fiscal_year_Inr [of t i yc db y s] books_inv_cong [of db s]
    by (simp add: accounting_inv_def)
next
  case (period_created t i c db p s)
  then show ?case
    using periods_inv_period [of db t i c p s] create_fiscal_period_Inr [of t i c db p s] books_inv_cong [of db s]
    by (simp add: accounting_inv_def)
qed (auto intro: accounting_inv_same accounting_inv_moves do_create_inv do_post_inv do_reverse_inv dest!: period_change_moves)

lemma accounting_run_inv: "accounting_run d \<Longrightarrow> accounting_inv (app_data d)"
  by (induction rule: accounting_run.induct) (auto simp: accounting_inv_empty dest: accounting_step_books books_step_inv)

end
