(* ===== verification/Accounting_Example.thy ===== *)
theory Accounting_Example
  imports Accounting_Safety "HOL-Library.Code_Target_Nat"
begin

text \<open>
  A set of books at work: one tenant with two accounts and an open half-year, a journal
  of two lines that is drafted, posted and reversed, and a second journal whose draft can
  not be posted.  The fingerprint of a request stays symbolic, because a fresh key only
  needs its length; everything else is evaluated.
\<close>

lemma ndigits_code [code]: "ndigits n = (if n < 10 then 1 else Suc (ndigits (n div 10)))"
  by (simp add: ndigits_def nat_str.simps [of n])

subsection \<open>The books before the journals\<close>

definition sample_day :: "nat \<Rightarrow> date" where
  "sample_day n = \<lparr>year = 2024, month = n, day = 1\<rparr>"

definition sample_account :: "uuid \<Rightarrow> string \<Rightarrow> account" where
  "sample_account i c = \<lparr>at_id = i, at_tenant = 1, at_category = 2, at_parent = None, at_code = c, at_name = c,
     at_description = None, at_kind = POSTING, at_normal_balance = DEBIT, at_currency = None, at_active = True,
     at_posting_allowed = True\<rparr>"

definition sample_year :: fiscal_year where
  "sample_year = \<lparr>fy_id = 5, fy_tenant = 1, fy_code = ''FY'', fy_name = ''FY'', fy_start = sample_day 1, fy_end = sample_day 12\<rparr>"

definition sample_period :: "PeriodStatus \<Rightarrow> fiscal_period" where
  "sample_period st = \<lparr>fp_id = 6, fp_tenant = 1, fp_year = 5, fp_number = 1, fp_name = ''H1'', fp_start = sample_day 1,
     fp_end = sample_day 6, fp_adjustment = False, fp_status = st, fp_token = None\<rparr>"

definition sample_change :: period_change where
  "sample_change = \<lparr>pc_tenant = 1, pc_period = 6, pc_actor = ''ann'', pc_occurred_at = 0\<rparr>"

definition sample_opening :: period_event where
  "sample_opening = \<lparr>pe_tenant = 1, pe_period = 6, pe_kind = ''open'', pe_from = ''FUTURE'', pe_to = ''OPEN'', pe_actor = ''ann'',
     pe_approval = None, pe_evidence = JObj [], pe_occurred_at = 0\<rparr>"

definition chart :: accounting_db where
  "chart = (empty_books [1])\<lparr>accounts := [sample_account 3 ''A'', sample_account 4 ''B'']\<rparr>"

definition opened :: accounting_db where
  "opened = chart\<lparr>years := [sample_year], periods := [sample_period OPEN], period_events := [sample_opening]\<rparr>"

lemma sample_year_created:
  "create_fiscal_year 1 5 \<lparr>cfy_code = ''FY'', cfy_name = ''FY'', cfy_start_date = sample_day 1, cfy_end_date = sample_day 12\<rparr> chart
     = Inr (sample_year, chart\<lparr>years := [sample_year]\<rparr>)"
  by code_simp

lemma sample_period_created:
  "create_fiscal_period 1 6 \<lparr>cfp_fiscal_year_id = 5, cfp_period_number = 1, cfp_name = ''H1'', cfp_start_date = sample_day 1,
       cfp_end_date = sample_day 6, cfp_is_adjustment = False\<rparr> (chart\<lparr>years := [sample_year]\<rparr>)
     = Inr (sample_period FUTURE, chart\<lparr>years := [sample_year], periods := [sample_period FUTURE]\<rparr>)"
  by code_simp

lemma sample_opened:
  "open_period sample_change (chart\<lparr>years := [sample_year], periods := [sample_period FUTURE]\<rparr>) = Inr (sample_period OPEN, opened)"
  by code_simp

definition host :: "idempotency_record list \<Rightarrow> accounting_db \<Rightarrow> accounting_db db" where
  "host rs s = \<lparr>ledger = rs, platform_ledger = [], app_data = s\<rparr>"

lemma host_simps [simp]: "app_data (host rs s) = s" "ledger (host rs s) = rs" "(host rs s)\<lparr>app_data := s'\<rparr> = host rs s'"
  by (simp_all add: host_def)

lemma opened_run: "accounting_run (host [] opened)"
proof -
  have 0: "accounting_run (host [] (empty_books [1]))" by (rule accounting_run.start [of _ "[1]"]) simp
  have 1: "accounting_run (host [] chart)"
    using accounting_run.step [OF 0 accounting_step.maintained [of "host [] (empty_books [1])" chart]]
    by (simp add: same_books_def chart_def)
  note 2 = accounting_run.step [OF 1 accounting_step.fiscal_year [of _ _ _ "host [] chart", simplified, OF sample_year_created]]
  note 3 = accounting_run.step [OF 2 accounting_step.fiscal_period [of _ _ _ "host [] _", simplified, OF sample_period_created]]
  show ?thesis
    using accounting_run.step [OF 3 accounting_step.period_opening [of _ "host [] _", simplified, OF sample_opened]] by simp
qed

subsection \<open>A fresh key runs the operation\<close>

lemma accounting_once_fresh:
  assumes "f s0 = Inr (res, s)" and "validate scope key = Inr ()" and "length scope \<le> 120" and "length key \<le> 200"
    and "length fp = 64" and "(tenant, scope, key) \<notin> ir_unique ` set rs"
  obtains o1 row where "accounting_once tenant scope key fp expires [] f (host rs s0) = (Inr o1, host (rs @ [row]) s)"
    and "ir_unique row = (tenant, scope, key)"
proof -
  have "lookup (host rs s0) tenant scope key = None"
    using assms(6) by (simp add: lookup_def find_row_None)
  then show thesis
    using assms that
    by (auto simp: accounting_once_def execute_once_def savepoint_body_def module_operation_def commit_concurrent_def host_def
        new_record_def ir_unique_def columns_fit_def fits_def name_or_scope_def Let_def)
qed

subsection \<open>A journal\<close>

definition sample_source :: SourceIdentity where
  "sample_source = \<lparr>src_owner = ''ops'', src_document_kind = ''inv'', src_document_id = ''1'', src_version = ''1'',
     src_fingerprint = replicate 64 CHR ''a''\<rparr>"

definition sample_line :: "uuid \<Rightarrow> dec \<Rightarrow> dec \<Rightarrow> JournalLineInput" where
  "sample_line a d c = \<lparr>li_account_id = a, li_debit = d, li_credit = c, li_description = None, li_dimension_value_ids = []\<rparr>"

definition sample_command :: "dec \<Rightarrow> dec \<Rightarrow> CreateJournal" where
  "sample_command amount rate = \<lparr>cj_number = ''j-1'', cj_kind = STANDARD, cj_entry_date = sample_day 2, cj_posting_date = sample_day 2,
     cj_currency_code = ''usd'', cj_exchange_rate = rate, cj_description = ''x'', cj_source = sample_source,
     cj_lines = [sample_line 3 amount dec_zero, sample_line 4 dec_zero amount], cj_reference = None\<rparr>"

definition sample_create :: "dec \<Rightarrow> dec \<Rightarrow> create_call" where
  "sample_create amount rate = \<lparr>cr_tenant = 1, cr_command = sample_command amount rate, cr_key = ''k1'', cr_expires_at = None,
     cr_recorded_at = 0, cr_journal_id = 7, cr_line_id = (\<lambda>n. 8 + n)\<rparr>"

text \<open>The same journal as it is persisted, and the books with it.\<close>

definition sample_entry :: "string \<Rightarrow> int \<Rightarrow> int \<Rightarrow> int \<Rightarrow> journal_entry" where
  "sample_entry fp rate tot ftot = \<lparr>je_id = 7, je_tenant = 1, je_period = 6, je_number = ''J-1'', je_kind = STANDARD,
     je_status = DRAFT, je_entry_date = sample_day 2, je_posting_date = sample_day 2, je_description = ''x'', je_reference = None,
     je_currency = ''USD'', je_rate = rate, je_total_debit = tot, je_total_credit = tot, je_total_debit_functional = ftot,
     je_total_credit_functional = ftot, je_source = sample_source, je_request_fingerprint = fp, je_approval = None,
     je_posted_by = None, je_posted_at = None, je_reverses = None, je_reversal = None, je_created_at = 0, je_updated_at = 0\<rparr>"

definition sample_row :: "nat \<Rightarrow> uuid \<Rightarrow> int \<Rightarrow> int \<Rightarrow> int \<Rightarrow> int \<Rightarrow> journal_line" where
  "sample_row n a d c fd fc = \<lparr>jl_id = 8 + n, jl_tenant = 1, jl_journal = 7, jl_number = n, jl_account = a, jl_description = None,
     jl_debit = d, jl_credit = c, jl_debit_functional = fd, jl_credit_functional = fc, jl_created_at = 0\<rparr>"

definition drafted :: "journal_entry \<Rightarrow> int \<Rightarrow> int \<Rightarrow> accounting_db" where
  "drafted j amount famount = opened\<lparr>journals := [j],
     journal_lines := [sample_row 1 3 amount 0 famount 0, sample_row 2 4 0 amount 0 famount]\<rparr>"

lemma sample_payload:
  "\<exists>p. journal_fingerprint_payload (sample_command amount rate) = Inr p \<and> jp_number p = ''J-1'' \<and> jp_currency_code p = ''USD''
    \<and> jp_description p = ''x'' \<and> jp_reference p = None \<and> jp_source p = sample_source"
proof -
  have "code ''j-1'' ''journal number'' 50 = Inr ''J-1''" "currency ''usd'' = Inr ''USD''" "required ''x'' ''description'' 2000 = Inr ''x''"
    "normalized_source sample_source = Inr sample_source" by code_simp+
  then show ?thesis by (simp add: journal_fingerprint_payload_def sample_command_def)
qed

lemma money_samples:
  "money dec_zero = Inr (Dec 0 (- 6))" "money (Dec 5 0) = Inr (Dec 5000000 (- 6))" "money (Dec 5 (- 7)) = Inr (Dec 1 (- 6))"
  "money (Dec 1 (- 6)) = Inr (Dec 1 (- 6))" "money (Dec 2 (- 6)) = Inr (Dec 2 (- 6))" "money (Dec 5000000 (- 6)) = Inr (Dec 5000000 (- 6))"
  "money (dec_mul (Dec 5000000 (- 6)) (Dec 1 0)) = Inr (Dec 5000000 (- 6))" "money (dec_mul (Dec 5 0) (Dec 1 0)) = Inr (Dec 5000000 (- 6))"
  "money (dec_mul (Dec 1 (- 6)) (Dec 2 0)) = Inr (Dec 2 (- 6))" "money (dec_mul (Dec 5 (- 7)) (Dec 2 0)) = Inr (Dec 1 (- 6))"
  "money (dec_mul (Dec 0 (- 6)) (Dec 1 0)) = Inr (Dec 0 (- 6))" "money (dec_mul dec_zero (Dec 1 0)) = Inr (Dec 0 (- 6))"
  "money (dec_mul (Dec 0 (- 6)) (Dec 2 0)) = Inr (Dec 0 (- 6))" "money (dec_mul dec_zero (Dec 2 0)) = Inr (Dec 0 (- 6))"
  by code_simp+

lemma sum_samples:
  "sum_dec [Dec 5000000 (- 6), Dec 0 (- 6)] = Dec 5000000 (- 6)" "sum_dec [Dec 0 (- 6), Dec 5000000 (- 6)] = Dec 5000000 (- 6)"
  "sum_dec [Dec 1 (- 6), Dec 0 (- 6)] = Dec 1 (- 6)" "sum_dec [Dec 0 (- 6), Dec 1 (- 6)] = Dec 1 (- 6)"
  "sum_dec [Dec 2 (- 6), Dec 0 (- 6)] = Dec 2 (- 6)" "sum_dec [Dec 0 (- 6), Dec 2 (- 6)] = Dec 2 (- 6)"
  by code_simp+

lemma compare_samples:
  "dec_le (Dec 1 0) dec_zero = False" "dec_le (Dec 2 0) dec_zero = False" "dec_le (Dec 5000000 (- 6)) dec_zero = False"
  "dec_le (Dec 1 (- 6)) dec_zero = False" "dec_eq a a = True" "dec_eq (Dec 1 (- 6)) (Dec 2 (- 6)) = False"
  "dec_less dec_zero dec_zero = False" "dec_less (Dec 5 0) dec_zero = False" "dec_less dec_zero (Dec 5 0) = True"
  "dec_less (Dec 5 (- 7)) dec_zero = False" "dec_less dec_zero (Dec 5 (- 7)) = True"
  by (simp_all add: dec_le_def dec_eq_def dec_less_def dec_zero_def scale_to_def)

lemma store_samples:
  "store_numeric (- 10) (Dec 1 0) = Inr 10000000000" "store_numeric (- 10) (Dec 2 0) = Inr 20000000000"
  "store_numeric (- 6) (Dec 5000000 (- 6)) = Inr 5000000" "store_numeric (- 6) (Dec 1 (- 6)) = Inr 1"
  "store_numeric (- 6) (Dec 2 (- 6)) = Inr 2" "store_numeric (- 6) (Dec 0 (- 6)) = Inr 0"
  by code_simp+

lemmas amount_samples = money_samples sum_samples compare_samples store_samples

lemma opened_lookups:
  "find_account 1 3 opened = Inr (sample_account 3 ''A'')" "find_account 1 4 opened = Inr (sample_account 4 ''B'')"
  "period_for_date 1 (sample_day 2) opened = Inr (sample_period OPEN)" "journals opened = []" "journal_lines opened = []"
  "line_dimensions opened = []" "ledger_lines opened = []" "ledger_dimensions opened = []"
  by code_simp+

lemma sample_drafting:
  assumes "jp_number p = ''J-1''" "jp_currency_code p = ''USD''" "jp_description p = ''x''" "jp_reference p = None"
    and "jp_source p = sample_source"
  shows "do_create (sample_create (Dec 5 0) (Dec 1 0)) p fp opened
      = Inr (journal_result 7, drafted (sample_entry fp 10000000000 5000000 5000000) 5000000 5000000)"
    and "do_create (sample_create (Dec 5 (- 7)) (Dec 2 0)) p fp opened
      = Inr (journal_result 7, drafted (sample_entry fp 20000000000 1 2) 1 1)"
  using assms
  by (simp_all add: do_create_def sample_create_def sample_command_def sample_line_def validated_lines_def resolve_line_def
      validate_line_def account_open_def sample_account_def new_journal_def sample_entry_def new_line_def sample_row_def drafted_def
      insert_journal_def insert_line_def content_guard_def find_journal_def find_row_def one_side_def sample_period_def
      amount_samples opened_lookups Let_def del: One_nat_def)

lemma scopes_fit: "length CREATE_SCOPE \<le> 120" "length POST_SCOPE \<le> 120" "length REVERSE_SCOPE \<le> 120"
  "validate CREATE_SCOPE ''k1'' = Inr ()" "validate POST_SCOPE ''k2'' = Inr ()" "validate REVERSE_SCOPE ''k3'' = Inr ()"
  "CREATE_SCOPE \<noteq> POST_SCOPE" "CREATE_SCOPE \<noteq> REVERSE_SCOPE" "POST_SCOPE \<noteq> REVERSE_SCOPE"
  by code_simp+

lemma drafted_run:
  assumes "\<And>p fp. jp_number p = ''J-1'' \<Longrightarrow> jp_currency_code p = ''USD'' \<Longrightarrow> jp_description p = ''x'' \<Longrightarrow> jp_reference p = None \<Longrightarrow>
      jp_source p = sample_source \<Longrightarrow> do_create (sample_create amount rate) p fp opened = Inr (journal_result 7, s fp)"
  shows "\<exists>fp row. accounting_run (host [row] (s fp)) \<and> ir_unique row = (1, CREATE_SCOPE, ''k1'')"
proof -
  have call: "cr_command (sample_create amount rate) = sample_command amount rate" "cr_tenant (sample_create amount rate) = 1"
    "cr_key (sample_create amount rate) = ''k1''" by (simp_all add: sample_create_def)
  obtain p where p: "journal_fingerprint_payload (sample_command amount rate) = Inr p" "jp_number p = ''J-1''"
    "jp_currency_code p = ''USD''" "jp_description p = ''x''" "jp_reference p = None" "jp_source p = sample_source"
    using sample_payload by blast
  define fp where "fp = fingerprint_of (jp_json p)"
  obtain o1 row where once: "accounting_once 1 CREATE_SCOPE ''k1'' fp (cr_expires_at (sample_create amount rate)) []
        (do_create (sample_create amount rate) p fp) (host [] opened) = (Inr o1, host ([] @ [row]) (s fp))"
    and row: "ir_unique row = (1, CREATE_SCOPE, ''k1'')"
    by (rule accounting_once_fresh [where f = "do_create (sample_create amount rate) p fp" and ?s0.0 = opened and
          tenant = 1 and rs = "[]" and fp = fp and expires = "cr_expires_at (sample_create amount rate)",
          OF assms [OF p(2-6)] scopes_fit(4,1)]) (auto simp: fp_def)
  have "create_journal (sample_create amount rate) [] (host [] opened) = (outcome_journal 1 (s fp) o1, host ([] @ [row]) (s fp))"
    unfolding create_journal_def call p(1) Let_def sum.case fp_def [symmetric] once by simp
  then have "accounting_run (host ([] @ [row]) (s fp))" by (rule accounting_run.step [OF opened_run accounting_step.drafting])
  with row show ?thesis by auto
qed

definition balanced_draft :: "string \<Rightarrow> accounting_db" where
  "balanced_draft fp = drafted (sample_entry fp 10000000000 5000000 5000000) 5000000 5000000"

definition stuck_draft :: "string \<Rightarrow> accounting_db" where
  "stuck_draft fp = drafted (sample_entry fp 20000000000 1 2) 1 1"

lemma balanced_draft_run: "\<exists>fp row. accounting_run (host [row] (balanced_draft fp)) \<and> ir_unique row = (1, CREATE_SCOPE, ''k1'')"
  by (rule drafted_run [of "Dec 5 0" "Dec 1 0"]) (simp add: sample_drafting balanced_draft_def)

lemma stuck_draft_run: "\<exists>fp row. accounting_run (host [row] (stuck_draft fp))"
  using drafted_run [of "Dec 5 (- 7)" "Dec 2 0" stuck_draft] by (auto simp: sample_drafting stuck_draft_def)

subsection \<open>Posted and reversed\<close>

definition sample_post :: post_call where
  "sample_post = \<lparr>pt_tenant = 1, pt_journal_id = 7, pt_approval_reference = ''ap'', pt_posted_by = ''ann'', pt_key = ''k2'',
     pt_expires_at = None, pt_posted_at = 1, pt_posted_at_text = [], pt_reopen_token = None, pt_ledger_id = (\<lambda>i. i)\<rparr>"

definition sample_posted :: "string \<Rightarrow> journal_entry" where
  "sample_posted fp = mark_posted (sample_entry fp 10000000000 5000000 5000000) ''ap'' ''ann'' 1"

definition sample_ledger :: "journal_entry \<Rightarrow> journal_line \<Rightarrow> journal_line \<Rightarrow> ledger_line list" where
  "sample_ledger j l m = (let po = \<lparr>po_posted_by = ''ann'', po_posted_at = 1, po_ledger_id = (\<lambda>i. i)\<rparr> in
     [ledger_row po 1 j (sample_account 3 ''A'') l, ledger_row po 1 j (sample_account 4 ''B'') m])"

definition posted_books :: "string \<Rightarrow> accounting_db" where
  "posted_books fp = (balanced_draft fp)\<lparr>journals := [sample_posted fp],
     ledger_lines := sample_ledger (sample_entry fp 10000000000 5000000 5000000) (sample_row 1 3 5000000 0 5000000 0) (sample_row 2 4 0 5000000 0 5000000)\<rparr>"

lemma sample_posting: "do_post sample_post ''ap'' ''ann'' (balanced_draft fp) = Inr (journal_result 7, posted_books fp)"
proof -
  have a: "accounts opened = [sample_account 3 ''A'', sample_account 4 ''B'']" "periods opened = [sample_period OPEN]"
    by (simp_all add: opened_def chart_def)
  show ?thesis
    by (simp add: do_post_def sample_post_def balanced_draft_def drafted_def posted_books_def sample_posted_def mark_posted_def sample_ledger_def
        find_journal_def find_period_def find_account_def find_row_def sample_entry_def sample_row_def sample_account_def a
        require_postable_period_def sample_period_def date_le_def sample_day_def lines_of_def dimensions_of_def account_open_def
        persisted_balanced_def money_of_def amount_samples append_ledger_def ledger_row_def insert_ledger_line_def one_side_def
        update_journal_def evidence_complete_def ledger_of_def update_rows_def opened_lookups Let_def del: One_nat_def)
qed

lemma sample_append:
  "append_ledger \<lparr>po_posted_by = ''ann'', po_posted_at = 1, po_ledger_id = (\<lambda>i. i)\<rparr> 1 (sample_entry fp 10000000000 5000000 5000000)
      (balanced_draft fp) = Inr ((posted_books fp)\<lparr>journals := journals (balanced_draft fp)\<rparr>)"
proof -
  have a: "accounts opened = [sample_account 3 ''A'', sample_account 4 ''B'']" by (simp add: opened_def chart_def)
  show ?thesis
    by (simp add: append_ledger_def balanced_draft_def drafted_def posted_books_def sample_ledger_def sample_entry_def sample_row_def
        sample_account_def lines_of_def dimensions_of_def find_account_def find_row_def ledger_row_def insert_ledger_line_def one_side_def
        a opened_lookups Let_def del: One_nat_def)
qed

lemma posted_run:
  "\<exists>fp rows. accounting_run (host rows (posted_books fp)) \<and> map ir_unique rows = [(1, CREATE_SCOPE, ''k1''), (1, POST_SCOPE, ''k2'')]"
proof -
  obtain fp row where run: "accounting_run (host [row] (balanced_draft fp))" and row: "ir_unique row = (1, CREATE_SCOPE, ''k1'')"
    using balanced_draft_run by blast
  obtain o1 row2 where once: "accounting_once 1 POST_SCOPE ''k2'' (fingerprint_of (post_payload sample_post ''ap'' ''ann'')) None []
      (do_post sample_post ''ap'' ''ann'') (host [row] (balanced_draft fp)) = (Inr o1, host ([row] @ [row2]) (posted_books fp))"
    and row2: "ir_unique row2 = (1, POST_SCOPE, ''k2'')"
    by (rule accounting_once_fresh [where f = "do_post sample_post ''ap'' ''ann''" and ?s0.0 = "balanced_draft fp" and tenant = 1 and rs = "[row]"
          and fp = "fingerprint_of (post_payload sample_post ''ap'' ''ann'')" and expires = None, OF sample_posting scopes_fit(5,2)])
      (use row scopes_fit(7) in auto)
  have "service_required ''ap'' ''approval reference'' 255 = Inr ''ap''" "service_required ''ann'' ''posted by'' 255 = Inr ''ann''"
    by code_simp+
  moreover have "pt_tenant sample_post = 1" "pt_approval_reference sample_post = ''ap''" "pt_posted_by sample_post = ''ann''"
    "pt_key sample_post = ''k2''" "pt_expires_at sample_post = None" by (simp_all add: sample_post_def)
  ultimately have "post_journal sample_post [] (host [row] (balanced_draft fp))
      = (outcome_journal 1 (posted_books fp) o1, host ([row] @ [row2]) (posted_books fp))"
    unfolding post_journal_def Let_def by (simp only: sum.case once prod.case bindr_simps host_simps)
  then have "accounting_run (host ([row] @ [row2]) (posted_books fp))"
    by (rule accounting_run.step [OF run accounting_step.posting])
  with row row2 show ?thesis by (intro exI [of _ fp] exI [of _ "[row] @ [row2]"]) simp
qed

definition sample_reverse :: reverse_call where
  "sample_reverse = \<lparr>rv_tenant = 1, rv_command = \<lparr>rj_journal_id = 7, rj_number = ''r-1'', rj_posting_date = sample_day 3,
     rj_reason = ''x'', rj_approval_reference = ''ap'', rj_reversed_by = ''ann'', rj_reopen_token = None\<rparr>, rv_key = ''k3'',
     rv_expires_at = None, rv_reversed_at = 2, rv_journal_id = 12, rv_line_id = (\<lambda>n. 12 + n), rv_ledger_id = (\<lambda>i. i)\<rparr>"

definition sample_reversal_payload :: reversal_payload where
  "sample_reversal_payload = projr (reversal_fingerprint_payload (rv_command sample_reverse))"

lemma sample_reversal_payload:
  "reversal_fingerprint_payload (rv_command sample_reverse) = Inr sample_reversal_payload" "rp_number sample_reversal_payload = ''R-1''"
  "rp_reason sample_reversal_payload = ''x''" "rp_approval_reference sample_reversal_payload = ''ap''" "rp_reversed_by sample_reversal_payload = ''ann''"
proof -
  have "code ''r-1'' ''reversal number'' 50 = Inr ''R-1''" "required ''x'' ''reversal reason'' 2000 = Inr ''x''"
    "required ''ap'' ''approval reference'' 255 = Inr ''ap''" "required ''ann'' ''reversed by'' 255 = Inr ''ann''" by code_simp+
  then show "reversal_fingerprint_payload (rv_command sample_reverse) = Inr sample_reversal_payload" "rp_number sample_reversal_payload = ''R-1''"
    "rp_reason sample_reversal_payload = ''x''" "rp_approval_reference sample_reversal_payload = ''ap''" "rp_reversed_by sample_reversal_payload = ''ann''"
    by (simp_all add: sample_reversal_payload_def reversal_fingerprint_payload_def sample_reverse_def)
qed

definition sample_reversal_fp :: string where
  "sample_reversal_fp = fingerprint_of (rp_json sample_reversal_payload)"

definition sample_reversal :: "string \<Rightarrow> journal_entry" where
  "sample_reversal fp = reversal_entry sample_reverse sample_reversal_payload sample_reversal_fp (sample_posted fp) (sample_period OPEN)"

definition sample_reversal_row :: "string \<Rightarrow> journal_line \<Rightarrow> journal_line" where
  "sample_reversal_row fp l = reversal_line sample_reverse (sample_posted fp) l"

definition reversed_books :: "string \<Rightarrow> accounting_db" where
  "reversed_books fp = (let l = sample_row 1 3 5000000 0 5000000 0; m = sample_row 2 4 0 5000000 0 5000000;
     rl = sample_reversal_row fp l; rm = sample_reversal_row fp m; r = sample_reversal fp in
     (posted_books fp)\<lparr>journals := [mark_reversed (sample_posted fp) 12 2, r\<lparr>je_status := POSTED\<rparr>],
       journal_lines := [l, m, rl, rm],
       ledger_lines := ledger_lines (posted_books fp) @ map (\<lambda>p. p\<lparr>pl_posted_at := 2\<rparr>) (sample_ledger r rl rm)\<rparr>)"

lemma sample_reversing:
  "do_reverse sample_reverse sample_reversal_payload sample_reversal_fp (posted_books fp) = Inr (journal_result 12, reversed_books fp)"
proof -
  have a: "accounts opened = [sample_account 3 ''A'', sample_account 4 ''B'']" "periods opened = [sample_period OPEN]"
    by (simp_all add: opened_def chart_def)
  have d: "uuid_str 7 = uuid_str 7" ..
  show ?thesis
    by (simp add: do_reverse_def sample_reverse_def posted_books_def balanced_draft_def drafted_def sample_posted_def mark_posted_def
        sample_ledger_def reversed_books_def sample_reversal_def sample_reversal_row_def reversal_entry_def reversal_line_def
        sample_reversal_payload(2-5) mark_reversed_def insert_journal_def source_key_def sample_source_def
        find_journal_def period_for_date_def contains_date_def find_account_def find_row_def sample_entry_def sample_row_def sample_account_def a
        require_postable_period_def sample_period_def date_le_def sample_day_def lines_of_def dimensions_of_def
        insert_line_def content_guard_def append_ledger_def ledger_row_def insert_ledger_line_def one_side_def reversal_recorded_def
        update_journal_def evidence_complete_def ledger_of_def update_rows_def opened_lookups Let_def del: One_nat_def)
qed

lemma reversed_run: "\<exists>fp rows. accounting_run (host rows (reversed_books fp))"
proof -
  obtain fp rows where run: "accounting_run (host rows (posted_books fp))"
    and rows: "map ir_unique rows = [(1, CREATE_SCOPE, ''k1''), (1, POST_SCOPE, ''k2'')]"
    using posted_run by (elim exE conjE) (rule that)
  have call: "rv_tenant sample_reverse = 1" "rv_key sample_reverse = ''k3''" "rv_expires_at sample_reverse = None"
    by (simp_all add: sample_reverse_def)
  have new: "(1, REVERSE_SCOPE, ''k3'') \<notin> set (map ir_unique rows)" unfolding rows using scopes_fit(8,9) by simp
  obtain o1 row where once: "accounting_once 1 REVERSE_SCOPE ''k3'' sample_reversal_fp None []
      (do_reverse sample_reverse sample_reversal_payload sample_reversal_fp) (host rows (posted_books fp))
      = (Inr o1, host (rows @ [row]) (reversed_books fp))"
    by (rule accounting_once_fresh [where f = "do_reverse sample_reverse sample_reversal_payload sample_reversal_fp" and
          ?s0.0 = "posted_books fp" and tenant = 1 and rs = rows and fp = sample_reversal_fp and expires = None,
          OF sample_reversing scopes_fit(6,3)]) (use new in \<open>auto simp: sample_reversal_fp_def\<close>)
  have "reverse_journal sample_reverse rows' (host rows (posted_books fp))
      = (outcome_journal 1 (reversed_books fp) o1, host (rows @ [row]) (reversed_books fp))" if "rows' = []" for rows'
    unfolding reverse_journal_def Let_def sample_reversal_payload(1) sum.case call sample_reversal_fp_def [symmetric] that once by simp
  then show ?thesis using accounting_run.step [OF run accounting_step.reversing] by blast
qed

subsection \<open>The period locked afterwards\<close>

definition sample_check :: CloseCheck where
  "sample_check = \<lparr>cc_code = ''BANK'', cc_passed = True, cc_evidence_reference = ''e'', cc_fingerprint = replicate 64 CHR ''a''\<rparr>"

definition sample_event :: "string \<Rightarrow> string \<Rightarrow> string \<Rightarrow> json \<Rightarrow> period_event" where
  "sample_event kind a b evidence = sample_opening\<lparr>pe_kind := kind, pe_from := a, pe_to := b, pe_approval := Some ''ap'', pe_evidence := evidence\<rparr>"

definition closed_books :: "string \<Rightarrow> accounting_db" where
  "closed_books fp = (posted_books fp)\<lparr>periods := [sample_period SOFT_CLOSED], period_events := [sample_opening,
     sample_event ''soft_close'' ''OPEN'' ''SOFT_CLOSED'' (JObj [(''checks'', JList [close_check_json sample_check])])]\<rparr>"

definition locked_books :: "string \<Rightarrow> accounting_db" where
  "locked_books fp = (closed_books fp)\<lparr>periods := [sample_period LOCKED], period_events := period_events (closed_books fp) @
     [sample_event ''lock'' ''SOFT_CLOSED'' ''LOCKED'' (JObj [])]\<rparr>"

lemma sample_closing:
  "soft_close_period sample_change [sample_check] ''ap'' (posted_books fp) = Inr (sample_period SOFT_CLOSED, closed_books fp)"
  "lock_period sample_change ''ap'' (closed_books fp) = Inr (sample_period LOCKED, locked_books fp)"
proof -
  have e: "close_evidence_payload [sample_check] = Inr (JObj [(''checks'', JList [close_check_json sample_check])])"
    "service_required ''ap'' ''approval reference'' 255 = Inr ''ap''" "service_required ''ann'' ''actor reference'' 255 = Inr ''ann''"
    by code_simp+
  have a: "periods opened = [sample_period OPEN]" "period_events opened = [sample_opening]" by (simp_all add: opened_def)
  show "soft_close_period sample_change [sample_check] ''ap'' (posted_books fp) = Inr (sample_period SOFT_CLOSED, closed_books fp)"
    "lock_period sample_change ''ap'' (closed_books fp) = Inr (sample_period LOCKED, locked_books fp)"
    by (simp_all add: soft_close_period_def lock_period_def period_event_def update_period_def period_transition_guard_def find_period_def
        find_row_def update_rows_def sample_change_def e closed_books_def locked_books_def posted_books_def balanced_draft_def drafted_def a
        sample_period_def sample_event_def sample_opening_def period_status_value_def del: One_nat_def)
qed

lemma closed_run:
  "\<exists>fp rows. accounting_run (host rows (closed_books fp)) \<and> accounting_step (host rows (closed_books fp)) (host rows (locked_books fp))"
proof -
  obtain fp rows where "accounting_run (host rows (posted_books fp))" using posted_run by blast
  then have "accounting_run (host rows (closed_books fp))"
    by (rule accounting_run.step) (use accounting_step.soft_closing [of _ _ _ "host rows (posted_books fp)", simplified, OF sample_closing(1)] in simp)
  moreover have "accounting_step (host rows (closed_books fp)) (host rows (locked_books fp))"
    using accounting_step.locking [of _ _ "host rows (closed_books fp)", simplified, OF sample_closing(2)] by simp
  ultimately show ?thesis by blast
qed

end
