(* ===== verification/Accounting_Guarantees.thy ===== *)
theory Accounting_Guarantees
  imports Accounting_Example
begin

text \<open>
  The properties of the accounting module's runs: the ledger balances, a reversal nets
  its journal to zero, a closed period's ledger stands still, the period events explain
  the status, and the posting check is the database's own.
\<close>

subsection \<open>Sums over the ledger\<close>

lemma sum_by_key:
  fixes f :: "'b \<Rightarrow> int"
  assumes "distinct ks" and "\<forall>p \<in> set ps. key p \<in> set ks"
  shows "sum_list (map f ps) = sum_list (map (\<lambda>k. sum_list (map f (filter (\<lambda>p. key p = k) ps))) ks)"
  using assms(2)
proof (induction ps)
  case Nil
  then show ?case by (simp add: sum_list_0)
next
  case (Cons p ps)
  have "sum_list (map (\<lambda>k. sum_list (map f (filter (\<lambda>q. key q = k) (p # ps)))) ks)
      = sum_list (map (\<lambda>k. (if k = key p then f p else 0) + sum_list (map f (filter (\<lambda>q. key q = k) ps))) ks)"
    by (rule arg_cong [of _ _ sum_list], rule map_cong) auto
  also have "\<dots> = sum_list (map (\<lambda>k. if k = key p then f p else 0) ks)
      + sum_list (map (\<lambda>k. sum_list (map f (filter (\<lambda>q. key q = k) ps))) ks)"
    by (simp add: sum_list_addf)
  also have "sum_list (map (\<lambda>k. if k = key p then f p else 0) ks) = f p"
    using Cons.prems assms(1) by (simp add: sum_list_distinct_conv_sum_set sum.delta)
  finally show ?case using Cons by simp
qed

lemma in_ledger_totals:
  assumes "in_ledger db j"
  shows "sum_list (map pl_debit (ledger_of (je_tenant j) (je_id j) db)) = je_total_debit_functional j"
    and "sum_list (map pl_credit (ledger_of (je_tenant j) (je_id j) db)) = je_total_debit_functional j"
    and "0 < je_total_debit_functional j" and "2 \<le> length (ledger_of (je_tenant j) (je_id j) db)"
  using assms by (auto simp: in_ledger_def evidence_complete_def Let_def)

lemma journal_balanced:
  assumes "journal_ok db j"
  shows "sum_list (map pl_debit (ledger_of (je_tenant j) (je_id j) db)) = sum_list (map pl_credit (ledger_of (je_tenant j) (je_id j) db))"
  using assms in_ledger_totals [of db j] by (cases "je_status j") (auto simp: journal_ok_def)

definition tenant_ledger :: "uuid \<Rightarrow> accounting_db \<Rightarrow> ledger_line list" where
  "tenant_ledger t db = filter (\<lambda>p. pl_tenant p = t) (ledger_lines db)"

lemma tenant_balanced:
  assumes "books_inv db"
  shows "sum_list (map pl_debit (tenant_ledger t db)) = sum_list (map pl_credit (tenant_ledger t db))"
proof -
  define js where "js = filter (\<lambda>j. je_tenant j = t) (journals db)"
  have d: "distinct (map je_id js)" using assms by (simp add: js_def books_inv_def distinct_map_filter)
  have own: "\<forall>p \<in> set (tenant_ledger t db). pl_journal p \<in> set (map je_id js)"
  proof
    fix p assume "p \<in> set (tenant_ledger t db)"
    then have "p \<in> set (ledger_lines db)" "pl_tenant p = t" by (simp_all add: tenant_ledger_def)
    then obtain j where "j \<in> set (journals db)" "je_tenant j = t" "je_id j = pl_journal p"
      using assms unfolding books_inv_def by blast
    then show "pl_journal p \<in> set (map je_id js)" by (force simp: js_def)
  qed
  have group: "filter (\<lambda>p. pl_journal p = je_id j) (tenant_ledger t db) = ledger_of (je_tenant j) (je_id j) db" if "j \<in> set js" for j
    using that by (auto simp: tenant_ledger_def ledger_of_def js_def intro: filter_cong)
  have each: "sum_list (map pl_debit (filter (\<lambda>p. pl_journal p = je_id j) (tenant_ledger t db)))
      = sum_list (map pl_credit (filter (\<lambda>p. pl_journal p = je_id j) (tenant_ledger t db)))" if "j \<in> set js" for j
    using journal_balanced [of db j] assms that unfolding group [OF that] by (simp add: books_inv_def js_def)
  then have "map (\<lambda>k. sum_list (map pl_debit (filter (\<lambda>p. pl_journal p = k) (tenant_ledger t db)))) (map je_id js)
      = map (\<lambda>k. sum_list (map pl_credit (filter (\<lambda>p. pl_journal p = k) (tenant_ledger t db)))) (map je_id js)" by simp
  then show ?thesis
    unfolding sum_by_key [OF d own, of pl_debit] sum_by_key [OF d own, of pl_credit] by (rule arg_cong [of _ _ sum_list])
qed

text \<open>The net movement of an account in some ledger rows, in functional and in original amounts.\<close>

definition net :: "uuid \<Rightarrow> ledger_line list \<Rightarrow> int" where
  "net a ps = sum_list (map (\<lambda>p. pl_debit p - pl_credit p) (filter (\<lambda>p. pl_account p = a) ps))"

definition net_original :: "uuid \<Rightarrow> ledger_line list \<Rightarrow> int" where
  "net_original a ps = sum_list (map (\<lambda>p. pl_original_debit p - pl_original_credit p) (filter (\<lambda>p. pl_account p = a) ps))"

definition net_sides :: "uuid \<Rightarrow> (uuid \<times> int \<times> int \<times> int \<times> int) list \<Rightarrow> int \<times> int" where
  "net_sides a vs = (sum_list (map (\<lambda>(_, d, c, _, _). d - c) (filter (\<lambda>v. fst v = a) vs)),
     sum_list (map (\<lambda>(_, _, _, d, c). d - c) (filter (\<lambda>v. fst v = a) vs)))"

lemma net_posted:
  assumes "map posted_view ps = map line_view ls"
  shows "(net a ps, net_original a ps) = net_sides a (map sides ls)"
  using assms
proof (induction ps arbitrary: ls)
  case Nil
  then show ?case by (simp add: net_def net_original_def net_sides_def)
next
  case (Cons p ps)
  then obtain l ls' where l: "ls = l # ls'" "posted_view p = line_view l" "map posted_view ps = map line_view ls'"
    by (cases ls) auto
  with Cons.IH [OF l(3)] show ?case
    by (auto simp: net_def net_original_def net_sides_def posted_view_def line_view_def sides_def)
qed

lemma net_swapped: "fst (net_sides a (map swap_sides ls)) = - fst (net_sides a (map sides ls))
    \<and> snd (net_sides a (map swap_sides ls)) = - snd (net_sides a (map sides ls))"
  by (induction ls) (auto simp: net_sides_def swap_sides_def sides_def)

lemma reversed_net_zero:
  assumes "in_ledger db j" and "in_ledger db r" and "reversed_by db j r"
  shows "net a (ledger_of (je_tenant j) (je_id j) db) + net a (ledger_of (je_tenant r) (je_id r) db) = 0"
    and "net_original a (ledger_of (je_tenant j) (je_id j) db) + net_original a (ledger_of (je_tenant r) (je_id r) db) = 0"
proof -
  have j: "map posted_view (ledger_of (je_tenant j) (je_id j) db) = map line_view (lines_of (je_tenant j) (je_id j) db)"
    and r: "map posted_view (ledger_of (je_tenant r) (je_id r) db) = map line_view (lines_of (je_tenant r) (je_id r) db)"
    and sw: "map sides (lines_of (je_tenant r) (je_id r) db) = map swap_sides (lines_of (je_tenant j) (je_id j) db)"
    using assms unfolding in_ledger_def reversed_by_def by blast+
  show "net a (ledger_of (je_tenant j) (je_id j) db) + net a (ledger_of (je_tenant r) (je_id r) db) = 0"
    and "net_original a (ledger_of (je_tenant j) (je_id j) db) + net_original a (ledger_of (je_tenant r) (je_id r) db) = 0"
    using net_posted [OF j, of a] net_posted [OF r, of a] net_swapped [of a "lines_of (je_tenant j) (je_id j) db"]
    unfolding sw by (auto simp: prod_eq_iff)
qed

subsection \<open>What a step leaves alone\<close>

definition period_ledger :: "fiscal_period \<Rightarrow> accounting_db \<Rightarrow> ledger_line list" where
  "period_ledger p db = filter (\<lambda>l. pl_period l = fp_id p) (ledger_lines db)"

lemma period_moves_fields:
  assumes "period_moves db p q e s"
  shows "p \<in> set (periods db)" "legal_transition (fp_status p) (fp_status q)"
    "periods s = update_rows (\<lambda>x. fp_id x = fp_id p) (\<lambda>_. q) (periods db)" "ledger_lines s = ledger_lines db"
  using assms by (simp_all add: period_moves_def)

lemma posted_into:
  assumes inv: "periods_inv db" and q: "q \<in> set (periods db)" "postable q token" and booked: "posted_from po j ls ps" "je_period j = fp_id q"
    and s: "ledger_lines s = ledger_lines db @ ps" and p: "p \<in> set (periods db)" "fp_status p \<notin> {OPEN, REOPENED}"
  shows "period_ledger p s = period_ledger p db"
proof -
  have "fp_id p \<noteq> fp_id q"
  proof
    assume "fp_id p = fp_id q"
    then have "p = q" using distinct_key_eq [of fp_id "periods db" p q] inv p(1) q(1) by (simp add: periods_inv_def)
    with q(2) p(2) show False by (auto simp: postable_def)
  qed
  then have "filter (\<lambda>l. pl_period l = fp_id p) ps = []"
    using posted_from_rows(1) [OF booked(1)] booked(2) by (auto simp: filter_empty_conv)
  then show ?thesis by (simp add: period_ledger_def s)
qed

lemma books_step_closed:
  assumes "books_step db s" and inv: "accounting_inv db" and p: "p \<in> set (periods db)" "fp_status p \<notin> {OPEN, REOPENED}"
  shows "period_ledger p s = period_ledger p db"
  using assms
proof (induction rule: books_step.induct)
  case (drafted ccall cp fp db res s)
  then show ?case using do_create_Inr [OF drafted(2)] by (auto simp: period_ledger_def)
next
  case (journal_posted pcall approval actor db res s)
  show ?case
  proof (rule do_post_Inr [OF journal_posted(1)])
    fix j q po ps ds
    assume q: "q \<in> set (periods db)" "postable q (pt_reopen_token pcall)" and per: "fp_id q = je_period j"
      and booked: "posted_from po j (lines_of (je_tenant j) (je_id j) db) ps"
      and s: "s = db\<lparr>journals := update_rows (\<lambda>x. je_id x = je_id j) (\<lambda>_. mark_posted j approval actor (pt_posted_at pcall)) (journals db),
             ledger_lines := ledger_lines db @ ps, ledger_dimensions := ledger_dimensions db @ ds\<rparr>"
    have l: "ledger_lines s = ledger_lines db @ ps" by (simp add: s)
    show ?thesis
      by (rule posted_into [OF _ q booked per [symmetric] l]) (use journal_posted in \<open>simp_all add: accounting_inv_def\<close>)
  qed
next
  case (journal_reversed rcall rp fp db res s)
  have owned: "\<forall>l \<in> set (journal_lines db). jl_journal l \<in> je_id ` set (journals db)"
    using journal_reversed(3) unfolding accounting_inv_def books_inv_def by (metis imageI)
  show ?case
  proof (rule do_reverse_Inr [OF journal_reversed(2) owned])
    fix o1 q r po xs ps ds
    assume q: "q \<in> set (periods db)" "postable q (rj_reopen_token (rv_command rcall))" and r: "r = reversal_entry rcall rp fp o1 q"
      and booked: "posted_from po r (map (reversal_line rcall o1) (lines_of (je_tenant o1) (je_id o1) db)) ps"
      and s: "s = db\<lparr>journals := update_rows (\<lambda>x. je_id x = je_id o1) (\<lambda>_. mark_reversed o1 (je_id r) (rv_reversed_at rcall)) (journals db)
              @ [r\<lparr>je_status := POSTED\<rparr>],
            journal_lines := journal_lines db @ map (reversal_line rcall o1) (lines_of (je_tenant o1) (je_id o1) db),
            line_dimensions := line_dimensions db @ xs,
            ledger_lines := ledger_lines db @ ps, ledger_dimensions := ledger_dimensions db @ ds\<rparr>"
    have l: "ledger_lines s = ledger_lines db @ ps" by (simp add: s)
    have per: "je_period r = fp_id q" by (simp add: r)
    show ?thesis
      by (rule posted_into [OF _ q booked per l]) (use journal_reversed in \<open>simp_all add: accounting_inv_def\<close>)
  qed
qed (auto simp: period_ledger_def dest!: period_change_moves period_moves_fields(4) same_books_fields(6)
    create_fiscal_year_Inr create_fiscal_period_Inr)

lemma books_step_locked:
  assumes "books_step db s" and inv: "accounting_inv db" and p: "p \<in> set (periods db)" "fp_status p = LOCKED"
  shows "p \<in> set (periods s)"
proof -
  have move: "p \<in> set (periods s)" if "period_moves db x y e s" for x y e
  proof -
    note m = period_moves_fields [OF that]
    have "fp_id p \<noteq> fp_id x"
    proof
      assume "fp_id p = fp_id x"
      then have "p = x" using distinct_key_eq [of fp_id "periods db" p x] inv p(1) m(1) by (simp add: accounting_inv_def periods_inv_def)
      with m(2) p(2) show False by (auto simp: legal_transition_def)
    qed
    then show ?thesis
      unfolding m(3) using replace_row_other [of p "periods db" fp_id "fp_id x" y] p(1) by simp
  qed
  show ?thesis
    using assms(1)
  proof cases
    case (drafted ccall cp fp res)
    then show ?thesis using do_create_Inr [OF drafted(2)] p(1) by auto
  next
    case (journal_posted pcall approval actor res)
    show ?thesis by (rule do_post_Inr [OF journal_posted]) (use p(1) in simp)
  next
    case (journal_reversed rcall rp fp res)
    have owned: "\<forall>l \<in> set (journal_lines db). jl_journal l \<in> je_id ` set (journals db)"
      using inv unfolding accounting_inv_def books_inv_def by (metis imageI)
    show ?thesis by (rule do_reverse_Inr [OF journal_reversed(2) owned]) (use p(1) in simp)
  next
    case master_data
    then show ?thesis using p(1) by (simp add: same_books_fields)
  next
    case (year_created t i yc y)
    then show ?thesis using p(1) create_fiscal_year_Inr [OF year_created] by auto
  next
    case (period_created t i c q)
    then show ?thesis using p(1) create_fiscal_period_Inr [OF period_created] by auto
  qed (auto dest!: period_change_moves move)
qed

lemma books_steps_locked:
  assumes "books_step\<^sup>*\<^sup>* db s" and "accounting_inv db" and "p \<in> set (periods db)" "fp_status p = LOCKED"
  shows "p \<in> set (periods s) \<and> period_ledger p s = period_ledger p db"
proof -
  have "accounting_inv s \<and> p \<in> set (periods s) \<and> period_ledger p s = period_ledger p db"
    using assms(1)
  proof (induction rule: rtranclp_induct)
    case base
    then show ?case using assms by simp
  next
    case (step y z)
    then show ?case
      using books_step_inv [of y z] books_step_locked [of y z p] books_step_closed [of y z p] assms(4) by simp
  qed
  then show ?thesis by simp
qed

subsection \<open>The posting check and the trigger\<close>

text \<open>The decimal sums of a posting are exact as long as they fit in 28 digits.\<close>

lemma dec_fix_small: "\<bar>c\<bar> < 10 ^ 28 \<Longrightarrow> dec_fix (Dec c e) = Dec c e"
proof -
  assume "\<bar>c\<bar> < 10 ^ 28"
  then have "nat \<bar>c\<bar> < 10 ^ 28" by simp
  then have "ndigits (nat \<bar>c\<bar>) \<le> PREC" using ndigits_le_iff [of 28] by (simp add: PREC_def)
  then show ?thesis by (simp add: dec_fix_def)
qed

lemma sum_dec_exact:
  assumes "\<forall>x \<in> set xs. \<bar>x\<bar> < 10 ^ 20" and "length xs \<le> 10 ^ 8"
  shows "xs \<noteq> [] \<Longrightarrow> sum_dec (map money_of xs) = Dec (sum_list xs) (- 6)"
    and "\<bar>sum_list xs\<bar> \<le> int (length xs) * (10 ^ 20 - 1)"
  using assms
proof (induction xs rule: rev_induct)
  case Nil
  {
    case 1
    then show ?case by simp
  next
    case 2
    then show ?case by simp
  }
next
  case (snoc x xs)
  {
    case 2
    then have "\<bar>sum_list xs\<bar> \<le> int (length xs) * (10 ^ 20 - 1)" using snoc.IH(2) by simp
    moreover have "\<bar>x\<bar> \<le> 10 ^ 20 - 1" using 2 by simp
    ultimately show ?case by (simp add: algebra_simps)
  }
  note bound = this
  {
    case 1
    have "\<bar>sum_list (xs @ [x])\<bar> \<le> int (length (xs @ [x])) * (10 ^ 20 - 1)" using bound 1 by simp
    also have "\<dots> \<le> 10 ^ 8 * (10 ^ 20 - 1)" using 1(3) by (intro mult_right_mono) simp_all
    finally have small: "\<bar>sum_list xs + x\<bar> < 10 ^ 28" by simp
    show ?case
    proof (cases "xs = []")
      case True
      then show ?thesis using small
        by (simp add: sum_dec_def dec_add_def dec_zero_def money_of_def scale_to_def dec_fix_small)
    next
      case False
      then have "sum_dec (map money_of xs) = Dec (sum_list xs) (- 6)" using snoc.IH(1) 1 by simp
      then have step: "sum_dec (map money_of (xs @ [x])) = dec_add (Dec (sum_list xs) (- 6)) (money_of x)"
        by (simp add: sum_dec_def)
      show ?thesis
        unfolding step using small by (simp add: dec_add_def money_of_def scale_to_def dec_fix_small)
    qed
  }
qed

lemma money_exact: "\<bar>c\<bar> < 10 ^ 28 \<Longrightarrow> money (Dec c (- 6)) = Inr (Dec c (- 6))"
proof -
  assume "\<bar>c\<bar> < 10 ^ 28"
  then have "nat \<bar>c\<bar> < 10 ^ 28" by simp
  then have "ndigits (nat \<bar>c\<bar>) \<le> 28" using ndigits_le_iff [of 28] by simp
  then show ?thesis
    by (simp add: money_def quantize_def rescale_def scale_to_def Let_def PREC_def)
qed

lemma money_sum_exact:
  assumes "\<forall>x \<in> set xs. \<bar>x\<bar> < 10 ^ 20" and "length xs \<le> 10 ^ 8" and "xs \<noteq> []"
  shows "money (sum_dec (map money_of xs)) = Inr (money_of (sum_list xs))"
proof -
  have "\<bar>sum_list xs\<bar> \<le> int (length xs) * (10 ^ 20 - 1)" by (rule sum_dec_exact(2) [OF assms(1,2)])
  also have "\<dots> \<le> 10 ^ 8 * (10 ^ 20 - 1)" using assms(2) by (intro mult_right_mono) simp_all
  finally have "\<bar>sum_list xs\<bar> < 10 ^ 28" by simp
  with money_exact sum_dec_exact(1) [OF assms] show ?thesis by (simp add: money_of_def)
qed

lemma money_of_compare [simp]:
  "dec_eq (money_of a) (money_of b) \<longleftrightarrow> a = b" "dec_le (money_of a) dec_zero \<longleftrightarrow> a \<le> 0"
  by (simp_all add: dec_eq_def dec_le_def money_of_def dec_zero_def scale_to_def)

lemma persisted_balanced_exact:
  assumes "\<forall>l \<in> set ls. line_ok l" and "ls \<noteq> []" and "length ls \<le> 10 ^ 8"
  shows "persisted_balanced j ls = Inr (\<not> (sum_list (map jl_debit ls) \<le> 0
      \<or> sum_list (map jl_debit ls) \<noteq> sum_list (map jl_credit ls)
      \<or> sum_list (map jl_debit ls) \<noteq> je_total_debit j \<or> sum_list (map jl_credit ls) \<noteq> je_total_credit j
      \<or> sum_list (map jl_debit_functional ls) \<le> 0
      \<or> sum_list (map jl_debit_functional ls) \<noteq> sum_list (map jl_credit_functional ls)
      \<or> sum_list (map jl_debit_functional ls) \<noteq> je_total_debit_functional j
      \<or> sum_list (map jl_credit_functional ls) \<noteq> je_total_credit_functional j))"
proof -
  have sums: "money (sum_dec (map (money_of \<circ> f) ls)) = Inr (money_of (sum_list (map f ls)))"
    if "\<forall>l \<in> set ls. \<bar>f l\<bar> < 10 ^ 20" for f
    using money_sum_exact [of "map f ls"] that assms(2,3) by simp
  have "money (sum_dec (map (money_of \<circ> f) ls)) = Inr (money_of (sum_list (map f ls)))"
    if "f \<in> {jl_debit, jl_credit, jl_debit_functional, jl_credit_functional}" for f
    using assms(1) that by (intro sums) (auto simp: line_ok_def)
  then show ?thesis
    unfolding persisted_balanced_def by (simp only: insert_iff simp_thms bindr_simps money_of_compare)
qed

lemma posted_sums:
  assumes "map posted_view ps = map line_view ls"
  shows "map pl_debit ps = map jl_debit_functional ls" "map pl_credit ps = map jl_credit_functional ls"
    "map pl_original_debit ps = map jl_debit ls" "map pl_original_credit ps = map jl_credit ls" "length ps = length ls"
proof -
  have "map g (map posted_view ps) = map g (map line_view ls)" for g :: "_ \<Rightarrow> int" using assms by simp
  from this [of "\<lambda>(_, _, x, _, _, _). x"] this [of "\<lambda>(_, _, _, x, _, _). x"] this [of "\<lambda>(_, _, _, _, x, _). x"] this [of "\<lambda>(_, _, _, _, _, x). x"]
  show "map pl_debit ps = map jl_debit_functional ls" "map pl_credit ps = map jl_credit_functional ls"
    "map pl_original_debit ps = map jl_debit ls" "map pl_original_credit ps = map jl_credit ls"
    by (simp_all add: posted_view_def line_view_def comp_def)
  show "length ps = length ls" using arg_cong [OF assms, of length] by simp
qed

lemma check_is_evidence:
  assumes inv: "books_inv db" and j: "j \<in> set (journals db)" "je_status j = DRAFT"
    and few: "length (lines_of (je_tenant j) (je_id j) db) \<le> 10 ^ 8"
    and run: "append_ledger po (je_tenant j) j db = Inr s"
  shows "persisted_balanced j (lines_of (je_tenant j) (je_id j) db) = Inr (evidence_complete (mark_posted j approval actor t) s)"
proof -
  define ls where "ls = lines_of (je_tenant j) (je_id j) db"
  have jok: "journal_ok db j" using inv j by (simp add: books_inv_def)
  then have none: "ledger_of (je_tenant j) (je_id j) db = []" and two: "2 \<le> length ls"
    using j by (simp_all add: journal_ok_def ls_def)
  have oks: "\<forall>l \<in> set ls. line_ok l" using inv unfolding ls_def set_lines_of by (simp add: books_inv_def)
  obtain ps ds where s: "s = db\<lparr>ledger_lines := ledger_lines db @ ps, ledger_dimensions := ledger_dimensions db @ ds\<rparr>"
    and booked: "posted_from po j ls ps" unfolding ls_def by (rule append_ledger_Inr [OF run refl])
  have ps: "ledger_of (je_tenant j) (je_id j) s = ps"
    by (rule ledger_of_posted [OF booked _ none]) (simp add: s)
  note sums = posted_sums [OF posted_from_rows(2) [OF booked]]
  have len: "length (filter (\<lambda>l. jl_tenant l = je_tenant j \<and> jl_journal l = je_id j) (journal_lines s)) = length ls"
    by (simp add: s ls_def lines_of_def)
  have few': "length ls \<le> 10 ^ 8" using few by (simp add: ls_def)
  have q: "je_tenant (mark_posted j approval actor t) = je_tenant j" "je_id (mark_posted j approval actor t) = je_id j"
    "je_total_debit (mark_posted j approval actor t) = je_total_debit j" "je_total_credit (mark_posted j approval actor t) = je_total_credit j"
    "je_total_debit_functional (mark_posted j approval actor t) = je_total_debit_functional j"
    "je_total_credit_functional (mark_posted j approval actor t) = je_total_credit_functional j"
    "je_approval (mark_posted j approval actor t) \<noteq> None" "je_posted_by (mark_posted j approval actor t) \<noteq> None"
    "je_posted_at (mark_posted j approval actor t) \<noteq> None" by (simp_all add: mark_posted_def)
  have two': "\<not> length ls < 2" "ls \<noteq> []" using two by auto
  show ?thesis
    unfolding evidence_complete_def Let_def q(1-6) ps sums len ls_def [symmetric] persisted_balanced_exact [OF oks two'(2) few']
    by (rule arg_cong [of _ _ Inr]) (use q(7-9) two'(1) in blast)
qed

subsection \<open>A draft that cannot be posted\<close>

text \<open>A draft whose lines do not pass the check of \<^verbatim>\<open>post_journal\<close>.\<close>

definition unpostable :: "accounting_db \<Rightarrow> journal_entry \<Rightarrow> bool" where
  "unpostable db j \<longleftrightarrow> j \<in> set (journals db) \<and> je_status j = DRAFT
     \<and> persisted_balanced j (lines_of (je_tenant j) (je_id j) db) \<noteq> Inr True"

lemma unpostable_cong:
  "unpostable db j \<Longrightarrow> j \<in> set (journals s) \<Longrightarrow> lines_of (je_tenant j) (je_id j) s = lines_of (je_tenant j) (je_id j) db \<Longrightarrow> unpostable s j"
  by (simp add: unpostable_def)

lemma books_step_unpostable:
  assumes "books_step db s" and "accounting_inv db" and stuck: "unpostable db j"
  shows "unpostable s j"
proof -
  have keep: "unpostable x j" if "journals x = journals db" "journal_lines x = journal_lines db" for x
    using stuck that lines_of_cong [OF that(2)] by (simp add: unpostable_def)
  show ?thesis
    using assms(1)
  proof cases
    case (drafted ccall cp fp res)
    from do_create_Inr [OF drafted(2)] show ?thesis
    proof (elim disjE exE conjE)
      fix k ls xs assume new: "new_content db k ls" and s: "s = db\<lparr>journals := journals db @ [k], journal_lines := journal_lines db @ ls,
          line_dimensions := line_dimensions db @ xs\<rparr>"
      have "je_id k \<noteq> je_id j" using new stuck by (auto simp: new_content_def unpostable_def)
      then have "\<forall>l \<in> set ls. jl_journal l \<noteq> je_id j" using new by (simp add: new_content_def)
      then show ?thesis
        by (intro unpostable_cong [OF stuck] lines_of_other(1)) (use stuck in \<open>simp_all add: s unpostable_def\<close>)
    qed (use stuck in simp)
  next
    case (journal_posted pcall approval actor res)
    show ?thesis
    proof (rule do_post_Inr [OF journal_posted])
      fix k ps ds
      assume k: "k \<in> set (journals db)" "persisted_balanced k (lines_of (je_tenant k) (je_id k) db) = Inr True"
        and s: "s = db\<lparr>journals := update_rows (\<lambda>x. je_id x = je_id k) (\<lambda>_. mark_posted k approval actor (pt_posted_at pcall)) (journals db),
               ledger_lines := ledger_lines db @ ps, ledger_dimensions := ledger_dimensions db @ ds\<rparr>"
      have d: "distinct (map je_id (journals db))" using assms(2) by (simp add: accounting_inv_def books_inv_def)
      have "je_id j \<noteq> je_id k" using distinct_key_eq [OF d, of j k] k stuck by (auto simp: unpostable_def)
      then have "j \<in> set (journals s)"
        using replaced_journal(6) [OF d k(1), of "mark_posted k approval actor (pt_posted_at pcall)" j] stuck by (simp add: s unpostable_def)
      then show ?thesis by (intro unpostable_cong [OF stuck] lines_of_cong) (simp_all add: s)
    qed
  next
    case (journal_reversed rcall rp fp res)
    have owned: "\<forall>l \<in> set (journal_lines db). jl_journal l \<in> je_id ` set (journals db)"
      using assms(2) unfolding accounting_inv_def books_inv_def by (metis imageI)
    show ?thesis
    proof (rule do_reverse_Inr [OF journal_reversed(2) owned])
      fix o1 p r po xs ps ds
      assume o1: "o1 \<in> set (journals db)" "je_status o1 = POSTED" and r: "r = reversal_entry rcall rp fp o1 p" "je_id r \<notin> je_id ` set (journals db)"
        and s: "s = db\<lparr>journals := update_rows (\<lambda>x. je_id x = je_id o1) (\<lambda>_. mark_reversed o1 (je_id r) (rv_reversed_at rcall)) (journals db)
                @ [r\<lparr>je_status := POSTED\<rparr>],
              journal_lines := journal_lines db @ map (reversal_line rcall o1) (lines_of (je_tenant o1) (je_id o1) db),
              line_dimensions := line_dimensions db @ xs,
              ledger_lines := ledger_lines db @ ps, ledger_dimensions := ledger_dimensions db @ ds\<rparr>"
      have d: "distinct (map je_id (journals db))" using assms(2) by (simp add: accounting_inv_def books_inv_def)
      have "je_id j \<noteq> je_id o1" using distinct_key_eq [OF d, of j o1] o1 stuck by (auto simp: unpostable_def)
      then have j: "j \<in> set (journals s)"
        using replaced_journal(6) [OF d o1(1), of "mark_reversed o1 (je_id r) (rv_reversed_at rcall)" j] stuck by (simp add: s unpostable_def)
      have ne: "je_id r \<noteq> je_id j" using r(2) stuck unfolding unpostable_def by (metis imageI)
      have "\<forall>l \<in> set (map (reversal_line rcall o1) (lines_of (je_tenant o1) (je_id o1) db)). jl_journal l \<noteq> je_id j"
        using ne unfolding r(1) by auto
      then have "lines_of (je_tenant j) (je_id j) s = lines_of (je_tenant j) (je_id j) db" by (rule lines_of_other(1) [rotated]) (simp add: s)
      then show ?thesis by (rule unpostable_cong [OF stuck j])
    qed
  qed (auto simp: same_books_fields period_moves_def intro!: keep dest!: period_change_moves create_fiscal_year_Inr create_fiscal_period_Inr)
qed

lemma books_steps_unpostable:
  assumes "books_step\<^sup>*\<^sup>* db s" and "accounting_inv db" and "unpostable db j"
  shows "accounting_inv s \<and> unpostable s j"
  using assms(1)
proof (induction rule: rtranclp_induct)
  case (step y z)
  then show ?case using books_step_inv books_step_unpostable by simp
qed (use assms in simp)

subsection \<open>The properties\<close>

text \<open>
  C3. In every reachable state the ledger balances: for every tenant the debits posted equal the
  credits posted.  A draft has no ledger rows; a posted or reversed journal has exactly one row for each
  of its lines, with the line's account and amounts, at least two of them, and their functional
  debits and credits both come to the journal's functional total, which is positive.
\<close>

theorem ledger_always_balanced:
  assumes "accounting_run d"
  shows "sum_list (map pl_debit (tenant_ledger t (app_data d))) = sum_list (map pl_credit (tenant_ledger t (app_data d)))
    \<and> (\<forall>j \<in> set (journals (app_data d)).
         (je_status j = DRAFT \<and> ledger_of (je_tenant j) (je_id j) (app_data d) = [])
       \<or> (je_status j \<in> {POSTED, REVERSED}
          \<and> map posted_view (ledger_of (je_tenant j) (je_id j) (app_data d)) = map line_view (lines_of (je_tenant j) (je_id j) (app_data d))
          \<and> 2 \<le> length (ledger_of (je_tenant j) (je_id j) (app_data d))
          \<and> sum_list (map pl_debit (ledger_of (je_tenant j) (je_id j) (app_data d))) = je_total_debit_functional j
          \<and> sum_list (map pl_credit (ledger_of (je_tenant j) (je_id j) (app_data d))) = je_total_debit_functional j
          \<and> 0 < je_total_debit_functional j))"
proof -
  have inv: "books_inv (app_data d)" using accounting_run_inv [OF assms] by (simp add: accounting_inv_def)
  have "(je_status j = DRAFT \<and> ledger_of (je_tenant j) (je_id j) (app_data d) = []) \<or> (je_status j \<in> {POSTED, REVERSED} \<and> in_ledger (app_data d) j)"
    if "j \<in> set (journals (app_data d))" for j
    using inv that by (cases "je_status j") (auto simp: books_inv_def journal_ok_def)
  then show ?thesis
    using tenant_balanced [OF inv, of t] in_ledger_totals in_ledger_def by blast
qed

lemma ledger_always_balanced_witness:
  "\<exists>fp rows. accounting_run (host rows (reversed_books fp))
    \<and> sum_list (map pl_debit (tenant_ledger 1 (reversed_books fp))) = sum_list (map pl_credit (tenant_ledger 1 (reversed_books fp)))"
proof -
  obtain fp rows where run: "accounting_run (host rows (reversed_books fp))" using reversed_run by blast
  show ?thesis using run ledger_always_balanced [OF run, of 1] unfolding host_simps by blast
qed

text \<open>
  C6. A reversed journal has a posted reversal that names it, in the same tenant, and together the two
  leave every account where it was, in functional and in original amounts.
\<close>

theorem reversal_nets_to_zero:
  assumes "accounting_run d" and "j \<in> set (journals (app_data d))" and "je_status j = REVERSED"
  shows "\<exists>r \<in> set (journals (app_data d)). je_reversal j = Some (je_id r) \<and> je_reverses r = Some (je_id j)
    \<and> je_tenant r = je_tenant j \<and> je_status r \<in> {POSTED, REVERSED}
    \<and> (\<forall>a. net a (ledger_of (je_tenant j) (je_id j) (app_data d)) + net a (ledger_of (je_tenant r) (je_id r) (app_data d)) = 0
         \<and> net_original a (ledger_of (je_tenant j) (je_id j) (app_data d))
           + net_original a (ledger_of (je_tenant r) (je_id r) (app_data d)) = 0)"
proof -
  have inv: "books_inv (app_data d)" using accounting_run_inv [OF assms(1)] by (simp add: accounting_inv_def)
  then have "journal_ok (app_data d) j" using assms(2) by (simp add: books_inv_def)
  then obtain r where r: "r \<in> set (journals (app_data d))" "reversed_by (app_data d) j r" and jl: "in_ledger (app_data d) j"
    using assms(3) by (auto simp: journal_ok_def)
  have "journal_ok (app_data d) r" using inv r(1) by (simp add: books_inv_def)
  then have rl: "in_ledger (app_data d) r" using r(2) by (auto simp: journal_ok_def reversed_by_def)
  show ?thesis
    using r reversed_net_zero [OF jl rl r(2)] unfolding reversed_by_def by (intro bexI [of _ r]) simp_all
qed

lemma reversal_nets_to_zero_witness:
  "\<exists>fp rows. accounting_run (host rows (reversed_books fp)) \<and> je_status (mark_reversed (sample_posted fp) 12 2) = REVERSED
    \<and> (\<exists>r \<in> set (journals (reversed_books fp)). je_reversal (mark_reversed (sample_posted fp) 12 2) = Some (je_id r))"
proof -
  obtain fp rows where run: "accounting_run (host rows (reversed_books fp))" using reversed_run by blast
  have j: "mark_reversed (sample_posted fp) 12 2 \<in> set (journals (app_data (host rows (reversed_books fp))))"
    "je_status (mark_reversed (sample_posted fp) 12 2) = REVERSED" by (simp_all add: reversed_books_def Let_def)
  show ?thesis using run j(2) reversal_nets_to_zero [OF run j] unfolding host_simps by blast
qed

text \<open>
  C9. The ledger of a period that is neither open nor reopened does not change in any step, and a locked
  period stays in place, locked and with the same ledger, whatever is done afterwards.
\<close>

theorem closed_periods_frozen:
  assumes "accounting_run d" and "p \<in> set (periods (app_data d))"
  shows "(\<forall>d'. accounting_step d d' \<longrightarrow> fp_status p \<notin> {OPEN, REOPENED}
           \<longrightarrow> period_ledger p (app_data d') = period_ledger p (app_data d))
    \<and> (\<forall>d'. accounting_step\<^sup>*\<^sup>* d d' \<longrightarrow> fp_status p = LOCKED
           \<longrightarrow> p \<in> set (periods (app_data d')) \<and> period_ledger p (app_data d') = period_ledger p (app_data d))"
  using accounting_run_inv [OF assms(1)] assms(2) books_step_closed books_steps_locked accounting_step_books accounting_steps_books
  by metis

lemma closed_periods_frozen_witness:
  "\<exists>fp rows. accounting_step (host rows (closed_books fp)) (host rows (locked_books fp))
    \<and> period_ledger (sample_period SOFT_CLOSED) (locked_books fp) = period_ledger (sample_period SOFT_CLOSED) (closed_books fp)"
proof -
  obtain fp rows where run: "accounting_run (host rows (closed_books fp))"
    and step: "accounting_step (host rows (closed_books fp)) (host rows (locked_books fp))" using closed_run by blast
  have p: "sample_period SOFT_CLOSED \<in> set (periods (app_data (host rows (closed_books fp))))"
    "fp_status (sample_period SOFT_CLOSED) \<notin> {OPEN, REOPENED}" by (simp_all add: closed_books_def sample_period_def)
  show ?thesis using step closed_periods_frozen [OF run p(1)] p(2) unfolding host_simps by (metis host_simps(1))
qed

text \<open>
  C35. The recorded events of a period tell a path of legal transitions from its creation as a future
  period to the status it has, so nothing leaves \<^verbatim>\<open>LOCKED\<close> and nothing is skipped; a period carries a
  reopen token exactly while it is reopened.
\<close>

theorem period_history_explains_status:
  assumes "accounting_run d" and "p \<in> set (periods (app_data d))"
  shows "status_path FUTURE (period_history p (app_data d)) (fp_status p) \<and> (fp_token p \<noteq> None \<longleftrightarrow> fp_status p = REOPENED)"
  using accounting_run_inv [OF assms(1)] assms(2) by (simp add: accounting_inv_def periods_inv_def period_ok_def)

lemma period_history_explains_status_witness:
  "status_path FUTURE (period_history (sample_period OPEN) opened) OPEN"
  using period_history_explains_status [OF opened_run, of "sample_period OPEN"] by (simp add: opened_def sample_period_def)

text \<open>
  A day has at most one period of a tenant: the period a posting date selects is the one that
  contains it, and the refusal for several periods never happens.
\<close>

theorem posting_period_unambiguous:
  assumes "accounting_run d"
  shows "period_for_date t on (app_data d) = Inr p \<longleftrightarrow> p \<in> set (periods (app_data d)) \<and> contains_date t on p"
proof
  assume "period_for_date t on (app_data d) = Inr p"
  then show "p \<in> set (periods (app_data d)) \<and> contains_date t on p" by (rule period_for_date_Inr)
next
  assume p: "p \<in> set (periods (app_data d)) \<and> contains_date t on p"
  have inv: "periods_inv (app_data d)" using accounting_run_inv [OF assms] by (simp add: accounting_inv_def)
  let ?f = "filter (contains_date t on) (periods (app_data d))"
  have "set ?f = {p}" using p period_unique [OF inv] by auto
  moreover have "distinct ?f" using inv by (auto simp: periods_inv_def distinct_map)
  ultimately have "length ?f = 1" "set ?f = {p}" using distinct_card [of ?f] by simp_all
  then have "?f = [p]" by (cases ?f) auto
  then show "period_for_date t on (app_data d) = Inr p" by (simp add: period_for_date_def)
qed

lemma posting_period_unambiguous_witness: "period_for_date 1 (sample_day 2) opened = Inr (sample_period OPEN)"
  using posting_period_unambiguous [OF opened_run, of 1 "sample_day 2" "sample_period OPEN"]
  by (simp add: opened_def sample_period_def contains_date_def date_le_def sample_day_def)

text \<open>
  C36. For a draft of at most a hundred million lines, the check that \<^verbatim>\<open>post_journal\<close> makes on the persisted
  lines before it appends the ledger decides exactly what the database trigger demands of the ledger
  afterwards: a posting that passes the one is never refused by the other.
\<close>

theorem posting_check_is_trigger:
  assumes "accounting_run d" and "j \<in> set (journals (app_data d))" and "je_status j = DRAFT"
    and "length (lines_of (je_tenant j) (je_id j) (app_data d)) \<le> 10 ^ 8"
    and "append_ledger po (je_tenant j) j (app_data d) = Inr s"
  shows "persisted_balanced j (lines_of (je_tenant j) (je_id j) (app_data d))
    = Inr (evidence_complete (mark_posted j approval actor t) s)"
  using accounting_run_inv [OF assms(1)] check_is_evidence [OF _ assms(2-5)] by (simp add: accounting_inv_def)

lemma posting_check_is_trigger_witness:
  "\<exists>fp s. append_ledger \<lparr>po_posted_by = ''ann'', po_posted_at = 1, po_ledger_id = (\<lambda>i. i)\<rparr> 1 (sample_entry fp 10000000000 5000000 5000000)
      (balanced_draft fp) = Inr s
    \<and> persisted_balanced (sample_entry fp 10000000000 5000000 5000000) (lines_of 1 7 (balanced_draft fp))
      = Inr (evidence_complete (sample_posted fp) s)"
proof -
  obtain fp row where run: "accounting_run (host [row] (balanced_draft fp))" using balanced_draft_run by blast
  let ?j = "sample_entry fp 10000000000 5000000 5000000"
  have j: "?j \<in> set (journals (app_data (host [row] (balanced_draft fp))))" "je_status ?j = DRAFT" "je_tenant ?j = 1" "je_id ?j = 7"
    by (simp_all add: balanced_draft_def drafted_def sample_entry_def)
  have few: "length (lines_of (je_tenant ?j) (je_id ?j) (app_data (host [row] (balanced_draft fp)))) \<le> 10 ^ 8"
    by (simp add: j lines_of_def balanced_draft_def drafted_def sample_row_def)
  show ?thesis
    using posting_check_is_trigger [OF run j(1,2) few, unfolded j(3,4) host_simps, OF sample_append, of "''ap''" "''ann''" 1]
    unfolding sample_posted_def by (intro exI conjI) (rule sample_append)
qed

text \<open>
  C37. A draft whose persisted lines do not pass the check of \<^verbatim>\<open>post_journal\<close> stays a draft with the same lines
  and no ledger row whatever is done afterwards.  \<^verbatim>\<open>create_journal\<close> makes such drafts: it rounds an amount
  to millionths before it applies the rate when it computes the header's totals, and only afterwards
  when it computes the lines'.
\<close>

theorem mismatched_draft_never_posted:
  assumes "accounting_run d" and "j \<in> set (journals (app_data d))" and "je_status j = DRAFT"
    and "persisted_balanced j (lines_of (je_tenant j) (je_id j) (app_data d)) \<noteq> Inr True" and "accounting_step\<^sup>*\<^sup>* d d'"
  shows "j \<in> set (journals (app_data d')) \<and> ledger_of (je_tenant j) (je_id j) (app_data d') = []"
proof -
  have "accounting_inv (app_data d') \<and> unpostable (app_data d') j"
    by (rule books_steps_unpostable [OF accounting_steps_books [OF assms(5)] accounting_run_inv [OF assms(1)]])
      (use assms(2-4) in \<open>simp add: unpostable_def\<close>)
  then show ?thesis by (auto simp: accounting_inv_def books_inv_def journal_ok_def unpostable_def)
qed

lemma mismatched_draft_never_posted_witness:
  "\<exists>fp row. accounting_run (host [row] (stuck_draft fp))
    \<and> sample_entry fp 20000000000 1 2 \<in> set (journals (app_data (snd (post_journal sample_post [] (host [row] (stuck_draft fp))))))"
proof -
  obtain fp row where run: "accounting_run (host [row] (stuck_draft fp))" using stuck_draft_run by blast
  let ?d = "host [row] (stuck_draft fp)" and ?j = "sample_entry fp 20000000000 1 2"
  have j: "?j \<in> set (journals (app_data ?d))" "je_status ?j = DRAFT" "je_tenant ?j = 1" "je_id ?j = 7"
    by (simp_all add: stuck_draft_def drafted_def sample_entry_def)
  have "persisted_balanced ?j (lines_of (je_tenant ?j) (je_id ?j) (app_data ?d)) \<noteq> Inr True"
    by (simp add: j(3,4) stuck_draft_def drafted_def lines_of_def sample_row_def persisted_balanced_def money_of_def amount_samples)
      (simp add: sample_entry_def amount_samples)
  moreover have "accounting_step\<^sup>*\<^sup>* ?d (snd (post_journal sample_post [] ?d))"
    by (rule r_into_rtranclp, rule accounting_step.posting) (rule prod.collapse [symmetric])
  ultimately show ?thesis using run mismatched_draft_never_posted [OF run j(1,2)] by blast
qed

end
