(* ===== verification/Config_Document.thy ===== *)
theory Config_Document
  imports Fingerprints Byte_Codes "HOL-Library.AList" "HOL-Library.Product_Lexorder"
begin

text \<open>
  Values, pointers and directives of layer documents (\<^verbatim>\<open>dotmac-config-layers\<close>: \<^verbatim>\<open>document.py\<close>).
  A value is a \<open>json\<close>; floats are left out and strings have code points below 256.  A
  dictionary is the list of its items in the order Python keeps them; \<open>AList.update\<close> is an
  assignment to a key and \<open>AList.delete\<close> a \<^verbatim>\<open>del\<close> or a \<^verbatim>\<open>pop\<close>.
\<close>

subsection \<open>Python's equality and text of a value\<close>

text \<open>\<^verbatim>\<open>==\<close> takes a Boolean for the number it is and objects without regard to their order.\<close>

fun py_norm :: "json \<Rightarrow> json" where
  "py_norm (JBool b) = JInt (if b then 1 else 0)"
| "py_norm (JList xs) = JList (map py_norm xs)"
| "py_norm (JObj kvs) = JObj (sort_key fst (map (\<lambda>(k, v). (k, py_norm v)) kvs))"
| "py_norm j = j"

definition py_eq :: "json \<Rightarrow> json \<Rightarrow> bool" where
  "py_eq a b \<longleftrightarrow> py_norm a = py_norm b"

definition py_in :: "json \<Rightarrow> json list \<Rightarrow> bool" where
  "py_in x xs \<longleftrightarrow> list_ex (py_eq x) xs"

text \<open>\<^verbatim>\<open>repr(s)\<close> and \<^verbatim>\<open>str(v)\<close>.\<close>

definition repr_char :: "char \<Rightarrow> char \<Rightarrow> string" where
  "repr_char q c = (let n = (of_char c :: nat) in
     if c = q \<or> c = CHR 0x5C then [CHR 0x5C, c]
     else if c = CHR 0x0A then [CHR 0x5C, CHR ''n'']
     else if c = CHR 0x0D then [CHR 0x5C, CHR ''r'']
     else if c = CHR 0x09 then [CHR 0x5C, CHR ''t'']
     else if n < 32 \<or> (127 \<le> n \<and> n \<le> 160) \<or> n = 173 then [CHR 0x5C, CHR ''x''] @ hex_digits 2 n
     else [c])"

definition repr_str :: "string \<Rightarrow> string" where
  "repr_str s = (let q = (if CHR 0x27 \<in> set s \<and> CHR 0x22 \<notin> set s then CHR 0x22 else CHR 0x27)
     in q # concat (map (repr_char q) s) @ [q])"

fun py_repr :: "json \<Rightarrow> string" where
  "py_repr JNull = ''None''"
| "py_repr (JBool b) = (if b then ''True'' else ''False'')"
| "py_repr (JInt i) = int_str i"
| "py_repr (JStr s) = repr_str s"
| "py_repr (JList xs) = ''['' @ join '', '' (map py_repr xs) @ '']''"
| "py_repr (JObj kvs) = ''{'' @ join '', '' (map (\<lambda>(k, v). repr_str k @ '': '' @ py_repr v) kvs) @ ''}''"

definition py_str :: "json \<Rightarrow> string" where
  "py_str v = (case v of JStr s \<Rightarrow> s | _ \<Rightarrow> py_repr v)"

definition repr_strs :: "string list \<Rightarrow> string" where
  "repr_strs xs = py_repr (JList (map JStr xs))"

subsection \<open>Canonical text and hashes\<close>

definition plain_escape :: "char \<Rightarrow> string" where
  "plain_escape c = (if (of_char c :: nat) < 127 then json_escape c else [c])"

definition plain_string :: "string \<Rightarrow> string" where
  "plain_string s = CHR 0x22 # concat (map plain_escape s) @ [CHR 0x22]"

fun canonical_json :: "json \<Rightarrow> string" where
  "canonical_json JNull = ''null''"
| "canonical_json (JBool b) = (if b then ''true'' else ''false'')"
| "canonical_json (JInt i) = int_str i"
| "canonical_json (JStr s) = plain_string s"
| "canonical_json (JList xs) = ''['' @ join '','' (map canonical_json xs) @ '']''"
| "canonical_json (JObj kvs) = ''{'' @ join '',''
     (map (\<lambda>(k, t). plain_string k @ '':'' @ t) (sort_key fst (map (\<lambda>(k, v). (k, canonical_json v)) kvs))) @ ''}''"

definition utf8_char :: "char \<Rightarrow> nat list" where
  "utf8_char c = utf8_units (of_char c)"

definition hash_of :: "json \<Rightarrow> string" where
  "hash_of v = sha256_hex (concat (map (\<lambda>c. map char_of (utf8_char c)) (canonical_json v)))"

subsection \<open>Pointers\<close>

type_synonym path = "string list"

definition escape_segment :: "string \<Rightarrow> string" where
  "escape_segment s = concat (map (\<lambda>c. if c = CHR ''~'' then ''~0'' else if c = CHR ''/'' then ''~1'' else [c]) s)"

definition pointer :: "path \<Rightarrow> string" where
  "pointer parts = concat (map (\<lambda>p. CHR ''/'' # escape_segment p) parts)"

text \<open>\<^verbatim>\<open>urllib.parse.quote(s, safe="")\<close>.\<close>

definition upper_hex :: "nat \<Rightarrow> string" where
  "upper_hex n = map to_upper (hex_digits 2 n)"

definition quote_char :: "char \<Rightarrow> string" where
  "quote_char c = (if is_upper c \<or> is_lower c \<or> is_digit c \<or> c \<in> set ''_.-~'' then [c]
     else concat (map (\<lambda>u. CHR ''%'' # upper_hex u) (utf8_char c)))"

definition element_segment :: "string \<Rightarrow> string" where
  "element_segment s = concat (map quote_char s)"

text \<open>\<^verbatim>\<open>s.replace("~1", "/").replace("~0", "~")\<close>: two passes from the left.\<close>

fun unescape_pair :: "char \<Rightarrow> char \<Rightarrow> string \<Rightarrow> string" where
  "unescape_pair k r [] = []"
| "unescape_pair k r [c] = [c]"
| "unescape_pair k r (c # d # s) = (if c = CHR ''~'' \<and> d = k then r # unescape_pair k r s else c # unescape_pair k r (d # s))"

definition unescape_segment :: "string \<Rightarrow> string" where
  "unescape_segment s = unescape_pair CHR ''0'' CHR ''~'' (unescape_pair CHR ''1'' CHR ''/'' s)"

definition parse_spec_pointer :: "string \<Rightarrow> string + path" where
  "parse_spec_pointer p = (case p of [] \<Rightarrow> Inr []
     | c # rest \<Rightarrow> if c \<noteq> CHR ''/'' then Inl (''spec pointer must start with '' @ repr_str ''/'' @ '': '' @ repr_str p)
       else Inr (map unescape_segment (split_on CHR ''/'' rest)))"

definition starts_with :: "string \<Rightarrow> string \<Rightarrow> bool" where
  "starts_with p s \<longleftrightarrow> take (length p) s = p"

text \<open>\<^verbatim>\<open>p.rsplit("/", 1)[0]\<close> of a pointer, which starts with a slash.\<close>

definition parent_pointer :: "string \<Rightarrow> string" where
  "parent_pointer p = rev (tl (dropWhile (\<lambda>c. c \<noteq> CHR ''/'') (rev p)))"

subsection \<open>Directives\<close>

text \<open>A \<^verbatim>\<open>DocumentError\<close> or its subclass \<^verbatim>\<open>MergeError\<close>, with its path and message.\<close>

datatype document_error = DocumentError string string

definition error_text :: "document_error \<Rightarrow> string" where
  "error_text e = (case e of DocumentError p m \<Rightarrow> (if p = [] then ''/'' else p) @ '': '' @ m)"

definition DELETE :: string where "DELETE = ''$delete''"
definition ADD :: string where "ADD = ''$add''"
definition REMOVE :: string where "REMOVE = ''$remove''"
definition REPLACE :: string where "REPLACE = ''$replace''"

definition is_directive :: "string \<Rightarrow> bool" where
  "is_directive k \<longleftrightarrow> (case k of [] \<Rightarrow> False | c # _ \<Rightarrow> c = CHR ''$'')"

definition quoted :: "string \<Rightarrow> string" where
  "quoted s = CHR 0x22 # s @ [CHR 0x22]"

definition is_delete :: "json \<Rightarrow> document_error + bool" where
  "is_delete v = (case v of
     JObj kvs \<Rightarrow> (case map_of kvs DELETE of None \<Rightarrow> Inr False
       | Some x \<Rightarrow> if x \<noteq> JBool True \<or> length kvs \<noteq> 1
                  then Inl (DocumentError [] (''$delete must be exactly {'' @ quoted ''$delete'' @ '': true}''))
                  else Inr True)
   | _ \<Rightarrow> Inr False)"

definition is_delete_safe :: "json_object \<Rightarrow> bool" where
  "is_delete_safe kvs \<longleftrightarrow> map_of kvs DELETE = Some (JBool True)"

fun check_directive_keys :: "string list \<Rightarrow> string list \<Rightarrow> string \<Rightarrow> document_error + unit" where
  "check_directive_keys [] allowed p = Inr ()"
| "check_directive_keys (k # ks) allowed p =
     (if is_directive k \<and> k \<notin> set allowed then Inl (DocumentError p (''directive '' @ k @ '' is not valid here''))
      else check_directive_keys ks allowed p)"

record UnionPatch =
  up_add :: "json list"
  up_remove :: "json list"
  up_replace :: "json list option"

definition is_list :: "json \<Rightarrow> bool" where
  "is_list v = (case v of JList _ \<Rightarrow> True | _ \<Rightarrow> False)"

definition list_items :: "json option \<Rightarrow> json list" where
  "list_items v = (case v of Some (JList xs) \<Rightarrow> xs | _ \<Rightarrow> [])"

definition parse_union_patch :: "json \<Rightarrow> string \<Rightarrow> document_error + UnionPatch" where
  "parse_union_patch v p = (case v of
     JList xs \<Rightarrow> Inr \<lparr>up_add = xs, up_remove = [], up_replace = None\<rparr>
   | JObj kvs \<Rightarrow>
       bindr (check_directive_keys (map fst kvs) [ADD, REMOVE, REPLACE] p) (\<lambda>_.
       if kvs = [] \<or> list_ex (\<lambda>k. \<not> is_directive k) (map fst kvs)
       then Inl (DocumentError p ''a union patch holds only $add/$remove/$replace'')
       else if REPLACE \<in> set (map fst kvs) \<and> (ADD \<in> set (map fst kvs) \<or> REMOVE \<in> set (map fst kvs))
       then Inl (DocumentError p ''$replace cannot be combined with $add/$remove'')
       else case find (\<lambda>kv. \<not> is_list (snd kv)) kvs of
         Some kv \<Rightarrow> Inl (DocumentError p (fst kv @ '' needs a list''))
       | None \<Rightarrow> Inr \<lparr>up_add = list_items (map_of kvs ADD), up_remove = list_items (map_of kvs REMOVE),
           up_replace = map_option (\<lambda>x. list_items (Some x)) (map_of kvs REPLACE)\<rparr>)
   | _ \<Rightarrow> Inl (DocumentError p ''a union field takes a list or a directive object''))"

subsection \<open>A pointer names its path\<close>

lemma escape_segment_simps [simp]:
  "escape_segment [] = []"
  "escape_segment (c # s) = (if c = CHR ''~'' then CHR ''~'' # CHR ''0'' # escape_segment s
     else if c = CHR ''/'' then CHR ''~'' # CHR ''1'' # escape_segment s else c # escape_segment s)"
  by (simp_all add: escape_segment_def)

lemma escape_no_slash: "CHR ''/'' \<notin> set (escape_segment s)"
  by (induction s) auto

text \<open>After the first pass every tilde is still followed by its zero.\<close>

fun half_escaped :: "string \<Rightarrow> string" where
  "half_escaped [] = []"
| "half_escaped (c # s) = (if c = CHR ''~'' then CHR ''~'' # CHR ''0'' # half_escaped s else c # half_escaped s)"

lemma first_pass: "unescape_pair CHR ''1'' CHR ''/'' (escape_segment s) = half_escaped s"
proof (induction s)
  case (Cons c s)
  have head: "unescape_pair k r (c # t) = c # unescape_pair k r t" if "c \<noteq> CHR ''~''" for k r c t
    using that by (cases t) auto
  show ?case using Cons by (simp add: head)
qed simp

lemma second_pass: "unescape_pair CHR ''0'' CHR ''~'' (half_escaped s) = s"
proof (induction s)
  case (Cons c s)
  have head: "unescape_pair k r (c # t) = c # unescape_pair k r t" if "c \<noteq> CHR ''~''" for k r c t
    using that by (cases t) auto
  show ?case using Cons by (simp add: head)
qed simp

lemma unescape_escape_segment [simp]: "unescape_segment (escape_segment s) = s"
  by (simp add: unescape_segment_def first_pass second_pass)

lemma split_pointer: "split_on CHR ''/'' (escape_segment p @ pointer ps) = map escape_segment (p # ps)"
proof -
  have plain: "c \<notin> set x \<Longrightarrow> split_on c x = [x]" "c \<notin> set x \<Longrightarrow> split_on c (x @ c # r) = x # split_on c r" for c x r
    by (induction x) auto
  show ?thesis
    using escape_no_slash by (induction ps arbitrary: p) (simp_all add: pointer_def plain)
qed

lemma parse_pointer [simp]: "parse_spec_pointer (pointer parts) = Inr parts"
proof (cases parts)
  case (Cons p ps)
  then have "pointer parts = CHR ''/'' # escape_segment p @ pointer ps" by (simp add: pointer_def)
  then show ?thesis using Cons by (simp add: parse_spec_pointer_def split_pointer comp_def)
qed (simp add: parse_spec_pointer_def pointer_def)

lemma pointer_inj [simp]: "pointer a = pointer b \<longleftrightarrow> a = b"
  by (metis parse_pointer sum.inject(2))

end
