(* ===== verification/Config_Derive.thy ===== *)
theory Config_Derive
  imports Config_Document "HOL-Library.Multiset"
begin

text \<open>
  Derivation rules and the order they run in (\<^verbatim>\<open>dotmac-config-layers\<close>: \<^verbatim>\<open>derive.py\<close>).  The
  function of a rule is the plug-in's; \<open>None\<close> is \<^verbatim>\<open>NOT_DERIVED\<close>.
\<close>

record Ref =
  rf_module :: "string option"
  rf_path :: string

record DerivedRule =
  dr_name :: string
  dr_module :: string
  dr_target :: string
  dr_reads :: "Ref list"
  dr_fn :: "json_object \<Rightarrow> json option"

definition ref_label :: "Ref \<Rightarrow> string" where
  "ref_label r = (case rf_module r of None \<Rightarrow> ''fact:'' @ rf_path r | Some m \<Rightarrow> m @ '':'' @ rf_path r)"

definition paths_overlap :: "string \<Rightarrow> string \<Rightarrow> bool" where
  "paths_overlap a b \<longleftrightarrow> a = b \<or> starts_with (b @ ''/'') a \<or> starts_with (a @ ''/'') b \<or> a = [] \<or> b = []"

definition reads_target :: "DerivedRule \<Rightarrow> DerivedRule \<Rightarrow> bool" where
  "reads_target r other \<longleftrightarrow> list_ex (\<lambda>x. rf_module x = Some (dr_module other) \<and> paths_overlap (rf_path x) (dr_target other)) (dr_reads r)"

text \<open>The names a rule depends on, sorted.\<close>

definition rule_deps :: "DerivedRule list \<Rightarrow> string \<Rightarrow> string list" where
  "rule_deps rules n = (case find_row dr_name n rules of None \<Rightarrow> []
     | Some r \<Rightarrow> sort (remdups (map dr_name (filter (reads_target r) rules))))"

text \<open>
  The search: a name is not in the state, in progress (1) or done (2).  The fuel bounds
  the depth; \<open>None\<close> is its exhaustion, \<open>Inl\<close> the cycle error.
\<close>

type_synonym visit_state = "(string \<times> nat) list \<times> string list"

fun visit :: "(string \<Rightarrow> string list) \<Rightarrow> nat \<Rightarrow> string \<Rightarrow> string list \<Rightarrow> visit_state \<Rightarrow> (string + visit_state) option"
  and visit_all :: "(string \<Rightarrow> string list) \<Rightarrow> nat \<Rightarrow> string list \<Rightarrow> string list \<Rightarrow> visit_state \<Rightarrow> (string + visit_state) option" where
  "visit deps fuel name stack s =
     (if map_of (fst s) name = Some 2 then Some (Inr s)
      else if map_of (fst s) name = Some 1 then Some (Inl (''derived-field cycle: '' @ join '' -> '' (stack @ [name])))
      else (case fuel of 0 \<Rightarrow> None
        | Suc f \<Rightarrow> (case visit_all deps f (deps name) (stack @ [name]) (AList.update name 1 (fst s), snd s) of
            Some (Inr t) \<Rightarrow> Some (Inr (AList.update name 2 (fst t), snd t @ [name]))
          | r \<Rightarrow> r)))"
| "visit_all deps fuel [] stack s = Some (Inr s)"
| "visit_all deps fuel (n # ns) stack s =
     (case visit deps fuel n stack s of Some (Inr t) \<Rightarrow> visit_all deps fuel ns stack t | r \<Rightarrow> r)"

definition visit_order :: "DerivedRule list \<Rightarrow> (string + visit_state) option" where
  "visit_order rules = visit_all (rule_deps rules) (length rules) (sort (map dr_name rules)) [] ([], [])"

definition order_rules :: "DerivedRule list \<Rightarrow> string + DerivedRule list" where
  "order_rules rules =
     (if \<not> distinct (map dr_name rules) then Inl ''duplicate derived rule name''
      else case find (\<lambda>r. reads_target r r) rules of
        Some r \<Rightarrow> Inl (''rule '' @ dr_name r @ '' reads its own target'')
      | None \<Rightarrow> (case visit_order rules of
            Some (Inl e) \<Rightarrow> Inl e
          | Some (Inr s) \<Rightarrow> Inr (map (\<lambda>n. the (find_row dr_name n rules)) (snd s))
          | None \<Rightarrow> Inl []))"

subsection \<open>The search terminates and is right\<close>

definition dep_edge :: "(string \<Rightarrow> string list) \<Rightarrow> string \<Rightarrow> string \<Rightarrow> bool" where
  "dep_edge deps a b \<longleftrightarrow> b \<in> set (deps a)"

text \<open>Every name comes after the names it depends on.\<close>

definition in_order :: "(string \<Rightarrow> string list) \<Rightarrow> string list \<Rightarrow> bool" where
  "in_order deps out \<longleftrightarrow> (\<forall>i < length out. set (deps (out ! i)) \<subseteq> set (take i out))"

lemma in_order_snoc: "in_order deps out \<Longrightarrow> set (deps n) \<subseteq> set out \<Longrightarrow> in_order deps (out @ [n])"
  by (auto simp: in_order_def nth_append less_Suc_eq)

definition visit_inv :: "(string \<Rightarrow> string list) \<Rightarrow> string list \<Rightarrow> visit_state \<Rightarrow> bool" where
  "visit_inv deps stack s \<longleftrightarrow> (\<forall>n. map_of (fst s) n = Some 2 \<longleftrightarrow> n \<in> set (snd s)) \<and> (\<forall>n. map_of (fst s) n = Some 1 \<longleftrightarrow> n \<in> set stack)
     \<and> distinct (snd s) \<and> in_order deps (snd s)"

lemma visit_inv_start:
  assumes "visit_inv deps stack s" and "map_of (fst s) n \<noteq> Some 1" and "map_of (fst s) n \<noteq> Some 2"
  shows "visit_inv deps (stack @ [n]) (AList.update n 1 (fst s), snd s)"
  using assms by (auto simp: visit_inv_def AList.update_conv')

lemma visit_inv_done:
  assumes "visit_inv deps (stack @ [n]) t" and "n \<notin> set stack" and "set (deps n) \<subseteq> set (snd t)"
  shows "visit_inv deps stack (AList.update n 2 (fst t), snd t @ [n])"
proof -
  have "map_of (fst t) n = Some 1" using assms(1) by (simp add: visit_inv_def)
  then have "n \<notin> set (snd t)" using assms(1) by (metis visit_inv_def option.inject numeral_eq_one_iff semiring_norm(85))
  then show ?thesis
    using assms in_order_snoc by (auto simp: visit_inv_def AList.update_conv')
qed

lemma visit_keeps:
  shows "visit deps fuel n stack s = Some (Inr t) \<Longrightarrow> visit_inv deps stack s \<Longrightarrow>
      visit_inv deps stack t \<and> set (snd s) \<subseteq> set (snd t) \<and> n \<in> set (snd t) \<and> set (snd t) \<subseteq> set (snd s) \<union> {m. (dep_edge deps)\<^sup>*\<^sup>* n m}"
    and "visit_all deps fuel ns stack s = Some (Inr t) \<Longrightarrow> visit_inv deps stack s \<Longrightarrow>
      visit_inv deps stack t \<and> set (snd s) \<subseteq> set (snd t) \<and> set ns \<subseteq> set (snd t)
      \<and> set (snd t) \<subseteq> set (snd s) \<union> {m. \<exists>n \<in> set ns. (dep_edge deps)\<^sup>*\<^sup>* n m}"
proof (induction deps fuel n stack s and deps fuel ns stack s arbitrary: t and t rule: visit_visit_all.induct)
  case (1 deps fuel name stack s)
  show ?case
  proof (cases "map_of (fst s) name = Some 2")
    case True
    then show ?thesis using "1.prems" by (auto simp: visit_inv_def)
  next
    case False
    with "1.prems" obtain f u where f: "fuel = Suc f" and one: "map_of (fst s) name \<noteq> Some 1"
      and run: "visit_all deps f (deps name) (stack @ [name]) (AList.update name 1 (fst s), snd s) = Some (Inr u)"
      and t: "t = (AList.update name 2 (fst u), snd u @ [name])"
      by (auto split: if_splits nat.splits option.splits sum.splits)
    have start: "visit_inv deps (stack @ [name]) (AList.update name 1 (fst s), snd s)"
      using visit_inv_start [OF "1.prems"(2) one False] .
    note ih = "1.IH" [OF False one f run start]
    have "name \<notin> set stack" using "1.prems"(2) one by (auto simp: visit_inv_def)
    then have "visit_inv deps stack t" unfolding t using visit_inv_done ih by simp
    moreover have "(dep_edge deps)\<^sup>*\<^sup>* name m" if "d \<in> set (deps name)" "(dep_edge deps)\<^sup>*\<^sup>* d m" for d m
      using that by (meson converse_rtranclp_into_rtranclp dep_edge_def)
    ultimately show ?thesis using ih by (auto simp: t)
  qed
next
  case (3 deps fuel n ns stack s)
  from "3.prems"(1) obtain u where u: "visit deps fuel n stack s = Some (Inr u)" "visit_all deps fuel ns stack u = Some (Inr t)"
    by (auto split: option.splits sum.splits)
  note a = "3.IH"(1) [OF u(1) "3.prems"(2)]
  then have "visit_inv deps stack u" by simp
  note b = "3.IH"(2) [OF u(1) refl u(2) this]
  show ?case using a b by auto
qed simp

text \<open>An error is a cycle, and the fuel is never the reason for one.\<close>

lemma visit_error:
  shows "visit deps fuel n stack s = Some (Inl e) \<Longrightarrow> visit_inv deps stack s \<Longrightarrow> \<forall>x \<in> set stack. (dep_edge deps)\<^sup>+\<^sup>+ x n
      \<Longrightarrow> \<exists>x. (dep_edge deps)\<^sup>+\<^sup>+ x x"
    and "visit_all deps fuel ns stack s = Some (Inl e) \<Longrightarrow> visit_inv deps stack s
      \<Longrightarrow> \<forall>x \<in> set stack. \<forall>n \<in> set ns. (dep_edge deps)\<^sup>+\<^sup>+ x n \<Longrightarrow> \<exists>x. (dep_edge deps)\<^sup>+\<^sup>+ x x"
proof (induction deps fuel n stack s and deps fuel ns stack s rule: visit_visit_all.induct)
  case (1 deps fuel name stack s)
  show ?case
  proof (cases "map_of (fst s) name = Some 1")
    case True
    then have "name \<in> set stack" using "1.prems"(2) by (simp add: visit_inv_def)
    then show ?thesis using "1.prems"(3) by blast
  next
    case False
    with "1.prems" obtain f where f: "fuel = Suc f" and two: "map_of (fst s) name \<noteq> Some 2"
      and run: "visit_all deps f (deps name) (stack @ [name]) (AList.update name 1 (fst s), snd s) = Some (Inl e)"
      by (auto split: if_splits nat.splits option.splits sum.splits)
    have start: "visit_inv deps (stack @ [name]) (AList.update name 1 (fst s), snd s)"
      using visit_inv_start [OF "1.prems"(2) False two] .
    have path: "\<forall>x \<in> set (stack @ [name]). \<forall>d \<in> set (deps name). (dep_edge deps)\<^sup>+\<^sup>+ x d"
    proof (intro ballI)
      fix x d assume "x \<in> set (stack @ [name])" and "d \<in> set (deps name)"
      then have "x = name \<or> (dep_edge deps)\<^sup>+\<^sup>+ x name" and "dep_edge deps name d" using "1.prems"(3) by (auto simp only: set_append list.set dep_edge_def [of deps name d])
      then show "(dep_edge deps)\<^sup>+\<^sup>+ x d" by (meson tranclp.intros)
    qed
    show ?thesis using "1.IH" [OF two False f run start path] .
  qed
next
  case (3 deps fuel n ns stack s)
  have head: "\<forall>x \<in> set stack. (dep_edge deps)\<^sup>+\<^sup>+ x n" and tail: "\<forall>x \<in> set stack. \<forall>n \<in> set ns. (dep_edge deps)\<^sup>+\<^sup>+ x n"
    using "3.prems"(3) by auto
  from "3.prems"(1) consider "visit deps fuel n stack s = Some (Inl e)"
    | u where "visit deps fuel n stack s = Some (Inr u)" "visit_all deps fuel ns stack u = Some (Inl e)"
    by (auto split: option.splits sum.splits)
  then show ?case
  proof cases
    case 1
    then show ?thesis using "3.IH"(1) "3.prems"(2) head by blast
  next
    case 2
    have "visit_inv deps stack u" using visit_keeps(1) [OF 2(1) "3.prems"(2)] by simp
    then show ?thesis using "3.IH"(2) [OF 2(1) refl 2(2) _ tail] by blast
  qed
qed simp

lemma visit_fuel:
  shows "visit_inv deps stack s \<Longrightarrow> finite N \<Longrightarrow> \<forall>m \<in> N. set (deps m) \<subseteq> N \<Longrightarrow> set stack \<subseteq> N \<Longrightarrow> distinct stack
      \<Longrightarrow> card N \<le> fuel + length stack \<Longrightarrow> n \<in> N \<Longrightarrow> visit deps fuel n stack s \<noteq> None"
    and "visit_inv deps stack s \<Longrightarrow> finite N \<Longrightarrow> \<forall>m \<in> N. set (deps m) \<subseteq> N \<Longrightarrow> set stack \<subseteq> N \<Longrightarrow> distinct stack
      \<Longrightarrow> card N \<le> fuel + length stack \<Longrightarrow> set ns \<subseteq> N \<Longrightarrow> visit_all deps fuel ns stack s \<noteq> None"
proof (induction deps fuel n stack s and deps fuel ns stack s rule: visit_visit_all.induct)
  case (1 deps fuel name stack s)
  show ?case
  proof (cases "map_of (fst s) name = Some 2 \<or> map_of (fst s) name = Some 1")
    case True
    then show ?thesis by auto
  next
    case False
    then have new: "name \<notin> set stack" using "1.prems"(1) by (simp add: visit_inv_def)
    then have "Suc (length stack) \<le> card N"
      using card_mono [OF "1.prems"(2), of "insert name (set stack)"] "1.prems" by (simp add: distinct_card)
    then obtain f where f: "fuel = Suc f" using "1.prems"(6) by (cases fuel) auto
    have start: "visit_inv deps (stack @ [name]) (AList.update name 1 (fst s), snd s)"
      using visit_inv_start [OF "1.prems"(1)] False by simp
    have "visit_all deps f (deps name) (stack @ [name]) (AList.update name 1 (fst s), snd s) \<noteq> None"
      using "1.IH" [OF _ _ f start "1.prems"(2,3)] False "1.prems" new f by auto
    then show ?thesis using f by (auto split: option.splits sum.splits)
  qed
next
  case (3 deps fuel n ns stack s)
  have one: "visit deps fuel n stack s \<noteq> None" using "3.IH"(1) [OF "3.prems"(1-6)] "3.prems"(7) by simp
  have "visit_all deps fuel ns stack u \<noteq> None" if u: "visit deps fuel n stack s = Some (Inr u)" for u
    using "3.IH"(2) [OF u refl _ "3.prems"(2-6)] visit_keeps(1) [OF u "3.prems"(1)] "3.prems"(7) by simp
  with one show ?case by (cases "visit deps fuel n stack s") (auto simp del: visit.simps split: sum.splits)
qed simp

subsection \<open>The order of the rules\<close>

definition rule_edge :: "DerivedRule list \<Rightarrow> (DerivedRule \<times> DerivedRule) set" where
  "rule_edge rules = {(a, b). a \<in> set rules \<and> b \<in> set rules \<and> reads_target a b}"

lemma rule_deps_mem:
  assumes "distinct (map dr_name rules)" and "a \<in> set rules"
  shows "n \<in> set (rule_deps rules (dr_name a)) \<longleftrightarrow> (\<exists>b. (a, b) \<in> rule_edge rules \<and> dr_name b = n)"
  using find_row_unique [OF assms] assms(2) by (auto simp: rule_deps_def rule_edge_def)

lemma rule_deps_names: "set (rule_deps rules n) \<subseteq> dr_name ` set rules"
  by (auto simp: rule_deps_def split: option.splits)

lemma dep_path_rules:
  assumes d: "distinct (map dr_name rules)" and "(dep_edge (rule_deps rules))\<^sup>+\<^sup>+ x y"
  shows "\<exists>a b. dr_name a = x \<and> dr_name b = y \<and> (a, b) \<in> (rule_edge rules)\<^sup>+"
  using assms(2)
proof (induction rule: tranclp_induct)
  case (base y)
  then obtain a where "find_row dr_name x rules = Some a"
    by (cases "find_row dr_name x rules") (auto simp: dep_edge_def rule_deps_def)
  note find_row_Some [OF this]
  then show ?case using base rule_deps_mem [OF d, of a y] by (auto simp: dep_edge_def)
next
  case (step y z)
  then obtain a b where ab: "dr_name a = x" "dr_name b = y" "(a, b) \<in> (rule_edge rules)\<^sup>+" by blast
  then have "b \<in> set rules" by (auto elim: tranclE simp: rule_edge_def)
  then obtain c where "(b, c) \<in> rule_edge rules" "dr_name c = z"
    using rule_deps_mem [OF d] step.hyps(2) ab(2) by (metis dep_edge_def)
  then have "(a, c) \<in> (rule_edge rules)\<^sup>+ \<and> dr_name c = z" using ab(3) by simp
  then show ?case using ab(1) by blast
qed

lemma same_rule: "distinct (map dr_name rules) \<Longrightarrow> a \<in> set rules \<Longrightarrow> b \<in> set rules \<Longrightarrow> dr_name a = dr_name b \<Longrightarrow> a = b"
  by (auto simp: distinct_map dest: inj_onD)

lemma cycle_of_names:
  assumes d: "distinct (map dr_name rules)" and "(dep_edge (rule_deps rules))\<^sup>+\<^sup>+ x x"
  shows "\<not> acyclic (rule_edge rules)"
proof -
  from dep_path_rules [OF assms] obtain a b where ab: "dr_name a = dr_name b" "(a, b) \<in> (rule_edge rules)\<^sup>+" by metis
  then have "a \<in> set rules" "b \<in> set rules" by (auto elim: tranclE converse_tranclE simp: rule_edge_def)
  then have "a = b" using same_rule [OF d] ab(1) by blast
  then show ?thesis using ab(2) by (auto simp: acyclic_def)
qed

lemma start_inv: "visit_inv deps [] ([], [])"
  by (simp add: visit_inv_def in_order_def)

lemma visit_order_runs: "visit_order rules \<noteq> None"
proof -
  have "card (dr_name ` set rules) \<le> length rules"
    by (meson card_image_le card_length finite_set le_trans)
  then show ?thesis
    unfolding visit_order_def
    using visit_fuel(2) [OF start_inv, of "dr_name ` set rules"] rule_deps_names by auto
qed

text \<open>What the rules come out as: all of them, each after those whose target it reads.\<close>

definition dependency_order :: "DerivedRule list \<Rightarrow> DerivedRule list \<Rightarrow> bool" where
  "dependency_order rules out \<longleftrightarrow> mset out = mset rules
     \<and> (\<forall>i < length out. \<forall>r \<in> set rules. reads_target (out ! i) r \<longrightarrow> r \<in> set (take i out))"

lemma visit_order_out:
  assumes d: "distinct (map dr_name rules)" and v: "visit_order rules = Some (Inr s)"
  shows "dependency_order rules (map (\<lambda>n. the (find_row dr_name n rules)) (snd s))"
proof -
  note keep = visit_keeps(2) [OF v [unfolded visit_order_def] start_inv]
  let ?rule = "\<lambda>n. the (find_row dr_name n rules)"
  have rule: "?rule (dr_name r) = r" if "r \<in> set rules" for r using find_row_unique [OF d that] by simp
  have "m \<in> dr_name ` set rules" if "(dep_edge (rule_deps rules))\<^sup>*\<^sup>* n m" "n \<in> dr_name ` set rules" for n m
    using that rule_deps_names by (induction rule: rtranclp_induct) (auto simp: dep_edge_def)
  then have names: "set (snd s) = dr_name ` set rules" using keep by auto
  have dist: "distinct (snd s)" and ord: "in_order (rule_deps rules) (snd s)" using keep by (simp_all add: visit_inv_def)
  have "inj_on ?rule (set (snd s))" unfolding names by (rule inj_onI) (auto simp: rule)
  then have "distinct (map ?rule (snd s))" using dist by (simp add: distinct_map)
  moreover have "set (map ?rule (snd s)) = set rules" by (auto simp: names rule image_iff)
  ultimately have perm: "mset (map ?rule (snd s)) = mset rules"
    using d set_eq_iff_mset_eq_distinct [of "map ?rule (snd s)" rules] by (simp add: distinct_map)
  have "r \<in> set (take i (map ?rule (snd s)))"
    if i: "i < length (snd s)" and r: "r \<in> set rules" and reads: "reads_target (?rule (snd s ! i)) r" for i r
  proof -
    obtain a where a: "a \<in> set rules" "snd s ! i = dr_name a" using names nth_mem [OF i] by auto
    then have "dr_name r \<in> set (rule_deps rules (snd s ! i))"
      using rule_deps_mem [OF d a(1)] reads r by (auto simp: rule_edge_def rule)
    then have "dr_name r \<in> set (take i (snd s))" using ord i by (auto simp: in_order_def)
    then show ?thesis using rule [OF r] by (force simp: take_map image_iff)
  qed
  then show ?thesis using perm by (simp add: dependency_order_def)
qed

lemma dependency_order_acyclic:
  assumes "dependency_order rules out"
  shows "acyclic (rule_edge rules)"
proof -
  have same: "set out = set rules" using assms by (metis dependency_order_def set_mset_mset)
  define at where "at r = (LEAST i. i < length out \<and> out ! i = r)" for r
  have at: "at r < length out \<and> out ! at r = r" if "r \<in> set rules" for r
    unfolding at_def by (rule LeastI_ex) (use that in \<open>simp add: in_set_conv_nth flip: same\<close>)
  have "(b, a) \<in> measure at" if "(a, b) \<in> rule_edge rules" for a b
  proof -
    from that have ab: "a \<in> set rules" "b \<in> set rules" "reads_target a b" by (auto simp: rule_edge_def)
    then have "b \<in> set (take (at a) out)" using assms at [OF ab(1)] by (auto simp: dependency_order_def)
    then obtain j where j: "j < at a" "j < length out" "out ! j = b" by (auto simp: in_set_conv_nth)
    then have "at b \<le> j" unfolding at_def by (intro Least_le) simp
    then show ?thesis using j by simp
  qed
  then have "(rule_edge rules)\<inverse> \<subseteq> measure at" by auto
  then have "acyclic ((rule_edge rules)\<inverse>)" by (meson acyclic_subset wf_acyclic wf_measure)
  then show ?thesis by simp
qed

lemma order_rules_cases:
  assumes "distinct (map dr_name rules)"
  shows "(\<exists>out. order_rules rules = Inr out \<and> dependency_order rules out) \<or> (\<exists>e. order_rules rules = Inl e) \<and> \<not> acyclic (rule_edge rules)"
proof (cases "find (\<lambda>r. reads_target r r) rules")
  case (Some r)
  then have "(r, r) \<in> rule_edge rules" by (auto simp: find_Some_iff rule_edge_def)
  then show ?thesis using Some assms by (auto simp: order_rules_def acyclic_def)
next
  case None
  obtain v where v: "visit_order rules = Some v" using visit_order_runs by blast
  show ?thesis
  proof (cases v)
    case (Inl e)
    then have "\<exists>x. (dep_edge (rule_deps rules))\<^sup>+\<^sup>+ x x"
      using visit_error(2) [OF v [unfolded visit_order_def Inl] start_inv] by simp
    then show ?thesis using cycle_of_names [OF assms] assms None v Inl by (auto simp: order_rules_def)
  next
    case (Inr s)
    then show ?thesis using visit_order_out [OF assms] assms None v by (auto simp: order_rules_def)
  qed
qed


text \<open>
  C38. An accepted set of rules comes out as the same rules, each of them after every rule
  whose target it reads, so a derived value is computed before it is read.
\<close>

theorem order_rules_dependency_order:
  assumes "order_rules rules = Inr out"
  shows "mset out = mset rules
    \<and> (\<forall>i < length out. \<forall>r \<in> set rules. reads_target (out ! i) r \<longrightarrow> r \<in> set (take i out))"
proof -
  have "distinct (map dr_name rules)" using assms by (auto simp: order_rules_def split: if_splits)
  from order_rules_cases [OF this] have "dependency_order rules out" using assms by auto
  then show ?thesis
    by (simp_all add: dependency_order_def)
qed

text \<open>Two rules, the first reading what the second derives.\<close>

definition sample_rules :: "DerivedRule list" where
  "sample_rules =
     [\<lparr>dr_name = ''a'', dr_module = ''firewall'', dr_target = ''/allowed'', dr_reads = [\<lparr>rf_module = Some ''network'', rf_path = ''/lan''\<rparr>],
        dr_fn = (\<lambda>_. None)\<rparr>,
      \<lparr>dr_name = ''l'', dr_module = ''network'', dr_target = ''/lan/prefix'', dr_reads = [\<lparr>rf_module = None, rf_path = ''site''\<rparr>],
        dr_fn = (\<lambda>_. None)\<rparr>]"

lemma sample_rules_names: "map dr_name sample_rules = [''a'', ''l'']" "sort [''a'', ''l''] = [''a'', ''l'']" "length sample_rules = Suc (Suc 0)"
  by (simp_all add: sample_rules_def less_eq_char_simp)

lemma sample_rules_deps: "rule_deps sample_rules ''a'' = [''l'']" "rule_deps sample_rules ''l'' = []"
  "find (\<lambda>r. reads_target r r) sample_rules = None"
  by (simp_all add: rule_deps_def sample_rules_def find_row_def reads_target_def paths_overlap_def starts_with_def)

lemma sample_visit: "visit_order sample_rules = Some (Inr ([(''a'', 2), (''l'', 2)], [''l'', ''a'']))"
  unfolding visit_order_def sample_rules_names by (simp add: sample_rules_deps)

lemma order_rules_dependency_order_witness:
  "\<exists>out. order_rules sample_rules = Inr out \<and> map dr_name out = [''l'', ''a''] \<and> mset out = mset sample_rules"
proof -
  define out where "out = map (\<lambda>n. the (find_row dr_name n sample_rules)) [''l'', ''a'']"
  have "distinct (map dr_name sample_rules)" unfolding sample_rules_names by simp
  then have "order_rules sample_rules = Inr out"
    unfolding order_rules_def sample_rules_deps(3) sample_visit out_def by simp
  moreover have "map dr_name out = [''l'', ''a'']" by (simp add: out_def sample_rules_def find_row_def)
  moreover note order_rules_dependency_order [OF calculation(1), THEN conjunct1]
  ultimately show ?thesis by (intro exI conjI)
qed

end
