(* ===== verification/Py_Ipaddress.thy ===== *)
theory Py_Ipaddress
  imports Py_Text
begin

text \<open>
  Internet addresses and networks as Python's \<^verbatim>\<open>ipaddress\<close> reads and writes them: dotted quads,
  hexadecimal groups with \<^verbatim>\<open>::\<close> and an optional zone, prefix lengths, net masks and host
  masks.  A refusal is \<open>None\<close>; the module turns every refusal into one \<^verbatim>\<open>ValueError\<close>.
\<close>

subsection \<open>Version 4\<close>

definition parse_octet :: "string \<Rightarrow> nat option" where
  "parse_octet s =
     (if s = [] \<or> \<not> list_all is_digit s \<or> length s > 3 \<or> (s \<noteq> ''0'' \<and> hd s = CHR ''0'') then None
      else if str_nat s > 255 then None else Some (str_nat s))"

definition number_of :: "nat \<Rightarrow> nat list \<Rightarrow> nat" where
  "number_of b ds = foldl (\<lambda>a d. b * a + d) 0 ds"

fun digits_of :: "nat \<Rightarrow> nat \<Rightarrow> nat \<Rightarrow> nat list" where
  "digits_of b 0 n = []"
| "digits_of b (Suc w) n = digits_of b w (n div b) @ [n mod b]"

definition ipv4_of_str :: "string \<Rightarrow> nat option" where
  "ipv4_of_str s = (let octets = split_on CHR ''.'' s in
     if s = [] \<or> length octets \<noteq> 4 then None else map_option (number_of 256) (those (map parse_octet octets)))"

definition ipv4_str :: "nat \<Rightarrow> string" where
  "ipv4_str n = join ''.'' (map nat_str (digits_of 256 4 n))"

subsection \<open>Version 6\<close>

fun hex_str :: "nat \<Rightarrow> string" where
  "hex_str n = (if n < 16 then [hex_char n] else hex_str (n div 16) @ [hex_char (n mod 16)])"

declare hex_str.simps [simp del]

definition lower_char :: "char \<Rightarrow> char" where
  "lower_char c = (if is_upper c then char_of ((of_char c :: nat) + 32) else c)"

definition parse_hextet :: "string \<Rightarrow> nat option" where
  "parse_hextet s =
     (let t = map lower_char s in
      if \<not> list_all hex_lower t \<or> length t > 4 \<or> t = [] then None else Some (str_hex t))"

text \<open>The groups between the colons, a dotted quad at the end written as two of them.\<close>

definition ipv6_parts :: "string \<Rightarrow> string list option" where
  "ipv6_parts s = (let parts = split_on CHR '':'' s in
     if s = [] \<or> length parts < 3 then None
     else if CHR ''.'' \<in> set (last parts)
     then (case ipv4_of_str (last parts) of None \<Rightarrow> None
           | Some v \<Rightarrow> Some (butlast parts @ [hex_str (v div 65536), hex_str (v mod 65536)]))
     else Some parts)"

definition ipv6_of_parts :: "string list \<Rightarrow> nat option" where
  "ipv6_of_parts parts =
     (if length parts > 9 then None
      else case filter (\<lambda>i. parts ! i = []) [1..<length parts - 1] of
        [] \<Rightarrow> if length parts \<noteq> 8 \<or> hd parts = [] \<or> last parts = [] then None
              else map_option (number_of 65536) (those (map parse_hextet parts))
      | [k] \<Rightarrow> (let hi = (if hd parts = [] then k - 1 else k);
                   lo = (if last parts = [] then length parts - k - 2 else length parts - k - 1)
               in if (hd parts = [] \<and> hi \<noteq> 0) \<or> (last parts = [] \<and> lo \<noteq> 0) \<or> hi + lo > 7 then None
                  else case (those (map parse_hextet (take hi parts)), those (map parse_hextet (drop (length parts - lo) parts))) of
                    (Some h, Some l) \<Rightarrow> Some (number_of 65536 (h @ replicate (8 - (hi + lo)) 0 @ l))
                  | _ \<Rightarrow> None)
      | _ \<Rightarrow> None)"

definition ipv6_of_str :: "string \<Rightarrow> nat option" where
  "ipv6_of_str s = (case ipv6_parts s of None \<Rightarrow> None | Some parts \<Rightarrow> ipv6_of_parts parts)"

text \<open>
  The loop of \<^verbatim>\<open>_compress_hextets\<close>: the start and length of the longest run of zeros so far,
  and of the run that is still going on.
\<close>

record zero_runs =
  best_start :: nat
  best_len :: nat
  run_start :: nat
  run_len :: nat

definition zero_step :: "zero_runs \<Rightarrow> nat \<times> string \<Rightarrow> zero_runs" where
  "zero_step z p = (case p of (i, h) \<Rightarrow>
     if h = ''0'' then
       (let z = z\<lparr>run_start := (if run_len z = 0 then i else run_start z), run_len := run_len z + 1\<rparr> in
        if run_len z > best_len z then z\<lparr>best_len := run_len z, best_start := run_start z\<rparr> else z)
     else z\<lparr>run_len := 0\<rparr>)"

definition zero_run :: "string list \<Rightarrow> zero_runs" where
  "zero_run hs = foldl zero_step \<lparr>best_start = 0, best_len = 0, run_start = 0, run_len = 0\<rparr> (enumerate 0 hs)"

definition compress_hextets :: "string list \<Rightarrow> string list" where
  "compress_hextets hs = (let z = zero_run hs; b = best_start z; e = b + best_len z in
     if best_len z > 1
     then (if b = 0 then [[]] else []) @ take b hs @ [[]] @ drop e hs @ (if e = length hs then [[]] else [])
     else hs)"

definition ipv6_str :: "nat \<Rightarrow> string" where
  "ipv6_str n = join '':'' (compress_hextets (map hex_str (digits_of 65536 8 n)))"

subsection \<open>Addresses and networks\<close>

datatype ip_version = V4 | V6

definition width :: "ip_version \<Rightarrow> nat" where
  "width v = (case v of V4 \<Rightarrow> 32 | V6 \<Rightarrow> 128)"

record ip_address =
  ip_version :: ip_version
  ip_value :: nat
  ip_zone :: "string option"

definition ip_str :: "ip_address \<Rightarrow> string" where
  "ip_str a = (case ip_version a of V4 \<Rightarrow> ipv4_str (ip_value a)
     | V6 \<Rightarrow> ipv6_str (ip_value a) @ (case ip_zone a of None \<Rightarrow> [] | Some z \<Rightarrow> CHR ''%'' # z))"

definition ipv4_address :: "string \<Rightarrow> ip_address option" where
  "ipv4_address s = (if CHR ''/'' \<in> set s then None
     else map_option (\<lambda>n. \<lparr>ip_version = V4, ip_value = n, ip_zone = None\<rparr>) (ipv4_of_str s))"

text \<open>\<^verbatim>\<open>s.partition("%")\<close>, and the zone it leaves.\<close>

definition split_zone :: "string \<Rightarrow> (string \<times> string option) option" where
  "split_zone s = (let addr = takeWhile (\<lambda>c. c \<noteq> CHR ''%'') s; rest = dropWhile (\<lambda>c. c \<noteq> CHR ''%'') s in
     case rest of [] \<Rightarrow> Some (addr, None)
     | _ # zone \<Rightarrow> if zone = [] \<or> CHR ''%'' \<in> set zone then None else Some (addr, Some zone))"

definition ipv6_address :: "string \<Rightarrow> ip_address option" where
  "ipv6_address s = (if CHR ''/'' \<in> set s then None
     else case split_zone s of None \<Rightarrow> None
       | Some (addr, zone) \<Rightarrow> map_option (\<lambda>n. \<lparr>ip_version = V6, ip_value = n, ip_zone = zone\<rparr>) (ipv6_of_str addr))"

definition ip_address_of :: "string \<Rightarrow> ip_address option" where
  "ip_address_of s = (case ipv4_address s of Some a \<Rightarrow> Some a | None \<Rightarrow> ipv6_address s)"

record ip_network =
  net_address :: ip_address
  net_prefix :: nat

definition network_str :: "ip_network \<Rightarrow> string" where
  "network_str n = ip_str (net_address n) @ CHR ''/'' # nat_str (net_prefix n)"

definition prefix_of_digits :: "nat \<Rightarrow> string \<Rightarrow> nat option" where
  "prefix_of_digits w s = (if s \<noteq> [] \<and> list_all is_digit s \<and> str_nat s \<le> w then Some (str_nat s) else None)"

text \<open>The prefix length of a mask, which is ones followed by zeros.\<close>

definition prefix_of_mask :: "nat \<Rightarrow> nat option" where
  "prefix_of_mask v = (let zeros = length (takeWhile (\<lambda>i. even (v div 2 ^ i)) [0..<32]); p = 32 - zeros in
     if v div 2 ^ zeros = 2 ^ p - 1 then Some p else None)"

definition ipv4_prefix :: "string option \<Rightarrow> nat option" where
  "ipv4_prefix m = (case m of None \<Rightarrow> Some 32
     | Some s \<Rightarrow> (case prefix_of_digits 32 s of Some p \<Rightarrow> Some p
       | None \<Rightarrow> (case ipv4_of_str s of None \<Rightarrow> None
         | Some v \<Rightarrow> (case prefix_of_mask v of Some p \<Rightarrow> Some p | None \<Rightarrow> prefix_of_mask (2 ^ 32 - 1 - v)))))"

definition ipv6_prefix :: "string option \<Rightarrow> nat option" where
  "ipv6_prefix m = (case m of None \<Rightarrow> Some 128 | Some s \<Rightarrow> prefix_of_digits 128 s)"

text \<open>
  The network of an address and a prefix length.  Masking keeps the leading bits; when it
  changes the address the result is built from the number and has no zone.
\<close>

definition first_address :: "ip_version \<Rightarrow> nat \<Rightarrow> nat \<Rightarrow> nat" where
  "first_address v p n = n div 2 ^ (width v - p) * 2 ^ (width v - p)"

definition mask_address :: "ip_address \<Rightarrow> nat \<Rightarrow> ip_network" where
  "mask_address a p = (let n = first_address (ip_version a) p (ip_value a) in
     \<lparr>net_address = (if n = ip_value a then a else a\<lparr>ip_value := n, ip_zone := None\<rparr>), net_prefix = p\<rparr>)"

definition ip_network_of :: "string \<Rightarrow> ip_network option" where
  "ip_network_of s =
     (let parts = split_on CHR ''/'' s; addr = hd parts; m = (if length parts = 2 then Some (parts ! 1) else None) in
      if length parts > 2 then None
      else case (ipv4_address addr, ipv4_prefix m) of
        (Some a, Some p) \<Rightarrow> Some (mask_address a p)
      | _ \<Rightarrow> (case (ipv6_address addr, ipv6_prefix m) of
          (Some a, Some p) \<Rightarrow> Some (mask_address a p)
        | _ \<Rightarrow> None))"

text \<open>The last address, and \<^verbatim>\<open>a.subnet_of(b)\<close> on networks of one version; equality of addresses counts the zone.\<close>

definition last_address :: "ip_network \<Rightarrow> nat" where
  "last_address n = (let a = net_address n in
     ip_value a - ip_value a mod 2 ^ (width (ip_version a) - net_prefix n) + (2 ^ (width (ip_version a) - net_prefix n) - 1))"

definition subnet_of :: "ip_network \<Rightarrow> ip_network \<Rightarrow> bool" where
  "subnet_of a b \<longleftrightarrow> (ip_value (net_address b) < ip_value (net_address a) \<or> net_address b = net_address a)
     \<and> \<not> last_address b < last_address a"

subsection \<open>What is written is read back\<close>

lemma split_on_append: "c \<notin> set x \<Longrightarrow> split_on c (x @ c # r) = x # split_on c r"
  by (induction x) auto

lemma split_on_whole: "c \<notin> set x \<Longrightarrow> split_on c x = [x]"
  by (induction x) auto

lemma split_on_join: "ps \<noteq> [] \<Longrightarrow> \<forall>p \<in> set ps. c \<notin> set p \<Longrightarrow> split_on c (join [c] ps) = ps"
  by (induction "[c]" ps rule: join.induct) (simp_all add: split_on_whole split_on_append)

lemma those_map_Some: "\<forall>x \<in> set xs. f (g x) = Some (h x) \<Longrightarrow> those (map f (map g xs)) = Some (map h xs)"
  by (induction xs) simp_all

lemma nat_str_length: "n < 10 ^ Suc k \<Longrightarrow> length (nat_str n) \<le> Suc k"
proof (induction k arbitrary: n)
  case (Suc k)
  then have "n div 10 < 10 ^ Suc k" by (simp add: div_less_iff_less_mult mult.commute)
  with Suc.IH show ?case by (simp add: nat_str.simps [of n])
qed (simp add: nat_str.simps [of n for n])

lemma digits_of_length [simp]: "length (digits_of b w n) = w"
  by (induction w arbitrary: n) simp_all

lemma digits_of_less: "0 < b \<Longrightarrow> d \<in> set (digits_of b w n) \<Longrightarrow> d < b"
  by (induction w arbitrary: n) auto

lemma number_of_append: "number_of b (xs @ [d]) = b * number_of b xs + d"
  by (simp add: number_of_def)

lemma number_of_digits_of: "n < b ^ w \<Longrightarrow> number_of b (digits_of b w n) = n"
proof (induction w arbitrary: n)
  case (Suc w)
  then have "n div b < b ^ w" by (cases "b = 0") (simp_all add: div_less_iff_less_mult mult.commute)
  with Suc.IH show ?case by (simp add: number_of_append)
qed (simp add: number_of_def)

lemma nat_str_zero: "nat_str 0 = ''0''"
  by code_simp

lemma parse_octet_nat_str: "n < 256 \<Longrightarrow> parse_octet (nat_str n) = Some n"
proof -
  assume n: "n < 256"
  have short: "\<not> 3 < length (nat_str n)" using nat_str_length [of n 2] n by simp
  have zero: "(nat_str n \<noteq> ''0'' \<and> hd (nat_str n) = CHR ''0'') = False"
    by (metis nat_str_hd_zero nat_str_zero)
  show ?thesis
    unfolding parse_octet_def zero using n short by (simp add: nat_str_digits)
qed

lemma dot_not_digit: "CHR ''.'' \<notin> set (nat_str n)" "CHR '':'' \<notin> set (nat_str n)" "CHR ''/'' \<notin> set (nat_str n)" "CHR ''%'' \<notin> set (nat_str n)"
  using nat_str_digits [of n] by (auto simp: list_all_iff is_digit_def)

lemma join_nonempty: "xs \<noteq> [] \<Longrightarrow> hd xs \<noteq> [] \<Longrightarrow> join sep xs \<noteq> []"
  by (cases xs) (simp_all add: join_Cons)

lemma ipv4_of_str_ipv4_str: "n < 2 ^ 32 \<Longrightarrow> ipv4_of_str (ipv4_str n) = Some n"
proof -
  assume n: "n < 2 ^ 32"
  have octets: "\<forall>d \<in> set (digits_of 256 4 n). parse_octet (nat_str d) = Some (id d)"
    using digits_of_less [of 256 _ 4 n] parse_octet_nat_str by simp
  have split: "split_on CHR ''.'' (ipv4_str n) = map nat_str (digits_of 256 4 n)"
    unfolding ipv4_str_def by (rule split_on_join) (auto simp: dot_not_digit simp flip: length_greater_0_conv)
  have "digits_of 256 4 n \<noteq> []" by (metis digits_of_length list.size(3) zero_neq_numeral)
  then have "ipv4_str n \<noteq> []"
    unfolding ipv4_str_def by (intro join_nonempty) (simp_all add: hd_map)
  then show ?thesis
    using number_of_digits_of [of n 256 4] n those_map_Some [of "digits_of 256 4 n" parse_octet nat_str id] octets
    by (simp add: ipv4_of_str_def split)
qed

lemma hex_lower_props:
  assumes "hex_lower c"
  shows "lower_char c = c" and "c \<noteq> CHR '':''" and "c \<noteq> CHR ''.''" and "c \<noteq> CHR ''/''" and "c \<noteq> CHR ''%''"
  using assms by (auto simp: hex_lower_def lower_char_def is_upper_def is_digit_def Let_def)

lemma hex_str_lower: "list_all hex_lower (hex_str n)"
  by (induction n rule: hex_str.induct) (simp add: hex_str.simps [of n for n])

lemma hex_str_nonempty [simp]: "hex_str n \<noteq> []"
  by (simp add: hex_str.simps [of n])

lemma hex_str_length: "n < 16 ^ Suc k \<Longrightarrow> length (hex_str n) \<le> Suc k"
proof (induction k arbitrary: n)
  case (Suc k)
  then have "n div 16 < 16 ^ Suc k" by (simp add: div_less_iff_less_mult mult.commute)
  with Suc.IH show ?case by (simp add: hex_str.simps [of n])
qed (simp add: hex_str.simps [of n for n])

lemma str_hex_hex_str [simp]: "str_hex (hex_str n) = n"
proof (induction n rule: hex_str.induct)
  case (1 n)
  then show ?case by (cases "n < 16") (simp_all add: hex_str.simps [of n] str_hex_def)
qed

lemma hex_str_zero: "hex_str n = ''0'' \<longleftrightarrow> n = 0"
proof -
  have "hex_str 0 = ''0''" by code_simp
  then show ?thesis by (metis str_hex_hex_str)
qed

lemma parse_hextet_hex_str: "n < 65536 \<Longrightarrow> parse_hextet (hex_str n) = Some n"
proof -
  assume "n < 65536"
  then have "\<not> 4 < length (hex_str n)" using hex_str_length [of n 3] by simp
  moreover have "map lower_char (hex_str n) = hex_str n"
    using hex_str_lower [of n] hex_lower_props(1) by (simp add: list_all_iff map_idI)
  ultimately show ?thesis by (simp add: parse_hextet_def hex_str_lower)
qed

lemma hex_str_lacks: "\<not> hex_lower c \<Longrightarrow> c \<notin> set (hex_str n)"
  using hex_str_lower [of n] by (auto simp: list_all_iff)

lemma hex_str_marks: "CHR '':'' \<notin> set (hex_str n)" "CHR ''.'' \<notin> set (hex_str n)" "CHR ''/'' \<notin> set (hex_str n)" "CHR ''%'' \<notin> set (hex_str n)"
  by (rule hex_str_lacks, simp add: hex_lower_def is_digit_def)+

text \<open>The run that is replaced holds nothing but zeros.\<close>

definition zero_runs_ok :: "string list \<Rightarrow> nat \<Rightarrow> zero_runs \<Rightarrow> bool" where
  "zero_runs_ok hs i z \<longleftrightarrow> best_start z + best_len z \<le> i \<and> (\<forall>j. best_start z \<le> j \<longrightarrow> j < best_start z + best_len z \<longrightarrow> hs ! j = ''0'')
     \<and> (run_len z \<noteq> 0 \<longrightarrow> run_start z + run_len z = i \<and> (\<forall>j. run_start z \<le> j \<longrightarrow> j < i \<longrightarrow> hs ! j = ''0''))"

lemma zero_step_ok:
  assumes "zero_runs_ok hs i z"
  shows "zero_runs_ok hs (Suc i) (zero_step z (i, hs ! i))"
proof (cases "hs ! i = ''0''")
  case True
  define st where "st = (if run_len z = 0 then i else run_start z)"
  have run: "st + Suc (run_len z) = Suc i" using assms by (simp add: st_def zero_runs_ok_def)
  have zeros: "hs ! j = ''0''" if "st \<le> j" "j < Suc i" for j
  proof (cases "j = i")
    case False
    then show ?thesis using assms that by (cases "run_len z = 0") (simp_all add: st_def zero_runs_ok_def)
  qed (simp add: True)
  have "zero_step z (i, hs ! i) = (let z' = z\<lparr>run_start := st, run_len := Suc (run_len z)\<rparr> in
      if Suc (run_len z) > best_len z then z'\<lparr>best_len := Suc (run_len z), best_start := st\<rparr> else z')"
    by (simp add: zero_step_def True st_def Let_def)
  moreover have "best_start z + best_len z \<le> Suc i" using assms by (simp add: zero_runs_ok_def)
  ultimately show ?thesis
    using run zeros assms unfolding zero_runs_ok_def Let_def by (cases "best_len z < Suc (run_len z)") simp_all
next
  case False
  then show ?thesis using assms by (simp add: zero_step_def zero_runs_ok_def le_SucI)
qed

lemma zero_run_ok: "zero_runs_ok hs (length hs) (zero_run hs)"
proof -
  have "i \<le> length hs \<Longrightarrow> zero_runs_ok hs i (foldl zero_step \<lparr>best_start = 0, best_len = 0, run_start = 0, run_len = 0\<rparr> (take i (enumerate 0 hs)))" for i
  proof (induction i)
    case 0
    then show ?case by (simp add: zero_runs_ok_def)
  next
    case (Suc i)
    then have "take (Suc i) (enumerate 0 hs) = take i (enumerate 0 hs) @ [(i, hs ! i)]"
      by (simp add: take_Suc_conv_app_nth nth_enumerate_eq)
    with Suc show ?case by (simp add: zero_step_ok)
  qed
  from this [of "length hs"] show ?thesis by (simp add: zero_run_def)
qed

lemma filter_only: "distinct xs \<Longrightarrow> k \<in> set xs \<Longrightarrow> (\<And>i. i \<in> set xs \<Longrightarrow> P i \<longleftrightarrow> i = k) \<Longrightarrow> filter P xs = [k]"
proof (induction xs)
  case (Cons x xs)
  show ?case
  proof (cases "x = k")
    case True
    then have "filter P xs = []" using Cons.prems by (auto simp: filter_empty_conv)
    then show ?thesis using True Cons.prems by simp
  next
    case False
    then show ?thesis using Cons by auto
  qed
qed simp

lemma those_hextets: "\<forall>d \<in> set ds. d < 65536 \<Longrightarrow> those (map parse_hextet (map hex_str ds)) = Some ds"
  using those_map_Some [of ds parse_hextet hex_str id] parse_hextet_hex_str by simp

lemma ipv6_of_parts_whole:
  assumes "length ds = 8" and "\<forall>d \<in> set ds. d < 65536"
  shows "ipv6_of_parts (map hex_str ds) = Some (number_of 65536 ds)"
proof -
  have ne: "ds \<noteq> []" using assms(1) by auto
  have "filter (\<lambda>i. map hex_str ds ! i = []) [1..<length (map hex_str ds) - 1] = []"
    using assms(1) by (auto simp: filter_empty_conv)
  then show ?thesis
    using assms ne those_hextets [OF assms(2)] by (simp add: ipv6_of_parts_def hd_map last_map)
qed

lemma ipv6_of_parts_skip:
  fixes h l :: "nat list"
  defines "lead \<equiv> (if h = [] then [[]] else [] :: string list)" and "trail \<equiv> (if l = [] then [[]] else [] :: string list)"
  defines "P \<equiv> lead @ map hex_str h @ [[]] @ map hex_str l @ trail"
  assumes small: "\<forall>d \<in> set h \<union> set l. d < 65536" and len: "length h + length l \<le> 7"
  shows "ipv6_of_parts P = Some (number_of 65536 (h @ replicate (8 - (length h + length l)) 0 @ l))"
proof -
  define k where "k = length lead + length h"
  have lp: "length P = k + 1 + length l + length trail" by (simp add: P_def k_def)
  have at: "P ! i = [] \<longleftrightarrow> i = k" if "1 \<le> i" "i < length P - 1" for i
  proof (cases "i < k")
    case True
    then have "P ! i = hex_str (h ! (i - length lead))"
      using that by (auto simp: P_def k_def nth_append lead_def)
    then show ?thesis using True by simp
  next
    case False
    show ?thesis
    proof (cases "i = k")
      case True
      then show ?thesis by (simp add: P_def k_def nth_append)
    next
      case False
      with \<open>\<not> i < k\<close> have i: "k < i" by simp
      have "i - k - 1 < length l" using that(2) lp i by (cases "l = []") (auto simp: trail_def)
      then have "P ! i = hex_str (l ! (i - k - 1))"
        using i by (simp add: P_def k_def nth_append nth_Cons') (auto simp: nth_append)
      then show ?thesis using i by simp
    qed
  qed
  have k: "1 \<le> k" "k < length P - 1" by (auto simp: k_def lp lead_def trail_def Suc_le_eq)
  have skip: "filter (\<lambda>i. P ! i = []) [1..<length P - 1] = [k]"
    by (rule filter_only) (use at k in auto)
  have hd: "hd P = [] \<longleftrightarrow> h = []" by (cases h) (simp_all add: P_def lead_def)
  have last: "last P = [] \<longleftrightarrow> l = []" by (cases l rule: rev_cases) (simp_all add: P_def trail_def)
  have hi: "(if hd P = [] then k - 1 else k) = length h" by (simp add: hd k_def lead_def)
  have lo: "(if last P = [] then length P - k - 2 else length P - k - 1) = length l" by (simp add: last lp trail_def)
  have "take (length h) P = map hex_str h" by (cases "h = []") (simp_all add: P_def lead_def)
  moreover have "drop (length P - length l) P = map hex_str l"
    by (cases "l = []") (simp_all add: P_def trail_def lead_def)
  moreover have "length P \<le> 9" using len by (auto simp: lp k_def lead_def trail_def)
  ultimately show ?thesis
    using small len those_hextets [of h] those_hextets [of l] hd last
    unfolding ipv6_of_parts_def skip list.case hi lo Let_def by auto
qed

lemma ipv6_of_joined:
  assumes "3 \<le> length ps" and "\<forall>p \<in> set ps. CHR '':'' \<notin> set p \<and> CHR ''.'' \<notin> set p"
  shows "ipv6_of_str (join '':'' ps) = ipv6_of_parts ps"
proof -
  have ne: "ps \<noteq> []" using assms(1) by auto
  have split: "split_on CHR '':'' (join '':'' ps) = ps"
    by (rule split_on_join) (use ne assms(2) in auto)
  have "join '':'' ps \<noteq> []" using assms(1) by (cases ps; cases "tl ps") (auto simp: join_Cons)
  then show ?thesis
    using assms ne by (simp add: ipv6_of_str_def ipv6_parts_def split)
qed

lemma ipv6_of_str_ipv6_str: "n < 2 ^ 128 \<Longrightarrow> ipv6_of_str (ipv6_str n) = Some n"
proof -
  assume n: "n < 2 ^ 128"
  define ds where "ds = digits_of 65536 8 n"
  have len: "length ds = 8" and small: "\<forall>d \<in> set ds. d < 65536" using digits_of_less [of 65536 _ 8 n] by (simp_all add: ds_def)
  have num: "number_of 65536 ds = n" using number_of_digits_of [of n 65536 8] n by (simp add: ds_def)
  define z where "z = zero_run (map hex_str ds)"
  define b where "b = best_start z"
  define e where "e = b + best_len z"
  have ok: "e \<le> 8" "\<And>j. b \<le> j \<Longrightarrow> j < e \<Longrightarrow> ds ! j = 0"
    using zero_run_ok [of "map hex_str ds"] len unfolding z_def [symmetric] zero_runs_ok_def b_def e_def by (auto simp: hex_str_zero)
  show ?thesis
  proof (cases "1 < best_len z")
    case False
    then have "compress_hextets (map hex_str ds) = map hex_str ds" by (simp add: compress_hextets_def z_def [symmetric] Let_def)
    then show ?thesis
      using len small ipv6_of_parts_whole [OF len small]
      by (simp add: ipv6_str_def ds_def [symmetric] ipv6_of_joined hex_str_marks num)
  next
    case True
    then have be: "b + 2 \<le> e" by (simp add: e_def)
    define h where "h = take b ds"
    define l where "l = drop e ds"
    have sizes: "length h = b" "length l = 8 - e" "h = [] \<longleftrightarrow> b = 0" "l = [] \<longleftrightarrow> e = 8"
      using len ok(1) be by (auto simp: h_def l_def)
    define P where "P = (if h = [] then [[]] else []) @ map hex_str h @ [[]] @ map hex_str l @ (if l = [] then [[]] else [])"
    have "compress_hextets (map hex_str ds) = P"
      using True len sizes by (simp add: compress_hextets_def z_def [symmetric] b_def [symmetric] e_def [symmetric] Let_def P_def h_def l_def take_map drop_map)
    then have shape: "ipv6_str n = join '':'' P" by (simp add: ipv6_str_def ds_def [symmetric])
    have "3 \<le> length P" using sizes by (auto simp: P_def Suc_le_eq neq_Nil_conv)
    moreover have "\<forall>p \<in> set P. CHR '':'' \<notin> set p \<and> CHR ''.'' \<notin> set p" by (auto simp: P_def hex_str_marks)
    ultimately have "ipv6_of_str (ipv6_str n) = ipv6_of_parts P" by (simp add: shape ipv6_of_joined)
    also have "\<dots> = Some (number_of 65536 (h @ replicate (8 - (length h + length l)) 0 @ l))"
      unfolding P_def by (rule ipv6_of_parts_skip)
        (use small sizes be ok(1) in \<open>auto simp: h_def l_def dest: in_set_takeD in_set_dropD\<close>)
    also have "h @ replicate (8 - (length h + length l)) 0 @ l = ds"
    proof (rule nth_equalityI)
      show "length (h @ replicate (8 - (length h + length l)) 0 @ l) = length ds" using sizes be ok(1) len by simp
    next
      fix j assume "j < length (h @ replicate (8 - (length h + length l)) 0 @ l)"
      then have "j < 8" using sizes be ok(1) by simp
      moreover have mid: "8 - (length h + length l) = e - b" using sizes be ok(1) by simp
      ultimately show "(h @ replicate (8 - (length h + length l)) 0 @ l) ! j = ds ! j"
        using sizes(1,2) be ok len unfolding mid by (auto simp: nth_append h_def l_def)
    qed
    finally show ?thesis by (simp add: num)
  qed
qed

definition wf_address :: "ip_address \<Rightarrow> bool" where
  "wf_address a \<longleftrightarrow> ip_value a < 2 ^ width (ip_version a) \<and> (case ip_zone a of None \<Rightarrow> True
     | Some z \<Rightarrow> ip_version a = V6 \<and> z \<noteq> [] \<and> CHR ''%'' \<notin> set z \<and> CHR ''/'' \<notin> set z)"

definition wf_network :: "ip_network \<Rightarrow> bool" where
  "wf_network n \<longleftrightarrow> wf_address (net_address n) \<and> net_prefix n \<le> width (ip_version (net_address n))
     \<and> first_address (ip_version (net_address n)) (net_prefix n) (ip_value (net_address n)) = ip_value (net_address n)"

lemma split_on_chars: "x \<in> set s \<Longrightarrow> x = c \<or> (\<exists>p \<in> set (split_on c s). x \<in> set p)"
  by (induction s) (auto split: list.splits)

lemma split_on_sub: "\<forall>p \<in> set (split_on c s). set p \<subseteq> set s - {c}"
  by (induction s) (fastforce split: list.splits if_splits)+

lemma those_Some: "those xs = Some ys \<Longrightarrow> xs = map Some ys"
  by (induction xs arbitrary: ys) (auto split: option.splits)

lemma parse_octet_Some: "parse_octet s = Some n \<Longrightarrow> list_all is_digit s \<and> n < 256"
  by (auto simp: parse_octet_def split: if_splits)

lemma number_of_less: "\<forall>d \<in> set ds. d < b \<Longrightarrow> number_of b ds < b ^ length ds"
proof (induction ds rule: rev_induct)
  case (snoc d ds)
  then have "number_of b ds + 1 \<le> b ^ length ds" "d < b" by simp_all
  then have "b * number_of b ds + b \<le> b * b ^ length ds" by (metis mult_le_mono2 distrib_left mult.right_neutral)
  with \<open>d < b\<close> show ?case by (simp add: number_of_append)
qed (simp add: number_of_def)

lemma ipv4_of_str_Some:
  assumes "ipv4_of_str s = Some n"
  shows "n < 2 ^ 32" and "\<forall>c \<in> set s. is_digit c \<or> c = CHR ''.''"
proof -
  obtain ds where ds: "map parse_octet (split_on CHR ''.'' s) = map Some ds" "n = number_of 256 ds" "length (split_on CHR ''.'' s) = 4"
    using assms those_Some by (auto simp: ipv4_of_str_def Let_def split: if_splits)
  have all: "\<exists>d. parse_octet p = Some d" if "p \<in> set (split_on CHR ''.'' s)" for p
  proof -
    have "parse_octet p \<in> set (map parse_octet (split_on CHR ''.'' s))" using that by simp
    then show ?thesis unfolding ds(1) by auto
  qed
  have "d < 256" if "d \<in> set ds" for d
  proof -
    have "Some d \<in> set (map parse_octet (split_on CHR ''.'' s))" unfolding ds(1) using that by simp
    then show ?thesis using parse_octet_Some by (metis imageE set_map)
  qed
  moreover have "length ds = 4" using arg_cong [OF ds(1), of length] ds(3) by simp
  ultimately show "n < 2 ^ 32" using number_of_less [of ds 256] unfolding ds(2) by simp
  show "\<forall>c \<in> set s. is_digit c \<or> c = CHR ''.''"
    using split_on_chars [of _ s "CHR ''.''"] all parse_octet_Some by (fastforce simp: list_all_iff)
qed

lemma parse_hextet_Some: "parse_hextet s = Some n \<Longrightarrow> n < 65536"
proof -
  assume a: "parse_hextet s = Some n"
  define t where "t = map lower_char s"
  have t: "list_all hex_lower t" "length t \<le> 4" "n = str_hex t" using a by (auto simp: parse_hextet_def t_def Let_def split: if_splits)
  have digit: "char_hex c < 16" if "hex_lower c" for c
    using that by (auto simp: hex_lower_def char_hex_def is_digit_def Let_def)
  have "str_hex t = number_of 16 (map char_hex t)" by (simp add: str_hex_def number_of_def foldl_map)
  also have "\<dots> < 16 ^ length t"
    using number_of_less [of "map char_hex t" 16] t(1) digit by (simp add: list_all_iff)
  also have "\<dots> \<le> (16::nat) ^ 4" using t(2) by (intro power_increasing) simp_all
  finally show ?thesis by (simp add: t(3))
qed

lemma those_hextets_Some:
  assumes "those (map parse_hextet ps) = Some ds"
  shows "length ds = length ps" and "\<forall>d \<in> set ds. d < 65536"
proof -
  have eq: "map parse_hextet ps = map Some ds" using assms by (rule those_Some)
  show "length ds = length ps" using arg_cong [OF eq, of length] by simp
  have "d < 65536" if "d \<in> set ds" for d
  proof -
    have "Some d \<in> set (map parse_hextet ps)" unfolding eq using that by simp
    then show ?thesis using parse_hextet_Some by (metis imageE set_map)
  qed
  then show "\<forall>d \<in> set ds. d < 65536" by blast
qed

lemma ipv6_of_parts_Some:
  assumes "ipv6_of_parts parts = Some n"
  shows "n < 2 ^ 128"
proof -
  have "\<exists>ds. length ds = 8 \<and> (\<forall>d \<in> set ds. d < 65536) \<and> n = number_of 65536 ds"
  proof (cases "filter (\<lambda>i. parts ! i = []) [1..<length parts - 1]")
    case Nil
    then have "length parts = 8" "\<exists>ds. those (map parse_hextet parts) = Some ds \<and> n = number_of 65536 ds"
      using assms by (auto simp: ipv6_of_parts_def split: if_splits)
    then show ?thesis using those_hextets_Some by metis
  next
    case (Cons k ks)
    with assms have one: "ks = []" by (cases ks) (simp_all add: ipv6_of_parts_def split: if_splits)
    define hi where "hi = (if hd parts = [] then k - 1 else k)"
    define lo where "lo = (if last parts = [] then length parts - k - 2 else length parts - k - 1)"
    have "k \<in> set (filter (\<lambda>i. parts ! i = []) [1..<length parts - 1])" unfolding Cons by simp
    then have k: "k < length parts" by auto
    from assms have 1: "\<not> 7 < hi + lo" "(case (those (map parse_hextet (take hi parts)), those (map parse_hextet (drop (length parts - lo) parts))) of
          (Some h, Some l) \<Rightarrow> Some (number_of 65536 (h @ replicate (8 - (hi + lo)) 0 @ l)) | _ \<Rightarrow> None) = Some n"
      unfolding ipv6_of_parts_def Let_def Cons one list.case hi_def [symmetric] lo_def [symmetric] by (simp_all split: if_splits)
    then obtain h l where h: "those (map parse_hextet (take hi parts)) = Some h" and l: "those (map parse_hextet (drop (length parts - lo) parts)) = Some l"
      and n: "n = number_of 65536 (h @ replicate (8 - (hi + lo)) 0 @ l)" by (auto split: option.splits)
    have "length h = hi" "length l = lo" using those_hextets_Some(1) [OF h] those_hextets_Some(1) [OF l] k by (simp_all add: hi_def lo_def)
    then have "length (h @ replicate (8 - (hi + lo)) 0 @ l) = 8" using 1(1) by simp
    moreover have "\<forall>d \<in> set (h @ replicate (8 - (hi + lo)) 0 @ l). d < 65536"
      using those_hextets_Some(2) [OF h] those_hextets_Some(2) [OF l] by auto
    ultimately show ?thesis using n by blast
  qed
  then show ?thesis using number_of_less [of _ 65536] by fastforce
qed

lemma ipv4_address_Some: "ipv4_address s = Some a \<Longrightarrow> wf_address a \<and> ip_version a = V4 \<and> (\<forall>c \<in> set s. is_digit c \<or> c = CHR ''.'')"
  by (auto simp: ipv4_address_def wf_address_def width_def dest: ipv4_of_str_Some ipv4_of_str_Some(2) [THEN bspec] split: if_splits)

lemma ipv6_address_Some: "ipv6_address s = Some a \<Longrightarrow> wf_address a \<and> ip_version a = V6"
proof -
  assume a: "ipv6_address s = Some a"
  then obtain addr zone n where z: "split_zone s = Some (addr, zone)" "ipv6_of_str addr = Some n" "CHR ''/'' \<notin> set s"
    "a = \<lparr>ip_version = V6, ip_value = n, ip_zone = zone\<rparr>"
    by (auto simp: ipv6_address_def split: if_splits option.splits)
  have "n < 2 ^ 128" using z(2) ipv6_of_parts_Some by (auto simp: ipv6_of_str_def split: option.splits)
  moreover have "zone = Some t \<Longrightarrow> t \<noteq> [] \<and> CHR ''%'' \<notin> set t \<and> set t \<subseteq> set s" for t
    using z(1) set_dropWhileD [of _ "\<lambda>c. c \<noteq> CHR ''%''" s] by (auto simp: split_zone_def Let_def split: list.splits if_splits)
  ultimately show ?thesis using z(3,4) by (auto simp: wf_address_def width_def split: option.splits)
qed

lemma ip_address_of_Some: "ip_address_of s = Some a \<Longrightarrow> wf_address a"
  using ipv4_address_Some ipv6_address_Some by (auto simp: ip_address_of_def split: option.splits)

lemma prefix_of_digits_Some: "prefix_of_digits w s = Some p \<Longrightarrow> p \<le> w"
  by (auto simp: prefix_of_digits_def split: if_splits)

lemma ipv4_prefix_Some: "ipv4_prefix m = Some p \<Longrightarrow> p \<le> 32"
  by (auto simp: ipv4_prefix_def prefix_of_mask_def Let_def dest: prefix_of_digits_Some split: option.splits if_splits)

lemma ipv6_prefix_Some: "ipv6_prefix m = Some p \<Longrightarrow> p \<le> 128"
  by (auto simp: ipv6_prefix_def dest: prefix_of_digits_Some split: option.splits)

lemma first_address_le: "first_address v p n \<le> n"
  by (simp add: first_address_def)

lemma wf_mask_address:
  assumes "wf_address a" and "p \<le> width (ip_version a)"
  shows "wf_network (mask_address a p)"
proof -
  have "first_address v p (first_address v p n) = first_address v p n" for v n
    by (simp add: first_address_def)
  then show ?thesis
    using assms le_less_trans [OF first_address_le [of "ip_version a" p "ip_value a"]]
    by (auto simp: wf_network_def mask_address_def Let_def wf_address_def)
qed

lemma ip_network_of_Some: "ip_network_of s = Some n \<Longrightarrow> wf_network n"
  by (auto simp: ip_network_of_def Let_def width_def split: if_splits option.splits
      dest!: ipv4_address_Some ipv6_address_Some ipv4_prefix_Some ipv6_prefix_Some intro!: wf_mask_address)

lemma set_join: "set (join sep ps) \<subseteq> set sep \<union> (\<Union>p \<in> set ps. set p)"
  by (induction sep ps rule: join.induct) auto

lemma ipv4_str_chars: "c \<in> set (ipv4_str n) \<Longrightarrow> is_digit c \<or> c = CHR ''.''"
  using set_join [of "''.''" "map nat_str (digits_of 256 4 n)"] nat_str_digits
  by (fastforce simp: ipv4_str_def list_all_iff)

lemma compress_sub: "set (compress_hextets hs) \<subseteq> insert [] (set hs)"
  by (auto simp: compress_hextets_def Let_def dest: in_set_takeD in_set_dropD)

lemma ipv6_str_chars: "c \<in> set (ipv6_str n) \<Longrightarrow> hex_lower c \<or> c = CHR '':''"
proof -
  assume "c \<in> set (ipv6_str n)"
  then have "c = CHR '':'' \<or> (\<exists>p \<in> set (compress_hextets (map hex_str (digits_of 65536 8 n))). c \<in> set p)"
    using set_join [of "'':''" "compress_hextets (map hex_str (digits_of 65536 8 n))"] by (auto simp: ipv6_str_def)
  then show ?thesis
    using compress_sub [of "map hex_str (digits_of 65536 8 n)"] hex_str_lacks by fastforce
qed

lemma compress_length: "length hs = 8 \<Longrightarrow> 3 \<le> length (compress_hextets hs)"
proof -
  assume len: "length hs = 8"
  have "best_start (zero_run hs) + best_len (zero_run hs) \<le> 8" using zero_run_ok [of hs] len by (simp add: zero_runs_ok_def)
  then show ?thesis using len by (auto simp: compress_hextets_def Let_def)
qed

lemma colon_in_ipv6: "CHR '':'' \<in> set (ipv6_str n)"
proof -
  have "2 \<le> length ps \<Longrightarrow> CHR '':'' \<in> set (join '':'' ps)" for ps
    by (cases ps; cases "tl ps") (auto simp: join_Cons)
  then show ?thesis using compress_length [of "map hex_str (digits_of 65536 8 n)"] by (simp add: ipv6_str_def)
qed

lemma colon_not_ipv4: "CHR '':'' \<in> set s \<Longrightarrow> ipv4_address s = None"
proof (rule ccontr)
  assume c: "CHR '':'' \<in> set s" and "ipv4_address s \<noteq> None"
  then obtain a where "ipv4_address s = Some a" by blast
  then have "is_digit CHR '':'' \<or> CHR '':'' = CHR ''.''" using ipv4_address_Some c by blast
  then show False by (simp add: is_digit_def)
qed

lemma zone_split:
  assumes "CHR ''%'' \<notin> set s"
  shows "split_zone s = Some (s, None)" and "z \<noteq> [] \<Longrightarrow> CHR ''%'' \<notin> set z \<Longrightarrow> split_zone (s @ CHR ''%'' # z) = Some (s, Some z)"
proof -
  have all: "c \<noteq> CHR ''%''" if "c \<in> set s" for c using assms that by blast
  have 1: "takeWhile (\<lambda>c. c \<noteq> CHR ''%'') s = s" "dropWhile (\<lambda>c. c \<noteq> CHR ''%'') s = []"
    by (simp_all add: takeWhile_eq_all_conv dropWhile_eq_Nil_conv all)
  show "split_zone s = Some (s, None)" unfolding split_zone_def 1 Let_def by simp
  have 2: "takeWhile (\<lambda>c. c \<noteq> CHR ''%'') (s @ CHR ''%'' # z) = s" "dropWhile (\<lambda>c. c \<noteq> CHR ''%'') (s @ CHR ''%'' # z) = CHR ''%'' # z"
    using takeWhile_append2 [of s "\<lambda>c. c \<noteq> CHR ''%''" "CHR ''%'' # z"] dropWhile_append2 [of s "\<lambda>c. c \<noteq> CHR ''%''" "CHR ''%'' # z"] all
    by simp_all
  show "z \<noteq> [] \<Longrightarrow> CHR ''%'' \<notin> set z \<Longrightarrow> split_zone (s @ CHR ''%'' # z) = Some (s, Some z)"
    unfolding split_zone_def 2 Let_def by simp
qed

lemma ip_str_no_slash: "wf_address a \<Longrightarrow> CHR ''/'' \<notin> set (ip_str a)"
proof
  assume a: "wf_address a" and c: "CHR ''/'' \<in> set (ip_str a)"
  have n: "\<not> is_digit CHR ''/''" "\<not> hex_lower CHR ''/''" by (simp_all add: is_digit_def hex_lower_def)
  show False
    using a c n ipv4_str_chars [of "CHR ''/''"] ipv6_str_chars [of "CHR ''/''"]
    by (auto simp: ip_str_def wf_address_def split: ip_version.splits option.splits)
qed

text \<open>An address reads itself back, in the version it has.\<close>

lemma address_roundtrip:
  assumes "wf_address a"
  shows "ip_version a = V4 \<Longrightarrow> ipv4_address (ip_str a) = Some a"
    and "ip_version a = V6 \<Longrightarrow> ipv4_address (ip_str a) = None \<and> ipv6_address (ip_str a) = Some a"
proof -
  note slash = ip_str_no_slash [OF assms]
  show "ip_version a = V4 \<Longrightarrow> ipv4_address (ip_str a) = Some a"
    using slash assms ipv4_of_str_ipv4_str [of "ip_value a"]
    by (cases "ip_zone a") (simp_all add: ipv4_address_def ip_str_def wf_address_def width_def)
  assume v: "ip_version a = V6"
  have "CHR '':'' \<in> set (ip_str a)" using v colon_in_ipv6 by (simp add: ip_str_def)
  moreover have "CHR ''%'' \<notin> set (ipv6_str (ip_value a))"
    using ipv6_str_chars [of "CHR ''%''"] by (auto simp: hex_lower_def is_digit_def)
  note zs = zone_split [OF this]
  have "ipv6_address (ip_str a) = Some a"
    using slash assms v ipv6_of_str_ipv6_str [of "ip_value a"] zs
    by (cases "ip_zone a") (simp_all add: ipv6_address_def ip_str_def wf_address_def width_def)
  ultimately show "ipv4_address (ip_str a) = None \<and> ipv6_address (ip_str a) = Some a" by (simp add: colon_not_ipv4)
qed

lemma ip_address_of_ip_str: "wf_address a \<Longrightarrow> ip_address_of (ip_str a) = Some a"
  using address_roundtrip by (cases "ip_version a") (simp_all add: ip_address_of_def)

lemma ip_network_of_network_str:
  assumes "wf_network n"
  shows "ip_network_of (network_str n) = Some n"
proof -
  let ?a = "net_address n" and ?p = "net_prefix n"
  have a: "wf_address ?a" and p: "?p \<le> width (ip_version ?a)"
    and m: "mask_address ?a ?p = n" using assms by (simp_all add: wf_network_def mask_address_def)
  have split: "split_on CHR ''/'' (network_str n) = [ip_str ?a, nat_str ?p]"
    using ip_str_no_slash [OF a] dot_not_digit(3) by (simp add: network_str_def split_on_append split_on_whole)
  have digits: "prefix_of_digits (width (ip_version ?a)) (nat_str ?p) = Some ?p"
    using p by (simp add: prefix_of_digits_def nat_str_digits)
  show ?thesis
    using address_roundtrip [OF a] digits m
    by (cases "ip_version ?a") (simp_all add: ip_network_of_def split ipv4_prefix_def ipv6_prefix_def width_def)
qed

end
