(* ===== verification/Config_Fields.thy ===== *)
theory Config_Fields
  imports Config_Document Py_Ipaddress
begin

text \<open>
  Field specifications, the index that looks them up by path, and the canonicalisers
  (\<^verbatim>\<open>dotmac-config-layers\<close>: \<^verbatim>\<open>fields.py\<close>).  The parameter schema of a module is a pydantic
  model; what \<^verbatim>\<open>walk_schema\<close> reads off it is a list of leaves and an argument here.
\<close>

datatype Kind = Kind_object | Kind_map | Kind_scalar | Kind_list

datatype Strategy = Strategy_replace | Strategy_union | Strategy_keyed

datatype AccessKind = Access_neutral | Access_allow_list | Access_deny_list | Access_secure_bool | Access_ordered

datatype Tie = Tie_error | Tie_restrictive

datatype field_default = REQUIRED | OPTIONAL_UNMANAGED | Default json

definition kind_value :: "Kind \<Rightarrow> string" where
  "kind_value k = (case k of Kind_object \<Rightarrow> ''object'' | Kind_map \<Rightarrow> ''map'' | Kind_scalar \<Rightarrow> ''scalar'' | Kind_list \<Rightarrow> ''list'')"

subsection \<open>Canonicalisers\<close>

text \<open>The message of the \<^verbatim>\<open>ValueError\<close> is the left summand.\<close>

definition canon_cidr :: "json \<Rightarrow> string + json" where
  "canon_cidr v = (case v of
     JStr s \<Rightarrow> (case ip_network_of (strip s) of
         None \<Rightarrow> Inl (repr_str (strip s) @ '' does not appear to be an IPv4 or IPv6 network'')
       | Some n \<Rightarrow> Inr (JStr (network_str n)))
   | _ \<Rightarrow> Inl ''a CIDR string is required'')"

definition canon_ip :: "json \<Rightarrow> string + json" where
  "canon_ip v = (case v of
     JStr s \<Rightarrow> (case ip_address_of (strip s) of
         None \<Rightarrow> Inl (repr_str (strip s) @ '' does not appear to be an IPv4 or IPv6 address'')
       | Some a \<Rightarrow> Inr (JStr (ip_str a)))
   | _ \<Rightarrow> Inl ''an IP address string is required'')"

text \<open>
  A label of a host name is 1 to 63 letters, digits and hyphens that neither begin nor end
  with a hyphen.
\<close>

definition host_label :: "string \<Rightarrow> bool" where
  "host_label s \<longleftrightarrow> s \<noteq> [] \<and> length s \<le> 63 \<and> list_all (\<lambda>c. alnum_char c \<or> c = CHR ''-'') s
     \<and> alnum_char (hd s) \<and> alnum_char (last s)"

definition host_re :: "string \<Rightarrow> bool" where
  "host_re s \<longleftrightarrow> dollar_match (\<lambda>t. list_all host_label (split_on CHR ''.'' t)) s"

definition rstrip_dots :: "string \<Rightarrow> string" where
  "rstrip_dots s = rev (dropWhile (\<lambda>c. c = CHR ''.'') (rev s))"

definition canon_host :: "json \<Rightarrow> string + json" where
  "canon_host v = (case v of
     JStr s \<Rightarrow> (case ip_address_of (strip s) of
         Some a \<Rightarrow> Inr (JStr (ip_str a))
       | None \<Rightarrow> (let t = map lower_char (rstrip_dots (strip s)) in
           if \<not> host_re t then Inl ''not an IP address or host name'' else Inr (JStr t)))
   | _ \<Rightarrow> Inl ''a host string is required'')"

definition canon_text :: "json \<Rightarrow> string + json" where
  "canon_text v = (case v of JStr s \<Rightarrow> Inr (JStr (strip s)) | _ \<Rightarrow> Inl ''a string is required'')"

definition canon_lower :: "json \<Rightarrow> string + json" where
  "canon_lower v = (case v of JStr s \<Rightarrow> Inr (JStr (map lower_char (strip s))) | _ \<Rightarrow> Inl ''a string is required'')"

definition version_re :: "string \<Rightarrow> bool" where
  "version_re s \<longleftrightarrow> list_all (\<lambda>p. p \<noteq> [] \<and> list_all is_digit p) (split_on CHR ''.'' s)"

definition canon_version :: "json \<Rightarrow> string + json" where
  "canon_version v = (case v of
     JStr s \<Rightarrow> if \<not> version_re (strip s) then Inl ''a dotted version is required''
       else Inr (JStr (join ''.'' (map (\<lambda>p. nat_str (str_nat p)) (split_on CHR ''.'' (strip s)))))
   | _ \<Rightarrow> Inl ''a dotted version is required'')"

definition CANONICALISERS :: "(string \<times> (json \<Rightarrow> string + json)) list" where
  "CANONICALISERS = [(''none'', Inr), (''cidr'', canon_cidr), (''ip'', canon_ip), (''host'', canon_host), (''text'', canon_text),
     (''lower'', canon_lower), (''version'', canon_version)]"

subsection \<open>Field specifications\<close>

record FieldSpec =
  fs_kind :: Kind
  fs_strategy :: "Strategy option"
  fs_key :: "string option"
  fs_order :: "string option"
  fs_access :: AccessKind
  fs_secure :: "bool option"
  fs_ranking :: "json list"
  fs_tie :: Tie
  fs_derived :: bool
  fs_discoverable :: bool
  fs_secret :: bool
  fs_nullable :: bool
  fs_default :: field_default
  fs_canon :: string

definition make_FieldSpec :: "FieldSpec \<Rightarrow> string + FieldSpec" where
  "make_FieldSpec f =
     (if fs_canon f \<notin> set (map fst CANONICALISERS) then Inl (''unknown canonicaliser '' @ repr_str (fs_canon f))
      else if fs_kind f = Kind_list \<and> fs_strategy f = None then Inl ''a list field must declare a strategy''
      else if fs_kind f = Kind_list \<and> fs_strategy f = Some Strategy_keyed \<and> (fs_key f = None \<or> fs_key f = Some [])
      then Inl ''a keyed list must name its key field''
      else if fs_kind f \<noteq> Kind_list \<and> fs_strategy f \<noteq> None then Inl ''only list fields declare a strategy''
      else if fs_access f = Access_secure_bool \<and> fs_secure f = None then Inl ''secure_bool needs the secure value''
      else if fs_access f = Access_ordered \<and> fs_ranking f = [] then Inl ''ordered needs a ranking, most secure first''
      else if fs_access f \<in> {Access_allow_list, Access_deny_list} \<and> fs_kind f \<noteq> Kind_list
      then Inl ''allow_list/deny_list apply to list fields''
      else if fs_access f = Access_secure_bool \<and> fs_kind f \<noteq> Kind_scalar then Inl ''secure_bool applies to scalar fields''
      else if fs_tie f = Tie_restrictive \<and> fs_access f = Access_neutral then Inl ''tie=restrictive needs non-neutral access''
      else if fs_tie f = Tie_restrictive \<and> fs_kind f = Kind_list \<and> fs_strategy f \<noteq> Some Strategy_union
      then Inl ''tie=restrictive on lists needs the union strategy''
      else if fs_derived f \<and> fs_default f \<noteq> OPTIONAL_UNMANAGED then Inl ''a derived field must be optional_unmanaged''
      else Inr f)"

definition has_value_default :: "FieldSpec \<Rightarrow> bool" where
  "has_value_default f \<longleftrightarrow> (case fs_default f of Default _ \<Rightarrow> True | _ \<Rightarrow> False)"

text \<open>A constructed field has one of the names of the table.\<close>

definition canonicalise :: "FieldSpec \<Rightarrow> json \<Rightarrow> string + json" where
  "canonicalise f v = (case map_of CANONICALISERS (fs_canon f) of
     None \<Rightarrow> Inl (repr_str (fs_canon f)) | Some c \<Rightarrow> c v)"

text \<open>\<^verbatim>\<open>ranking.index(v)\<close>, or the length when it is absent.\<close>

fun rank_in :: "json list \<Rightarrow> json \<Rightarrow> nat" where
  "rank_in [] v = 0"
| "rank_in (x # xs) v = (if py_eq x v then 0 else Suc (rank_in xs v))"

definition security_rank :: "FieldSpec \<Rightarrow> json \<Rightarrow> nat option" where
  "security_rank f v = (case fs_access f of
     Access_secure_bool \<Rightarrow> (case fs_secure f of None \<Rightarrow> Some (if v = JNull then 0 else 1)
       | Some s \<Rightarrow> Some (if py_eq v (JBool s) then 0 else 1))
   | Access_ordered \<Rightarrow> Some (rank_in (fs_ranking f) v)
   | _ \<Rightarrow> None)"

definition plain_spec :: "Kind \<Rightarrow> FieldSpec" where
  "plain_spec k = \<lparr>fs_kind = k, fs_strategy = None, fs_key = None, fs_order = None, fs_access = Access_neutral, fs_secure = None,
     fs_ranking = [], fs_tie = Tie_error, fs_derived = False, fs_discoverable = False, fs_secret = False, fs_nullable = False,
     fs_default = REQUIRED, fs_canon = ''none''\<rparr>"

subsection \<open>The index\<close>

type_synonym spec_index = "(path \<times> FieldSpec) list"

fun SpecIndex :: "(string \<times> FieldSpec) list \<Rightarrow> string + spec_index" where
  "SpecIndex [] = Inr []"
| "SpecIndex ((p, spec) # rest) =
     bindr (parse_spec_pointer p) (\<lambda>ps. bindr (SpecIndex rest) (\<lambda>ix.
       Inr (if ps \<in> set (map fst ix) then ix else (ps, spec) # ix)))"

definition step_segment :: "spec_index \<Rightarrow> path \<Rightarrow> string \<Rightarrow> path" where
  "step_segment specs resolved segment =
     (if resolved @ [segment] \<in> set (map fst specs) then resolved @ [segment] else resolved @ [''*''])"

definition resolve :: "spec_index \<Rightarrow> path \<Rightarrow> path" where
  "resolve specs p = foldl (step_segment specs) [] p"

definition spec_at :: "spec_index \<Rightarrow> path \<Rightarrow> FieldSpec option" where
  "spec_at specs p = map_of specs (resolve specs p)"

definition get_exact :: "spec_index \<Rightarrow> path \<Rightarrow> FieldSpec option" where
  "get_exact specs p = map_of specs p"

definition children :: "spec_index \<Rightarrow> path \<Rightarrow> (string \<times> FieldSpec) list" where
  "children specs p = sort_key fst (map (\<lambda>(q, spec). (q ! length p, spec))
     (filter (\<lambda>(q, _). length q = length p + 1 \<and> take (length p) q = p) specs))"

definition has_default_below :: "spec_index \<Rightarrow> path \<Rightarrow> bool" where
  "has_default_below specs p \<longleftrightarrow> list_ex (\<lambda>(q, spec). take (length p) q = p \<and> length p < length q
     \<and> (has_value_default spec \<or> fs_default spec = REQUIRED) \<and> fs_kind spec \<in> {Kind_scalar, Kind_list}) specs"

subsection \<open>Schema leaves\<close>

record SchemaLeaf =
  leaf_path :: path
  leaf_kind :: Kind

definition slash_path :: "path \<Rightarrow> string" where
  "slash_path p = CHR ''/'' # join ''/'' p"

definition schema_problems :: "SchemaLeaf list \<Rightarrow> (string \<times> FieldSpec) list \<Rightarrow> string + string list" where
  "schema_problems leaves specs = bindr (SpecIndex specs) (\<lambda>ix.
     let known = map fst ix;
         table = sort_key fst (foldl (\<lambda>t l. AList.update (leaf_path l) (leaf_kind l) t) [] leaves)
     in Inr (concat (map (\<lambda>(p, k). case get_exact ix p of
            None \<Rightarrow> [slash_path p @ '': no FieldSpec'']
          | Some spec \<Rightarrow>
              (if fs_kind spec \<noteq> k
               then [slash_path p @ '': spec kind '' @ kind_value (fs_kind spec) @ '' != schema kind '' @ kind_value k] else []) @
              (if k = Kind_list \<and> fs_strategy spec = None then [slash_path p @ '': list without strategy''] else [])) table)
        @ map (\<lambda>p. slash_path p @ '': spec for a field the schema does not have'')
            (sort (filter (\<lambda>p. p \<notin> set (map fst table)) known))))"

end
