(* ===== verification/Config_Layers.thy ===== *)
theory Config_Layers
  imports Config_Fields
begin

text \<open>
  Layers and whom they apply to, dated exceptions and the widening test
  (\<^verbatim>\<open>dotmac-config-layers\<close>: \<^verbatim>\<open>layers.py\<close>, \<^verbatim>\<open>exceptions.py\<close>, \<^verbatim>\<open>widening.py\<close>).
  Sets and mappings of values are lists.
\<close>

subsection \<open>Tiers, layers, subjects\<close>

type_synonym band = "int \<times> int"
type_synonym dims = "(string \<times> string list) list"

record TierSpec =
  tr_name :: string
  tr_rank :: int
  tr_weight_band :: band
  tr_allowed_dims :: "string list"
  tr_require_any :: "string list"
  tr_kind_bands :: "(string \<times> band) list"

record Layer =
  ly_id :: string
  ly_tier :: string
  ly_name :: string
  ly_weight :: int
  ly_criteria :: dims
  ly_active :: bool
  ly_kind :: "string option"

record LayerRevision =
  lr_layer :: Layer
  lr_revision :: int
  lr_document :: json
  lr_activated_at :: "string option"

record Subject =
  sj_key :: string
  sj_dims :: dims
  sj_facts :: json_object

definition band_text :: "band \<Rightarrow> string" where
  "band_text b = ''('' @ int_str (fst b) @ '', '' @ int_str (snd b) @ '')''"

definition validate_layer_meta :: "TierSpec \<Rightarrow> Layer \<Rightarrow> string list" where
  "validate_layer_meta tier l = (let
     kind_band = (case ly_kind l of None \<Rightarrow> None | Some k \<Rightarrow> map_of (tr_kind_bands tier) k);
     band = (if tr_kind_bands tier = [] then tr_weight_band tier else (case kind_band of None \<Rightarrow> tr_weight_band tier | Some b \<Rightarrow> b));
     used = map fst (filter (\<lambda>(_, vs). vs \<noteq> []) (ly_criteria l));
     stray = sort (filter (\<lambda>d. d \<notin> set (tr_allowed_dims tier)) (map fst (ly_criteria l)));
     label = ''layer '' @ ly_name l
   in (if tr_kind_bands tier \<noteq> [] \<and> kind_band = None
       then [label @ '': kind must be one of '' @ repr_strs (sort (map fst (tr_kind_bands tier)))] else [])
    @ (if \<not> (fst band \<le> ly_weight l \<and> ly_weight l \<le> snd band)
       then [label @ '': weight '' @ int_str (ly_weight l) @ '' outside '' @ band_text band] else [])
    @ (if stray \<noteq> [] then [label @ '': criteria '' @ repr_strs stray @ '' not allowed at tier '' @ tr_name tier] else [])
    @ (if tr_allowed_dims tier = [] \<and> used \<noteq> [] then [label @ '': tier '' @ tr_name tier @ '' takes no criteria''] else [])
    @ (if tr_require_any tier \<noteq> [] \<and> \<not> list_ex (\<lambda>d. d \<in> set (tr_require_any tier)) used
       then [label @ '': tier '' @ tr_name tier @ '' needs one of '' @ repr_strs (tr_require_any tier)] else []))"

text \<open>A dimension of the subject meets the values asked for.\<close>

definition dims_meet :: "dims \<Rightarrow> dims \<Rightarrow> bool" where
  "dims_meet have wanted \<longleftrightarrow> list_all (\<lambda>(d, vs). vs = [] \<or>
     list_ex (\<lambda>v. v \<in> set (case map_of have d of None \<Rightarrow> [] | Some xs \<Rightarrow> xs)) vs) wanted"

definition layer_applies :: "Layer \<Rightarrow> Subject \<Rightarrow> bool" where
  "layer_applies l s \<longleftrightarrow> ly_active l \<and> dims_meet (sj_dims s) (ly_criteria l)"

definition layer_key :: "TierSpec \<Rightarrow> Layer \<Rightarrow> int \<times> int \<times> string \<times> string" where
  "layer_key tier l = (tr_rank tier, ly_weight l, ly_name l, ly_id l)"

subsection \<open>Dated exceptions\<close>

definition leap_year :: "nat \<Rightarrow> bool" where
  "leap_year y \<longleftrightarrow> y mod 4 = 0 \<and> (y mod 100 \<noteq> 0 \<or> y mod 400 = 0)"

definition days_before_month :: "nat \<Rightarrow> nat \<Rightarrow> nat" where
  "days_before_month y m = sum_list (take (m - 1) [31, if leap_year y then 29 else 28, 31, 30, 31, 30, 31, 31, 30, 31, 30, 31])"

text \<open>\<^verbatim>\<open>date.toordinal()\<close>; adding a \<^verbatim>\<open>timedelta\<close> of days adds to it.\<close>

definition to_ordinal :: "date \<Rightarrow> nat" where
  "to_ordinal d = (let y = year d - 1 in 365 * y + y div 4 - y div 100 + y div 400 + days_before_month (year d) (month d) + day d)"

definition LAPSE_REPORT_DAYS :: nat where "LAPSE_REPORT_DAYS = 7"
definition MAX_EXCEPTION_DAYS :: nat where "MAX_EXCEPTION_DAYS = 180"
definition MIN_REASON_CHARS :: nat where "MIN_REASON_CHARS = 10"

datatype ExceptionKind = Exc_override | Exc_mode_override | Exc_suppress | Exc_annotation

datatype ExceptionState = Exc_active | Exc_pending_approval | Exc_revoked | Exc_lapsed | Exc_expired

record ExceptionSpec =
  ex_id :: string
  ex_module :: string
  ex_kind :: ExceptionKind
  ex_reason :: string
  ex_created_on :: date
  ex_until :: "date option"
  ex_subject :: "string option"
  ex_criteria :: dims
  ex_path :: string
  ex_patch :: "json option"
  ex_scope :: "string option"
  ex_mode :: "string option"
  ex_approved :: bool
  ex_revoked :: bool
  ex_permanent :: bool

definition exc_key :: "ExceptionSpec \<Rightarrow> string \<times> string" where
  "exc_key e = (date_isoformat (ex_created_on e), ex_id e)"

definition exception_state :: "ExceptionSpec \<Rightarrow> date \<Rightarrow> bool \<Rightarrow> nat \<Rightarrow> ExceptionState" where
  "exception_state e today widened days =
     (if ex_revoked e then Exc_revoked
      else case ex_until e of
        Some u \<Rightarrow> if to_ordinal today > to_ordinal u
                  then (if to_ordinal today \<le> to_ordinal u + days then Exc_lapsed else Exc_expired)
                  else if widened \<and> \<not> ex_approved e then Exc_pending_approval else Exc_active
      | None \<Rightarrow> if widened \<and> \<not> ex_approved e then Exc_pending_approval else Exc_active)"

definition exception_applies :: "ExceptionSpec \<Rightarrow> Subject \<Rightarrow> bool" where
  "exception_applies e s = (case ex_subject e of Some k \<Rightarrow> k = sj_key s
     | None \<Rightarrow> dims_meet (sj_dims s) (ex_criteria e) \<and> ex_criteria e \<noteq> [])"

definition basic_exception_issues :: "ExceptionSpec \<Rightarrow> string list" where
  "basic_exception_issues e = (let label = ''exception '' @ ex_id e in
     (if length (strip (ex_reason e)) < MIN_REASON_CHARS
      then [label @ '': reason needs at least '' @ nat_str MIN_REASON_CHARS @ '' characters''] else [])
   @ (if (ex_subject e = None) = (ex_criteria e = []) then [label @ '': exactly one of subject or criteria is required''] else [])
   @ (if ex_permanent e then [label @ '': permanent is only for adoption-mapping kinds, which do not exist yet'']
      else case ex_until e of None \<Rightarrow> [label @ '': until is required'']
        | Some u \<Rightarrow> if to_ordinal u > to_ordinal (ex_created_on e) + MAX_EXCEPTION_DAYS
            then [label @ '': until is more than '' @ nat_str MAX_EXCEPTION_DAYS @ '' days out'']
            else if to_ordinal u < to_ordinal (ex_created_on e) then [label @ '': until precedes its creation''] else [])
   @ (if ex_kind e = Exc_override \<and> ex_patch e = None then [label @ '': override needs a patch''] else [])
   @ (if ex_kind e = Exc_mode_override \<and> ex_mode e \<notin> {Some ''enforce'', Some ''observe'', Some ''off''}
      then [label @ '': mode_override needs a valid mode''] else [])
   @ (if ex_kind e = Exc_suppress \<and> (ex_scope e = None \<or> ex_scope e = Some []) then [label @ '': suppress needs a scope''] else []))"

subsection \<open>Widening\<close>

definition MODE_RANKING :: "string list" where
  "MODE_RANKING = [''enforce'', ''observe'', ''off'']"

definition covers :: "json \<Rightarrow> json \<Rightarrow> bool" where
  "covers outer inner = (case (ip_network_of (py_str outer), ip_network_of (py_str inner)) of
     (Some a, Some b) \<Rightarrow> ip_version (net_address a) = ip_version (net_address b) \<and> subnet_of b a
   | _ \<Rightarrow> py_str outer = py_str inner)"

definition covered_by_any :: "json \<Rightarrow> json list \<Rightarrow> bool" where
  "covered_by_any x pool \<longleftrightarrow> list_ex (\<lambda>c. covers c x) pool"

text \<open>\<^verbatim>\<open>list(v or [])\<close> of a list or nothing.\<close>

definition as_list :: "json \<Rightarrow> json list" where
  "as_list v = (case v of JList xs \<Rightarrow> xs | _ \<Rightarrow> [])"

definition widening :: "FieldSpec \<Rightarrow> json \<Rightarrow> json \<Rightarrow> bool" where
  "widening f before after = (case fs_access f of
     Access_neutral \<Rightarrow> False
   | Access_allow_list \<Rightarrow> list_ex (\<lambda>x. \<not> covered_by_any x (as_list before)) (as_list after)
   | Access_deny_list \<Rightarrow> list_ex (\<lambda>x. \<not> covered_by_any x (as_list after)) (as_list before)
   | Access_secure_bool \<Rightarrow> security_rank f before = Some 0 \<and> security_rank f after \<noteq> Some 0
   | Access_ordered \<Rightarrow> rank_in (fs_ranking f) after > rank_in (fs_ranking f) before)"

fun index_of :: "string list \<Rightarrow> string \<Rightarrow> nat" where
  "index_of [] m = 0"
| "index_of (x # xs) m = (if x = m then 0 else Suc (index_of xs m))"

definition mode_widening :: "string option \<Rightarrow> string option \<Rightarrow> bool" where
  "mode_widening before after = (case (before, after) of
     (Some a, Some b) \<Rightarrow> index_of MODE_RANKING b > index_of MODE_RANKING a | _ \<Rightarrow> False)"

record WideningItem =
  wi_path :: string
  wi_before :: json
  wi_after :: json

definition fresh_before :: "FieldSpec \<Rightarrow> json" where
  "fresh_before f = (case fs_access f of
     Access_secure_bool \<Rightarrow> (case fs_secure f of None \<Rightarrow> JNull | Some s \<Rightarrow> JBool s)
   | Access_ordered \<Rightarrow> (case fs_ranking f of [] \<Rightarrow> JNull | x # _ \<Rightarrow> x)
   | _ \<Rightarrow> JNull)"

text \<open>Reading a mapping: a missing member is \<^verbatim>\<open>None\<close>, and something else than a mapping has none.\<close>

definition members :: "json \<Rightarrow> json_object" where
  "members v = (case v of JObj kvs \<Rightarrow> kvs | _ \<Rightarrow> [])"

definition member :: "json \<Rightarrow> string \<Rightarrow> json" where
  "member v k = (case map_of (members v) k of None \<Rightarrow> JNull | Some x \<Rightarrow> x)"

text \<open>\<^verbatim>\<open>{str(e[key]): e for e in elements}\<close>.\<close>

definition by_key :: "string \<Rightarrow> json list \<Rightarrow> json_object" where
  "by_key key es = foldl (\<lambda>t e. AList.update (py_str (member e key)) e t) [] es"

definition union_names :: "json_object \<Rightarrow> json_object \<Rightarrow> string list" where
  "union_names a b = sort (remdups (map fst a @ map fst b))"

lemma member_size: "size (member v k) \<le> size v" and member_size_less: "k \<in> set (map fst (members v)) \<Longrightarrow> size (member v k) < size v"
proof -
  have "map_of kvs k = Some x \<Longrightarrow> size x < size (JObj kvs)" for kvs x
    by (drule map_of_SomeD, drule size_list_estimation' [where f = "size_prod (\<lambda>_. 0) size" and y = "size x"]) auto
  then show "size (member v k) \<le> size v" and "k \<in> set (map fst (members v)) \<Longrightarrow> size (member v k) < size v"
    by (auto simp: member_def members_def less_imp_le map_of_eq_None_iff split: json.splits option.splits)
qed

lemma pair_size_less:
  "k \<in> set (union_names (members a) (members b)) \<Longrightarrow> size (member a k) + size (member b k) < size a + size b"
proof -
  assume "k \<in> set (union_names (members a) (members b))"
  then have "k \<in> set (map fst (members a)) \<or> k \<in> set (map fst (members b))" by (auto simp: union_names_def)
  then show ?thesis
    using member_size [of a k] member_size [of b k] member_size_less [of k a] member_size_less [of k b] by linarith
qed

definition keyed_member :: "json_object \<Rightarrow> string \<Rightarrow> json" where
  "keyed_member t k = (case map_of t k of None \<Rightarrow> JNull | Some x \<Rightarrow> x)"

lemma by_key_mem: "map_of (by_key key es) k = Some x \<Longrightarrow> x \<in> set es"
  by (induction es rule: rev_induct) (auto simp: by_key_def AList.update_conv' split: if_splits)

lemma as_list_size: "x \<in> set (as_list v) \<Longrightarrow> size x < size v"
  by (cases v) (auto simp: as_list_def dest!: size_list_estimation' [where f = size and y = "size x"])

lemma keyed_pair_size:
  assumes "k \<in> set (union_names (by_key key (as_list a)) (by_key key (as_list b)))"
  shows "size (keyed_member (by_key key (as_list a)) k) + size (keyed_member (by_key key (as_list b)) k) < size a + size b"
proof -
  have found: "size x < size v" if "map_of (by_key key (as_list v)) k = Some x" for v x
    using by_key_mem [OF that] by (rule as_list_size)
  have le: "size (keyed_member (by_key key (as_list v)) k) \<le> size v" for v
    by (cases "map_of (by_key key (as_list v)) k") (auto simp: keyed_member_def less_imp_le found)
  have less: "size (keyed_member (by_key key (as_list v)) k) < size v" if "k \<in> set (map fst (by_key key (as_list v)))" for v
    using that by (cases "map_of (by_key key (as_list v)) k") (simp_all add: keyed_member_def found map_of_eq_None_iff)
  have "k \<in> set (map fst (by_key key (as_list a))) \<or> k \<in> set (map fst (by_key key (as_list b)))"
    using assms by (auto simp: union_names_def)
  then show ?thesis using le [of a] le [of b] less [of a] less [of b] by linarith
qed

text \<open>
  The walk of \<^verbatim>\<open>params_widening\<close>; \<open>fresh\<close> says that the container is new, \<open>gone\<close> that it
  disappears.
\<close>

definition leaf_widening :: "FieldSpec \<Rightarrow> json \<Rightarrow> json \<Rightarrow> path \<Rightarrow> bool \<Rightarrow> bool \<Rightarrow> WideningItem list" where
  "leaf_widening spec ov nv p fresh gone = (let
     old = (if fresh then fresh_before spec
            else if ov = JNull then (case fs_default spec of Default d \<Rightarrow> d | _ \<Rightarrow> fresh_before spec) else ov);
     new = (if gone \<and> nv = JNull then fresh_before spec else nv)
   in if widening spec old new then [\<lparr>wi_path = pointer p, wi_before = old, wi_after = new\<rparr>] else [])"

function widen_walk :: "spec_index \<Rightarrow> json \<Rightarrow> json \<Rightarrow> path \<Rightarrow> bool \<Rightarrow> bool \<Rightarrow> WideningItem list" where
  "widen_walk specs old new p fresh gone = concat (map (\<lambda>name.
     case spec_at specs (p @ [name]) of None \<Rightarrow> []
     | Some spec \<Rightarrow>
        if member old name = JNull \<and> member new name = JNull then []
        else case (fs_kind spec, fs_strategy spec) of
          (Kind_map, _) \<Rightarrow> concat (map (\<lambda>m.
              widen_walk specs (member (member old name) m) (member (member new name) m) (p @ [name, m])
                (fresh \<or> member (member old name) m = JNull) (gone \<or> member (member new name) m = JNull))
              (union_names (members (member old name)) (members (member new name))))
        | (Kind_object, _) \<Rightarrow>
            widen_walk specs (member old name) (member new name) (p @ [name]) (fresh \<or> member old name = JNull) gone
        | (Kind_list, Some Strategy_keyed) \<Rightarrow>
            (let key = (case fs_key spec of None \<Rightarrow> [] | Some k \<Rightarrow> k) in
             concat (map (\<lambda>el.
              widen_walk specs (keyed_member (by_key key (as_list (member old name))) el)
                (keyed_member (by_key key (as_list (member new name))) el) (p @ [name, el])
                (fresh \<or> el \<notin> set (map fst (by_key key (as_list (member old name)))))
                (gone \<or> el \<notin> set (map fst (by_key key (as_list (member new name))))))
              (union_names (by_key key (as_list (member old name))) (by_key key (as_list (member new name))))))
        | _ \<Rightarrow> leaf_widening spec (member old name) (member new name) (p @ [name]) fresh gone)
     (union_names (members old) (members new)))"
  by pat_completeness auto
termination
proof (relation "measure (\<lambda>(_, old, new, _). size old + size new)")
qed (auto dest!: pair_size_less keyed_pair_size intro: less_trans)

declare widen_walk.simps [simp del]

definition params_widening :: "spec_index \<Rightarrow> json_object \<Rightarrow> json_object \<Rightarrow> WideningItem list" where
  "params_widening specs before after = widen_walk specs (JObj before) (JObj after) [] False False"

end
