(* ===== verification/Config_Merge.thy ===== *)
theory Config_Merge
  imports Config_Layers
begin

text \<open>
  The merge of layer patches into values with provenance (\<^verbatim>\<open>dotmac-config-layers\<close>:
  \<^verbatim>\<open>merge.py\<close>).  The container a write goes to is an argument \<open>base\<close> that comes back updated,
  since the code updates it in place; the other attributes of a \<^verbatim>\<open>Merger\<close> are a record.  An
  error ends the merge: no caller reads the attributes after one.
\<close>

subsection \<open>Records\<close>

record Origin =
  og_tier :: string
  og_rank :: int
  og_layer_id :: string
  og_layer_name :: string
  og_revision :: int
  og_weight :: int
  og_op :: string
  og_at :: "string option"
  og_detail :: json_object

type_synonym group = "int \<times> int"

definition og_group :: "Origin \<Rightarrow> group" where
  "og_group o1 = (og_rank o1, og_weight o1)"

definition with_op :: "Origin \<Rightarrow> string \<Rightarrow> Origin" where
  "with_op o1 op = o1\<lparr>og_op := op\<rparr>"

definition origin_label :: "Origin \<Rightarrow> string" where
  "origin_label o1 = og_tier o1 @ '' '' @ og_layer_name o1 @ '' r'' @ int_str (og_revision o1)"

definition origin_dict :: "Origin \<Rightarrow> json_object" where
  "origin_dict o1 =
     [(''tier'', JStr (og_tier o1)), (''layer_id'', JStr (og_layer_id o1)), (''layer'', JStr (og_layer_name o1)),
      (''revision'', JInt (og_revision o1)), (''weight'', JInt (og_weight o1)), (''op'', JStr (og_op o1))]
     @ (case og_at o1 of None \<Rightarrow> [] | Some t \<Rightarrow> if t = [] then [] else [(''at'', JStr t)])
     @ (if og_detail o1 = [] then [] else [(''detail'', JObj (og_detail o1))])"

record Shadow =
  sh_origin :: Origin
  sh_value :: json

record Provenance =
  pv_origin :: Origin
  pv_value :: json
  pv_shadowed :: "Shadow list"
  pv_contributors :: "Origin list"

record Tombstone =
  tb_deleted_by :: Origin
  tb_shadowed :: "Shadow list"

record Conflict =
  cf_path :: string
  cf_layers :: "string list"
  cf_values :: "json list"

definition conflict_dict :: "Conflict \<Rightarrow> json_object" where
  "conflict_dict c = [(''path'', JStr (cf_path c)), (''layers'', JList (map JStr (cf_layers c))), (''values'', JList (cf_values c))]"

datatype write_kind = Write_set | Write_delete | Write_replace | Write_relative | Write_merge

record Write =
  wr_origin :: Origin
  wr_kind :: write_kind
  wr_value :: json
  wr_add :: "json list"
  wr_remove :: "json list"

definition MODE_POINTER :: string where "MODE_POINTER = ''/$mode''"
definition DELETED_VALUE :: json where "DELETED_VALUE = JStr ''$delete''"

definition simple_write :: "Origin \<Rightarrow> write_kind \<Rightarrow> json \<Rightarrow> Write" where
  "simple_write o1 k v = \<lparr>wr_origin = o1, wr_kind = k, wr_value = v, wr_add = [], wr_remove = []\<rparr>"

record Merger =
  mg_module_key :: string
  mg_specs :: spec_index
  mg_values :: json_object
  mg_meta :: json_object
  mg_prov :: "(string \<times> Provenance) list"
  mg_tombs :: "(string \<times> Tombstone) list"
  mg_conflicts :: "(string \<times> Conflict) list"
  mg_lints :: "string list"
  mg_log :: "((string \<times> group) \<times> Write list) list"
  mg_before :: "((string \<times> group) \<times> json list) list"

definition new_Merger :: "string \<Rightarrow> spec_index \<Rightarrow> Merger" where
  "new_Merger key specs = \<lparr>mg_module_key = key, mg_specs = specs, mg_values = [], mg_meta = [], mg_prov = [], mg_tombs = [],
     mg_conflicts = [], mg_lints = [], mg_log = [], mg_before = []\<rparr>"

definition canon_value :: "FieldSpec \<Rightarrow> json \<Rightarrow> document_error + json" where
  "canon_value spec v = (case canonicalise spec v of
     Inl e \<Rightarrow> Inl (DocumentError [] (''invalid value '' @ py_repr v @ '': '' @ e)) | Inr x \<Rightarrow> Inr x)"

text \<open>A pointer and its ancestors, nearest first, without the root.\<close>

lemma parent_pointer_shorter: "p \<noteq> [] \<Longrightarrow> length (parent_pointer p) < length p"
  using length_dropWhile_le [of "\<lambda>c. c \<noteq> CHR ''/''" "rev p"] by (cases p rule: rev_cases) (auto simp: parent_pointer_def)

function ancestors :: "string \<Rightarrow> string list" where
  "ancestors p = (if p = [] then [] else p # ancestors (parent_pointer p))"
  by pat_completeness auto
termination
proof (relation "measure length")
  fix p :: string assume "p \<noteq> []"
  then show "(parent_pointer p, p) \<in> measure length" by (simp add: parent_pointer_shorter)
qed simp

declare ancestors.simps [simp del]

definition stable_order :: "json list \<Rightarrow> json list \<Rightarrow> json list" where
  "stable_order items before =
     filter (\<lambda>x. py_in x items) before @ sort_key py_str (filter (\<lambda>x. \<not> py_in x before) items)"

subsection \<open>The write log and conflicts\<close>

definition log_at :: "Merger \<Rightarrow> string \<Rightarrow> group \<Rightarrow> Write list" where
  "log_at m ptr g = (case map_of (mg_log m) (ptr, g) of None \<Rightarrow> [] | Some ws \<Rightarrow> ws)"

definition others :: "Merger \<Rightarrow> string \<Rightarrow> Origin \<Rightarrow> Write list" where
  "others m ptr o1 = filter (\<lambda>w. og_layer_id (wr_origin w) \<noteq> og_layer_id o1) (log_at m ptr (og_group o1))"

definition record_write :: "string \<Rightarrow> Write \<Rightarrow> Merger \<Rightarrow> Merger" where
  "record_write ptr w m = (let g = og_group (wr_origin w) in
     m\<lparr>mg_log := AList.update (ptr, g) (log_at m ptr g @ [w]) (mg_log m)\<rparr>)"

definition flag_one :: "string list \<times> json list \<Rightarrow> Write \<Rightarrow> string list \<times> json list" where
  "flag_one acc w = (case acc of (ls, vs) \<Rightarrow>
     (let label = og_tier (wr_origin w) @ '':'' @ og_layer_name (wr_origin w) in
      if label \<in> set ls then (ls, vs)
      else (ls @ [label], vs @ [if wr_kind w = Write_delete then DELETED_VALUE else wr_value w])))"

definition flag :: "string \<Rightarrow> Write list \<Rightarrow> Merger \<Rightarrow> Merger" where
  "flag ptr ws m =
     (let start = (case map_of (mg_conflicts m) ptr of None \<Rightarrow> ([], []) | Some c \<Rightarrow> (cf_layers c, cf_values c));
          (ls, vs) = foldl flag_one start ws
      in m\<lparr>mg_conflicts := AList.update ptr \<lparr>cf_path = ptr, cf_layers = ls, cf_values = vs\<rparr> (mg_conflicts m)\<rparr>)"

definition delete_clash :: "string \<Rightarrow> Origin \<Rightarrow> Write \<Rightarrow> Merger \<Rightarrow> Merger" where
  "delete_clash ptr o1 own m = foldl (\<lambda>m scope.
     let deletes = filter (\<lambda>w. wr_kind w = Write_delete) (others m scope o1) in
     if deletes \<noteq> [] then flag scope (deletes @ [own]) m else m) m (ancestors ptr)"

definition write_clash :: "string \<Rightarrow> Origin \<Rightarrow> Write \<Rightarrow> Merger \<Rightarrow> Merger" where
  "write_clash ptr o1 own m = foldl (\<lambda>m ((p, g), writes).
     if g \<noteq> og_group o1 \<or> \<not> (p = ptr \<or> starts_with (ptr @ ''/'') p) then m
     else (let hits = filter (\<lambda>w. og_layer_id (wr_origin w) \<noteq> og_layer_id o1 \<and> wr_kind w \<noteq> Write_delete) writes in
           if hits \<noteq> [] then flag ptr (hits @ [own]) m else m)) m (sort_key fst (mg_log m))"

subsection \<open>Provenance\<close>

definition note_value :: "string \<Rightarrow> Origin \<Rightarrow> json \<Rightarrow> bool \<Rightarrow> Merger \<Rightarrow> Merger" where
  "note_value ptr o1 v keep m =
     (let current = map_of (mg_prov m) ptr;
          shadowed = (case current of None \<Rightarrow> [] | Some c \<Rightarrow> pv_shadowed c @ [\<lparr>sh_origin = pv_origin c, sh_value = pv_value c\<rparr>]);
          contributors = (case current of None \<Rightarrow> [] | Some c \<Rightarrow> if keep then pv_contributors c else [])
      in m\<lparr>mg_prov := AList.update ptr \<lparr>pv_origin = o1, pv_value = v, pv_shadowed = shadowed,
              pv_contributors = contributors @ [o1]\<rparr> (mg_prov m),
           mg_tombs := AList.delete ptr (mg_tombs m)\<rparr>)"

text \<open>The text of a key that is deleted goes from the provenance to the tombstones.\<close>

definition bury :: "Origin \<Rightarrow> string \<Rightarrow> Merger \<Rightarrow> Merger" where
  "bury o1 key m = (case map_of (mg_prov m) key of
     None \<Rightarrow> m\<lparr>mg_tombs := AList.update key \<lparr>tb_deleted_by = with_op o1 ''delete'', tb_shadowed = []\<rparr> (mg_tombs m)\<rparr>
   | Some c \<Rightarrow> m\<lparr>mg_prov := AList.delete key (mg_prov m),
       mg_tombs := AList.update key \<lparr>tb_deleted_by = with_op o1 ''delete'',
         tb_shadowed = pv_shadowed c @ [\<lparr>sh_origin = pv_origin c, sh_value = pv_value c\<rparr>]\<rparr> (mg_tombs m)\<rparr>)"

definition tomb_default :: "Origin \<Rightarrow> string \<Rightarrow> Merger \<Rightarrow> Merger" where
  "tomb_default o1 ptr m = (if ptr \<in> set (map fst (mg_tombs m)) then m
     else m\<lparr>mg_tombs := mg_tombs m @ [(ptr, \<lparr>tb_deleted_by = with_op o1 ''delete'', tb_shadowed = []\<rparr>)]\<rparr>)"

definition tombstone :: "path \<Rightarrow> Origin \<Rightarrow> Merger \<Rightarrow> Merger" where
  "tombstone p o1 m = (let ptr = pointer p in
     tomb_default o1 ptr (foldl (\<lambda>m key. bury o1 key m) m
       (sort (filter (\<lambda>k. k = ptr \<or> starts_with (ptr @ ''/'') k) (map fst (mg_prov m))))))"

definition element_ptr :: "string \<Rightarrow> json \<Rightarrow> string" where
  "element_ptr ptr item = ptr @ ''/'' @ element_segment (py_str item)"

definition tombstone_element :: "string \<Rightarrow> json \<Rightarrow> Origin \<Rightarrow> Merger \<Rightarrow> Merger" where
  "tombstone_element ptr item o1 m = bury o1 (element_ptr ptr item) m"

definition add_lint :: "string \<Rightarrow> Merger \<Rightarrow> Merger" where
  "add_lint t m = m\<lparr>mg_lints := mg_lints m @ [t]\<rparr>"

definition set_prov :: "string \<Rightarrow> Provenance \<Rightarrow> Merger \<Rightarrow> Merger" where
  "set_prov ptr pv m = m\<lparr>mg_prov := AList.update ptr pv (mg_prov m)\<rparr>"

definition drop_tomb :: "string \<Rightarrow> Merger \<Rightarrow> Merger" where
  "drop_tomb ptr m = m\<lparr>mg_tombs := AList.delete ptr (mg_tombs m)\<rparr>"

definition plain_prov :: "Origin \<Rightarrow> json \<Rightarrow> Origin \<Rightarrow> Provenance" where
  "plain_prov o1 v c = \<lparr>pv_origin = o1, pv_value = v, pv_shadowed = [], pv_contributors = [c]\<rparr>"

subsection \<open>Deletions and scalars\<close>

definition delete_key :: "json_object \<Rightarrow> string \<Rightarrow> path \<Rightarrow> Origin \<Rightarrow> Merger \<Rightarrow> json_object \<times> Merger" where
  "delete_key base key p o1 m =
     (let ptr = pointer p; own = simple_write o1 Write_delete DELETED_VALUE;
          m1 = record_write ptr own (write_clash ptr o1 own m)
      in if key \<in> set (map fst base) then (AList.delete key base, tombstone p o1 m1)
         else (base, tomb_default o1 ptr (add_lint (''noop_delete '' @ ptr) m1)))"

definition scalar_access :: "FieldSpec \<Rightarrow> bool" where
  "scalar_access spec \<longleftrightarrow> fs_tie spec = Tie_restrictive \<and> fs_access spec \<in> {Access_secure_bool, Access_ordered}"

definition at_least_as_secure :: "FieldSpec \<Rightarrow> json \<Rightarrow> json \<Rightarrow> bool" where
  "at_least_as_secure spec old new = (case (security_rank spec old, security_rank spec new) of
     (Some a, Some b) \<Rightarrow> a \<le> b | _ \<Rightarrow> False)"

definition base_get :: "json_object \<Rightarrow> string \<Rightarrow> json" where
  "base_get base key = (case map_of base key of None \<Rightarrow> JNull | Some v \<Rightarrow> v)"

definition assign_new :: "json_object \<Rightarrow> string \<Rightarrow> string \<Rightarrow> FieldSpec \<Rightarrow> json \<Rightarrow> Origin \<Rightarrow> Merger \<Rightarrow> json_object \<times> Merger" where
  "assign_new base key ptr spec new o1 m =
     (let own = simple_write o1 Write_set new;
          m1 = delete_clash ptr o1 own m;
          rivals = filter (\<lambda>w. wr_kind w = Write_set) (others m1 ptr o1);
          m2 = record_write ptr own m1;
          done = (\<lambda>m. (AList.update key new base, note_value ptr o1 new False m))
      in case map_of (mg_prov m2) ptr of
           None \<Rightarrow> done m2
         | Some current \<Rightarrow>
             if rivals = [] \<or> og_group (pv_origin current) \<noteq> og_group o1 then done m2
             else if scalar_access spec
             then (if canonical_json (base_get base key) \<noteq> canonical_json new \<and> at_least_as_secure spec (base_get base key) new
                   then (base, set_prov ptr (current\<lparr>pv_contributors := pv_contributors current @ [o1],
                     pv_shadowed := pv_shadowed current @ [\<lparr>sh_origin = o1, sh_value = new\<rparr>]\<rparr>) m2)
                   else done m2)
             else if list_ex (\<lambda>w. canonical_json (wr_value w) \<noteq> canonical_json new) rivals
             then done (flag ptr (rivals @ [own]) m2)
             else done m2)"

definition assign :: "json_object \<Rightarrow> string \<Rightarrow> string \<Rightarrow> FieldSpec \<Rightarrow> json \<Rightarrow> Origin \<Rightarrow> Merger \<Rightarrow> document_error + json_object \<times> Merger" where
  "assign base key ptr spec v o1 m =
     (if v = JNull
      then (if \<not> fs_nullable spec then Inl (DocumentError ptr ''null is not allowed on a non-nullable field'')
            else Inr (assign_new base key ptr spec JNull o1 m))
      else bindr (canon_value spec v) (\<lambda>new. Inr (assign_new base key ptr spec new o1 m)))"

subsection \<open>Lists\<close>

text \<open>\<^verbatim>\<open>list(base.get(key, []))\<close>.\<close>

definition base_list :: "json_object \<Rightarrow> string \<Rightarrow> json list" where
  "base_list base key = as_list (base_get base key)"

fun py_remove :: "json \<Rightarrow> json list \<Rightarrow> json list" where
  "py_remove x [] = []"
| "py_remove x (y # ys) = (if py_eq y x then ys else y # py_remove x ys)"

definition distinct_items :: "json list \<Rightarrow> json list" where
  "distinct_items xs = foldl (\<lambda>acc x. if py_in x acc then acc else acc @ [x]) [] xs"

definition str_meet :: "json list \<Rightarrow> json list \<Rightarrow> bool" where
  "str_meet xs ys \<longleftrightarrow> list_ex (\<lambda>x. py_str x \<in> set (map py_str ys)) xs"

definition prov_below :: "string \<Rightarrow> Merger \<Rightarrow> Merger" where
  "prov_below ptr m = m\<lparr>mg_prov := filter (\<lambda>(k, _). \<not> starts_with (ptr @ ''/'') k) (mg_prov m)\<rparr>"

definition apply_replace :: "json_object \<Rightarrow> string \<Rightarrow> string \<Rightarrow> FieldSpec \<Rightarrow> json list \<Rightarrow> Origin \<Rightarrow> Merger \<Rightarrow> json_object \<times> Merger" where
  "apply_replace base key ptr spec new o1 m =
     (let m1 = note_value ptr (with_op o1 ''set'') (JList new) False (prov_below ptr m)
      in (AList.update key (JList new) base,
          if fs_strategy spec = Some Strategy_union
          then foldl (\<lambda>m x. set_prov (element_ptr ptr x) (plain_prov (with_op o1 ''add'') x o1) m) m1 new else m1))"

definition remove_item :: "string \<Rightarrow> Origin \<Rightarrow> json list \<times> Merger \<Rightarrow> json \<Rightarrow> json list \<times> Merger" where
  "remove_item ptr o1 s x = (case s of (current, m) \<Rightarrow>
     if py_in x current then (py_remove x current, tombstone_element ptr x o1 m)
     else (current, add_lint (''noop_remove '' @ element_ptr ptr x) m))"

text \<open>An element that is new gets its provenance; one that is there gets a contributor.\<close>

definition contribute :: "string \<Rightarrow> Origin \<Rightarrow> Merger \<Rightarrow> Merger" where
  "contribute key o1 m = (case map_of (mg_prov m) key of None \<Rightarrow> m
     | Some seen \<Rightarrow> set_prov key (seen\<lparr>pv_contributors := pv_contributors seen @ [o1]\<rparr>) m)"

definition introduce :: "string \<Rightarrow> json \<Rightarrow> Origin \<Rightarrow> Merger \<Rightarrow> Merger" where
  "introduce key x o1 m = set_prov key (plain_prov (with_op o1 ''add'') x o1) (drop_tomb key m)"

definition add_item :: "string \<Rightarrow> Origin \<Rightarrow> json list \<times> Merger \<Rightarrow> json \<Rightarrow> json list \<times> Merger" where
  "add_item ptr o1 s x = (case s of (current, m) \<Rightarrow>
     if \<not> py_in x current then (current @ [x], introduce (element_ptr ptr x) x o1 m)
     else (current, contribute (element_ptr ptr x) o1 m))"

definition apply_relative :: "json_object \<Rightarrow> string \<Rightarrow> string \<Rightarrow> Origin \<Rightarrow> json list \<Rightarrow> json list \<Rightarrow> Merger \<Rightarrow> json_object \<times> Merger" where
  "apply_relative base key ptr o1 add rem m =
     (let (current, m1) = foldl (add_item ptr o1) (foldl (remove_item ptr o1) (base_list base key, m) rem) add
      in (AList.update key (JList current) base, note_value ptr (with_op o1 ''merge'') (JList current) True m1))"

definition list_clash :: "Write \<Rightarrow> Write \<Rightarrow> bool" where
  "list_clash own other =
     (if wr_kind own = Write_replace \<and> wr_kind other = Write_replace
      then canonical_json (wr_value own) \<noteq> canonical_json (wr_value other)
      else wr_kind own \<noteq> wr_kind other \<or> str_meet (wr_add own) (wr_remove other) \<or> str_meet (wr_remove own) (wr_add other))"

definition flag_list_mix :: "string \<Rightarrow> Write list \<Rightarrow> Write \<Rightarrow> Merger \<Rightarrow> Merger" where
  "flag_list_mix ptr rivals own m = (if list_ex (list_clash own) rivals then flag ptr (rivals @ [own]) m else m)"

text \<open>
  What the writes of a group give a restrictive list that held \<open>before\<close>.  The relative writes
  make one view of it and every replacement another.
\<close>

definition relative_view :: "FieldSpec \<Rightarrow> json list \<Rightarrow> Write list \<Rightarrow> json list" where
  "relative_view spec before relative =
     (let adds = concat (map wr_add relative); removes = concat (map wr_remove relative) in
      if fs_access spec = Access_allow_list
      then (let view = filter (\<lambda>e. \<not> py_in e removes) before
            in view @ filter (\<lambda>e. \<not> py_in e view \<and> \<not> py_in e removes) adds)
      else (let view = filter (\<lambda>e. \<not> py_in e removes \<or> py_in e adds) before
            in view @ filter (\<lambda>e. \<not> py_in e view) adds))"

definition write_views :: "FieldSpec \<Rightarrow> json list \<Rightarrow> Write list \<Rightarrow> json list list" where
  "write_views spec before ws =
     (let relative = filter (\<lambda>w. wr_kind w = Write_relative) ws in
      (if relative = [] then [] else [relative_view spec before relative])
      @ map (\<lambda>w. as_list (wr_value w)) (filter (\<lambda>w. wr_kind w = Write_replace) ws))"

definition restrictive_final :: "FieldSpec \<Rightarrow> json list \<Rightarrow> Write list \<Rightarrow> json list" where
  "restrictive_final spec before ws =
     (let views = write_views spec before ws;
          result = (if fs_access spec = Access_allow_list
            then (case views of [] \<Rightarrow> [] | v # vs \<Rightarrow> filter (\<lambda>e. list_all (py_in e) vs) v)
            else concat views)
      in stable_order (distinct_items result) before)"

definition before_at :: "Merger \<Rightarrow> string \<Rightarrow> group \<Rightarrow> json list" where
  "before_at m ptr g = (case map_of (mg_before m) (ptr, g) of None \<Rightarrow> [] | Some xs \<Rightarrow> xs)"

definition resolve_restrictive :: "json_object \<Rightarrow> string \<Rightarrow> string \<Rightarrow> FieldSpec \<Rightarrow> Origin \<Rightarrow> Write \<Rightarrow> Merger \<Rightarrow> json_object \<times> Merger" where
  "resolve_restrictive base key ptr spec o1 own m =
     (let ws = filter (\<lambda>w. wr_kind w \<noteq> Write_delete) (log_at m ptr (og_group o1));
          final = restrictive_final spec (before_at m ptr (og_group o1)) ws;
          previous = base_list base key;
          m1 = foldl (\<lambda>m x. if py_in x final then m else tombstone_element ptr x o1 m) m previous;
          contributed = (if wr_kind own = Write_replace then wr_add own @ as_list (wr_value own) else wr_add own);
          m2 = foldl (\<lambda>m x.
                 if \<not> py_in x previous then introduce (element_ptr ptr x) x o1 m
                 else if py_in x contributed then contribute (element_ptr ptr x) o1 m else m) m1 final
      in (AList.update key (JList final) base, note_value ptr (with_op o1 ''merge'') (JList final) True m2))"

definition list_access :: "FieldSpec \<Rightarrow> bool" where
  "list_access spec \<longleftrightarrow> fs_tie spec = Tie_restrictive \<and> fs_access spec \<in> {Access_allow_list, Access_deny_list}"

definition list_write :: "Origin \<Rightarrow> json list option \<Rightarrow> json list \<Rightarrow> json list \<Rightarrow> Write" where
  "list_write o1 replacement add rem =
     \<lparr>wr_origin = o1, wr_kind = (if replacement = None then Write_relative else Write_replace),
      wr_value = (case replacement of Some xs \<Rightarrow> JList xs | None \<Rightarrow> JObj [(''$add'', JList add), (''$remove'', JList rem)]),
      wr_add = add, wr_remove = rem\<rparr>"

definition keep_before :: "string \<Rightarrow> group \<Rightarrow> json list \<Rightarrow> Merger \<Rightarrow> Merger" where
  "keep_before ptr g xs m = (if (ptr, g) \<in> set (map fst (mg_before m)) then m
     else m\<lparr>mg_before := mg_before m @ [((ptr, g), xs)]\<rparr>)"

definition list_op :: "json_object \<Rightarrow> string \<Rightarrow> string \<Rightarrow> FieldSpec \<Rightarrow> Origin \<Rightarrow> json list option \<Rightarrow> json list \<Rightarrow> json list \<Rightarrow> Merger \<Rightarrow>
    json_object \<times> Merger" where
  "list_op base key ptr spec o1 replacement add rem m =
     (let own = list_write o1 replacement add rem;
          m1 = delete_clash ptr o1 own m;
          rivals = filter (\<lambda>w. wr_kind w \<noteq> Write_delete) (others m1 ptr o1);
          m2 = record_write ptr own (keep_before ptr (og_group o1) (base_list base key) m1)
      in if rivals \<noteq> [] \<and> list_access spec then resolve_restrictive base key ptr spec o1 own m2
         else (let m3 = (if rivals \<noteq> [] then flag_list_mix ptr rivals own m2 else m2)
               in case replacement of
                    Some xs \<Rightarrow> apply_replace base key ptr spec xs o1 m3
                  | None \<Rightarrow> apply_relative base key ptr o1 add rem m3))"

definition canon_values :: "FieldSpec \<Rightarrow> json list \<Rightarrow> document_error + json list" where
  "canon_values spec = map_result (canon_value spec)"

definition replace_list :: "json_object \<Rightarrow> string \<Rightarrow> string \<Rightarrow> FieldSpec \<Rightarrow> json \<Rightarrow> Origin \<Rightarrow> Merger \<Rightarrow> document_error + json_object \<times> Merger" where
  "replace_list base key ptr spec v o1 m = (case v of
     JObj kvs \<Rightarrow> bindr (check_directive_keys (map fst kvs) [] ptr) (\<lambda>_. Inl (DocumentError ptr ''a replace list takes a plain list''))
   | JList xs \<Rightarrow> bindr (canon_values spec xs) (\<lambda>new. Inr (list_op base key ptr spec o1 (Some new) [] [] m))
   | _ \<Rightarrow> Inl (DocumentError ptr ''a list is required''))"

definition union_list :: "json_object \<Rightarrow> string \<Rightarrow> string \<Rightarrow> FieldSpec \<Rightarrow> json \<Rightarrow> Origin \<Rightarrow> Merger \<Rightarrow> document_error + json_object \<times> Merger" where
  "union_list base key ptr spec v o1 m =
     bindr (parse_union_patch v ptr) (\<lambda>patch.
     bindr (canon_values spec (up_add patch)) (\<lambda>add.
     bindr (canon_values spec (up_remove patch)) (\<lambda>rem.
     if str_meet add rem then Inl (DocumentError ptr ''the same element is in $add and $remove'')
     else case up_replace patch of
       Some xs \<Rightarrow> bindr (canon_values spec xs) (\<lambda>new. Inr (list_op base key ptr spec o1 (Some (distinct_items new)) [] [] m))
     | None \<Rightarrow> Inr (list_op base key ptr spec o1 None add rem m))))"

subsection \<open>Keyed lists\<close>

type_synonym keyed_items = "(string \<times> json_object) list"

definition field_key :: "FieldSpec \<Rightarrow> string" where
  "field_key spec = (case fs_key spec of None \<Rightarrow> [] | Some k \<Rightarrow> k)"

text \<open>The elements of a keyed patch by canonical key.\<close>

fun keyed_parse :: "FieldSpec \<Rightarrow> FieldSpec \<Rightarrow> string \<Rightarrow> string list \<Rightarrow> json list \<Rightarrow> document_error + keyed_items" where
  "keyed_parse spec key_spec ptr seen [] = Inr []"
| "keyed_parse spec key_spec ptr seen (item # items) =
     (case map_of (members item) (field_key spec) of
        None \<Rightarrow> Inl (DocumentError ptr (''every element needs its key field '' @ repr_str (field_key spec)))
      | Some v \<Rightarrow> bindr (canon_value key_spec v) (\<lambda>c. let canon_key = py_str c in
          if canon_key \<in> set seen then Inl (DocumentError ptr (''duplicate key '' @ repr_str canon_key @ '' in one patch''))
          else bindr (keyed_parse spec key_spec ptr (canon_key # seen) items) (\<lambda>rest.
            Inr ((canon_key, members item) # rest))))"

definition keyed_patch :: "json \<Rightarrow> string \<Rightarrow> document_error + bool \<times> json list" where
  "keyed_patch v ptr = (case v of
     JObj kvs \<Rightarrow> bindr (check_directive_keys (map fst kvs) [REPLACE] ptr) (\<lambda>_.
       case kvs of [(k, JList xs)] \<Rightarrow>
           if k = REPLACE then Inr (True, xs)
           else Inl (DocumentError ptr (''a keyed patch is a list or {'' @ quoted ''$replace'' @ '': [...]}''))
       | _ \<Rightarrow> Inl (DocumentError ptr (''a keyed patch is a list or {'' @ quoted ''$replace'' @ '': [...]}'')))
   | JList xs \<Rightarrow> Inr (False, xs)
   | _ \<Rightarrow> Inl (DocumentError ptr ''a keyed field takes a list of objects''))"

definition keyed_elements :: "FieldSpec \<Rightarrow> json list \<Rightarrow> json_object" where
  "keyed_elements spec es = by_key (field_key spec) es"

text \<open>Everything before the elements of the patch are merged one by one.\<close>

definition keyed_clash :: "bool \<Rightarrow> string list \<Rightarrow> Write \<Rightarrow> bool" where
  "keyed_clash replace_all keys w \<longleftrightarrow> (replace_all \<or> wr_kind w = Write_replace) \<and>
     (wr_kind w \<noteq> (if replace_all then Write_replace else Write_merge)
      \<or> canonical_json (JList (map JStr (sort (map py_str (as_list (wr_value w)))))) \<noteq> canonical_json (JList (map JStr (sort keys))))"

definition keyed_open :: "path \<Rightarrow> Origin \<Rightarrow> bool \<Rightarrow> string list \<Rightarrow> json_object \<Rightarrow> Merger \<Rightarrow> json_object \<times> Merger" where
  "keyed_open p o1 replace_all keys elements m =
     (let ptr = pointer p;
          own = simple_write o1 (if replace_all then Write_replace else Write_merge) (JList (map JStr keys));
          m1 = delete_clash ptr o1 own m;
          rivals = filter (\<lambda>w. wr_kind w \<noteq> Write_delete) (others m1 ptr o1);
          m2 = record_write ptr own m1;
          m3 = (if replace_all then foldl (\<lambda>m k. tombstone (p @ [k]) o1 m) m2 (map fst elements) else m2)
      in (if replace_all then [] else elements,
          if list_ex (keyed_clash replace_all keys) rivals then flag ptr (rivals @ [own]) m3 else m3))"

definition is_element_delete :: "json_object \<Rightarrow> bool" where
  "is_element_delete item \<longleftrightarrow> is_delete_safe item \<and> length item = 2"

definition delete_element :: "path \<Rightarrow> string \<Rightarrow> Origin \<Rightarrow> json_object \<Rightarrow> Merger \<Rightarrow> json_object \<times> Merger" where
  "delete_element p canon_key o1 elements m =
     (let q = p @ [canon_key]; own = simple_write o1 Write_delete DELETED_VALUE;
          m1 = record_write (pointer q) own (write_clash (pointer q) o1 own m)
      in if canon_key \<in> set (map fst elements) then (AList.delete canon_key elements, tombstone q o1 m1)
         else (elements, add_lint (''noop_delete '' @ pointer q) m1))"

text \<open>An element that is not there starts as its key.\<close>

definition new_element :: "FieldSpec \<Rightarrow> path \<Rightarrow> string \<Rightarrow> Origin \<Rightarrow> Merger \<Rightarrow> Merger" where
  "new_element spec p canon_key o1 m =
     (let q = pointer (p @ [canon_key]); v = JStr canon_key; own = simple_write o1 Write_set v
      in drop_tomb q
          (note_value (pointer (p @ [canon_key, field_key spec])) (with_op o1 ''add'') v False
          (note_value q (with_op o1 ''add'') v False
          (record_write q own (delete_clash q o1 own m)))))"

definition start_element :: "FieldSpec \<Rightarrow> path \<Rightarrow> string \<Rightarrow> Origin \<Rightarrow> json_object \<Rightarrow> Merger \<Rightarrow> json_object \<times> Merger" where
  "start_element spec p canon_key o1 elements m = (case map_of elements canon_key of
     Some (JObj e) \<Rightarrow> (e, m)
   | _ \<Rightarrow> ([(field_key spec, JStr canon_key)], new_element spec p canon_key o1 m))"

definition element_order :: "FieldSpec \<Rightarrow> json list \<Rightarrow> json list" where
  "element_order spec es = (case fs_order spec of None \<Rightarrow> es
     | Some f \<Rightarrow> if f = [] then es
         else sort_key (\<lambda>e. (if member e f = JNull then (1::nat) else 0,
           case map_of (members e) f of None \<Rightarrow> [] | Some v \<Rightarrow> py_str v)) es)"

definition keyed_close :: "FieldSpec \<Rightarrow> string \<Rightarrow> path \<Rightarrow> Origin \<Rightarrow> json_object \<Rightarrow> json_object \<times> Merger \<Rightarrow> json_object \<times> Merger" where
  "keyed_close spec key p o1 base s = (case s of (elements, m) \<Rightarrow>
     let ordered = element_order spec (map snd elements)
     in (AList.update key (JList ordered) base,
         note_value (pointer p) (with_op o1 ''merge'') (JList (map (\<lambda>e. member e (field_key spec)) ordered)) True m))"

subsection \<open>Objects\<close>

lemma bindr_cong [fundef_cong]: "r = r' \<Longrightarrow> (\<And>x. r' = Inr x \<Longrightarrow> f x = f' x) \<Longrightarrow> bindr r f = bindr r' f'"
  by (cases r') auto

abbreviation patch_size :: "json_object \<Rightarrow> nat" where
  "patch_size \<equiv> size_list (size_prod (\<lambda>_. 0) size)"

abbreviation items_size :: "keyed_items \<Rightarrow> nat" where
  "items_size \<equiv> size_list (size_prod (\<lambda>_. 0) patch_size)"

lemma size_JObj: "size (JObj kvs) = Suc (patch_size kvs)"
  by simp

lemma keyed_parse_size: "keyed_parse spec key_spec ptr seen items = Inr parsed \<Longrightarrow> items_size parsed \<le> size_list size items"
proof (induction spec key_spec ptr seen items arbitrary: parsed rule: keyed_parse.induct)
  case (2 spec key_spec ptr seen item items)
  from "2.prems" obtain v c rest where v: "map_of (members item) (field_key spec) = Some v" "canon_value key_spec v = Inr c"
    and new: "py_str c \<notin> set seen" and rest: "keyed_parse spec key_spec ptr (py_str c # seen) items = Inr rest"
    and parsed: "parsed = (py_str c, members item) # rest"
    by (auto simp only: keyed_parse.simps Let_def bindr_eq_Inr sum.inject split: option.splits if_splits)
  then have "items_size rest \<le> size_list size items" using "2.IH" by blast
  moreover have "patch_size (members item) < size item" using v(1) by (cases item) (auto simp: members_def)
  ultimately show ?case using parsed by simp
qed simp

lemma keyed_patch_size: "keyed_patch v ptr = Inr (b, items) \<Longrightarrow> size_list size items < size v"
  by (cases v) (auto simp: keyed_patch_def bindr_eq_Inr split: list.splits prod.splits json.splits if_splits)

lemma patch_size_filter: "patch_size (filter P kvs) \<le> patch_size kvs"
  by (induction kvs) auto

text \<open>
  \<^verbatim>\<open>_merge_object\<close>, one entry of the patch after the other, and the loop of \<^verbatim>\<open>_keyed_list\<close>
  over the elements.
\<close>

function merge_object :: "spec_index \<Rightarrow> path \<Rightarrow> Origin \<Rightarrow> json_object \<Rightarrow> json_object \<Rightarrow> Merger \<Rightarrow> document_error + json_object \<times> Merger"
  and merge_elements :: "spec_index \<Rightarrow> FieldSpec \<Rightarrow> path \<Rightarrow> Origin \<Rightarrow> keyed_items \<Rightarrow> json_object \<Rightarrow> Merger \<Rightarrow>
    document_error + json_object \<times> Merger" where
  "merge_object specs p o1 [] base m = Inr (base, m)"
| "merge_object specs p o1 ((key, v) # patch) base m =
     bindr (if is_directive key then Inl (DocumentError (pointer p) (''directive '' @ key @ '' is not valid here''))
            else case spec_at specs (p @ [key]) of
              None \<Rightarrow> Inl (DocumentError (pointer (p @ [key])) ''no field spec for this path'')
            | Some spec \<Rightarrow> bindr (is_delete v) (\<lambda>del.
                if del then Inr (delete_key base key (p @ [key]) o1 m)
                else case fs_kind spec of
                  Kind_scalar \<Rightarrow>
                    (case v of
                       JObj _ \<Rightarrow> Inl (DocumentError (pointer (p @ [key])) ''a scalar is required'')
                     | JList _ \<Rightarrow> Inl (DocumentError (pointer (p @ [key])) ''a scalar is required'')
                     | _ \<Rightarrow> assign base key (pointer (p @ [key])) spec v o1 m)
                | Kind_list \<Rightarrow>
                    (if fs_strategy spec = Some Strategy_replace then replace_list base key (pointer (p @ [key])) spec v o1 m
                     else if fs_strategy spec = Some Strategy_union then union_list base key (pointer (p @ [key])) spec v o1 m
                     else case spec_at specs (p @ [key, ''*'', field_key spec]) of
                       None \<Rightarrow> Inl (DocumentError (pointer (p @ [key])) (''no field spec for the key field '' @ field_key spec))
                     | Some key_spec \<Rightarrow>
                         bindr (keyed_patch v (pointer (p @ [key]))) (\<lambda>(replace_all, items).
                         bindr (keyed_parse spec key_spec (pointer (p @ [key])) [] items) (\<lambda>parsed.
                         (let (elements, m1) = keyed_open (p @ [key]) o1 replace_all (map fst parsed)
                                (keyed_elements spec (base_list base key)) m
                          in bindr (merge_elements specs spec (p @ [key]) o1 parsed elements m1) (\<lambda>s.
                             Inr (keyed_close spec key (p @ [key]) o1 base s))))))
                | _ \<Rightarrow>
                    (case v of
                       JObj kvs \<Rightarrow> if kvs = [] then Inr (base, m)
                         else bindr (merge_object specs (p @ [key]) o1 kvs (members (base_get base key)) m) (\<lambda>(sub, m1).
                           Inr (AList.update key (JObj sub) base, m1))
                     | _ \<Rightarrow> Inl (DocumentError (pointer (p @ [key])) ''an object is required''))))
       (\<lambda>(base1, m1). merge_object specs p o1 patch base1 m1)"
| "merge_elements specs spec p o1 [] elements m = Inr (elements, m)"
| "merge_elements specs spec p o1 ((canon_key, item) # rest) elements m =
     bindr (if is_element_delete item then Inr (delete_element p canon_key o1 elements m)
            else let body = filter (\<lambda>(k, _). k \<noteq> field_key spec) item in
              if list_ex (\<lambda>(k, _). is_directive k) body
              then Inl (DocumentError (pointer (p @ [canon_key])) ''only {key, $delete: true} is a directive here'')
              else let (element, m1) = start_element spec p canon_key o1 elements m
                in bindr (merge_object specs (p @ [canon_key]) o1 body element m1) (\<lambda>(e, m2).
                     Inr (AList.update canon_key (JObj e) elements, m2)))
       (\<lambda>(elements1, m1). merge_elements specs spec p o1 rest elements1 m1)"
  by pat_completeness auto
termination
proof (relation "measure (\<lambda>x. case x of Inl (_, _, _, patch, _) \<Rightarrow> patch_size patch | Inr (_, _, _, _, parsed, _) \<Rightarrow> items_size parsed)")
qed (auto dest!: keyed_patch_size keyed_parse_size intro: le_less_trans patch_size_filter)

subsection \<open>The public operations\<close>

definition merge_patch :: "json \<Rightarrow> Origin \<Rightarrow> Merger \<Rightarrow> document_error + Merger" where
  "merge_patch patch o1 m = (case patch of
     JObj kvs \<Rightarrow> bindr (merge_object (mg_specs m) [] o1 kvs (mg_values m) m) (\<lambda>(vals, m1). Inr (m1\<lparr>mg_values := vals\<rparr>))
   | _ \<Rightarrow> Inl (DocumentError [] ''params must be an object''))"

definition set_mode :: "string \<Rightarrow> Origin \<Rightarrow> Merger \<Rightarrow> document_error + Merger" where
  "set_mode mode o1 m = bindr (assign (mg_meta m) ''mode'' MODE_POINTER (plain_spec Kind_scalar) (JStr mode) o1 m)
     (\<lambda>(meta, m1). Inr (m1\<lparr>mg_meta := meta\<rparr>))"

definition mg_mode :: "Merger \<Rightarrow> string option" where
  "mg_mode m = (case base_get (mg_meta m) ''mode'' of JStr s \<Rightarrow> Some s | _ \<Rightarrow> None)"

text \<open>The containers on the way are objects, by the field specifications.\<close>

fun set_path :: "path \<Rightarrow> json \<Rightarrow> json_object \<Rightarrow> json_object" where
  "set_path [] v base = base"
| "set_path [k] v base = AList.update k v base"
| "set_path (k # ks) v base = AList.update k (JObj (set_path ks v (members (base_get base k)))) base"

definition set_derived :: "path \<Rightarrow> json \<Rightarrow> Origin \<Rightarrow> Merger \<Rightarrow> Merger" where
  "set_derived p v o1 m = note_value (pointer p) o1 v False (m\<lparr>mg_values := set_path p v (mg_values m)\<rparr>)"

text \<open>The origin of the nearest pointer at or above \<open>p\<close>.\<close>

function origin_in :: "(string \<times> Provenance) list \<Rightarrow> string \<Rightarrow> Origin option" where
  "origin_in prov p = (case map_of prov p of Some hit \<Rightarrow> Some (pv_origin hit)
     | None \<Rightarrow> if p = [] then None else origin_in prov (parent_pointer p))"
  by pat_completeness auto
termination
proof (relation "measure (\<lambda>(_, p). length p)")
  fix p :: string and prov :: "(string \<times> Provenance) list" assume "p \<noteq> []"
  then show "((prov, parent_pointer p), prov, p) \<in> measure (\<lambda>(_, p). length p)" by (simp add: parent_pointer_shorter)
qed simp

declare origin_in.simps [simp del]

definition origin_for :: "Merger \<Rightarrow> string \<Rightarrow> Origin option" where
  "origin_for m p = origin_in (mg_prov m) p"

definition merge_all :: "string \<Rightarrow> spec_index \<Rightarrow> (json \<times> Origin) list \<Rightarrow> document_error + Merger" where
  "merge_all key specs patches = foldl (\<lambda>r (patch, o1). bindr r (merge_patch patch o1)) (Inr (new_Merger key specs)) patches"

subsection \<open>The leaves of a tree\<close>

lemma json_mem_size: "(k, v) \<in> set kvs \<Longrightarrow> size v < Suc (patch_size kvs)"
  by (drule size_list_estimation' [where f = "size_prod (\<lambda>_. 0) size" and y = "size v"]) auto

lemma element_mem_size: "e \<in> set (as_list v) \<Longrightarrow> (k, v) \<in> set kvs \<Longrightarrow> patch_size (members e) < patch_size kvs"
proof -
  assume "e \<in> set (as_list v)" and "(k, v) \<in> set kvs"
  moreover have "patch_size (members e) \<le> size e" by (cases e) (auto simp: members_def)
  ultimately show ?thesis using json_mem_size [of k v kvs] as_list_size [of e v] by linarith
qed

text \<open>The rows of \<^verbatim>\<open>flatten_leaves\<close>; \<^verbatim>\<open>leaf_pointers\<close> makes the same walk.\<close>

function leaf_rows :: "spec_index \<Rightarrow> json_object \<Rightarrow> path \<Rightarrow> (string \<times> json) list" where
  "leaf_rows specs container p = concat (map (\<lambda>(name, v).
     case spec_at specs (p @ [name]) of None \<Rightarrow> []
     | Some spec \<Rightarrow> (case fs_kind spec of
         Kind_scalar \<Rightarrow> [(pointer (p @ [name]), v)]
       | Kind_list \<Rightarrow>
           (if fs_strategy spec = Some Strategy_replace then [(pointer (p @ [name]), v)]
            else if fs_strategy spec = Some Strategy_union then map (\<lambda>x. (element_ptr (pointer (p @ [name])) x, x)) (as_list v)
            else concat (map (\<lambda>e. leaf_rows specs (members e) (p @ [name, py_str (member e (field_key spec))])) (as_list v)))
       | _ \<Rightarrow> (case v of JObj kvs \<Rightarrow> leaf_rows specs kvs (p @ [name]) | _ \<Rightarrow> []))) container)"
  by pat_completeness auto
termination
proof (relation "measure (\<lambda>(_, container, _). patch_size container)")
qed (auto dest: json_mem_size element_mem_size)

declare leaf_rows.simps [simp del]

definition leaf_pointers :: "spec_index \<Rightarrow> json_object \<Rightarrow> string list" where
  "leaf_pointers specs vals = map fst (leaf_rows specs vals [])"

definition flatten_leaves :: "spec_index \<Rightarrow> json_object \<Rightarrow> (string \<times> json) list" where
  "flatten_leaves specs vals = leaf_rows specs vals []"

end
