(* ===== verification/Config_Restrictive.thy ===== *)
theory Config_Restrictive
  imports Config_Merge "HOL-Library.Multiset"
begin

text \<open>
  Writes of equal rank and weight to a restrictive field do not depend on the order of the
  layers (rules M8 and M10 of \<^verbatim>\<open>dotmac-config-layers\<close>: \<^verbatim>\<open>merge.py\<close>).
\<close>

subsection \<open>Lists of strings\<close>

definition is_text :: "json \<Rightarrow> bool" where
  "is_text v = (case v of JStr _ \<Rightarrow> True | _ \<Rightarrow> False)"

lemma is_textE: "is_text v \<Longrightarrow> (\<And>s. v = JStr s \<Longrightarrow> P) \<Longrightarrow> P"
  by (cases v) (auto simp: is_text_def)

lemma is_text_simps [simp]: "is_text (JStr s)" "\<not> is_text JNull" "\<not> is_text (JBool b)" "\<not> is_text (JInt i)" "\<not> is_text (JList xs)" "\<not> is_text (JObj kvs)"
  by (simp_all add: is_text_def)

abbreviation texts :: "json list \<Rightarrow> bool" where
  "texts \<equiv> list_all is_text"

lemma py_eq_text: "is_text a \<Longrightarrow> is_text b \<Longrightarrow> py_eq a b \<longleftrightarrow> a = b"
  by (auto simp: py_eq_def elim!: is_textE)

lemma py_in_text: "is_text x \<Longrightarrow> texts xs \<Longrightarrow> py_in x xs \<longleftrightarrow> x \<in> set xs"
  by (auto simp: py_in_def list_ex_iff list_all_iff py_eq_text)

lemma py_str_text: "is_text a \<Longrightarrow> is_text b \<Longrightarrow> py_str a = py_str b \<longleftrightarrow> a = b"
  by (auto simp: py_str_def elim!: is_textE)

lemma distinct_items_snoc:
  "distinct_items (xs @ [x]) = (if py_in x (distinct_items xs) then distinct_items xs else distinct_items xs @ [x])"
  by (simp add: distinct_items_def)

lemma distinct_items_texts: "texts xs \<Longrightarrow> set (distinct_items xs) = set xs \<and> distinct (distinct_items xs) \<and> texts (distinct_items xs)"
proof (induction xs rule: rev_induct)
  case Nil
  then show ?case by (simp add: distinct_items_def)
next
  case (snoc x xs)
  then have "set (distinct_items xs) = set xs" "distinct (distinct_items xs)" "texts (distinct_items xs)" "is_text x" by simp_all
  then show ?case by (auto simp: distinct_items_snoc py_in_text)
qed

lemma sort_key_texts:
  assumes "texts xs" and "distinct xs" and "distinct ys" and "set xs = set ys"
  shows "sort_key py_str xs = sort_key py_str ys"
proof (rule properties_for_sort_key)
  show "sorted (map py_str (sort_key py_str ys))" by simp
  show "mset (sort_key py_str ys) = mset xs" using assms(2-4) by (simp add: set_eq_iff_mset_eq_distinct)
  show "filter (\<lambda>x. py_str k = py_str x) (sort_key py_str ys) = filter (\<lambda>x. py_str k = py_str x) xs" if "k \<in> set (sort_key py_str ys)" for k
  proof -
    have same: "py_str k = py_str x \<longleftrightarrow> x = k" if "x \<in> set xs" for x
      using that \<open>k \<in> set (sort_key py_str ys)\<close> assms(1,4) py_str_text by (auto simp: list_all_iff)
    have "filter (\<lambda>x. x = k) zs = [k]" if "distinct zs" "k \<in> set zs" for zs
      using that by (induction zs) (auto simp: filter_empty_conv)
    moreover have "k \<in> set xs" using that assms(4) by simp
    moreover have "filter (\<lambda>x. py_str k = py_str x) zs = filter (\<lambda>x. x = k) zs" if "set zs = set xs" for zs
      by (rule filter_cong [OF refl]) (use same that in auto)
    ultimately show ?thesis using assms by simp
  qed
qed

lemma stable_order_texts:
  assumes "texts xs" and "texts before" and "distinct xs" and "distinct ys" and "set xs = set ys"
  shows "stable_order xs before = stable_order ys before"
proof -
  have ys: "texts ys" using assms(1,5) by (simp add: list_all_iff)
  have "py_in x xs = py_in x ys" if "x \<in> set before" for x
    using that assms ys by (auto simp: py_in_text list_all_iff)
  then have "filter (\<lambda>x. py_in x xs) before = filter (\<lambda>x. py_in x ys) before" by (simp cong: filter_cong)
  moreover have "texts (filter (\<lambda>x. \<not> py_in x before) xs)" using assms(1) by (auto simp: list_all_iff)
  then have "sort_key py_str (filter (\<lambda>x. \<not> py_in x before) xs) = sort_key py_str (filter (\<lambda>x. \<not> py_in x before) ys)"
    using assms(3-5) by (intro sort_key_texts) auto
  ultimately show ?thesis by (simp add: stable_order_def)
qed

lemma stable_order_set:
  assumes "texts xs" and "texts before"
  shows "set (stable_order xs before) = set xs"
proof -
  have "py_in x ys \<longleftrightarrow> x \<in> set ys" if "x \<in> set xs \<union> set before" "ys = xs \<or> ys = before" for x ys
    using that assms by (auto simp: py_in_text list_all_iff)
  then show ?thesis by (auto simp: stable_order_def)
qed

subsection \<open>The value of a restrictive list\<close>

definition text_write :: "Write \<Rightarrow> bool" where
  "text_write w \<longleftrightarrow> texts (wr_add w) \<and> texts (wr_remove w) \<and> texts (as_list (wr_value w))"

text \<open>What an element has to satisfy to be in the list: the rule of the code's comment.\<close>

definition kept :: "FieldSpec \<Rightarrow> json list \<Rightarrow> Write list \<Rightarrow> json \<Rightarrow> bool" where
  "kept spec before ws x =
     (let relative = {w \<in> set ws. wr_kind w = Write_relative};
          added = (\<exists>w \<in> relative. x \<in> set (wr_add w)); removed = (\<exists>w \<in> relative. x \<in> set (wr_remove w));
          replaces = {w \<in> set ws. wr_kind w = Write_replace}
      in if fs_access spec = Access_allow_list
         then (relative = {} \<or> (x \<in> set before \<or> added) \<and> \<not> removed) \<and> (\<forall>w \<in> replaces. x \<in> set (as_list (wr_value w)))
         else (relative \<noteq> {} \<and> (x \<in> set before \<and> \<not> removed \<or> added)) \<or> (\<exists>w \<in> replaces. x \<in> set (as_list (wr_value w))))"

definition restrictive_result :: "FieldSpec \<Rightarrow> json list \<Rightarrow> Write list \<Rightarrow> json list" where
  "restrictive_result spec before ws = (let views = write_views spec before ws in
     if fs_access spec = Access_allow_list
     then (case views of [] \<Rightarrow> [] | v # vs \<Rightarrow> filter (\<lambda>e. list_all (py_in e) vs) v) else concat views)"

lemma restrictive_final_alt: "restrictive_final spec before ws = stable_order (distinct_items (restrictive_result spec before ws)) before"
  by (simp add: restrictive_final_def restrictive_result_def Let_def)

lemma relative_view_texts:
  assumes "texts before" and "list_all text_write ws"
  shows "texts (relative_view spec before ws)" and
    "x \<in> set (relative_view spec before ws) \<longleftrightarrow> (let added = (\<exists>w \<in> set ws. x \<in> set (wr_add w)); removed = (\<exists>w \<in> set ws. x \<in> set (wr_remove w))
      in if fs_access spec = Access_allow_list then (x \<in> set before \<or> added) \<and> \<not> removed else x \<in> set before \<and> \<not> removed \<or> added)"
proof -
  define adds where "adds = concat (map wr_add ws)"
  define rems where "rems = concat (map wr_remove ws)"
  have adds: "texts adds" and rems: "texts rems" and sub: "texts (filter P before)" for P
    using assms by (auto simp: list_all_iff text_write_def adds_def rems_def)
  have a: "(\<exists>w \<in> set ws. x \<in> set (wr_add w)) \<longleftrightarrow> x \<in> set adds" and r: "(\<exists>w \<in> set ws. x \<in> set (wr_remove w)) \<longleftrightarrow> x \<in> set rems"
    by (auto simp: adds_def rems_def)
  note view = relative_view_def [of spec before ws, folded adds_def rems_def, unfolded Let_def]
  show "texts (relative_view spec before ws)"
    using assms(1) adds by (auto simp: view list_all_iff)
  show "x \<in> set (relative_view spec before ws) \<longleftrightarrow> (let added = (\<exists>w \<in> set ws. x \<in> set (wr_add w)); removed = (\<exists>w \<in> set ws. x \<in> set (wr_remove w))
      in if fs_access spec = Access_allow_list then (x \<in> set before \<or> added) \<and> \<not> removed else x \<in> set before \<and> \<not> removed \<or> added)"
  proof (cases "is_text x")
    case True
    show ?thesis
      unfolding Let_def a r view
      by (simp only: set_append set_filter py_in_text [OF True adds] py_in_text [OF True rems] py_in_text [OF True sub]
          Un_iff mem_Collect_eq split: if_split) blast
  next
    case False
    then have "x \<notin> set before" "x \<notin> set adds" using assms(1) adds by (auto simp: list_all_iff)
    then show ?thesis unfolding Let_def a r view by simp
  qed
qed

text \<open>The writes the log of a list holds.\<close>

definition list_writes :: "Write list \<Rightarrow> bool" where
  "list_writes ws \<longleftrightarrow> ws \<noteq> [] \<and> list_all (\<lambda>w. text_write w \<and> wr_kind w \<in> {Write_relative, Write_replace}) ws"

lemma write_views_texts:
  assumes "texts before" and "list_writes ws"
  shows "list_all texts (write_views spec before ws)" and "write_views spec before ws \<noteq> []"
proof -
  have rel: "list_all text_write (filter P ws)" for P using assms(2) by (simp add: list_writes_def list_all_iff)
  have "\<forall>w \<in> set ws. texts (as_list (wr_value w))"
    using assms(2) by (simp add: list_writes_def list_all_iff text_write_def)
  then have "list_all texts (map (\<lambda>w. as_list (wr_value w)) (filter P ws))" for P by (auto simp: list.pred_map list_all_iff)
  then show "list_all texts (write_views spec before ws)"
    using relative_view_texts(1) [OF assms(1) rel] by (simp add: write_views_def Let_def)
  have "\<exists>w \<in> set ws. wr_kind w = Write_relative \<or> wr_kind w = Write_replace"
    using assms(2) by (cases ws) (auto simp: list_writes_def)
  then show "write_views spec before ws \<noteq> []" by (auto simp: write_views_def Let_def filter_empty_conv)
qed

lemma restrictive_result_texts:
  assumes "texts before" and "list_writes ws"
  shows "texts (restrictive_result spec before ws)" and "x \<in> set (restrictive_result spec before ws) \<longleftrightarrow> kept spec before ws x"
proof -
  let ?rel = "filter (\<lambda>w. wr_kind w = Write_relative) ws"
  obtain v vs where views: "write_views spec before ws = v # vs" using write_views_texts(2) [OF assms] by (cases "write_views spec before ws") auto
  have tx: "texts v" "list_all texts vs" using write_views_texts(1) [OF assms, of spec] views by simp_all
  have rel: "list_all text_write ?rel" using assms(2) by (auto simp: list_writes_def list_all_iff)
  have mem: "py_in e zs \<longleftrightarrow> e \<in> set zs" if "e \<in> set v" "zs \<in> set vs" for e zs
    using that tx by (intro py_in_text) (auto simp: list_all_iff)
  show "texts (restrictive_result spec before ws)"
    using tx by (auto simp: restrictive_result_def views Let_def list_all_iff)
  have "x \<in> set (restrictive_result spec before ws) \<longleftrightarrow>
      (if fs_access spec = Access_allow_list then \<forall>u \<in> set (write_views spec before ws). x \<in> set u
       else \<exists>u \<in> set (write_views spec before ws). x \<in> set u)"
    using mem by (auto simp: restrictive_result_def views Let_def list_all_iff)
  also have "\<dots> \<longleftrightarrow> kept spec before ws x"
    using relative_view_texts(2) [OF assms(1) rel, of x spec]
    by (auto simp: write_views_def kept_def Let_def filter_empty_conv)
  finally show "x \<in> set (restrictive_result spec before ws) \<longleftrightarrow> kept spec before ws x" .
qed

lemma restrictive_final_set:
  assumes "texts before" and "list_writes ws"
  shows "set (restrictive_final spec before ws) = {x. kept spec before ws x}"
  using restrictive_result_texts [OF assms] distinct_items_texts assms(1)
  by (auto simp: restrictive_final_alt stable_order_set)

lemma kept_cong: "set ws = set ws' \<Longrightarrow> kept spec before ws = kept spec before ws'"
  by (rule ext) (simp add: kept_def)

lemma restrictive_final_cong:
  assumes "texts before" and "list_writes ws" and "set ws = set ws'"
  shows "restrictive_final spec before ws = restrictive_final spec before ws'"
proof -
  have ws': "list_writes ws'" using assms(2,3) by (auto simp: list_writes_def list_all_iff)
  note a = restrictive_result_texts [OF assms(1,2), where spec = spec] and b = restrictive_result_texts [OF assms(1) ws', where spec = spec]
  have "set (restrictive_result spec before ws) = set (restrictive_result spec before ws')"
    using a(2) b(2) kept_cong [OF assms(3)] by auto
  then show ?thesis
    using distinct_items_texts [OF a(1)] distinct_items_texts [OF b(1)] assms(1)
    by (auto simp: restrictive_final_alt intro!: stable_order_texts)
qed

subsection \<open>A run of list writes\<close>

text \<open>The layer, its replacement or its additions and removals.\<close>

type_synonym list_request = "Origin \<times> json list option \<times> json list \<times> json list"

definition request_write :: "list_request \<Rightarrow> Write" where
  "request_write r = (case r of (o1, rep, add, rem) \<Rightarrow> list_write o1 rep add rem)"

definition run_list_ops :: "string \<Rightarrow> string \<Rightarrow> FieldSpec \<Rightarrow> list_request list \<Rightarrow> json_object \<times> Merger \<Rightarrow> json_object \<times> Merger" where
  "run_list_ops key ptr spec rs s = foldl (\<lambda>(base, m) (o1, rep, add, rem). list_op base key ptr spec o1 rep add rem m) s rs"

text \<open>Only the log and the lists kept from before matter to a restrictive list.\<close>

named_theorems log_frame \<open>operations that leave the log and the saved lists alone\<close>

lemma log_frame_simple [log_frame]:
  "mg_log (flag ptr ws m) = mg_log m" "mg_before (flag ptr ws m) = mg_before m"
  "mg_log (note_value ptr o1 v k m) = mg_log m" "mg_before (note_value ptr o1 v k m) = mg_before m"
  "mg_log (set_prov ptr pv m) = mg_log m" "mg_before (set_prov ptr pv m) = mg_before m"
  "mg_log (drop_tomb ptr m) = mg_log m" "mg_before (drop_tomb ptr m) = mg_before m"
  "mg_log (prov_below ptr m) = mg_log m" "mg_before (prov_below ptr m) = mg_before m"
  "mg_log (add_lint t m) = mg_log m" "mg_before (add_lint t m) = mg_before m"
  "mg_log (bury o1 t m) = mg_log m" "mg_before (bury o1 t m) = mg_before m"
  "mg_log (keep_before ptr g xs m) = mg_log m" "mg_before (record_write ptr w m) = mg_before m"
  by (simp_all add: flag_def note_value_def set_prov_def drop_tomb_def prov_below_def add_lint_def bury_def keep_before_def
      record_write_def Let_def split: option.splits prod.splits)

lemma foldl_keeps:
  assumes "\<And>s x. f (g s x) = f s"
  shows "f (foldl g s xs) = f s"
  by (induction xs arbitrary: s) (simp_all add: assms)

lemma log_frame_clash [log_frame]:
  "mg_log (delete_clash ptr o1 own m) = mg_log m" "mg_before (delete_clash ptr o1 own m) = mg_before m"
  by (auto simp: delete_clash_def Let_def log_frame intro!: foldl_keeps)

lemma log_frame_element [log_frame]:
  "mg_log (tombstone_element ptr x o1 m) = mg_log m" "mg_before (tombstone_element ptr x o1 m) = mg_before m"
  "mg_log (introduce k x o1 m) = mg_log m" "mg_before (introduce k x o1 m) = mg_before m"
  "mg_log (contribute k o1 m) = mg_log m" "mg_before (contribute k o1 m) = mg_before m"
  by (auto simp: tombstone_element_def introduce_def contribute_def log_frame split: option.splits)

lemma log_frame_apply [log_frame]:
  "mg_log (snd (apply_replace base key ptr spec new o1 m)) = mg_log m" "mg_before (snd (apply_replace base key ptr spec new o1 m)) = mg_before m"
  "mg_log (snd (apply_relative base key ptr o1 add rem m)) = mg_log m" "mg_before (snd (apply_relative base key ptr o1 add rem m)) = mg_before m"
  "mg_log (snd (resolve_restrictive base key ptr spec o1 own m)) = mg_log m"
  "mg_before (snd (resolve_restrictive base key ptr spec o1 own m)) = mg_before m"
proof -
  have fold: "mg_log (foldl g s xs) = mg_log s" "mg_before (foldl g s xs) = mg_before s"
    if "\<And>s x. mg_log (g s x) = mg_log s \<and> mg_before (g s x) = mg_before s" for g s and xs :: "json list"
    using that by (auto intro!: foldl_keeps)
  have pair: "mg_log (snd (foldl g s xs)) = mg_log (snd s)" "mg_before (snd (foldl g s xs)) = mg_before (snd s)"
    if "\<And>s x. mg_log (snd (g s x)) = mg_log (snd s) \<and> mg_before (snd (g s x)) = mg_before (snd s)"
    for g and s :: "json list \<times> Merger" and xs :: "json list"
    using that by (auto intro!: foldl_keeps [where f = "\<lambda>s. mg_log (snd s)"] foldl_keeps [where f = "\<lambda>s. mg_before (snd s)"])
  show "mg_log (snd (apply_replace base key ptr spec new o1 m)) = mg_log m" "mg_before (snd (apply_replace base key ptr spec new o1 m)) = mg_before m"
    by (simp_all add: apply_replace_def Let_def fold log_frame)
  have "mg_log (snd (remove_item ptr o1 s x)) = mg_log (snd s) \<and> mg_before (snd (remove_item ptr o1 s x)) = mg_before (snd s)"
    and "mg_log (snd (add_item ptr o1 s x)) = mg_log (snd s) \<and> mg_before (snd (add_item ptr o1 s x)) = mg_before (snd s)" for s x
    by (auto simp: remove_item_def add_item_def log_frame split: prod.splits)
  then show "mg_log (snd (apply_relative base key ptr o1 add rem m)) = mg_log m" "mg_before (snd (apply_relative base key ptr o1 add rem m)) = mg_before m"
    by (simp_all add: apply_relative_def pair log_frame case_prod_beta Let_def)
  show "mg_log (snd (resolve_restrictive base key ptr spec o1 own m)) = mg_log m"
    "mg_before (snd (resolve_restrictive base key ptr spec o1 own m)) = mg_before m"
    by (simp_all add: resolve_restrictive_def Let_def fold log_frame)
qed

lemma log_at_frame: "mg_log m = mg_log m' \<Longrightarrow> log_at m = log_at m'" "mg_log m = mg_log m' \<Longrightarrow> others m = others m'"
  by (intro ext, simp add: log_at_def) (intro ext, simp add: others_def log_at_def)

lemma before_at_frame: "mg_before m = mg_before m' \<Longrightarrow> before_at m = before_at m'"
  by (intro ext) (simp add: before_at_def)

lemma log_at_record: "log_at (record_write ptr w m) ptr (og_group (wr_origin w)) = log_at m ptr (og_group (wr_origin w)) @ [w]"
  by (simp add: log_at_def record_write_def Let_def AList.update_conv' split: option.splits)

lemma list_write_simps [simp]:
  "wr_origin (list_write o1 rep add rem) = o1" "wr_add (list_write o1 rep add rem) = add" "wr_remove (list_write o1 rep add rem) = rem"
  "wr_kind (list_write o1 rep add rem) = (if rep = None then Write_relative else Write_replace)"
  by (simp_all add: list_write_def)

lemma list_op_log:
  "log_at (snd (list_op base key ptr spec o1 rep add rem m)) ptr (og_group o1) = log_at m ptr (og_group o1) @ [list_write o1 rep add rem]"
proof -
  have "mg_log (snd (list_op base key ptr spec o1 rep add rem m)) =
      mg_log (record_write ptr (list_write o1 rep add rem) (keep_before ptr (og_group o1) (base_list base key) (delete_clash ptr o1 (list_write o1 rep add rem) m)))"
    by (auto simp: list_op_def Let_def flag_list_mix_def log_frame split: option.splits)
  then show ?thesis
    using log_at_record [of ptr "list_write o1 rep add rem"] log_at_frame(1) log_frame by (metis list_write_simps(1))
qed

lemma list_op_before:
  "mg_before (snd (list_op base key ptr spec o1 rep add rem m)) = mg_before (keep_before ptr (og_group o1) (base_list base key) m)"
  by (auto simp: list_op_def Let_def flag_list_mix_def log_frame keep_before_def split: option.splits)

text \<open>A request of the run: strings of one group, each from a layer of its own.\<close>

definition text_request :: "group \<Rightarrow> list_request \<Rightarrow> bool" where
  "text_request g r = (case r of (o1, rep, add, rem) \<Rightarrow> og_group o1 = g \<and> texts (case rep of None \<Rightarrow> [] | Some xs \<Rightarrow> xs) \<and> texts add \<and> texts rem)"

lemma request_list_writes: "rs \<noteq> [] \<Longrightarrow> list_all (text_request g) rs \<Longrightarrow> list_writes (map request_write rs)"
proof -
  assume "rs \<noteq> []" and all: "list_all (text_request g) rs"
  moreover have "text_write (request_write r) \<and> wr_kind (request_write r) \<in> {Write_relative, Write_replace}" if "text_request g r" for r
    using that by (cases r, cases "fst (snd r)") (simp_all add: text_request_def request_write_def text_write_def list_write_def as_list_def)
  ultimately show ?thesis by (simp add: list_writes_def list_all_iff)
qed

lemma run_list_ops_snoc:
  "run_list_ops key ptr spec (rs @ [(o1, rep, add, rem)]) s =
     list_op (fst (run_list_ops key ptr spec rs s)) key ptr spec o1 rep add rem (snd (run_list_ops key ptr spec rs s))"
  by (simp add: run_list_ops_def case_prod_beta)

lemma run_list_ops_log:
  assumes "list_all (text_request g) rs" and "log_at m ptr g = []" and "(ptr, g) \<notin> set (map fst (mg_before m))"
  shows "log_at (snd (run_list_ops key ptr spec rs (base, m))) ptr g = map request_write rs \<and>
    (rs \<noteq> [] \<longrightarrow> before_at (snd (run_list_ops key ptr spec rs (base, m))) ptr g = base_list base key
      \<and> (ptr, g) \<in> set (map fst (mg_before (snd (run_list_ops key ptr spec rs (base, m))))))"
  using assms(1)
proof (induction rs rule: rev_induct)
  case (snoc r rs)
  obtain o1 rep add rem where r: "r = (o1, rep, add, rem)" by (metis prod_cases4)
  let ?s = "run_list_ops key ptr spec rs (base, m)"
  have "text_request g r" and rs: "list_all (text_request g) rs" using snoc.prems by simp_all
  then have g: "og_group o1 = g" by (simp add: r text_request_def)
  note ih = snoc.IH [OF rs]
  have log: "log_at (snd (run_list_ops key ptr spec (rs @ [r]) (base, m))) ptr g = map request_write (rs @ [r])"
    using list_op_log [of "fst ?s" key ptr spec o1] ih by (simp add: r g run_list_ops_snoc request_write_def)
  have eq: "mg_before (snd (run_list_ops key ptr spec (rs @ [r]) (base, m))) = mg_before (keep_before ptr g (base_list (fst ?s) key) (snd ?s))"
    unfolding r run_list_ops_snoc list_op_before g ..
  show ?case
  proof (cases "rs = []")
    case True
    moreover have "map_of (mg_before m) (ptr, g) = None" using assms(3) by (simp add: map_of_eq_None_iff)
    ultimately show ?thesis using eq log assms(3) by (simp add: before_at_def map_add_def keep_before_def run_list_ops_def)
  next
    case False
    then show ?thesis using eq ih log by (simp add: before_at_def keep_before_def)
  qed
qed (simp add: run_list_ops_def assms(2))

text \<open>From the second write on the list is what all the writes together say.\<close>

lemma run_list_ops_value:
  assumes "list_all (text_request g) rs" and "2 \<le> length rs" and "distinct (map (\<lambda>r. og_layer_id (fst r)) rs)" and "list_access spec"
    and "log_at m ptr g = []" and "(ptr, g) \<notin> set (map fst (mg_before m))"
  shows "base_list (fst (run_list_ops key ptr spec rs (base, m))) key = restrictive_final spec (base_list base key) (map request_write rs)"
proof -
  obtain qs o1 rep add rem where rs: "rs = qs @ [(o1, rep, add, rem)]" using assms(2) by (cases rs rule: rev_exhaust) auto
  let ?s = "run_list_ops key ptr spec qs (base, m)"
  let ?own = "list_write o1 rep add rem"
  let ?m1 = "delete_clash ptr o1 ?own (snd ?s)"
  let ?m2 = "record_write ptr ?own (keep_before ptr (og_group o1) (base_list (fst ?s) key) ?m1)"
  have qs: "list_all (text_request g) qs" "qs \<noteq> []" and g: "og_group o1 = g" using assms(1,2) by (auto simp: rs text_request_def)
  have run: "log_at (snd ?s) ptr g = map request_write qs" "before_at (snd ?s) ptr g = base_list base key"
    "(ptr, g) \<in> set (map fst (mg_before (snd ?s)))"
    using run_list_ops_log [OF qs(1) assms(5,6)] qs(2) by simp_all
  obtain q qs' where q: "qs = q # qs'" using qs(2) by (cases qs) auto
  have kinds: "wr_kind (request_write r) \<noteq> Write_delete" for r by (auto simp: request_write_def list_write_def split: prod.splits)
  have "log_at ?m1 ptr g = map request_write qs" using run(1) by (simp add: log_at_def log_frame)
  moreover have "og_layer_id (wr_origin (request_write q)) \<noteq> og_layer_id o1"
    using assms(3) by (auto simp: rs q request_write_def split: prod.splits)
  ultimately have "request_write q \<in> set (filter (\<lambda>w. wr_kind w \<noteq> Write_delete) (others ?m1 ptr o1))"
    using kinds by (simp add: others_def g q)
  then have rivals: "filter (\<lambda>w. wr_kind w \<noteq> Write_delete) (others ?m1 ptr o1) \<noteq> []" by force
  have "keep_before ptr (og_group o1) (base_list (fst ?s) key) ?m1 = ?m1"
    using run(3) by (simp add: keep_before_def g log_frame)
  then have "log_at ?m2 ptr g = map request_write rs" and "before_at ?m2 ptr g = base_list base key"
    using run(1,2) log_at_record [of ptr ?own ?m1] by (simp_all add: g rs request_write_def log_at_def before_at_def log_frame)
  then have "base_list (fst (resolve_restrictive (fst ?s) key ptr spec o1 ?own ?m2)) key =
      restrictive_final spec (base_list base key) (filter (\<lambda>w. wr_kind w \<noteq> Write_delete) (map request_write rs))"
    by (simp add: resolve_restrictive_def Let_def g base_list_def base_get_def as_list_def AList.update_conv')
  moreover have "filter (\<lambda>w. wr_kind w \<noteq> Write_delete) (map request_write rs) = map request_write rs" using kinds by (simp add: filter_id_conv)
  moreover have "run_list_ops key ptr spec rs (base, m) = resolve_restrictive (fst ?s) key ptr spec o1 ?own ?m2"
    using rivals assms(4) by (simp add: rs run_list_ops_snoc list_op_def Let_def)
  ultimately show ?thesis by simp
qed

text \<open>
  C13. Layers of equal rank and weight that write a restrictive list leave the same list
  whatever the order they are merged in, and from two layers on it holds exactly the elements
  the rule allows: in an allow list what every replacement and the additions less the removals
  have in common, in a deny list all that any of them denies.
\<close>

theorem restrictive_list_any_order:
  assumes "mset rs = mset rs'" and "list_all (text_request g) rs" and "distinct (map (\<lambda>r. og_layer_id (fst r)) rs)"
    and "list_access spec" and "log_at m ptr g = []" and "(ptr, g) \<notin> set (map fst (mg_before m))" and "texts (base_list base key)"
  shows "base_list (fst (run_list_ops key ptr spec rs (base, m))) key = base_list (fst (run_list_ops key ptr spec rs' (base, m))) key
    \<and> (2 \<le> length rs \<longrightarrow> set (base_list (fst (run_list_ops key ptr spec rs (base, m))) key)
        = {x. kept spec (base_list base key) (map request_write rs) x})"
proof (cases "2 \<le> length rs")
  case True
  have same: "set rs = set rs'" "length rs = length rs'" using assms(1) by (metis set_mset_mset, metis size_mset)
  have rs': "list_all (text_request g) rs'" "distinct (map (\<lambda>r. og_layer_id (fst r)) rs')"
    using assms(2) same assms(3) mset_eq_imp_distinct_iff [of "map (\<lambda>r. og_layer_id (fst r)) rs" "map (\<lambda>r. og_layer_id (fst r)) rs'"] assms(1)
    by (simp_all add: list_all_iff)
  note a = run_list_ops_value [OF assms(2) True assms(3-6), where base = base and key = key]
  note b = run_list_ops_value [OF rs'(1) _ rs'(2) assms(4-6), where base = base and key = key]
  have ws: "list_writes (map request_write rs)" using request_list_writes [OF _ assms(2)] True by fastforce
  show ?thesis
    using a b True same restrictive_final_cong [OF assms(7) ws, of "map request_write rs'" spec] restrictive_final_set [OF assms(7) ws, of spec]
    by simp
next
  case False
  then consider "rs = []" | r where "rs = [r]" by (cases rs; cases "tl rs") auto
  then have "rs = rs'"
  proof cases
    case 2
    then have "mset rs' = {#r#}" using assms(1) by simp
    then show ?thesis using 2 by (metis mset_single_iff)
  qed (use assms(1) in simp)
  then show ?thesis using False by simp
qed

subsection \<open>Restrictive scalars\<close>

definition is_scalar :: "json \<Rightarrow> bool" where
  "is_scalar v = (case v of JList _ \<Rightarrow> False | JObj _ \<Rightarrow> False | _ \<Rightarrow> True)"

lemma unescape_plain: "unescape (plain_escape c @ r) = (c, r)"
  using unescape_escape [of c r] by (auto simp: plain_escape_def)

lemma plain_escape_nonempty: "plain_escape c \<noteq> []"
  using escape_head [of c] by (simp add: plain_escape_def)

lemma plain_escapes_inj: "concat (map plain_escape s) = concat (map plain_escape t) \<Longrightarrow> s = t"
proof (induction s arbitrary: t)
  case Nil
  then show ?case using plain_escape_nonempty by (cases t) auto
next
  case (Cons c s)
  then obtain d t' where t: "t = d # t'" using plain_escape_nonempty by (cases t) auto
  with Cons.prems have "unescape (plain_escape c @ concat (map plain_escape s)) = unescape (plain_escape d @ concat (map plain_escape t'))"
    by simp
  then show ?case using Cons.IH t by (simp only: unescape_plain prod.inject)
qed

lemma plain_string_inj [simp]: "plain_string s = plain_string t \<longleftrightarrow> s = t"
  using plain_escapes_inj [of s t] by (auto simp: plain_string_def)

lemma int_str_head: "hd (int_str i) = CHR ''-'' \<or> is_digit (hd (int_str i))"
  using nat_str_digits [of "nat i"] nat_str_nonempty [of "nat i"] by (cases "nat_str (nat i)") (auto simp: int_str_def simp del: nat_str_nonempty)

lemma canonical_json_scalar_inj:
  assumes "is_scalar a" and "is_scalar b" and "canonical_json a = canonical_json b"
  shows "a = b"
proof -
  have "int_str i \<noteq> c # s" if "c \<in> set ''ntf'' \<union> {CHR 0x22}" for i c s
    using int_str_head [of i] that by (auto simp: is_digit_def)
  then have "int_str i \<noteq> ''null''" "int_str i \<noteq> ''true''" "int_str i \<noteq> ''false''" "int_str i \<noteq> plain_string s" for i s
    by (simp_all add: plain_string_def)
  moreover have "plain_string s \<noteq> ''null''" "plain_string s \<noteq> ''true''" "plain_string s \<noteq> ''false''" for s
    by (simp_all add: plain_string_def)
  ultimately have ne: "int_str i \<noteq> ''null''" "int_str i \<noteq> ''true''" "int_str i \<noteq> ''false''" "int_str i \<noteq> plain_string s"
    "plain_string s \<noteq> ''null''" "plain_string s \<noteq> ''true''" "plain_string s \<noteq> ''false''" for i s
    by blast+
  show ?thesis
    using assms by (cases a; cases b) (simp_all add: is_scalar_def ne ne [symmetric] split: if_splits)
qed

type_synonym scalar_request = "Origin \<times> json"

definition run_assigns :: "string \<Rightarrow> string \<Rightarrow> FieldSpec \<Rightarrow> scalar_request list \<Rightarrow> json_object \<times> Merger \<Rightarrow> json_object \<times> Merger" where
  "run_assigns key ptr spec rs s = foldl (\<lambda>(base, m) (o1, v). assign_new base key ptr spec v o1 m) s rs"

text \<open>The rank of a value, 0 the most secure.\<close>

definition rank_of :: "FieldSpec \<Rightarrow> json \<Rightarrow> nat" where
  "rank_of spec v = (case security_rank spec v of None \<Rightarrow> 0 | Some n \<Rightarrow> n)"

lemma scalar_rank: "scalar_access spec \<Longrightarrow> at_least_as_secure spec a b \<longleftrightarrow> rank_of spec a \<le> rank_of spec b"
  by (auto simp: scalar_access_def at_least_as_secure_def rank_of_def security_rank_def split: option.splits)

lemma prov_frame:
  "mg_prov (flag ptr ws m) = mg_prov m" "mg_prov (record_write ptr w m) = mg_prov m" "mg_prov (delete_clash ptr o1 own m) = mg_prov m"
proof -
  show a: "mg_prov (flag ptr ws m) = mg_prov m" for ptr ws m by (simp add: flag_def Let_def split: prod.splits)
  show "mg_prov (record_write ptr w m) = mg_prov m" by (simp add: record_write_def Let_def)
  show "mg_prov (delete_clash ptr o1 own m) = mg_prov m" by (auto simp: delete_clash_def Let_def a intro!: foldl_keeps)
qed

lemma prov_set: "map_of (mg_prov (note_value ptr o1 v k m)) q = (if q = ptr then
    Some \<lparr>pv_origin = o1, pv_value = v, pv_shadowed = (case map_of (mg_prov m) ptr of None \<Rightarrow> []
        | Some c \<Rightarrow> pv_shadowed c @ [\<lparr>sh_origin = pv_origin c, sh_value = pv_value c\<rparr>]),
      pv_contributors = (case map_of (mg_prov m) ptr of None \<Rightarrow> [] | Some c \<Rightarrow> if k then pv_contributors c else []) @ [o1]\<rparr>
    else map_of (mg_prov m) q)"
  "map_of (mg_prov (set_prov ptr pv m)) q = (if q = ptr then Some pv else map_of (mg_prov m) q)"
  by (simp_all add: note_value_def set_prov_def Let_def AList.update_conv')

text \<open>One write after the first: the more secure value stays.\<close>

lemma assign_new_step:
  assumes "scalar_access spec" and "og_group o1 = g" and "is_scalar v" and "is_scalar (base_get base key)"
    and "\<exists>w \<in> set (log_at m ptr g). wr_kind w = Write_set \<and> og_layer_id (wr_origin w) \<noteq> og_layer_id o1"
    and cur: "map_of (mg_prov m) ptr = Some c" "og_group (pv_origin c) = g"
  shows "base_get (fst (assign_new base key ptr spec v o1 m)) key =
      (if rank_of spec (base_get base key) \<le> rank_of spec v then base_get base key else v)" and
    "\<exists>c. map_of (mg_prov (snd (assign_new base key ptr spec v o1 m))) ptr = Some c \<and> og_group (pv_origin c) = g"
proof -
  have rivals: "filter (\<lambda>w. wr_kind w = Write_set) (others (delete_clash ptr o1 own m) ptr o1) \<noteq> []" for own
    using assms(2,5) by (auto simp: others_def log_at_def log_frame filter_empty_conv)
  have prov: "map_of (mg_prov (record_write ptr own (delete_clash ptr o1 own m))) ptr = Some c" for own
    using cur by (simp add: prov_frame)
  note defs = assign_new_def Let_def prov rivals cur(2) assms(1,2) scalar_rank [OF assms(1)] prov_set
  show "base_get (fst (assign_new base key ptr spec v o1 m)) key =
      (if rank_of spec (base_get base key) \<le> rank_of spec v then base_get base key else v)"
    using canonical_json_scalar_inj [OF assms(4,3)] by (auto simp: defs base_get_def AList.update_conv')
  show "\<exists>c. map_of (mg_prov (snd (assign_new base key ptr spec v o1 m))) ptr = Some c \<and> og_group (pv_origin c) = g"
    by (auto simp: defs)
qed

lemma assign_new_log:
  "log_at (snd (assign_new base key ptr spec v o1 m)) ptr (og_group o1) = log_at m ptr (og_group o1) @ [simple_write o1 Write_set v]"
proof -
  have "mg_log (snd (assign_new base key ptr spec v o1 m)) = mg_log (record_write ptr (simple_write o1 Write_set v) (delete_clash ptr o1 (simple_write o1 Write_set v) m))"
    by (auto simp: assign_new_def Let_def log_frame split: option.splits)
  moreover have "wr_origin (simple_write o1 Write_set v) = o1" by (simp add: simple_write_def)
  ultimately show ?thesis
    using log_at_record [of ptr "simple_write o1 Write_set v"] log_at_frame(1) log_frame by metis
qed

definition scalar_request :: "group \<Rightarrow> scalar_request \<Rightarrow> bool" where
  "scalar_request g r \<longleftrightarrow> og_group (fst r) = g \<and> is_scalar (snd r)"

lemma run_assigns_snoc:
  "run_assigns key ptr spec (rs @ [r]) s =
     assign_new (fst (run_assigns key ptr spec rs s)) key ptr spec (snd r) (fst r) (snd (run_assigns key ptr spec rs s))"
  by (simp add: run_assigns_def case_prod_beta)

definition most_secure :: "FieldSpec \<Rightarrow> scalar_request list \<Rightarrow> json \<Rightarrow> bool" where
  "most_secure spec rs v \<longleftrightarrow> v \<in> snd ` set rs \<and> (\<forall>r \<in> set rs. rank_of spec v \<le> rank_of spec (snd r))"

lemma run_assigns_value:
  assumes "list_all (scalar_request g) rs" and "distinct (map (\<lambda>r. og_layer_id (fst r)) rs)" and "scalar_access spec"
    and "log_at m ptr g = []" and "rs \<noteq> []"
  shows "most_secure spec rs (base_get (fst (run_assigns key ptr spec rs (base, m))) key)
    \<and> log_at (snd (run_assigns key ptr spec rs (base, m))) ptr g = map (\<lambda>r. simple_write (fst r) Write_set (snd r)) rs
    \<and> (\<exists>c. map_of (mg_prov (snd (run_assigns key ptr spec rs (base, m)))) ptr = Some c \<and> og_group (pv_origin c) = g)"
  using assms(1,2,5)
proof (induction rs rule: rev_induct)
  case (snoc r rs)
  let ?s = "run_assigns key ptr spec rs (base, m)"
  let ?t = "run_assigns key ptr spec (rs @ [r]) (base, m)"
  have g: "og_group (fst r) = g" and v: "is_scalar (snd r)" using snoc.prems(1) by (simp_all add: scalar_request_def)
  show ?case
  proof (cases "rs = []")
    case True
    then have t: "?t = assign_new base key ptr spec (snd r) (fst r) m" by (simp add: run_assigns_def case_prod_beta)
    have no: "others (delete_clash ptr (fst r) own m) ptr (fst r) = []" for own
      using assms(4) by (simp add: others_def log_at_def log_frame g)
    have "fst ?t = AList.update key (snd r) base"
      and "snd ?t = note_value ptr (fst r) (snd r) False (record_write ptr (simple_write (fst r) Write_set (snd r))
        (delete_clash ptr (fst r) (simple_write (fst r) Write_set (snd r)) m))"
      unfolding t by (auto simp: assign_new_def Let_def no split: option.splits)
    then show ?thesis
      using assign_new_log [of base key ptr spec "snd r" "fst r" m] assms(4) True t
      by (simp add: g prov_set most_secure_def base_get_def AList.update_conv')
  next
    case False
    have "distinct (map (\<lambda>r. og_layer_id (fst r)) rs)" "list_all (scalar_request g) rs" using snoc.prems by simp_all
    note ih = snoc.IH [OF this(2,1) False]
    then have best: "most_secure spec rs (base_get (fst ?s) key)"
      and log: "log_at (snd ?s) ptr g = map (\<lambda>r. simple_write (fst r) Write_set (snd r)) rs"
      and prov: "\<exists>c. map_of (mg_prov (snd ?s)) ptr = Some c \<and> og_group (pv_origin c) = g" by simp_all
    obtain q where "q \<in> set rs" using False by (cases rs) auto
    then have "og_layer_id (fst q) \<noteq> og_layer_id (fst r)" using snoc.prems(2) by (auto simp: image_iff)
    with \<open>q \<in> set rs\<close> have rival: "\<exists>w \<in> set (log_at (snd ?s) ptr g). wr_kind w = Write_set \<and> og_layer_id (wr_origin w) \<noteq> og_layer_id (fst r)"
      by (intro bexI [of _ "simple_write (fst q) Write_set (snd q)"]) (auto simp: log simple_write_def)
    have old: "is_scalar (base_get (fst ?s) key)"
      using best snoc.prems(1) by (auto simp: most_secure_def scalar_request_def list_all_iff)
    from prov obtain c where c: "map_of (mg_prov (snd ?s)) ptr = Some c" "og_group (pv_origin c) = g" by blast
    note step = assign_new_step [OF assms(3) g v old rival c]
    show ?thesis
      using step best log assign_new_log [of "fst ?s" key ptr spec "snd r" "fst r" "snd ?s"]
      by (auto simp: run_assigns_snoc g most_secure_def)
  qed
qed simp

text \<open>
  C39. Layers of equal rank and weight that set a restrictive boolean or ordered scalar leave
  one of the most secure of the values they set.  The order of the layers never changes how
  secure the value is, and it does not change the value unless two of them are equally secure.
\<close>

theorem restrictive_scalar_most_secure:
  assumes "mset rs = mset rs'" and "list_all (scalar_request g) rs" and "distinct (map (\<lambda>r. og_layer_id (fst r)) rs)"
    and "scalar_access spec" and "log_at m ptr g = []" and "rs \<noteq> []"
  shows "most_secure spec rs (base_get (fst (run_assigns key ptr spec rs (base, m))) key)
    \<and> rank_of spec (base_get (fst (run_assigns key ptr spec rs (base, m))) key)
      = rank_of spec (base_get (fst (run_assigns key ptr spec rs' (base, m))) key)
    \<and> (inj_on (rank_of spec) (snd ` set rs) \<longrightarrow>
        base_get (fst (run_assigns key ptr spec rs (base, m))) key = base_get (fst (run_assigns key ptr spec rs' (base, m))) key)"
proof -
  have same: "set rs = set rs'" using assms(1) by (metis set_mset_mset)
  have rs': "list_all (scalar_request g) rs'" "distinct (map (\<lambda>r. og_layer_id (fst r)) rs')" "rs' \<noteq> []"
    using assms(2,6) same assms(3) mset_eq_imp_distinct_iff [of "map (\<lambda>r. og_layer_id (fst r)) rs" "map (\<lambda>r. og_layer_id (fst r)) rs'"] assms(1)
    by (auto simp: list_all_iff)
  let ?v = "base_get (fst (run_assigns key ptr spec rs (base, m))) key" and ?w = "base_get (fst (run_assigns key ptr spec rs' (base, m))) key"
  have a: "most_secure spec rs ?v" using run_assigns_value [OF assms(2-6)] by blast
  have b: "most_secure spec rs ?w" using run_assigns_value [OF rs'(1,2) assms(4,5) rs'(3)] same by (simp add: most_secure_def)
  have "rank_of spec ?v = rank_of spec ?w" using a b by (fastforce simp: most_secure_def)
  moreover have "?v = ?w" if "inj_on (rank_of spec) (snd ` set rs)"
    using that a b calculation by (auto simp: most_secure_def dest: inj_onD)
  ultimately show ?thesis using a by blast
qed

text \<open>
  C40. Two equally insecure values are not resolved symmetrically.  A layer that sets a boolean
  whose secure value is true to false and one of equal rank that sets it to null leave the
  value of whichever is merged first, and no conflict is recorded.
\<close>

definition tied_specs :: spec_index where
  "tied_specs = [([''guard''], (plain_spec Kind_scalar)\<lparr>fs_access := Access_secure_bool, fs_secure := Some True, fs_tie := Tie_restrictive,
     fs_nullable := True\<rparr>)]"

definition peer :: "string \<Rightarrow> Origin" where
  "peer n = \<lparr>og_tier = ''site'', og_rank = 1, og_layer_id = n, og_layer_name = n, og_revision = 1, og_weight = 0, og_op = ''set'',
     og_at = None, og_detail = []\<rparr>"

definition tied_merge :: "(json \<times> Origin) list \<Rightarrow> (json_object \<times> nat) option" where
  "tied_merge ps = (case merge_all ''m'' tied_specs ps of Inl e \<Rightarrow> None | Inr m \<Rightarrow> Some (mg_values m, length (mg_conflicts m)))"


subsection \<open>Instances\<close>

definition acl_spec :: FieldSpec where
  "acl_spec = (plain_spec Kind_list)\<lparr>fs_strategy := Some Strategy_union, fs_access := Access_allow_list, fs_tie := Tie_restrictive\<rparr>"

definition acl_requests :: "list_request list" where
  "acl_requests = [(peer ''a'', None, [JStr ''ops''], []), (peer ''b'', None, [], [JStr ''ops''])]"

lemma restrictive_list_any_order_witness:
  "base_list (fst (run_list_ops ''acl'' ''/acl'' acl_spec acl_requests ([(''acl'', JList [JStr ''noc''])], new_Merger ''m'' []))) ''acl''
   = base_list (fst (run_list_ops ''acl'' ''/acl'' acl_spec (rev acl_requests) ([(''acl'', JList [JStr ''noc''])], new_Merger ''m'' []))) ''acl''"
  using restrictive_list_any_order [of acl_requests "rev acl_requests" "(1, 0)" acl_spec "new_Merger ''m'' []" "''/acl''"
      "[(''acl'', JList [JStr ''noc''])]" "''acl''"]
  by (simp add: acl_requests_def acl_spec_def text_request_def og_group_def peer_def list_access_def log_at_def new_Merger_def
      base_list_def base_get_def as_list_def)

lemma restrictive_scalar_most_secure_witness:
  "base_get (fst (run_assigns ''guard'' ''/guard'' (snd (hd tied_specs)) [(peer ''a'', JBool False), (peer ''b'', JBool True)] ([], new_Merger ''m'' []))) ''guard''
   = base_get (fst (run_assigns ''guard'' ''/guard'' (snd (hd tied_specs)) [(peer ''b'', JBool True), (peer ''a'', JBool False)] ([], new_Merger ''m'' []))) ''guard''"
proof -
  let ?rs = "[(peer ''a'', JBool False), (peer ''b'', JBool True)]"
  have "inj_on (rank_of (snd (hd tied_specs))) (snd ` set ?rs)"
    by (simp add: rank_of_def security_rank_def tied_specs_def plain_spec_def py_eq_def)
  then show ?thesis
    using restrictive_scalar_most_secure [of ?rs "rev ?rs" "(1, 0)" "snd (hd tied_specs)" "new_Merger ''m'' []" "''/guard''" "''guard''" "[]"]
    by (simp add: scalar_request_def og_group_def peer_def is_scalar_def scalar_access_def tied_specs_def log_at_def new_Merger_def)
qed

end
