(* ===== verification/Spec2Isabelle.thy ===== *)
theory Spec2Isabelle
  imports Inbox Relay Ledger Module_Registry Access Ledger_Digest Approval_Safety Numbering_Safety Accounting_Guarantees Config_Derive Config_Restrictive
begin

text \<open>
  A verification library for the DotMac multi-tenant platform: a kernel package
  (\<^verbatim>\<open>packages/dotmac-kernel\<close>) that every deployment shares, and modules over it
  (\<^verbatim>\<open>packages/dotmac-*\<close>) that own tables and lifecycles.  File names below are relative to
  the package's own source directory.

  \<^bold>\<open>The parts and how they interact.\<close>  A host assembles a deployment from module
  manifests: the registry orders them by their dependencies, the catalogues collect
  what they declare, the namespace registry holds every stateful module to the row
  of a published allocation ledger.  A request passes the guards, which read the
  catalogues, the entitlements and the identity tables.  A write that other parts
  must hear of puts an event in the outbox in the same transaction; a relay worker
  claims, delivers and settles it; the receiving side consumes it through the inbox,
  which runs the handler through the idempotency ledger.  Delivery is at least once,
  and the ledger makes the effect happen at most once.  Amounts are \<^verbatim>\<open>Money\<close>; identities of
  content are digests of a canonical encoding; the approvals module binds a decision
  to such a digest.

  \<^bold>\<open>Theories.\<close>
  \<^item> \<open>Prelude\<close>: results as sums (\<open>bindr\<close>, \<open>ensure\<close>, \<open>map_result\<close>), rows as lists with key lookups,
    Python text helpers, the fact collections.
  \<^item> \<open>Source_Applications\<close> (\<^verbatim>\<open>source_applications.py\<close>), \<open>Idempotency\<close> (\<^verbatim>\<open>idempotency.py\<close>,
    \<^verbatim>\<open>idempotency_models.py\<close>), \<open>Inbox\<close> (\<^verbatim>\<open>messaging/inbox.py\<close>, \<^verbatim>\<open>messaging/envelope.py\<close>).  A call is a function of
    the database and of what concurrent transactions commit meanwhile; a unique
    violation is the branch the code takes on it.  \<open>At_Most_Once\<close> is the interface: the
    locales \<open>once_engine\<close> and \<open>replay_engine\<close> state what a ledger promises, and the two
    ledgers and the two inboxes are its interpretations.
  \<^item> \<open>Outbox\<close> (\<^verbatim>\<open>messaging/outbox.py\<close>, \<^verbatim>\<open>messaging/relay.py\<close>, \<^verbatim>\<open>messaging/worker.py\<close> and the platform
    peers) and \<open>Relay\<close>, the step relation of enqueueing, claiming, settling and crashing
    workers with its invariant: no event is lost, a live lease excludes other
    workers, a stale one is reclaimed, the retry delay is capped.
  \<^item> \<open>Manifests\<close>, \<open>Planes\<close>, \<open>Prerequisites\<close>, \<open>Namespaces\<close>, \<open>Ledger\<close>, \<open>Catalogues\<close>, \<open>Module_Registry\<close>: the
    composition (\<^verbatim>\<open>modules.py\<close>, \<^verbatim>\<open>features.py\<close>, \<^verbatim>\<open>planes.py\<close>, \<^verbatim>\<open>prerequisites.py\<close>, \<^verbatim>\<open>namespaces.py\<close>,
    \<^verbatim>\<open>capabilities.py\<close>, \<^verbatim>\<open>permissions.py\<close>, \<^verbatim>\<open>outbox_event_types.py\<close>, \<^verbatim>\<open>audit_actions.py\<close>).  The locales
    \<open>owner_loop\<close> and \<open>declaration_catalogue\<close> carry the four catalogues.  The startup order is
    a dependency order, an ordering error names a real cycle, and table ownership is
    exclusive.
  \<^item> \<open>Access\<close> (\<^verbatim>\<open>entitlements.py\<close>, \<^verbatim>\<open>security.py\<close>, \<^verbatim>\<open>deps.py\<close>): entitlement decisions as a refinement of
    last write wins, and what a request that passed a guard has shown.
  \<^item> \<open>Py_Decimal\<close> (Python's decimal arithmetic: coefficient and exponent, context of 28
    digits, the rounding modes in use) and \<open>Money\<close> (\<^verbatim>\<open>money.py\<close>): addition is exact or raises,
    \<^verbatim>\<open>allocate\<close> hands out exactly the amount.
  \<^item> \<open>Sha256\<close>, \<open>Byte_Codes\<close>, \<open>Canonical_Text\<close>, \<open>Semantic_Encoding\<close> (\<^verbatim>\<open>semantic_encoding.py\<close>) and
    \<open>Ledger_Digest\<close> (the digest half of \<^verbatim>\<open>namespaces.py\<close>): the locale \<open>prefix_code\<close> says when
    concatenated encodings can be taken apart; frames, UTF-8 and the tagged values
    are its interpretations, and the encoders are injective up to the equality of
    the values they mean.
  \<^item> \<open>Approval_Policy\<close>, \<open>Approvals\<close>, \<open>Approval_Safety\<close> (\<^verbatim>\<open>dotmac-approvals\<close>: \<^verbatim>\<open>contracts.py\<close>, \<^verbatim>\<open>policy.py\<close>,
    \<^verbatim>\<open>service.py\<close>, \<^verbatim>\<open>models.py\<close>): the two planes are one model with a plane parameter, and
    the functions of either plane are its instances.  In every reachable state an
    approved request was approved by enough authorised people.
  \<^item> \<open>Py_Text\<close> (Python's text of integers, UUIDs and dates) and \<open>Fingerprints\<close>
    (the canonical JSON that \<^verbatim>\<open>idempotency.py\<close> hashes): two requests have the same text
    exactly when they are the same request.
  \<^item> \<open>Ledgered\<close>: an operation of a module run by \<^verbatim>\<open>execute_once\<close> or its platform peer, and what one
    such call can do to the module's tables and to the two ledgers.
  \<^item> \<open>Number_Series\<close>, \<open>Numbering\<close>, \<open>Numbering_Safety\<close> (\<^verbatim>\<open>dotmac-numbering\<close>: \<^verbatim>\<open>service.py\<close>,
    \<^verbatim>\<open>replacement.py\<close>, \<^verbatim>\<open>models.py\<close>): formats and periods, the counters and claims, and the runs of
    the service.  No number is issued twice, the numbers of a period have no gaps, a
    retried allocation answers with the number it issued before.
  \<^item> \<open>Accounting_Contracts\<close>, \<open>Accounting\<close>, \<open>Accounting_Safety\<close>, \<open>Accounting_Example\<close>,
    \<open>Accounting_Guarantees\<close> (\<^verbatim>\<open>dotmac-accounting\<close>: \<^verbatim>\<open>contracts.py\<close>, \<^verbatim>\<open>service.py\<close>, \<^verbatim>\<open>models.py\<close> and the
    triggers of the revisions \<^verbatim>\<open>ac_0001_accounting\<close> and \<^verbatim>\<open>ac_0002_posted_content\<close>): commands, the
    chart, fiscal periods, journals and the append-only ledger; the step relation of the
    thirteen operations and its invariant; a set of books at work, on which the properties
    are applied.  The ledger balances, a reversal nets its journal to zero, a closed period's
    ledger stands still, the recorded events explain a period's status, and the check before
    a posting decides what the database's trigger decides after it.  Roundings in
    \<^verbatim>\<open>create_journal\<close> can make a draft that no later step posts.

  \<^item> \<open>Py_Ipaddress\<close> (Python's \<^verbatim>\<open>ipaddress\<close>: text to address or network and back) and, for
    \<^verbatim>\<open>dotmac-config-layers\<close>, \<open>Config_Document\<close> (\<^verbatim>\<open>document.py\<close>), \<open>Config_Fields\<close> (\<^verbatim>\<open>fields.py\<close>),
    \<open>Config_Layers\<close> (\<^verbatim>\<open>layers.py\<close>, \<^verbatim>\<open>exceptions.py\<close>, \<^verbatim>\<open>widening.py\<close>), \<open>Config_Derive\<close>
    (\<^verbatim>\<open>derive.py\<close>), \<open>Config_Merge\<close> (\<^verbatim>\<open>merge.py\<close>) and \<open>Config_Restrictive\<close>: layer documents, the
    weighted merge with provenance and conflicts, and the order of the derivation rules.
    Derivation terminates and is refused exactly for a cycle; peers of one rank and weight
    leave the same restrictive list in any order, and one of their most secure scalars.

  \<^bold>\<open>Conventions.\<close>  A raise is a value of the left summand; a table is a list of rows and a
  unique or foreign key a predicate on it; time is an argument (\<open>now\<close>), in microseconds;
  identifiers the database generates are arguments.  Randomness, the clock and the
  codecs of third-party packages are parameters.  Loops are structural recursion, or
  have a measure: the dependency order removes a module per round, the year of an
  instant is found by counting down the days.  The cycle search carries fuel, the
  number of modules, which is enough because a path visits a module once
  (\<open>walk_enough_fuel\<close>), and so does the search that orders derivation rules, with the
  number of rules (\<open>visit_fuel\<close>).  Runs of the inductive relations are unbounded.

  \<^bold>\<open>Not modelled.\<close>  HTTP and rendering, SQLAlchemy and PostgreSQL beyond the constraints and
  isolation behaviour the services rely on, cryptographic signatures, logging, the
  connectors to external services, the composition step of \<^verbatim>\<open>dotmac-config-layers\<close> and the
  pydantic models it validates with, the build, release and deployment tooling, and
  the modules not named above.
\<close>

end
